(* ===== verification/Prelude.thy ===== *)
theory Prelude
  imports Main "HOL-Library.Sublist" "HOL-Library.Multiset" "HOL-Library.Word"
begin

text \<open>
  Shared material of the development: the type abbreviations of the model, the option and list
  combinators that stand for Rust's \<open>Option::or_else\<close>, \<open>Vec::get\<close>, \<open>Iterator::find_map\<close> and
  \<open>Vec::splice\<close>, and the generic list lemmas the component theories use.  The collection
  \<open>rust_simps\<close> gathers the definitions of the string primitives so that a witness can unfold
  them in one step.
\<close>

named_theorems rust_simps

section \<open>Types\<close>

text \<open>
  A Rust \<open>char\<close> is a Unicode scalar value and is modelled by its code point, a Rust \<open>str\<close>
  or \<open>String\<close> by the list of its characters; a byte is an 8-bit word.  Byte offsets of the
  source always fall on character boundaries, so an offset of the model counts characters.
\<close>

type_synonym rchar = int
type_synonym rstr = "rchar list"
type_synonym byte = "8 word"

section \<open>Option and list combinators\<close>

definition or_else :: "'a option \<Rightarrow> 'a option \<Rightarrow> 'a option" where
  "or_else a b = (case a of None \<Rightarrow> b | Some x \<Rightarrow> Some x)"

definition is_some_and :: "'a option \<Rightarrow> ('a \<Rightarrow> bool) \<Rightarrow> bool" where
  "is_some_and a p = (case a of None \<Rightarrow> False | Some x \<Rightarrow> p x)"

text \<open>\<open>xs.get(i)\<close>: the element at an index, or \<open>None\<close> out of range.\<close>

definition get_at :: "'a list \<Rightarrow> nat \<Rightarrow> 'a option" where
  "get_at xs i = (if i < length xs then Some (xs ! i) else None)"

definition last_opt :: "'a list \<Rightarrow> 'a option" where
  "last_opt xs = (if xs = [] then None else Some (last xs))"

definition first_opt :: "'a list \<Rightarrow> 'a option" where
  "first_opt xs = (if xs = [] then None else Some (hd xs))"

fun find_map :: "('a \<Rightarrow> 'b option) \<Rightarrow> 'a list \<Rightarrow> 'b option" where
  "find_map f [] = None"
| "find_map f (x # xs) = (case f x of None \<Rightarrow> find_map f xs | Some y \<Rightarrow> Some y)"

text \<open>\<open>xs[i..j]\<close> with the bounds clipped, as the callers of the source have them in range.\<close>

definition segment :: "'a list \<Rightarrow> nat \<Rightarrow> nat \<Rightarrow> 'a list" where
  "segment xs i j = take (j - i) (drop i xs)"

text \<open>\<open>xs.splice(at..at, ys)\<close>.\<close>

definition splice_at :: "nat \<Rightarrow> 'a list \<Rightarrow> 'a list \<Rightarrow> 'a list" where
  "splice_at at ys xs = take at xs @ ys @ drop at xs"

text \<open>\<open>xs.drain(i..j)\<close>: what stays.\<close>

definition drain :: "nat \<Rightarrow> nat \<Rightarrow> 'a list \<Rightarrow> 'a list" where
  "drain i j xs = take i xs @ drop j xs"

definition drop_while_end :: "('a \<Rightarrow> bool) \<Rightarrow> 'a list \<Rightarrow> 'a list" where
  "drop_while_end p xs = rev (dropWhile p (rev xs))"

fun windows :: "nat \<Rightarrow> 'a list \<Rightarrow> 'a list list" where
  "windows n [] = []"
| "windows n (x # xs) =
     (if n \<le> length (x # xs) then take n (x # xs) # windows n xs else [])"

section \<open>Lemmas on the combinators\<close>

lemma or_else_simps [simp]:
  "or_else None b = b"
  "or_else (Some x) b = Some x"
  by (simp_all add: or_else_def)

lemma or_else_eq_None [simp]: "or_else a b = None \<longleftrightarrow> a = None \<and> b = None"
  by (cases a) auto

lemma is_some_and_simps [simp]:
  "is_some_and None p = False"
  "is_some_and (Some x) p = p x"
  by (simp_all add: is_some_and_def)

lemma is_some_and_iff: "is_some_and a p \<longleftrightarrow> (\<exists>x. a = Some x \<and> p x)"
  by (cases a) auto

lemma get_at_Some [simp]: "get_at xs i = Some x \<longleftrightarrow> i < length xs \<and> xs ! i = x"
  by (auto simp: get_at_def)

lemma get_at_None [simp]: "get_at xs i = None \<longleftrightarrow> length xs \<le> i"
  by (auto simp: get_at_def)

lemma get_at_in_set: "get_at xs i = Some x \<Longrightarrow> x \<in> set xs"
  by auto

lemma is_some_and_get_at:
  "is_some_and (get_at xs i) p \<longleftrightarrow> i < length xs \<and> p (xs ! i)"
  by (auto simp: is_some_and_iff)

lemma is_some_and_last_opt:
  "is_some_and (last_opt xs) p \<longleftrightarrow> xs \<noteq> [] \<and> p (last xs)"
  by (auto simp: last_opt_def)

lemma find_map_Some:
  "find_map f xs = Some y \<Longrightarrow> \<exists>x \<in> set xs. f x = Some y"
  by (induction xs) (auto split: option.splits)

lemma find_map_cong [fundef_cong]:
  "xs = ys \<Longrightarrow> (\<And>x. x \<in> set ys \<Longrightarrow> f x = g x) \<Longrightarrow> find_map f xs = find_map g ys"
proof (induction ys arbitrary: xs)
  case Nil
  then show ?case by simp
next
  case (Cons y ys)
  then show ?case by (auto split: option.splits)
qed

lemma find_SomeD: "List.find p xs = Some x \<Longrightarrow> x \<in> set xs \<and> p x"
  by (auto simp: find_Some_iff)

lemma length_segment [simp]: "j \<le> length xs \<Longrightarrow> length (segment xs i j) = j - i"
  by (simp add: segment_def)

lemma segment_self [simp]: "segment xs 0 (length xs) = xs"
  by (simp add: segment_def)

lemma segment_empty [simp]: "j \<le> i \<Longrightarrow> segment xs i j = []"
  by (simp add: segment_def)

lemma nth_segment: "j \<le> length xs \<Longrightarrow> k < j - i \<Longrightarrow> segment xs i j ! k = xs ! (i + k)"
  by (simp add: segment_def)

lemma set_segment_subset: "set (segment xs i j) \<subseteq> set xs"
  by (auto simp: segment_def dest: in_set_takeD in_set_dropD)

lemma map_segment: "map f (segment xs i j) = segment (map f xs) i j"
  by (simp add: segment_def take_map drop_map)

lemma segment_append_segment:
  "i \<le> k \<Longrightarrow> k \<le> j \<Longrightarrow> segment xs i k @ segment xs k j = segment xs i j"
proof -
  assume ik: "i \<le> k" and kj: "k \<le> j"
  have "drop i xs = take (k - i) (drop i xs) @ drop k xs"
    using ik by (metis append_take_drop_id drop_drop le_add_diff_inverse2)
  then have "take (j - i) (drop i xs) =
      take (j - i) (take (k - i) (drop i xs)) @ take (j - i - length (take (k - i) (drop i xs))) (drop k xs)"
    by (metis take_append)
  moreover have "take (j - i) (take (k - i) (drop i xs)) = take (k - i) (drop i xs)"
    using ik kj by (simp add: min_absorb2)
  moreover have "take (j - i - length (take (k - i) (drop i xs))) (drop k xs) = take (j - k) (drop k xs)"
    using ik kj by (cases "k \<le> length xs") auto
  ultimately show ?thesis by (simp add: segment_def)
qed

lemma take_segment_drop:
  "i \<le> j \<Longrightarrow> take i xs @ segment xs i j @ drop j xs = xs"
proof -
  assume ij: "i \<le> j"
  have "drop i xs = take (j - i) (drop i xs) @ drop j xs"
    using ij by (metis append_take_drop_id drop_drop le_add_diff_inverse2)
  then show ?thesis by (simp add: segment_def)
qed

lemma map_splice_at: "map f (splice_at at ys xs) = splice_at at (map f ys) (map f xs)"
  by (simp add: splice_at_def take_map drop_map)

lemma length_splice_at [simp]: "length (splice_at at ys xs) = length xs + length ys"
  by (simp add: splice_at_def)

lemma map_drain: "map f (drain i j xs) = drain i j (map f xs)"
  by (simp add: drain_def take_map drop_map)

lemma mset_splice_at: "mset (splice_at at ys xs) = mset xs + mset ys"
proof -
  have "mset xs = mset (take at xs) + mset (drop at xs)"
    by (metis append_take_drop_id mset_append)
  then show ?thesis by (simp add: splice_at_def)
qed

lemma mset_drain_segment: "i \<le> j \<Longrightarrow> mset (drain i j xs) + mset (segment xs i j) = mset xs"
proof -
  assume "i \<le> j"
  then have "mset xs = mset (take i xs @ segment xs i j @ drop j xs)"
    by (simp add: take_segment_drop)
  then show ?thesis by (simp add: drain_def)
qed

lemma drop_while_end_Nil [simp]: "drop_while_end p [] = []"
  by (simp add: drop_while_end_def)

lemma drop_while_end_snoc:
  "drop_while_end p (xs @ [x]) = (if p x then drop_while_end p xs else xs @ [x])"
  by (simp add: drop_while_end_def)

lemma drop_while_end_last: "drop_while_end p xs \<noteq> [] \<Longrightarrow> \<not> p (last (drop_while_end p xs))"
  by (induction xs rule: rev_induct) (auto simp: drop_while_end_snoc)

lemma drop_while_end_prefix: "prefix (drop_while_end p xs) xs"
  by (induction xs rule: rev_induct) (auto simp: drop_while_end_snoc)

lemma drop_while_end_append_all:
  "(\<And>y. y \<in> set ys \<Longrightarrow> p y) \<Longrightarrow> drop_while_end p (xs @ ys) = drop_while_end p xs"
  by (induction ys rule: rev_induct) (auto simp: drop_while_end_snoc simp flip: append_assoc)

lemma drop_while_end_append_some:
  "drop_while_end p ys \<noteq> [] \<Longrightarrow> drop_while_end p (xs @ ys) = xs @ drop_while_end p ys"
  by (induction ys rule: rev_induct)
     (auto simp: drop_while_end_snoc simp flip: append_assoc split: if_splits)

lemma drop_while_end_eq_Nil: "drop_while_end p xs = [] \<longleftrightarrow> (\<forall>x \<in> set xs. p x)"
  by (simp add: drop_while_end_def)

lemma drop_while_end_id: "xs = [] \<or> \<not> p (last xs) \<Longrightarrow> drop_while_end p xs = xs"
  by (cases xs rule: rev_cases) (auto simp: drop_while_end_snoc)

lemma drop_while_end_split:
  "\<exists>ys. xs = drop_while_end p xs @ ys \<and> (\<forall>y \<in> set ys. p y)"
proof (induction xs rule: rev_induct)
  case Nil
  then show ?case by simp
next
  case (snoc x xs)
  then obtain ys where "xs = drop_while_end p xs @ ys" "\<forall>y \<in> set ys. p y" by blast
  then show ?case
    by (cases "p x") (force simp: drop_while_end_snoc intro: exI[of _ "ys @ [x]"])+
qed

lemma in_windows:
  "ys \<in> set (windows n xs) \<Longrightarrow> \<exists>i. i + n \<le> length xs \<and> ys = segment xs i (i + n)"
proof (induction n xs rule: windows.induct)
  case (1 n)
  then show ?case by simp
next
  case (2 n x xs)
  show ?case
  proof (cases "ys = take n (x # xs) \<and> n \<le> length (x # xs)")
    case True
    then show ?thesis by (intro exI[of _ 0]) (auto simp: segment_def)
  next
    case False
    with 2 obtain i where "i + n \<le> length xs" "ys = segment xs i (i + n)"
      by (auto split: if_splits)
    then show ?thesis by (intro exI[of _ "Suc i"]) (simp add: segment_def)
  qed
qed

lemma windows_contains:
  "n \<noteq> 0 \<Longrightarrow> i + n \<le> length xs \<Longrightarrow> segment xs i (i + n) \<in> set (windows n xs)"
proof (induction xs arbitrary: i)
  case Nil
  then show ?case by simp
next
  case (Cons x xs)
  show ?case
  proof (cases i)
    case 0
    with Cons.prems show ?thesis by (simp add: segment_def)
  next
    case (Suc j)
    with Cons.prems Cons.IH [of j] show ?thesis by (simp add: segment_def)
  qed
qed

section \<open>Printed values read back\<close>

text \<open>The contract between a printer and a reader of the same value: on the values the printer is
  used for, the reader returns what was printed.\<close>

locale codec =
  fixes print_value :: "'v \<Rightarrow> 't"
    and parse_value :: "'t \<Rightarrow> 'v option"
    and printable :: "'v \<Rightarrow> bool"
  assumes parse_print: "printable v \<Longrightarrow> parse_value (print_value v) = Some v"
begin

lemma print_inj: "printable v \<Longrightarrow> printable w \<Longrightarrow> print_value v = print_value w \<Longrightarrow> v = w"
  using parse_print by (metis option.inject)

lemma parse_all: "list_all printable vs \<Longrightarrow> List.map_filter parse_value (map print_value vs) = vs"
  by (induction vs) (auto simp: parse_print List.map_filter_simps)

end

end
