(* ===== verification/Rust_Str.thy ===== *)
theory Rust_Str
  imports Prelude
begin

text \<open>
  The part of Rust's \<open>str\<close> and \<open>char\<close> interface that the sync core and the bridge rules call:
  character classes, trimming, prefixes and suffixes, searching, splitting, replacing, joining,
  decimal and hexadecimal formatting and UTF-8 encoding.  A string is the list of its code
  points.  The two tables of Unicode that are not written out here, the alphanumeric class and
  the case mapping, are fields of the record \<open>env\<close>, beside the SHA-256 and hex functions of
  the crates \<open>sha2\<close> and \<open>hex\<close>.
\<close>

section \<open>The environment: Unicode tables and hash functions\<close>

record env =
  is_alphanumeric :: "rchar \<Rightarrow> bool"
  char_to_lowercase :: "rchar \<Rightarrow> rstr"
  str_to_lowercase :: "rstr \<Rightarrow> rstr"
  sha256 :: "byte list \<Rightarrow> byte list"
  hex_encode :: "byte list \<Rightarrow> rstr"

section \<open>Characters and literals\<close>

definition lit :: "string \<Rightarrow> rstr" where
  "lit s = map of_char s"

text \<open>\<open>char::is_whitespace\<close>: the characters with the Unicode property \<open>White_Space\<close>.\<close>

definition is_whitespace :: "rchar \<Rightarrow> bool" where
  "is_whitespace c \<longleftrightarrow> 9 \<le> c \<and> c \<le> 13 \<or> c = 32 \<or> c = 133 \<or> c = 160 \<or> c = 5760
     \<or> 8192 \<le> c \<and> c \<le> 8202 \<or> c = 8232 \<or> c = 8233 \<or> c = 8239 \<or> c = 8287 \<or> c = 12288"

text \<open>\<open>char::is_control\<close>: the general category \<open>Cc\<close>.\<close>

definition is_control :: "rchar \<Rightarrow> bool" where
  "is_control c \<longleftrightarrow> 0 \<le> c \<and> c \<le> 31 \<or> 127 \<le> c \<and> c \<le> 159"

definition is_ascii_digit :: "rchar \<Rightarrow> bool" where
  "is_ascii_digit c \<longleftrightarrow> 48 \<le> c \<and> c \<le> 57"

definition is_ascii_lowercase :: "rchar \<Rightarrow> bool" where
  "is_ascii_lowercase c \<longleftrightarrow> 97 \<le> c \<and> c \<le> 122"

definition is_ascii_uppercase :: "rchar \<Rightarrow> bool" where
  "is_ascii_uppercase c \<longleftrightarrow> 65 \<le> c \<and> c \<le> 90"

definition is_ascii_alphanumeric :: "rchar \<Rightarrow> bool" where
  "is_ascii_alphanumeric c \<longleftrightarrow> is_ascii_digit c \<or> is_ascii_lowercase c \<or> is_ascii_uppercase c"

definition to_ascii_lowercase :: "rchar \<Rightarrow> rchar" where
  "to_ascii_lowercase c = (if is_ascii_uppercase c then c + 32 else c)"

definition eq_ignore_ascii_case :: "rstr \<Rightarrow> rstr \<Rightarrow> bool" where
  "eq_ignore_ascii_case s t \<longleftrightarrow> map to_ascii_lowercase s = map to_ascii_lowercase t"

section \<open>Trimming\<close>

definition trim_start :: "rstr \<Rightarrow> rstr" where
  "trim_start s = dropWhile is_whitespace s"

definition trim_end :: "rstr \<Rightarrow> rstr" where
  "trim_end s = drop_while_end is_whitespace s"

definition trim :: "rstr \<Rightarrow> rstr" where
  "trim s = trim_end (trim_start s)"

definition trim_start_matches :: "(rchar \<Rightarrow> bool) \<Rightarrow> rstr \<Rightarrow> rstr" where
  "trim_start_matches p s = dropWhile p s"

definition trim_end_matches :: "(rchar \<Rightarrow> bool) \<Rightarrow> rstr \<Rightarrow> rstr" where
  "trim_end_matches p s = drop_while_end p s"

definition trim_matches :: "(rchar \<Rightarrow> bool) \<Rightarrow> rstr \<Rightarrow> rstr" where
  "trim_matches p s = trim_end_matches p (trim_start_matches p s)"

section \<open>Prefixes, suffixes, searching\<close>

definition starts_with :: "rstr \<Rightarrow> rstr \<Rightarrow> bool" where
  "starts_with p s \<longleftrightarrow> take (length p) s = p"

definition ends_with :: "rstr \<Rightarrow> rstr \<Rightarrow> bool" where
  "ends_with p s \<longleftrightarrow> length p \<le> length s \<and> drop (length s - length p) s = p"

definition strip_prefix :: "rstr \<Rightarrow> rstr \<Rightarrow> rstr option" where
  "strip_prefix p s = (if starts_with p s then Some (drop (length p) s) else None)"

definition strip_suffix :: "rstr \<Rightarrow> rstr \<Rightarrow> rstr option" where
  "strip_suffix p s = (if ends_with p s then Some (take (length s - length p) s) else None)"

fun str_find :: "rstr \<Rightarrow> rstr \<Rightarrow> nat option" where
  "str_find p [] = (if p = [] then Some 0 else None)"
| "str_find p (c # s) = (if starts_with p (c # s) then Some 0 else map_option Suc (str_find p s))"

fun str_rfind :: "rstr \<Rightarrow> rstr \<Rightarrow> nat option" where
  "str_rfind p [] = (if p = [] then Some 0 else None)"
| "str_rfind p (c # s) =
     (case str_rfind p s of Some i \<Rightarrow> Some (Suc i)
      | None \<Rightarrow> if starts_with p (c # s) then Some 0 else None)"

definition str_contains :: "rstr \<Rightarrow> rstr \<Rightarrow> bool" where
  "str_contains p s \<longleftrightarrow> str_find p s \<noteq> None"

section \<open>Splitting, replacing, joining\<close>

definition split_once :: "rstr \<Rightarrow> rstr \<Rightarrow> (rstr \<times> rstr) option" where
  "split_once p s = (case str_find p s of None \<Rightarrow> None
     | Some i \<Rightarrow> Some (take i s, drop (i + length p) s))"

definition rsplit_once :: "rstr \<Rightarrow> rstr \<Rightarrow> (rstr \<times> rstr) option" where
  "rsplit_once p s = (case str_rfind p s of None \<Rightarrow> None
     | Some i \<Rightarrow> Some (take i s, drop (i + length p) s))"

text \<open>\<open>str::split\<close> on the characters of a class: the pieces between them, empty ones included.\<close>

fun split_on :: "(rchar \<Rightarrow> bool) \<Rightarrow> rstr \<Rightarrow> rstr list" where
  "split_on p [] = [[]]"
| "split_on p (c # s) =
     (if p c then [] # split_on p s
      else (case split_on p s of [] \<Rightarrow> [[c]] | w # ws \<Rightarrow> (c # w) # ws))"

definition split_whitespace :: "rstr \<Rightarrow> rstr list" where
  "split_whitespace s = filter (\<lambda>w. w \<noteq> []) (split_on is_whitespace s)"

text \<open>\<open>str::split_inclusive\<close> on the line feed.\<close>

fun split_inclusive :: "rstr \<Rightarrow> rstr list" where
  "split_inclusive [] = []"
| "split_inclusive (c # s) =
     (if c = 10 then [c] # split_inclusive s
      else case split_inclusive s of [] \<Rightarrow> [[c]] | w # ws \<Rightarrow> (c # w) # ws)"

text \<open>\<open>str::lines\<close>: pieces ended by a line feed, each without a final carriage return; a final
  empty piece is not a line.\<close>

definition str_lines :: "rstr \<Rightarrow> rstr list" where
  "str_lines s =
     (let ws = split_on (\<lambda>c. c = 10) s;
          ended = map (\<lambda>w. if w \<noteq> [] \<and> last w = 13 then butlast w else w) (butlast ws)
      in if last ws = [] then ended else ended @ [last ws])"

fun join_with :: "rstr \<Rightarrow> rstr list \<Rightarrow> rstr" where
  "join_with sep [] = []"
| "join_with sep [w] = w"
| "join_with sep (w # v # ws) = w @ sep @ join_with sep (v # ws)"

text \<open>\<open>str::replace\<close> for a non-empty pattern: occurrences are taken left to right and do not
  overlap.\<close>

function str_replace :: "rstr \<Rightarrow> rstr \<Rightarrow> rstr \<Rightarrow> rstr" where
  "str_replace p r s =
     (if p = [] then s
      else case s of [] \<Rightarrow> []
        | c # cs \<Rightarrow> if starts_with p s then r @ str_replace p r (drop (length p) s)
                    else c # str_replace p r cs)"
  by pat_completeness auto
termination
  by (relation "measure (\<lambda>(p, r, s). length s)") auto

declare str_replace.simps [simp del]

section \<open>Numbers\<close>

text \<open>\<open>str::parse\<close> of a string that is known to hold ASCII digits only.\<close>

definition digits_value :: "rstr \<Rightarrow> nat" where
  "digits_value s = fold (\<lambda>c n. n * 10 + nat (c - 48)) s 0"

fun nat_to_str :: "nat \<Rightarrow> rstr" where
  "nat_to_str n =
     (if n < 10 then [48 + int n] else nat_to_str (n div 10) @ [48 + int (n mod 10)])"

declare nat_to_str.simps [simp del]

text \<open>\<open>format!("{:0w}", n)\<close> for a non-negative number.\<close>

definition pad_zeros :: "nat \<Rightarrow> nat \<Rightarrow> rstr" where
  "pad_zeros w n = (let s = nat_to_str n in replicate (w - length s) 48 @ s)"

text \<open>\<open>format!("{:0w}", i)\<close> for a signed number: the sign counts toward the width.\<close>

definition pad_zeros_int :: "nat \<Rightarrow> int \<Rightarrow> rstr" where
  "pad_zeros_int w i = (if 0 \<le> i then pad_zeros w (nat i) else 45 # pad_zeros (w - 1) (nat (- i)))"

definition hex_digit :: "nat \<Rightarrow> rchar" where
  "hex_digit n = (if n < 10 then 48 + int n else 87 + int n)"

text \<open>\<open>format!("{byte:02x}")\<close>.\<close>

definition byte_to_hex :: "byte \<Rightarrow> rstr" where
  "byte_to_hex b = [hex_digit (unat b div 16), hex_digit (unat b mod 16)]"

section \<open>UTF-8\<close>

definition utf8_char :: "rchar \<Rightarrow> byte list" where
  "utf8_char c =
     (if c < 128 then [word_of_int c]
      else if c < 2048 then [word_of_int (192 + c div 64), word_of_int (128 + c mod 64)]
      else if c < 65536 then
        [word_of_int (224 + c div 4096), word_of_int (128 + c div 64 mod 64),
         word_of_int (128 + c mod 64)]
      else
        [word_of_int (240 + c div 262144), word_of_int (128 + c div 4096 mod 64),
         word_of_int (128 + c div 64 mod 64), word_of_int (128 + c mod 64)])"

definition utf8 :: "rstr \<Rightarrow> byte list" where
  "utf8 s = concat (map utf8_char s)"

text \<open>\<open>str::len\<close>.\<close>

definition byte_len :: "rstr \<Rightarrow> nat" where
  "byte_len s = length (utf8 s)"

text \<open>The characters of a Rust string are Unicode scalar values.\<close>

definition scalar :: "rchar \<Rightarrow> bool" where
  "scalar c \<longleftrightarrow> 0 \<le> c \<and> c < 1114112 \<and> \<not> (55296 \<le> c \<and> c < 57344)"

section \<open>Lemmas\<close>

lemma lit_simps [simp]:
  "lit [] = []"
  "lit (c # s) = of_char c # lit s"
  by (simp_all add: lit_def)

lemma length_lit [simp]: "length (lit s) = length s"
  by (simp add: lit_def)

lemma starts_with_append [simp]: "starts_with p (p @ s)"
  by (simp add: starts_with_def)

lemma starts_with_Nil [simp]: "starts_with [] s"
  by (simp add: starts_with_def)

lemma starts_with_iff: "starts_with p s \<longleftrightarrow> (\<exists>r. s = p @ r)"
  by (metis append_eq_conv_conj append_take_drop_id starts_with_def)

lemma starts_with_Cons [simp]:
  "starts_with (c # p) (d # s) \<longleftrightarrow> c = d \<and> starts_with p s"
  "\<not> starts_with (c # p) []"
  by (auto simp: starts_with_def)

lemma ends_with_iff: "ends_with p s \<longleftrightarrow> (\<exists>r. s = r @ p)"
proof
  assume "ends_with p s"
  then show "\<exists>r. s = r @ p" by (metis append_take_drop_id ends_with_def)
qed (auto simp: ends_with_def)

lemma strip_prefix_Some: "strip_prefix p s = Some r \<longleftrightarrow> s = p @ r"
  by (auto simp: strip_prefix_def starts_with_iff)

lemma strip_prefix_append [simp]: "strip_prefix p (p @ s) = Some s"
  by (simp add: strip_prefix_Some)

lemma strip_suffix_Some: "strip_suffix p s = Some r \<longleftrightarrow> s = r @ p"
  by (auto simp: strip_suffix_def ends_with_iff)

lemma str_find_bound: "str_find p s = Some i \<Longrightarrow> i + length p \<le> length s"
proof (induction p s arbitrary: i rule: str_find.induct)
  case (1 p)
  then show ?case by (auto split: if_splits)
next
  case (2 p c s)
  show ?case
  proof (cases "starts_with p (c # s)")
    case True
    with 2 have "i = 0" by simp
    with True show ?thesis by (auto simp: starts_with_iff dest: arg_cong[where f = length])
  next
    case False
    with 2 show ?thesis by auto
  qed
qed

lemma str_find_sound: "str_find p s = Some i \<Longrightarrow> starts_with p (drop i s)"
  by (induction p s arbitrary: i rule: str_find.induct) (auto split: if_splits)

lemma str_find_least: "str_find p s = Some i \<Longrightarrow> j < i \<Longrightarrow> \<not> starts_with p (drop j s)"
proof (induction p s arbitrary: i j rule: str_find.induct)
  case (1 p)
  then show ?case by (auto split: if_splits)
next
  case (2 p c s)
  then show ?case by (cases j) (auto split: if_splits)
qed

lemma str_find_None: "str_find p s = None \<longleftrightarrow> (\<forall>i \<le> length s. \<not> starts_with p (drop i s))"
proof (induction p s rule: str_find.induct)
  case (1 p)
  then show ?case by (cases p) auto
next
  case (2 p c s)
  show ?case
  proof (cases "starts_with p (c # s)")
    case True
    then show ?thesis by (auto intro: exI[of _ 0])
  next
    case False
    have "(\<forall>i \<le> length (c # s). \<not> starts_with p (drop i (c # s))) \<longleftrightarrow>
        (\<forall>i \<le> length s. \<not> starts_with p (drop i s))" (is "?l \<longleftrightarrow> ?r")
    proof
      assume ?l
      then have "\<not> starts_with p (drop (Suc i) (c # s))" if "i \<le> length s" for i
        using that by (metis Suc_le_mono length_Cons)
      then show ?r by simp
    next
      assume r: ?r
      show ?l
      proof (intro allI impI)
        fix i assume "i \<le> length (c # s)"
        with False r show "\<not> starts_with p (drop i (c # s))" by (cases i) auto
      qed
    qed
    with 2 False show ?thesis by simp
  qed
qed

lemma str_contains_iff: "str_contains p s \<longleftrightarrow> (\<exists>a b. s = a @ p @ b)"
proof
  assume "str_contains p s"
  then obtain i where "str_find p s = Some i" by (auto simp: str_contains_def)
  then have "starts_with p (drop i s)" by (rule str_find_sound)
  then show "\<exists>a b. s = a @ p @ b" by (metis append_take_drop_id starts_with_iff)
next
  assume "\<exists>a b. s = a @ p @ b"
  then obtain a b where s: "s = a @ p @ b" by blast
  then have "length a \<le> length s" and "starts_with p (drop (length a) s)" by auto
  then show "str_contains p s" by (auto simp: str_contains_def str_find_None)
qed

lemma str_contains_single [simp]: "str_contains [c] s \<longleftrightarrow> c \<in> set s"
  by (auto simp: str_contains_iff in_set_conv_decomp)

lemma str_rfind_bound: "str_rfind p s = Some i \<Longrightarrow> i + length p \<le> length s"
proof (induction p s arbitrary: i rule: str_rfind.induct)
  case (1 p)
  then show ?case by (auto split: if_splits)
next
  case (2 p c s)
  show ?case
  proof (cases "str_rfind p s")
    case None
    with 2 have "i = 0" and "starts_with p (c # s)" by (auto split: if_splits)
    then show ?thesis by (auto simp: starts_with_iff dest: arg_cong[where f = length])
  next
    case (Some j)
    with 2 show ?thesis by auto
  qed
qed

lemma str_rfind_sound: "str_rfind p s = Some i \<Longrightarrow> starts_with p (drop i s)"
  by (induction p s arbitrary: i rule: str_rfind.induct) (auto split: if_splits option.splits)

lemma str_rfind_None: "str_rfind p s = None \<longleftrightarrow> str_find p s = None"
proof (induction p s rule: str_rfind.induct)
  case (1 p)
  then show ?case by simp
next
  case (2 p c s)
  then show ?case by (cases "str_rfind p s") auto
qed

lemma trim_end_append_ws:
  "(\<And>c. c \<in> set t \<Longrightarrow> is_whitespace c) \<Longrightarrow> trim_end (s @ t) = trim_end s"
  by (simp add: trim_end_def drop_while_end_append_all)

lemma trim_end_idem [simp]: "trim_end (trim_end s) = trim_end s"
  unfolding trim_end_def by (rule drop_while_end_id) (use drop_while_end_last in blast)

lemma trim_start_idem [simp]: "trim_start (trim_start s) = trim_start s"
  by (simp add: trim_start_def)

lemma trim_start_eq_Nil: "trim_start s = [] \<longleftrightarrow> (\<forall>c \<in> set s. is_whitespace c)"
  by (simp add: trim_start_def)

lemma trim_end_eq_Nil: "trim_end s = [] \<longleftrightarrow> (\<forall>c \<in> set s. is_whitespace c)"
  by (simp add: trim_end_def drop_while_end_eq_Nil)

lemma trim_eq_Nil: "trim s = [] \<longleftrightarrow> (\<forall>c \<in> set s. is_whitespace c)"
proof -
  have "trim_end (trim_start s) = [] \<longleftrightarrow> trim_start s = []"
    by (metis dropWhile_eq_Nil_conv dropWhile_idem trim_end_eq_Nil trim_start_def)
  then show ?thesis by (simp add: trim_def trim_start_eq_Nil)
qed

lemma trim_Nil [simp]: "trim [] = []"
  by (simp add: trim_def trim_start_def trim_end_def)

lemma trim_start_suffix: "\<exists>w. s = w @ trim_start s \<and> (\<forall>c \<in> set w. is_whitespace c)"
  by (intro exI[of _ "takeWhile is_whitespace s"]) (auto simp: trim_start_def dest: set_takeWhileD)

lemma split_inclusive_concat [simp]: "concat (split_inclusive t) = t"
proof (induction t)
  case (Cons c t)
  then show ?case by (cases "split_inclusive t") auto
qed simp

lemma split_inclusive_nonempty: "w \<in> set (split_inclusive t) \<Longrightarrow> w \<noteq> []"
proof (induction t arbitrary: w)
  case (Cons c t)
  then show ?case by (cases "split_inclusive t") (auto split: if_splits)
qed simp

lemma split_on_nonempty [simp]: "split_on p s \<noteq> []"
  by (induction p s rule: split_on.induct) (auto split: list.splits)

lemma split_on_pieces: "w \<in> set (split_on p s) \<Longrightarrow> c \<in> set w \<Longrightarrow> \<not> p c \<and> c \<in> set s"
proof (induction p s arbitrary: w rule: split_on.induct)
  case (1 p)
  then show ?case by simp
next
  case (2 p d s)
  then show ?case
    by (cases "split_on p s") (fastforce split: if_splits)+
qed

lemma length_nat_to_str_pos [simp]: "0 < length (nat_to_str n)"
  by (subst nat_to_str.simps) simp

lemma utf8_Nil [simp]: "utf8 [] = []"
  by (simp add: utf8_def)

lemma utf8_append [simp]: "utf8 (s @ t) = utf8 s @ utf8 t"
  by (simp add: utf8_def)

lemma utf8_Cons [simp]: "utf8 (c # s) = utf8_char c @ utf8 s"
  by (simp add: utf8_def)

lemma utf8_char_nonempty [simp]: "utf8_char c \<noteq> []"
  by (simp add: utf8_char_def)

lemmas str_defs =
  trim_start_def trim_end_def trim_def trim_start_matches_def trim_end_matches_def
  strip_prefix_def strip_suffix_def is_whitespace_def is_ascii_digit_def

lemmas [rust_simps] = str_defs trim_matches_def ends_with_def split_once_def rsplit_once_def
  str_contains_def drop_while_end_def

end
