(* ===== verification/Inline.thy ===== *)
theory Inline
  imports Rust_Str
begin

text \<open>
  The inline Markdown that heading matching looks through (\<open>crates/thock-sync-core/markdown.rs\<close>):
  code spans, HTML comments, wikilinks and inline links, and the comparison key of a heading.
  Byte ranges are pairs of offsets.  Every loop of the source is a recursive function over the
  scan position, with the termination argument that the position moves forward.
\<close>

type_synonym range = "nat \<times> nat"

definition in_range :: "nat \<Rightarrow> range \<Rightarrow> bool" where
  "in_range i r \<longleftrightarrow> fst r \<le> i \<and> i < snd r"

definition overlaps :: "range \<Rightarrow> range \<Rightarrow> bool" where
  "overlaps other r \<longleftrightarrow> fst other < snd r \<and> fst r < snd other"

definition run_length :: "rchar \<Rightarrow> rstr \<Rightarrow> nat" where
  "run_length c s = length (takeWhile (\<lambda>x. x = c) s)"

section \<open>Progress of a search\<close>

lemma find_char_at:
  assumes "str_find [c] (drop from s) = Some rel"
  shows "from + rel < length s" and "s ! (from + rel) = c" and "1 \<le> run_length c (drop (from + rel) s)"
proof -
  have "rel + 1 \<le> length (drop from s)" using str_find_bound [OF assms] by simp
  then show len: "from + rel < length s" by simp
  have "starts_with [c] (drop rel (drop from s))" by (rule str_find_sound [OF assms])
  then have d: "starts_with [c] (drop (from + rel) s)" by (simp add: add.commute)
  then obtain r where r: "drop (from + rel) s = c # r" by (auto simp: starts_with_iff)
  then show "s ! (from + rel) = c" using len by (metis hd_drop_conv_nth list.sel(1))
  show "1 \<le> run_length c (drop (from + rel) s)" using r by (simp add: run_length_def)
qed

lemma find_char_progress:
  "str_find [c] (drop from s) = Some rel \<Longrightarrow>
     from + rel < length s \<and> 1 \<le> run_length c (drop (from + rel) s)"
  using find_char_at by blast

section \<open>Code spans and comments\<close>

text \<open>The inner loop of \<open>code_spans\<close>: the end of the next backtick run of the given length.\<close>

function code_span_close :: "rstr \<Rightarrow> nat \<Rightarrow> nat \<Rightarrow> nat option" where
  "code_span_close t len search =
     (case str_find [96] (drop search t) of
        None \<Rightarrow> None
      | Some relative \<Rightarrow>
          let candidate = search + relative;
              run = run_length 96 (drop candidate t)
          in if run = len then Some (candidate + run)
             else code_span_close t len (candidate + run))"
  by pat_completeness auto
termination
  by (relation "measure (\<lambda>(t, len, search). length t - search)")
     (auto dest!: find_char_progress)

declare code_span_close.simps [simp del]

lemma code_span_close_ge: "code_span_close t len search = Some close \<Longrightarrow> search < close"
proof (induction t len search rule: code_span_close.induct)
  case (1 t len search)
  from "1.prems" obtain rel where rel: "str_find [96] (drop search t) = Some rel"
    by (auto simp: code_span_close.simps [of t len search] split: option.splits)
  let ?c = "search + rel"
  let ?run = "run_length 96 (drop ?c t)"
  have run: "1 \<le> ?run" by (rule find_char_at(3) [OF rel])
  show ?case
  proof (cases "?run = len")
    case True
    with "1.prems" rel have "close = ?c + ?run"
      by (simp add: code_span_close.simps [of t len search] Let_def)
    with run show ?thesis by simp
  next
    case False
    with "1.prems" rel have "code_span_close t len (?c + ?run) = Some close"
      by (simp add: code_span_close.simps [of t len search] Let_def)
    from "1.IH" [OF rel refl refl False this] show ?thesis by simp
  qed
qed

function code_spans_loop :: "rstr \<Rightarrow> nat \<Rightarrow> range list \<Rightarrow> range list" where
  "code_spans_loop t cursor spans =
     (case str_find [96] (drop cursor t) of
        None \<Rightarrow> spans
      | Some relative \<Rightarrow>
          let open = cursor + relative;
              len = run_length 96 (drop open t)
          in case code_span_close t len (open + len) of
               Some close \<Rightarrow>
                 code_spans_loop t close (spans @ [(open, close)])
             | None \<Rightarrow> code_spans_loop t (open + len) spans)"
  by pat_completeness auto
termination
  by (relation "measure (\<lambda>(t, cursor, spans). length t - cursor)")
     (auto dest!: find_char_progress code_span_close_ge)

declare code_spans_loop.simps [simp del]

definition code_spans :: "rstr \<Rightarrow> range list" where
  "code_spans t = code_spans_loop t 0 []"

definition COMMENT_OPEN :: rstr where "COMMENT_OPEN = lit ''<!--''"
definition COMMENT_CLOSE :: rstr where "COMMENT_CLOSE = lit ''-->''"

function comment_ranges :: "rstr \<Rightarrow> nat \<Rightarrow> range list \<Rightarrow> range list" where
  "comment_ranges t cursor ranges =
     (case str_find COMMENT_OPEN (drop cursor t) of
        None \<Rightarrow> ranges
      | Some offset \<Rightarrow>
          let open = cursor + offset
          in case str_find COMMENT_CLOSE (drop (open + 4) t) of
               None \<Rightarrow> ranges
             | Some index \<Rightarrow>
                 let close = open + 4 + index + 3
                 in comment_ranges t close
                      (if list_ex (\<lambda>other. overlaps other (open, close)) ranges then ranges
                       else ranges @ [(open, close)]))"
  by pat_completeness auto
termination
  by (relation "measure (\<lambda>(t, cursor, ranges). length t - cursor)")
     (auto dest!: str_find_bound simp: COMMENT_OPEN_def)

declare comment_ranges.simps [simp del]

definition inline_exclusions :: "rstr \<Rightarrow> range list" where
  "inline_exclusions t = comment_ranges t 0 (code_spans t)"

section \<open>Links\<close>

text \<open>A parsed link is its range and the range of its label.\<close>

definition parse_wikilink :: "rstr \<Rightarrow> nat \<Rightarrow> (range \<times> range) option" where
  "parse_wikilink t open =
     (let inner_start = open + 2
      in case str_find (lit '']]'') (drop inner_start t) of
           None \<Rightarrow> None
         | Some offset \<Rightarrow>
             let close = offset + inner_start;
                 inner = segment t inner_start close
             in if inner = [] \<or> 91 \<in> set inner \<or> 93 \<in> set inner then None
                else case split_once [124] inner of
                       Some (target, alias) \<Rightarrow>
                         if target = [] \<or> alias = [] then None
                         else Some ((open, close + 2), (inner_start + length target + 1, close))
                     | None \<Rightarrow> Some ((open, close + 2), (inner_start, close)))"

text \<open>The parenthesis that closes a link destination: \<open>depth\<close> counts the open ones.\<close>

fun close_paren :: "rstr \<Rightarrow> nat \<Rightarrow> nat \<Rightarrow> nat option" where
  "close_paren [] depth offset = None"
| "close_paren (c # s) depth offset =
     (if c = 40 then close_paren s (depth + 1) (offset + 1)
      else if c = 41 then
        (if depth - 1 = 0 then Some offset else close_paren s (depth - 1) (offset + 1))
      else close_paren s depth (offset + 1))"

definition parse_inline_link :: "rstr \<Rightarrow> nat \<Rightarrow> (range \<times> range) option" where
  "parse_inline_link t open =
     (let label_start = open + 1
      in case str_find [93] (drop label_start t) of
           None \<Rightarrow> None
         | Some offset \<Rightarrow>
             let label_end = offset + label_start;
                 label = segment t label_start label_end
             in if label = [] \<or> 91 \<in> set label then None
                else if \<not> starts_with [40] (drop (label_end + 1) t) then None
                else let destination_start = label_end + 2
                     in case close_paren (drop destination_start t) 1 0 of
                          None \<Rightarrow> None
                        | Some off \<Rightarrow>
                            let close = destination_start + off
                            in Some ((open, close + 1), (label_start, label_end)))"

definition parse_link :: "rstr \<Rightarrow> nat \<Rightarrow> (range \<times> range) option" where
  "parse_link t open =
     (if starts_with (lit ''[['') (drop open t) then parse_wikilink t open
      else parse_inline_link t open)"

lemma parse_link_range:
  "parse_link t open = Some (r, label) \<Longrightarrow> fst r = open \<and> open < snd r"
  by (auto simp: parse_link_def parse_wikilink_def parse_inline_link_def Let_def
      split: if_splits option.splits prod.splits)

function reduce_loop :: "rstr \<Rightarrow> range list \<Rightarrow> rstr \<Rightarrow> nat \<Rightarrow> nat \<Rightarrow> rstr" where
  "reduce_loop t excluded out cursor scan =
     (case str_find [91] (drop scan t) of
        None \<Rightarrow> out @ drop cursor t
      | Some relative \<Rightarrow>
          let open = scan + relative
          in if 0 < open \<and> (t ! (open - 1) = 33 \<or> t ! (open - 1) = 92) then
               reduce_loop t excluded out cursor (open + 1)
             else case find (in_range open) excluded of
               Some r \<Rightarrow> reduce_loop t excluded out cursor (snd r)
             | None \<Rightarrow>
                 (case parse_link t open of
                    Some (r, label) \<Rightarrow>
                      if list_ex (\<lambda>other. overlaps other r) excluded
                      then reduce_loop t excluded out cursor (open + 1)
                      else reduce_loop t excluded
                             (out @ segment t cursor (fst r) @ segment t (fst label) (snd label))
                             (snd r) (snd r)
                  | None \<Rightarrow> reduce_loop t excluded out cursor (open + 1)))"
  by pat_completeness auto
termination
  by (relation "measure (\<lambda>(t, excluded, out, cursor, scan). length t - scan)")
     (auto dest!: find_char_progress find_SomeD parse_link_range simp: in_range_def)

declare reduce_loop.simps [simp del]

definition reduce_links :: "rstr \<Rightarrow> rstr" where
  "reduce_links t = reduce_loop t (inline_exclusions t) [] 0 0"

section \<open>The heading key\<close>

definition key_step :: "env \<Rightarrow> rchar \<Rightarrow> rstr \<Rightarrow> rstr" where
  "key_step E c key =
     (if is_alphanumeric E c then key @ char_to_lowercase E c
      else if key \<noteq> [] \<and> \<not> ends_with [32] key then key @ [32]
      else key)"

definition heading_key :: "env \<Rightarrow> rstr \<Rightarrow> rstr" where
  "heading_key E t = trim_end (fold (key_step E) (reduce_links t) [])"

end
