(* ===== verification/Line_Hash.thy ===== *)
theory Line_Hash
  imports Inline
begin

text \<open>
  The identity of a line (\<open>crates/thock-sync-core/markdown.rs\<close>, the hashes of the write
  contract): the list marker, the checkbox, the planner time and trailing comments are stripped,
  white space is collapsed, and the first 16 hex digits of the SHA-256 of the rest name the line.
\<close>

section \<open>Markers\<close>

definition strip_list_marker :: "rstr \<Rightarrow> rstr" where
  "strip_list_marker t =
     (case find_map (\<lambda>marker. strip_prefix marker t) [lit ''- '', lit ''* '', lit ''+ ''] of
        Some rest \<Rightarrow> rest
      | None \<Rightarrow>
          let digits = length (takeWhile is_ascii_digit t);
              after_digits = drop digits t
          in if 1 \<le> digits \<and> digits \<le> 9 then
               (case or_else (strip_prefix (lit ''. '') after_digits)
                             (strip_prefix (lit '') '') after_digits) of
                  Some rest \<Rightarrow> rest
                | None \<Rightarrow> t)
             else t)"

definition strip_checkbox :: "rstr \<Rightarrow> rstr" where
  "strip_checkbox t =
     (case find_map (\<lambda>checkbox. strip_prefix checkbox t)
             [lit ''[ ] '', lit ''[x] '', lit ''[X] ''] of
        Some rest \<Rightarrow> rest
      | None \<Rightarrow> t)"

section \<open>The planner's time prefix\<close>

definition parse_time :: "rstr \<Rightarrow> rstr option" where
  "parse_time t =
     (let hour_digits = length (takeWhile is_ascii_digit (take 2 t))
      in if hour_digits = 0 \<or> get_at t hour_digits \<noteq> Some 58 then None
         else let minutes = segment t (hour_digits + 1) (hour_digits + 3)
              in if length minutes \<noteq> 2 \<or> \<not> list_all is_ascii_digit minutes then None
                 else if 23 < digits_value (take hour_digits t) \<or> 59 < digits_value minutes then None
                 else Some (drop (hour_digits + 3) t))"

definition parse_range_end :: "rstr \<Rightarrow> rstr option" where
  "parse_range_end t =
     (let trimmed = trim_start t
      in case or_else (strip_prefix [8211] trimmed)
              (or_else (strip_prefix [8212] trimmed)
                (or_else (strip_prefix [45] trimmed) (strip_prefix (lit ''to'') trimmed))) of
           None \<Rightarrow> None
         | Some rest \<Rightarrow>
             let after_separator = trim_start rest
             in case strip_prefix (lit ''24:00'') after_separator of
                  Some r \<Rightarrow> Some r
                | None \<Rightarrow> parse_time after_separator)"

definition label_after_token :: "rstr \<Rightarrow> rstr option" where
  "label_after_token after_token =
     (if after_token = [] then Some []
      else let rest = trim_start after_token
           in if length rest < length after_token then Some rest else None)"

definition strip_time_prefix :: "rstr \<Rightarrow> rstr" where
  "strip_time_prefix t =
     (case parse_time t of
        None \<Rightarrow> t
      | Some after_start \<Rightarrow>
          (case Option.bind (parse_range_end after_start) label_after_token of
             Some rest \<Rightarrow> rest
           | None \<Rightarrow>
               (case label_after_token after_start of Some rest \<Rightarrow> rest | None \<Rightarrow> t)))"

section \<open>Normalised lines and their hashes\<close>

text \<open>The loop of \<open>normalize_line\<close> that drops the comments a line ends with.\<close>

function strip_comments :: "rstr \<Rightarrow> rstr" where
  "strip_comments tail =
     (case str_rfind COMMENT_OPEN tail of
        None \<Rightarrow> tail
      | Some open \<Rightarrow>
          if \<not> ends_with COMMENT_CLOSE tail \<or> length tail - 3 < open + 4 then tail
          else strip_comments (trim_end (take open tail)))"
  by pat_completeness auto
termination
proof (relation "measure length", goal_cases)
  case 1
  then show ?case by simp
next
  case (2 tail op)
  have "length (trim_end (take op tail)) \<le> length (take op tail)"
    unfolding trim_end_def by (rule prefix_length_le) (rule drop_while_end_prefix)
  moreover have "op + 4 \<le> length tail"
    using str_rfind_bound [OF 2(1)] by (simp add: COMMENT_OPEN_def)
  ultimately show ?case by simp
qed

declare strip_comments.simps [simp del]

definition normalize_line :: "rstr \<Rightarrow> rstr" where
  "normalize_line line =
     (let l1 = (case strip_suffix [10] line of Some l \<Rightarrow> l | None \<Rightarrow> line);
          l2 = (case strip_suffix [13] l1 of Some l \<Rightarrow> l | None \<Rightarrow> l1);
          rest = strip_time_prefix (strip_checkbox (strip_list_marker (trim_start l2)));
          tail = strip_comments (trim_end rest)
      in join_with [32] (split_whitespace tail))"

definition short_hash :: "env \<Rightarrow> byte list \<Rightarrow> rstr" where
  "short_hash E bytes = take 16 (hex_encode E (sha256 E bytes))"

definition line_hash :: "env \<Rightarrow> rstr \<Rightarrow> rstr" where
  "line_hash E line = short_hash E (utf8 (normalize_line line))"

definition hash_lines :: "env \<Rightarrow> rstr list \<Rightarrow> rstr" where
  "hash_lines E lines = short_hash E (utf8 (join_with [10] lines))"

section \<open>Lemmas\<close>

lemma line_hash_cong: "normalize_line a = normalize_line b \<Longrightarrow> line_hash E a = line_hash E b"
  by (simp add: line_hash_def)

lemma normalize_line_words: "\<forall>w \<in> set (split_whitespace s). w \<noteq> [] \<and> (\<forall>c \<in> set w. \<not> is_whitespace c)"
  by (auto simp: split_whitespace_def dest: split_on_pieces)

end
