(* ===== verification/Write.thy ===== *)
theory Write
  imports Rust_Str
begin

text \<open>
  The write document of \<open>crates/thock-sync-core/write.rs\<close>: what the phone encrypts and the desk
  applies.  The structs are records, the tagged \<open>Operation\<close> is a datatype with one constructor
  per kind, and \<open>validate\<close> and \<open>parse_write\<close> return a sum whose left side is \<open>WriteError\<close>.
  Reading JSON text and decoding a JSON value into a write are the work of \<open>serde_json\<close> and
  of serde's generated code, and enter as the fields of the record \<open>serde\<close>.
\<close>

section \<open>Data\<close>

record Heading =
  h_text :: rstr
  h_level :: byte
  h_ordinal :: nat

definition default_level :: byte where
  "default_level = 2"

definition heading_new :: "rstr \<Rightarrow> Heading" where
  "heading_new t = \<lparr>h_text = t, h_level = default_level, h_ordinal = 0\<rparr>"

text \<open>\<open>Heading::line\<close>: the line that creates the heading when a note lacks it.\<close>

definition heading_line :: "Heading \<Rightarrow> rstr" where
  "heading_line h =
     (let level = max 1 (min 6 (unat (h_level h)))
      in replicate level 35 @ [32] @ trim (h_text h))"

datatype Placement = AtEnd | BeforeChildren

record Anchor =
  a_line_hash :: rstr
  a_ordinal :: nat

datatype Place = Top | PlaceEnd | After rstr nat

datatype Operation =
    Create rstr
  | Append "Heading option" "rstr list" Placement bool bool "Anchor option"
      \<comment> \<open>heading, lines, placement, blank\_line\_before, create\_from\_template, after\<close>
  | ReplaceLine "Heading option" rstr nat rstr
      \<comment> \<open>heading, line\_hash, ordinal, new\_line\<close>
  | RemoveLine "Heading option" rstr nat
  | ReplaceSection Heading rstr "rstr list"
      \<comment> \<open>heading, base\_hash, lines\<close>
  | MoveBlock "Heading option" rstr nat "Heading option" Place "rstr option" "Heading option"
      \<comment> \<open>heading, line\_hash, ordinal, to, place, new\_line, create\_under\<close>
  | RemoveBlock "Heading option" rstr nat
  | PutFile rstr rstr
      \<comment> \<open>content\_base64, content\_hash\<close>
  | MoveFile rstr

definition KNOWN_KINDS :: "rstr list" where
  "KNOWN_KINDS = map lit
     [''create'', ''append'', ''replace_line'', ''remove_line'', ''replace_section'',
      ''move_block'', ''remove_block'', ''put_file'', ''move_file'']"

fun kind :: "Operation \<Rightarrow> rstr" where
  "kind (Create _) = lit ''create''"
| "kind (Append _ _ _ _ _ _) = lit ''append''"
| "kind (ReplaceLine _ _ _ _) = lit ''replace_line''"
| "kind (RemoveLine _ _ _) = lit ''remove_line''"
| "kind (ReplaceSection _ _ _) = lit ''replace_section''"
| "kind (MoveBlock _ _ _ _ _ _ _) = lit ''move_block''"
| "kind (RemoveBlock _ _ _) = lit ''remove_block''"
| "kind (PutFile _ _) = lit ''put_file''"
| "kind (MoveFile _) = lit ''move_file''"

fun is_file_level :: "Operation \<Rightarrow> bool" where
  "is_file_level (PutFile _ _) = True"
| "is_file_level (MoveFile _) = True"
| "is_file_level _ = False"

fun op_heading :: "Operation \<Rightarrow> Heading option" where
  "op_heading (Create _) = None"
| "op_heading (PutFile _ _) = None"
| "op_heading (MoveFile _) = None"
| "op_heading (Append h _ _ _ _ _) = h"
| "op_heading (ReplaceLine h _ _ _) = h"
| "op_heading (RemoveLine h _ _) = h"
| "op_heading (MoveBlock h _ _ _ _ _ _) = h"
| "op_heading (RemoveBlock h _ _) = h"
| "op_heading (ReplaceSection h _ _) = Some h"

text \<open>\<open>Operation::headings\<close>: every heading the write names, for validation.\<close>

definition op_headings :: "Operation \<Rightarrow> Heading list" where
  "op_headings oper =
     (case op_heading oper of None \<Rightarrow> [] | Some h \<Rightarrow> [h]) @
     (case oper of
        MoveBlock _ _ _ to _ _ create_under \<Rightarrow>
          (case to of None \<Rightarrow> [] | Some h \<Rightarrow> [h]) @
          (case create_under of None \<Rightarrow> [] | Some h \<Rightarrow> [h])
      | _ \<Rightarrow> [])"

record Write =
  w_v :: "32 word"
  w_client_id :: rstr
  w_path :: rstr
  w_made_at :: rstr
  w_device_id :: rstr
  w_operation :: Operation

definition WRITE_VERSION :: "32 word" where
  "WRITE_VERSION = 1"

definition write_new :: "rstr \<Rightarrow> rstr \<Rightarrow> Operation \<Rightarrow> Write" where
  "write_new client_id path oper =
     \<lparr>w_v = WRITE_VERSION, w_client_id = client_id, w_path = path, w_made_at = [],
      w_device_id = [], w_operation = oper\<rparr>"

section \<open>Errors and validation\<close>

datatype WriteError =
    Json rstr
  | UnsupportedVersion "32 word"
  | UnsupportedKind rstr
  | MissingClientId
  | MissingPath
  | LineBreakInLine
  | EmptyHeading
  | BadDestination
  | MissingBytes

fun needs_newer_reader :: "WriteError \<Rightarrow> bool" where
  "needs_newer_reader (UnsupportedVersion version) = (WRITE_VERSION < version)"
| "needs_newer_reader (UnsupportedKind _) = True"
| "needs_newer_reader _ = False"

definition has_break :: "rstr \<Rightarrow> bool" where
  "has_break line \<longleftrightarrow> 10 \<in> set line \<or> 13 \<in> set line"

fun op_broken :: "Operation \<Rightarrow> bool" where
  "op_broken (Append _ lines _ _ _ _) = list_ex has_break lines"
| "op_broken (ReplaceSection _ _ lines) = list_ex has_break lines"
| "op_broken (ReplaceLine _ _ _ new_line) = has_break new_line"
| "op_broken (MoveBlock _ _ _ _ _ new_line _) = is_some_and new_line has_break"
| "op_broken _ = False"

fun op_file_error :: "rstr \<Rightarrow> Operation \<Rightarrow> WriteError option" where
  "op_file_error path (MoveFile to) =
     (if trim to = [] \<or> to = path then Some BadDestination else None)"
| "op_file_error path (PutFile content_base64 content_hash) =
     (if trim content_base64 = [] \<or> trim content_hash = [] then Some MissingBytes else None)"
| "op_file_error path _ = None"

definition validate :: "Write \<Rightarrow> WriteError + unit" where
  "validate w =
     (if w_v w \<noteq> WRITE_VERSION then Inl (UnsupportedVersion (w_v w))
      else if trim (w_client_id w) = [] then Inl MissingClientId
      else if trim (w_path w) = [] then Inl MissingPath
      else if list_ex (\<lambda>h. trim (h_text h) = []) (op_headings (w_operation w)) then Inl EmptyHeading
      else if op_broken (w_operation w) then Inl LineBreakInLine
      else (case op_file_error (w_path w) (w_operation w) of
              Some e \<Rightarrow> Inl e
            | None \<Rightarrow> Inr ()))"

section \<open>Reading a write document\<close>

text \<open>\<open>serde_json::Value\<close>.  A number is a non-negative integer of 64 bits, a negative one, or a
  float, whose value no rule here reads.\<close>

datatype Number = PosInt "64 word" | NegInt int | Float rstr

datatype Value = Null | Bool bool | Number Number | String rstr | Array "Value list"
  | Object "(rstr \<times> Value) list"

fun value_get :: "rstr \<Rightarrow> Value \<Rightarrow> Value option" where
  "value_get key (Object kvs) = map_of kvs key"
| "value_get key _ = None"

fun as_u64 :: "Value \<Rightarrow> 64 word option" where
  "as_u64 (Number (PosInt n)) = Some n"
| "as_u64 _ = None"

fun as_str :: "Value \<Rightarrow> rstr option" where
  "as_str (String s) = Some s"
| "as_str _ = None"

record serde =
  json_from_str :: "rstr \<Rightarrow> rstr + Value"
  write_from_value :: "Value \<Rightarrow> rstr + Write"

definition u32_try_from :: "64 word \<Rightarrow> 32 word option" where
  "u32_try_from n = (if unat n < 2 ^ 32 then Some (ucast n) else None)"

definition unknown_version :: "Value \<Rightarrow> 64 word option" where
  "unknown_version value =
     (case Option.bind (value_get (lit ''v'') value) as_u64 of
        Some version \<Rightarrow> if version \<noteq> ucast WRITE_VERSION then Some version else None
      | None \<Rightarrow> None)"

definition unknown_kind :: "Value \<Rightarrow> rstr option" where
  "unknown_kind value =
     (case Option.bind (value_get (lit ''kind'') value) as_str of
        Some k \<Rightarrow> if k \<notin> set KNOWN_KINDS then Some k else None
      | None \<Rightarrow> None)"

definition parse_write :: "serde \<Rightarrow> rstr \<Rightarrow> WriteError + Write" where
  "parse_write S json =
     (case json_from_str S json of
        Inl message \<Rightarrow> Inl (Json message)
      | Inr value \<Rightarrow>
          (case unknown_version value of
             Some version \<Rightarrow>
               Inl (UnsupportedVersion (case u32_try_from version of Some n \<Rightarrow> n | None \<Rightarrow> -1))
           | None \<Rightarrow>
               (case unknown_kind value of
                  Some k \<Rightarrow> Inl (UnsupportedKind k)
                | None \<Rightarrow>
                    (case write_from_value S value of
                       Inl message \<Rightarrow> Inl (Json message)
                     | Inr w \<Rightarrow> (case validate w of Inl e \<Rightarrow> Inl e | Inr _ \<Rightarrow> Inr w)))))"

section \<open>What validation guarantees\<close>

lemma validate_ok_iff:
  "validate w = Inr () \<longleftrightarrow>
     w_v w = WRITE_VERSION \<and> trim (w_client_id w) \<noteq> [] \<and> trim (w_path w) \<noteq> [] \<and>
     (\<forall>h \<in> set (op_headings (w_operation w)). trim (h_text h) \<noteq> []) \<and>
     \<not> op_broken (w_operation w) \<and> op_file_error (w_path w) (w_operation w) = None"
  by (auto simp: validate_def list_ex_iff split: option.splits if_splits)

lemma kind_known: "kind oper \<in> set KNOWN_KINDS"
  by (cases oper) (simp_all add: KNOWN_KINDS_def)

text \<open>The lines a valid write brings hold no line break: the fact that lets an edited document be
  written out and split again into the same lines.\<close>

lemma has_break_no_lf: "\<not> has_break s \<Longrightarrow> 10 \<notin> set s"
  by (simp add: has_break_def)

lemma has_break_no_cr: "\<not> has_break s \<Longrightarrow> s = [] \<or> last s \<noteq> 13"
  by (metis has_break_def last_in_set)

end
