(* ===== verification/Document.thy ===== *)
theory Document
  imports Line_Hash Write
begin

text \<open>
  The note model of \<open>crates/thock-sync-core/markdown.rs\<close>: a note is a list of lines that keep
  their own terminators, headings are found outside fences and front matter by one left-to-right
  scan, and a section is a record of line indices.  This theory holds the data and the
  operations; \<open>Document_Props\<close> proves what they promise.
\<close>

section \<open>Lines and documents\<close>

datatype Ending = Lf | CrLf | NoEnding

fun ending_str :: "Ending \<Rightarrow> rstr" where
  "ending_str Lf = [10]"
| "ending_str CrLf = [13, 10]"
| "ending_str NoEnding = []"

record Line =
  l_text :: rstr
  l_ending :: Ending

definition mk_line :: "rstr \<Rightarrow> Ending \<Rightarrow> Line" where
  "mk_line t e = \<lparr>l_text = t, l_ending = e\<rparr>"

definition blank :: "rstr \<Rightarrow> bool" where
  "blank t \<longleftrightarrow> trim t = []"

definition is_blank :: "Line \<Rightarrow> bool" where
  "is_blank l \<longleftrightarrow> blank (l_text l)"

record Document =
  d_lines :: "Line list"
  d_ending :: Ending

function split_loop :: "rstr \<Rightarrow> Line list \<Rightarrow> nat \<Rightarrow> nat \<Rightarrow> Line list \<times> nat \<times> nat" where
  "split_loop rest lines crlf lf =
     (if rest = [] then (lines, crlf, lf)
      else case str_find [10] rest of
        Some index \<Rightarrow>
          let line = take index rest;
              after = drop index rest
          in (case strip_suffix [13] line of
                Some content \<Rightarrow>
                  split_loop (drop 1 after) (lines @ [mk_line content CrLf]) (crlf + 1) lf
              | None \<Rightarrow> split_loop (drop 1 after) (lines @ [mk_line line Lf]) crlf (lf + 1))
      | None \<Rightarrow> (lines @ [mk_line rest NoEnding], crlf, lf))"
  by pat_completeness auto
termination
  by (relation "measure (\<lambda>(rest, lines, crlf, lf). length rest)")
     (auto dest!: str_find_bound)

declare split_loop.simps [simp del]

definition doc_split :: "rstr \<Rightarrow> Document" where
  "doc_split t =
     (let (lines, crlf, lf) = split_loop t [] 0 0
      in \<lparr>d_lines = lines, d_ending = (if lf < crlf then CrLf else Lf)\<rparr>)"

definition doc_empty :: Document where
  "doc_empty = \<lparr>d_lines = [], d_ending = Lf\<rparr>"

definition line_str :: "Line \<Rightarrow> rstr" where
  "line_str l = l_text l @ ending_str (l_ending l)"

definition doc_join :: "Document \<Rightarrow> rstr" where
  "doc_join d = concat (map line_str (d_lines d))"

definition unterminated_tail :: "Document \<Rightarrow> bool" where
  "unterminated_tail d \<longleftrightarrow> is_some_and (last_opt (d_lines d)) (\<lambda>l. l_ending l = NoEnding)"

definition terminate_last :: "Document \<Rightarrow> Line list" where
  "terminate_last d =
     (case d_lines d of [] \<Rightarrow> []
      | _ # _ \<Rightarrow> butlast (d_lines d) @ [(last (d_lines d))\<lparr>l_ending := d_ending d\<rparr>])"

definition doc_insert :: "nat \<Rightarrow> rstr list \<Rightarrow> Document \<Rightarrow> Document" where
  "doc_insert at0 texts d =
     (if texts = [] then d
      else let at = min at0 (length (d_lines d));
               at_end = (at = length (d_lines d));
               unterminated = (at_end \<and> unterminated_tail d);
               old = (if unterminated then terminate_last d else d_lines d);
               new_lines =
                 map (\<lambda>(index, t).
                        mk_line t (if at_end \<and> unterminated \<and> index + 1 = length texts
                                   then NoEnding else d_ending d))
                   (enumerate 0 texts)
           in d\<lparr>d_lines := splice_at at new_lines old\<rparr>)"

section \<open>Scanning for headings, fences and front matter\<close>

record HeadingLine =
  hl_index :: nat
  hl_level :: nat
  hl_text :: rstr

record Section =
  s_heading :: "nat option"
  s_start :: nat
  s_body_end :: nat
  s_own_end :: nat
  s_end :: nat

definition is_thematic_break :: "rstr \<Rightarrow> bool" where
  "is_thematic_break t =
     (let trimmed = trim_start_matches (\<lambda>c. c = 32) t
      in if 3 < length t - length trimmed then False
         else case trimmed of
           [] \<Rightarrow> False
         | marker # _ \<Rightarrow>
             if marker = 95 \<or> marker = 45 \<or> marker = 42 then
               3 \<le> length (filter (\<lambda>c. c = marker) trimmed) \<and>
               list_all (\<lambda>c. c = marker \<or> c = 32) trimmed
             else False)"

definition closes_front_matter :: "rstr \<Rightarrow> bool" where
  "closes_front_matter t \<longleftrightarrow> t = lit ''---'' \<or> t = lit ''...''"

definition front_matter_closes :: "Line list \<Rightarrow> bool" where
  "front_matter_closes lines \<longleftrightarrow> list_ex (\<lambda>l. closes_front_matter (l_text l)) (drop 1 lines)"

definition opens_fence :: "rstr \<Rightarrow> (rchar \<times> nat) option" where
  "opens_fence t =
     (let indent = length t - length (trim_start_matches (\<lambda>c. c = 32) t)
      in if 3 < indent then None
         else let rest = drop indent t
              in case rest of
                   [] \<Rightarrow> None
                 | character # _ \<Rightarrow>
                     if \<not> (character = 96 \<or> character = 126) then None
                     else let len = run_length character rest
                          in if len < 3 then None
                             else if character = 96 \<and> 96 \<in> set (drop len rest) then None
                             else Some (character, len))"

definition closes_fence :: "rstr \<Rightarrow> rchar \<Rightarrow> nat \<Rightarrow> bool" where
  "closes_fence t character len =
     (let trimmed = trim_start_matches (\<lambda>c. c = 32) t
      in if 3 < length t - length trimmed then False
         else let run = run_length character trimmed
              in len \<le> run \<and> trim (drop run trimmed) = [])"

definition parse_heading :: "rstr \<Rightarrow> (nat \<times> rstr) option" where
  "parse_heading t =
     (let level = run_length 35 t
      in if level = 0 \<or> 6 < level then None
         else let after = drop level t;
                  content = trim_start_matches (\<lambda>c. c = 32 \<or> c = 9) after
              in if length content = length after \<or> trim content = [] then None
                 else let content = trim_end content;
                          without_closing = trim_end_matches (\<lambda>c. c = 35) content;
                          heading_text =
                            (if length without_closing < length content then
                               let trimmed = trim_end_matches (\<lambda>c. c = 32 \<or> c = 9) without_closing
                               in if length trimmed = length without_closing \<and> without_closing \<noteq> []
                                  then content else trimmed
                             else content)
                      in if heading_text = [] then None else Some (level, heading_text))"

text \<open>What the scan carries from line to line: the open fence and whether it is inside the front
  matter.\<close>

record ScanState =
  fence :: "(rchar \<times> nat) option"
  in_front_matter :: bool

definition scan_init :: ScanState where
  "scan_init = \<lparr>fence = None, in_front_matter = False\<rparr>"

text \<open>One turn of the loop of \<open>Document::scan\<close>: the next state, whether the line is protected,
  and the heading it is.\<close>

definition scan_step ::
    "bool \<Rightarrow> nat \<Rightarrow> rstr \<Rightarrow> ScanState \<Rightarrow> ScanState \<times> bool \<times> (nat \<times> rstr) option" where
  "scan_step fm_closes index t st =
     (if index = 0 \<and> t = lit ''---'' \<and> fm_closes then
        (st\<lparr>in_front_matter := True\<rparr>, True, None)
      else if in_front_matter st then
        (if closes_front_matter t then st\<lparr>in_front_matter := False\<rparr> else st, True, None)
      else case fence st of
        Some (character, len) \<Rightarrow>
          (if closes_fence t character len then st\<lparr>fence := None\<rparr> else st, True, None)
      | None \<Rightarrow>
          (case opens_fence t of
             Some opened \<Rightarrow> (st\<lparr>fence := Some opened\<rparr>, True, None)
           | None \<Rightarrow> (st, False, parse_heading t)))"

fun scan_loop ::
    "bool \<Rightarrow> nat \<Rightarrow> ScanState \<Rightarrow> rstr list \<Rightarrow> HeadingLine list \<times> bool list" where
  "scan_loop fm_closes index st [] = ([], [])"
| "scan_loop fm_closes index st (t # ts) =
     (let (st', protected, heading) = scan_step fm_closes index t st;
          (found, flags) = scan_loop fm_closes (Suc index) st' ts
      in ((case heading of None \<Rightarrow> []
           | Some (level, ht) \<Rightarrow> [\<lparr>hl_index = index, hl_level = level, hl_text = ht\<rparr>]) @ found,
          protected # flags))"

definition doc_scan :: "Document \<Rightarrow> HeadingLine list \<times> bool list" where
  "doc_scan d =
     scan_loop (front_matter_closes (d_lines d)) 0 scan_init (map l_text (d_lines d))"

definition headings :: "Document \<Rightarrow> HeadingLine list" where
  "headings d = fst (doc_scan d)"

definition protected :: "Document \<Rightarrow> bool list" where
  "protected d = snd (doc_scan d)"

section \<open>Resolving headings and section geometry\<close>

definition resolve_among :: "env \<Rightarrow> HeadingLine list \<Rightarrow> Heading \<Rightarrow> HeadingLine option" where
  "resolve_among E hs h =
     (let wanted = str_to_lowercase E (trim (h_text h));
          exact = filter (\<lambda>c. str_to_lowercase E (trim (hl_text c)) = wanted) hs;
          wanted_key = heading_key E (h_text h)
      in if exact = [] \<and> wanted_key = [] then None
         else let matches = (if exact = []
                             then filter (\<lambda>c. heading_key E (hl_text c) = wanted_key) hs
                             else exact)
              in or_else (get_at matches (h_ordinal h)) (last_opt matches))"

definition resolve_within :: "env \<Rightarrow> Document \<Rightarrow> Heading \<Rightarrow> nat \<Rightarrow> nat \<Rightarrow> HeadingLine option" where
  "resolve_within E d h from to =
     resolve_among E (filter (\<lambda>c. from \<le> hl_index c \<and> hl_index c < to) (headings d)) h"

definition resolve :: "env \<Rightarrow> Document \<Rightarrow> Heading \<Rightarrow> HeadingLine option" where
  "resolve E d h = resolve_within E d h 0 (length (d_lines d))"

text \<open>The loop \<open>while end > start && lines[end - 1] is blank \{ end -= 1 \}\<close>.\<close>

fun skip_blank_back :: "Line list \<Rightarrow> nat \<Rightarrow> nat \<Rightarrow> nat" where
  "skip_blank_back lines start 0 = 0"
| "skip_blank_back lines start (Suc e) =
     (if start < Suc e \<and> is_some_and (get_at lines e) is_blank
      then skip_blank_back lines start e else Suc e)"

definition trim_blank_end :: "Document \<Rightarrow> nat \<Rightarrow> nat \<Rightarrow> nat" where
  "trim_blank_end d start end0 =
     (let e = skip_blank_back (d_lines d) start end0
      in if start < e \<and>
            is_some_and (get_at (d_lines d) (e - 1)) (\<lambda>l. is_thematic_break (l_text l))
         then skip_blank_back (d_lines d) start (e - 1)
         else e)"

definition doc_section :: "Document \<Rightarrow> HeadingLine \<Rightarrow> Section" where
  "doc_section d h =
     (let start = hl_index h + 1;
          e = (case find (\<lambda>other. hl_index h < hl_index other \<and> hl_level other \<le> hl_level h)
                      (headings d) of
                 Some other \<Rightarrow> hl_index other
               | None \<Rightarrow> length (d_lines d));
          body_end = trim_blank_end d start e;
          own_end = (case find (\<lambda>other. hl_index h < hl_index other \<and> hl_index other < body_end)
                            (headings d) of
                       Some other \<Rightarrow> hl_index other
                     | None \<Rightarrow> body_end)
      in \<lparr>s_heading = Some (hl_index h), s_start = start, s_body_end = body_end,
          s_own_end = trim_blank_end d start own_end, s_end = e\<rparr>)"

definition whole :: "Document \<Rightarrow> Section" where
  "whole d =
     (let e = length (d_lines d);
          body_end = skip_blank_back (d_lines d) 0 e
      in \<lparr>s_heading = None, s_start = 0, s_body_end = body_end, s_own_end = body_end, s_end = e\<rparr>)"

definition is_protected :: "Document \<Rightarrow> nat \<Rightarrow> bool" where
  "is_protected d i = (case get_at (protected d) i of Some b \<Rightarrow> b | None \<Rightarrow> False)"

definition matchable :: "Document \<Rightarrow> Section \<Rightarrow> (nat \<times> rstr) list" where
  "matchable d s =
     map (\<lambda>i. (i, l_text (d_lines d ! i)))
       (filter (\<lambda>i. \<not> is_protected d i \<and> i < length (d_lines d)) [s_start s..<s_body_end s])"

definition body_texts :: "Document \<Rightarrow> Section \<Rightarrow> rstr list" where
  "body_texts d s =
     (if s_start s \<le> s_body_end s \<and> s_body_end s \<le> length (d_lines d)
      then map l_text (segment (d_lines d) (s_start s) (s_body_end s)) else [])"

definition section_hash :: "env \<Rightarrow> rstr \<Rightarrow> Heading \<Rightarrow> rstr option" where
  "section_hash E content h =
     (let d = doc_split content
      in case resolve E d h of
           None \<Rightarrow> None
         | Some found \<Rightarrow> Some (hash_lines E (body_texts d (doc_section d found))))"

end
