(* ===== verification/Document_Props.thy ===== *)
theory Document_Props
  imports Document
begin

text \<open>
  What the document operations promise: splitting and joining are inverse to each other, an
  insertion keeps every other line byte for byte, the scan marks and finds what it should, and a
  section's indices are ordered and inside the note.
\<close>

section \<open>Well-formed line lists\<close>

text \<open>The line lists that come from a text: a line holds no line feed, a line ended by a line feed
  alone does not end in a carriage return, and only the last line may lack a terminator.\<close>

definition line_ok :: "Line \<Rightarrow> bool" where
  "line_ok l \<longleftrightarrow>
     10 \<notin> set (l_text l) \<and>
     (l_ending l = Lf \<longrightarrow> l_text l = [] \<or> last (l_text l) \<noteq> 13) \<and>
     (l_ending l = NoEnding \<longrightarrow> l_text l \<noteq> [])"

definition wf_lines :: "Line list \<Rightarrow> bool" where
  "wf_lines ls \<longleftrightarrow>
     list_all line_ok ls \<and> list_all (\<lambda>l. l_ending l \<noteq> NoEnding) (butlast ls)"

definition wf_doc :: "Document \<Rightarrow> bool" where
  "wf_doc d \<longleftrightarrow> wf_lines (d_lines d) \<and> d_ending d \<noteq> NoEnding"

section \<open>Splitting and joining\<close>

abbreviation split_lines :: "rstr \<Rightarrow> Line list" where
  "split_lines t \<equiv> d_lines (doc_split t)"

lemma split_loop_acc:
  "fst (split_loop rest ls c f) = ls @ fst (split_loop rest [] 0 0)"
proof (induction "length rest" arbitrary: rest ls c f rule: less_induct)
  case less
  show ?case
  proof (cases "rest = []")
    case True
    then show ?thesis by (simp add: split_loop.simps)
  next
    case nonempty: False
    show ?thesis
    proof (cases "str_find [10] rest")
      case None
      with nonempty show ?thesis by (simp add: split_loop.simps [of rest])
    next
      case (Some i)
      from str_find_bound [OF Some] have len: "length (drop (Suc i) rest) < length rest"
        using nonempty by simp
      have IH: "fst (split_loop (drop (Suc i) rest) (ls' @ [l]) c' f') =
          ls' @ fst (split_loop (drop (Suc i) rest) [l] c'' f'')" for ls' l c' f' c'' f''
        using less [OF len, of "ls' @ [l]" c' f'] less [OF len, of "[l]" c'' f''] by simp
      show ?thesis
      proof (cases "strip_suffix [13] (take i rest)")
        case None
        with nonempty Some show ?thesis
          by (simp add: split_loop.simps [of rest] Let_def IH [of ls _ c "Suc f" 0 "Suc 0"])
      next
        case (Some content)
        with nonempty \<open>str_find [10] rest = Some i\<close> show ?thesis
          by (simp add: split_loop.simps [of rest] Let_def IH [of ls _ "Suc c" f "Suc 0" 0])
      qed
    qed
  qed
qed

lemma split_lines_loop: "split_lines t = fst (split_loop t [] 0 0)"
  by (simp add: doc_split_def split: prod.splits)

lemma split_lines_Nil [simp]: "split_lines [] = []"
  by (simp add: split_lines_loop split_loop.simps)

lemma find_lf: "10 \<notin> set s \<Longrightarrow> str_find [10] (s @ 10 # rest) = Some (length s)"
  by (induction s) auto

lemma find_lf_None: "10 \<notin> set s \<Longrightarrow> str_find [10] s = None"
  by (induction s) auto

lemma split_lines_last: "10 \<notin> set s \<Longrightarrow> s \<noteq> [] \<Longrightarrow> split_lines s = [mk_line s NoEnding]"
  by (simp add: split_lines_loop split_loop.simps [of s] find_lf_None)

lemma split_lines_lf:
  assumes "10 \<notin> set s" and "s = [] \<or> last s \<noteq> 13"
  shows "split_lines (s @ 10 # rest) = mk_line s Lf # split_lines rest"
proof -
  have "strip_suffix [13] s = None"
    using assms(2) by (auto simp: strip_suffix_def ends_with_iff)
  then show ?thesis
    using assms(1) split_loop_acc [of rest "[mk_line s Lf]"]
    by (simp add: split_lines_loop split_loop.simps [of "s @ 10 # rest"] find_lf Let_def)
qed

lemma split_lines_crlf:
  assumes "10 \<notin> set s"
  shows "split_lines (s @ 13 # 10 # rest) = mk_line s CrLf # split_lines rest"
proof -
  have f: "str_find [10] (s @ 13 # 10 # rest) = Some (length s + 1)"
    using find_lf [of "s @ [13]" rest] assms by simp
  have "strip_suffix [13] (s @ [13]) = Some s"
    by (simp add: strip_suffix_Some)
  then show ?thesis
    using f split_loop_acc [of rest "[mk_line s CrLf]"]
    by (simp add: split_lines_loop split_loop.simps [of "s @ 13 # 10 # rest"] Let_def)
qed

lemma split_lines_line:
  "line_ok l \<Longrightarrow> l_ending l \<noteq> NoEnding \<Longrightarrow> split_lines (line_str l @ rest) = l # split_lines rest"
  by (cases "l_ending l")
     (auto simp: line_ok_def line_str_def split_lines_lf split_lines_crlf mk_line_def)

text \<open>The two shapes of a non-empty text: a last line, or a terminated line and the rest.\<close>

lemma text_cases:
  obtains (empty) "t = []"
    | (last) "t \<noteq> []" "10 \<notin> set t"
    | (line) l rest where "t = line_str l @ rest" "line_ok l" "l_ending l \<noteq> NoEnding"
proof (cases "10 \<in> set t")
  case False
  then show ?thesis using empty last by blast
next
  case True
  then obtain s rest where t: "t = s @ 10 # rest" and s: "10 \<notin> set s"
    by (meson split_list_first)
  show ?thesis
  proof (cases "s \<noteq> [] \<and> last s = 13")
    case True
    then obtain s' where "s = s' @ [13]" by (metis append_butlast_last_id)
    with t s show ?thesis
      by (intro line [of "mk_line s' CrLf" rest]) (auto simp: line_str_def mk_line_def line_ok_def)
  next
    case False
    with t s show ?thesis
      by (intro line [of "mk_line s Lf" rest]) (auto simp: line_str_def mk_line_def line_ok_def)
  qed
qed

lemma line_str_length: "l_ending l \<noteq> NoEnding \<Longrightarrow> 0 < length (line_str l)"
  by (cases "l_ending l") (auto simp: line_str_def)

lemma split_lines_join: "concat (map line_str (split_lines t)) = t"
proof (induction "length t" arbitrary: t rule: less_induct)
  case less
  show ?case
  proof (cases t rule: text_cases)
    case empty
    then show ?thesis by simp
  next
    case last
    then show ?thesis by (simp add: split_lines_last line_str_def mk_line_def)
  next
    case (line l rest)
    then have "concat (map line_str (split_lines rest)) = rest"
      using less line_str_length [OF line(3)] by simp
    then show ?thesis by (simp add: line split_lines_line)
  qed
qed

lemma wf_lines_Nil [simp]: "wf_lines []"
  by (simp add: wf_lines_def)

lemma wf_lines_Cons:
  "wf_lines (l # ls) \<longleftrightarrow> line_ok l \<and> wf_lines ls \<and> (ls \<noteq> [] \<longrightarrow> l_ending l \<noteq> NoEnding)"
  by (auto simp: wf_lines_def)

lemma wf_lines_append:
  "wf_lines (xs @ ys) \<longleftrightarrow>
     wf_lines xs \<and> wf_lines ys \<and> (ys \<noteq> [] \<longrightarrow> list_all (\<lambda>l. l_ending l \<noteq> NoEnding) xs)"
  by (induction xs) (auto simp: wf_lines_Cons)

lemma wf_split_lines: "wf_lines (split_lines t)"
proof (induction "length t" arbitrary: t rule: less_induct)
  case less
  show ?case
  proof (cases t rule: text_cases)
    case empty
    then show ?thesis by simp
  next
    case last
    then show ?thesis by (simp add: split_lines_last wf_lines_def line_ok_def mk_line_def)
  next
    case (line l rest)
    then have "wf_lines (split_lines rest)"
      using less line_str_length [OF line(3)] by simp
    with line show ?thesis by (simp add: split_lines_line wf_lines_Cons)
  qed
qed

lemma split_join_lines: "wf_lines ls \<Longrightarrow> split_lines (concat (map line_str ls)) = ls"
proof (induction ls)
  case Nil
  then show ?case by simp
next
  case (Cons l ls)
  show ?case
  proof (cases "l_ending l = NoEnding")
    case True
    with Cons.prems have "ls = []" and ok: "line_ok l" by (auto simp: wf_lines_Cons)
    with True show ?thesis
      using ok by (auto simp: line_ok_def line_str_def split_lines_last mk_line_def)
  next
    case False
    with Cons show ?thesis by (simp add: wf_lines_Cons split_lines_line)
  qed
qed

lemma wf_doc_split: "wf_doc (doc_split t)"
  using wf_split_lines [of t] by (simp add: wf_doc_def doc_split_def split: prod.splits)

lemma d_lines_split_join: "wf_doc d \<Longrightarrow> split_lines (doc_join d) = d_lines d"
  by (simp add: wf_doc_def doc_join_def split_join_lines)

section \<open>The codec of lines\<close>

text \<open>A text format read by splitting and written by joining: what an edit between the two may rely
  on.\<close>

locale line_codec =
  fixes split :: "'t \<Rightarrow> 'l"
    and join :: "'l \<Rightarrow> 't"
    and wf :: "'l \<Rightarrow> bool"
  assumes join_split: "join (split t) = t"
    and wf_split: "wf (split t)"
    and split_join: "wf ls \<Longrightarrow> split (join ls) = ls"
begin

lemma wf_iff_range: "wf ls \<longleftrightarrow> (\<exists>t. ls = split t)"
  using wf_split split_join by metis

lemma join_inj: "wf ls \<Longrightarrow> wf ks \<Longrightarrow> join ls = join ks \<Longrightarrow> ls = ks"
  using split_join by metis

text \<open>Edits on the split form that keep it well formed compose: writing the text out between two
  edits and reading it back makes no difference.\<close>

lemma edits_compose:
  assumes "\<And>ls. wf ls \<Longrightarrow> wf (f ls)"
  shows "join (g (split (join (f (split t))))) = join (g (f (split t)))"
  using assms wf_split split_join by simp

end

interpretation note_lines: line_codec split_lines "\<lambda>ls. concat (map line_str ls)" wf_lines
  by unfold_locales (simp_all add: split_lines_join wf_split_lines split_join_lines)

section \<open>Texts of a document\<close>

abbreviation texts :: "Document \<Rightarrow> rstr list" where
  "texts d \<equiv> map l_text (d_lines d)"

section \<open>Insertion\<close>

lemma mk_line_simps [simp]: "l_text (mk_line t e) = t" "l_ending (mk_line t e) = e"
  by (simp_all add: mk_line_def)

lemma texts_terminate_last: "map l_text (terminate_last d) = texts d"
proof (cases "d_lines d")
  case Nil
  then show ?thesis by (simp add: terminate_last_def)
next
  case (Cons a as)
  then have "map l_text (terminate_last d) =
      map l_text (butlast (d_lines d)) @ [l_text (last (d_lines d))]"
    by (simp add: terminate_last_def)
  also have "\<dots> = map l_text (butlast (d_lines d) @ [last (d_lines d)])" by simp
  also have "\<dots> = texts d" using Cons by (metis append_butlast_last_id list.simps(3))
  finally show ?thesis .
qed

lemma texts_doc_insert:
  "texts (doc_insert at ts d) = splice_at (min at (length (d_lines d))) ts (texts d)"
proof (cases "ts = []")
  case True
  then show ?thesis by (simp add: doc_insert_def splice_at_def)
next
  case False
  then show ?thesis
    by (simp add: doc_insert_def Let_def map_splice_at texts_terminate_last o_def case_prod_unfold)
qed

lemma length_doc_insert [simp]:
  "length (d_lines (doc_insert at ts d)) = length (d_lines d) + length ts"
  using arg_cong [OF texts_doc_insert [of at ts d], of length] by simp

lemma d_ending_doc_insert [simp]: "d_ending (doc_insert at ts d) = d_ending d"
  by (simp add: doc_insert_def Let_def)

definition text_ok :: "rstr \<Rightarrow> bool" where
  "text_ok t \<longleftrightarrow> 10 \<notin> set t \<and> (t = [] \<or> last t \<noteq> 13)"

text \<open>A document whose unterminated last line, when there is one, does not end in a carriage
  return: a terminator added after it stays a terminator of its own.\<close>

definition tame :: "Document \<Rightarrow> bool" where
  "tame d \<longleftrightarrow> wf_doc d \<and>
     is_some_and (last_opt (d_lines d)) (\<lambda>l. l_ending l = NoEnding \<longrightarrow> last (l_text l) \<noteq> 13)
       \<or> wf_doc d \<and> d_lines d = []"

lemma text_ok_Nil [simp]: "text_ok []"
  by (simp add: text_ok_def)

lemma text_ok_no_break: "\<not> has_break t \<Longrightarrow> text_ok t"
  by (simp add: text_ok_def has_break_no_lf has_break_no_cr)

lemma line_ok_mk_line:
  "text_ok t \<Longrightarrow> e \<noteq> NoEnding \<or> t \<noteq> [] \<Longrightarrow> line_ok (mk_line t e)"
  by (auto simp: text_ok_def line_ok_def)

lemma tame_snoc:
  "d_lines d = xs @ [l] \<Longrightarrow>
     tame d \<longleftrightarrow> wf_doc d \<and> (l_ending l = NoEnding \<longrightarrow> last (l_text l) \<noteq> 13)"
  by (simp add: tame_def last_opt_def)

lemma tame_wf: "tame d \<Longrightarrow> wf_doc d"
  by (auto simp: tame_def)

lemma last_split_lines_NoEnding:
  "split_lines t \<noteq> [] \<Longrightarrow> l_ending (last (split_lines t)) = NoEnding \<Longrightarrow>
     last (l_text (last (split_lines t))) = last t"
proof -
  assume ne: "split_lines t \<noteq> []" and e: "l_ending (last (split_lines t)) = NoEnding"
  let ?l = "last (split_lines t)"
  have "t = concat (map line_str (butlast (split_lines t) @ [?l]))"
    using ne split_lines_join [of t] by (simp del: map_append concat_append)
  then have t: "t = concat (map line_str (butlast (split_lines t))) @ l_text ?l"
    using e by (simp add: line_str_def)
  have "?l \<in> set (split_lines t)" using ne by simp
  then have "line_ok ?l" using wf_split_lines [of t] by (simp add: wf_lines_def list_all_iff)
  with e have "l_text ?l \<noteq> []" by (simp add: line_ok_def)
  with t show ?thesis by (metis last_appendR)
qed

lemma tame_split: "t = [] \<or> last t \<noteq> 13 \<Longrightarrow> tame (doc_split t)"
proof (cases "split_lines t = []")
  case True
  then show ?thesis by (simp add: tame_def wf_doc_split)
next
  case False
  assume t: "t = [] \<or> last t \<noteq> 13"
  with False have "t \<noteq> []" by auto
  with t False last_split_lines_NoEnding [of t] show ?thesis
    by (auto simp: tame_def wf_doc_split last_opt_def)
qed

lemma wf_enumerate:
  assumes "list_all text_ok ts" and "e \<noteq> NoEnding" and "ts = [] \<or> last ts \<noteq> []" and "n + length ts = m"
  shows "wf_lines (map (\<lambda>(i, t). mk_line t (if u \<and> i + 1 = m then NoEnding else e)) (enumerate n ts))"
  using assms
proof (induction ts arbitrary: n)
  case Nil
  then show ?case by simp
next
  case (Cons t ts)
  have IH: "wf_lines (map (\<lambda>(i, t). mk_line t (if u \<and> i + 1 = m then NoEnding else e)) (enumerate (Suc n) ts))"
    using Cons by (cases "ts = []") auto
  with Cons.prems show ?case
    by (cases "ts = []") (auto simp: wf_lines_Cons line_ok_mk_line)
qed

lemma enumerate_endings:
  assumes "e \<noteq> NoEnding" and "\<not> u"
  shows "list_all (\<lambda>l. l_ending l \<noteq> NoEnding)
     (map (\<lambda>(i, t). mk_line t (if u \<and> i + 1 = m then NoEnding else e)) (enumerate n ts))"
  using assms by (auto simp: list_all_iff)

lemma terminate_last_snoc:
  "d_lines d = xs @ [l] \<Longrightarrow> terminate_last d = xs @ [l\<lparr>l_ending := d_ending d\<rparr>]"
  by (cases xs) (auto simp: terminate_last_def)

text \<open>The lines an insertion brings, and the two shapes of its result: after an unterminated last
  line the terminator moves on, anywhere else the old lines stay as they are.\<close>

definition new_lines :: "bool \<Rightarrow> rstr list \<Rightarrow> Ending \<Rightarrow> Line list" where
  "new_lines u ts e =
     map (\<lambda>(i, t). mk_line t (if u \<and> i + 1 = length ts then NoEnding else e)) (enumerate 0 ts)"

lemma texts_new_lines [simp]: "map l_text (new_lines u ts e) = ts"
  by (simp add: new_lines_def case_prod_unfold o_def)

lemma new_lines_eq_Nil [simp]: "new_lines u ts e = [] \<longleftrightarrow> ts = []"
  by (metis length_0_conv length_map texts_new_lines)

lemma wf_new_lines:
  "list_all text_ok ts \<Longrightarrow> e \<noteq> NoEnding \<Longrightarrow> ts = [] \<or> last ts \<noteq> [] \<Longrightarrow> wf_lines (new_lines u ts e)"
  unfolding new_lines_def by (rule wf_enumerate) auto

lemma new_lines_terminated:
  "e \<noteq> NoEnding \<Longrightarrow> list_all (\<lambda>l. l_ending l \<noteq> NoEnding) (new_lines False ts e)"
  by (auto simp: new_lines_def list_all_iff)

lemma doc_insert_tail:
  assumes "ts \<noteq> []" and "length (d_lines d) \<le> at" and "d_lines d = xs @ [l]" and "l_ending l = NoEnding"
  shows "d_lines (doc_insert at ts d) = xs @ [l\<lparr>l_ending := d_ending d\<rparr>] @ new_lines True ts (d_ending d)"
  using assms
  by (simp add: doc_insert_def Let_def unterminated_tail_def last_opt_def terminate_last_snoc
      splice_at_def new_lines_def min_absorb2)

lemma doc_insert_mid:
  assumes "ts \<noteq> []" and "at < length (d_lines d) \<or> \<not> unterminated_tail d"
  shows "d_lines (doc_insert at ts d) =
     take at (d_lines d) @ new_lines False ts (d_ending d) @ drop at (d_lines d)"
  using assms
  by (auto simp: doc_insert_def Let_def splice_at_def new_lines_def min_def)

lemma wf_lines_terminated:
  "wf_lines (d_lines d) \<Longrightarrow> at < length (d_lines d) \<or> \<not> unterminated_tail d \<Longrightarrow>
     list_all (\<lambda>l. l_ending l \<noteq> NoEnding) (take at (d_lines d))"
proof (cases "drop at (d_lines d) = []")
  case False
  moreover assume "wf_lines (d_lines d)"
  ultimately show ?thesis
    using wf_lines_append [of "take at (d_lines d)" "drop at (d_lines d)"] by simp
next
  case True
  moreover assume "at < length (d_lines d) \<or> \<not> unterminated_tail d" and "wf_lines (d_lines d)"
  ultimately show ?thesis
    by (cases "d_lines d" rule: rev_cases)
       (auto simp: unterminated_tail_def last_opt_def wf_lines_def)
qed

lemma tame_insert_tail:
  assumes d: "tame d" and ts: "list_all text_ok ts" "ts \<noteq> []" "last ts \<noteq> []"
    and at: "length (d_lines d) \<le> at" and u: "unterminated_tail d"
  shows "tame (doc_insert at ts d)"
proof -
  from u obtain xs l where dl: "d_lines d = xs @ [l]" and l: "l_ending l = NoEnding"
    by (auto simp: unterminated_tail_def is_some_and_last_opt) (metis append_butlast_last_id)
  note lines = doc_insert_tail [OF ts(2) at dl l]
  let ?new = "new_lines True ts (d_ending d)"
  have e: "d_ending d \<noteq> NoEnding" and wf: "wf_lines (xs @ [l])"
    using tame_wf [OF d] dl by (auto simp: wf_doc_def)
  have "last (l_text l) \<noteq> 13" using d dl l by (simp add: tame_snoc)
  then have "wf_lines (xs @ [l\<lparr>l_ending := d_ending d\<rparr>] @ ?new)"
    using wf l e wf_new_lines [OF ts(1) e] ts(3)
    by (auto simp: wf_lines_append wf_lines_Cons line_ok_def)
  moreover have "l_text (last ?new) = last ts"
    using ts(2) by (metis last_map new_lines_eq_Nil texts_new_lines)
  moreover have "last (last ts) \<noteq> 13"
    using ts by (auto simp: list_all_iff text_ok_def)
  ultimately show ?thesis
    using lines e ts(2) by (simp add: tame_def wf_doc_def last_opt_def)
qed

lemma tame_insert_mid:
  assumes d: "tame d" and ts: "list_all text_ok ts" "ts \<noteq> []" "last ts \<noteq> []"
    and at: "at < length (d_lines d) \<or> \<not> unterminated_tail d"
  shows "tame (doc_insert at ts d)"
proof -
  note lines = doc_insert_mid [OF ts(2) at]
  let ?new = "new_lines False ts (d_ending d)"
  have e: "d_ending d \<noteq> NoEnding" and wf: "wf_lines (d_lines d)"
    using tame_wf [OF d] by (auto simp: wf_doc_def)
  have parts: "wf_lines (take at (d_lines d))" "wf_lines (drop at (d_lines d))"
    using wf wf_lines_append [of "take at (d_lines d)" "drop at (d_lines d)"] by simp_all
  note done_lines = new_lines_terminated [OF e, of ts]
  have "wf_lines (take at (d_lines d) @ ?new @ drop at (d_lines d))"
    using parts wf_new_lines [OF ts(1) e] ts(3) done_lines wf_lines_terminated [OF wf at]
    by (auto simp: wf_lines_append)
  moreover have "l_ending (last (d_lines (doc_insert at ts d))) = NoEnding \<longrightarrow>
      last (l_text (last (d_lines (doc_insert at ts d)))) \<noteq> 13"
  proof (cases "drop at (d_lines d) = []")
    case True
    then have "last (d_lines (doc_insert at ts d)) \<in> set ?new" using lines ts(2) by simp
    then show ?thesis using done_lines by (auto simp: list_all_iff)
  next
    case False
    then have "last (d_lines (doc_insert at ts d)) = last (d_lines d)" "d_lines d \<noteq> []"
      using lines by (auto simp: last_drop)
    then show ?thesis using d by (auto simp: tame_def last_opt_def)
  qed
  ultimately show ?thesis
    using lines e ts(2) by (simp add: tame_def wf_doc_def last_opt_def)
qed

lemma tame_doc_insert:
  assumes "tame d" and "list_all text_ok ts" and "ts = [] \<or> last ts \<noteq> []"
  shows "tame (doc_insert at ts d)"
proof (cases "ts = []")
  case True
  with assms(1) show ?thesis by (simp add: doc_insert_def)
next
  case False
  then show ?thesis
    using assms tame_insert_tail [of d ts at] tame_insert_mid [of d ts at] by (meson not_less)
qed

section \<open>The scan\<close>

text \<open>The state the scan is in after a list of lines.\<close>

fun scan_end :: "bool \<Rightarrow> nat \<Rightarrow> ScanState \<Rightarrow> rstr list \<Rightarrow> ScanState" where
  "scan_end fm i st [] = st"
| "scan_end fm i st (t # ts) = scan_end fm (Suc i) (fst (scan_step fm i t st)) ts"

definition scan_at :: "Document \<Rightarrow> nat \<Rightarrow> ScanState" where
  "scan_at d i = scan_end (front_matter_closes (d_lines d)) 0 scan_init (take i (texts d))"

lemma scan_loop_Cons:
  "scan_loop fm i st (t # ts) =
     ((case snd (snd (scan_step fm i t st)) of None \<Rightarrow> []
       | Some (level, ht) \<Rightarrow> [\<lparr>hl_index = i, hl_level = level, hl_text = ht\<rparr>]) @
        fst (scan_loop fm (Suc i) (fst (scan_step fm i t st)) ts),
      fst (snd (scan_step fm i t st)) # snd (scan_loop fm (Suc i) (fst (scan_step fm i t st)) ts))"
  by (simp add: Let_def split: prod.splits)

declare scan_loop.simps(2) [simp del] scan_loop_Cons [simp]

lemma scan_loop_append:
  "scan_loop fm i st (xs @ ys) =
     (fst (scan_loop fm i st xs) @ fst (scan_loop fm (i + length xs) (scan_end fm i st xs) ys),
      snd (scan_loop fm i st xs) @ snd (scan_loop fm (i + length xs) (scan_end fm i st xs) ys))"
  by (induction xs arbitrary: i st) simp_all

lemma length_scan_flags [simp]: "length (snd (scan_loop fm i st ts)) = length ts"
  by (induction ts arbitrary: i st) simp_all

definition shift_heading :: "nat \<Rightarrow> HeadingLine \<Rightarrow> HeadingLine" where
  "shift_heading n h = h\<lparr>hl_index := hl_index h + n\<rparr>"

lemma scan_step_index: "0 < i \<Longrightarrow> 0 < j \<Longrightarrow> scan_step fm i t st = scan_step fm' j t st"
  by (simp add: scan_step_def)

lemma scan_loop_shift:
  "0 < i \<Longrightarrow> scan_loop fm (i + n) st ts =
     (map (shift_heading n) (fst (scan_loop fm' i st ts)), snd (scan_loop fm' i st ts))"
proof (induction ts arbitrary: i st)
  case Nil
  then show ?case by simp
next
  case (Cons t ts)
  have "scan_step fm (i + n) t st = scan_step fm' i t st"
    using Cons.prems by (intro scan_step_index) auto
  then show ?case
    using Cons.IH [of "Suc i"] Cons.prems
    by (auto simp: shift_heading_def split: option.splits)
qed

text \<open>A line that opens nothing and heads nothing leaves the scan where it was.\<close>

definition plain_line :: "rstr \<Rightarrow> bool" where
  "plain_line t \<longleftrightarrow>
     opens_fence t = None \<and> parse_heading t = None \<and> \<not> closes_front_matter t"

lemma scan_plain:
  "list_all plain_line ts \<Longrightarrow>
     scan_loop fm i scan_init ts = ([], replicate (length ts) False) \<and>
     scan_end fm i scan_init ts = scan_init"
proof (induction ts arbitrary: i)
  case Nil
  then show ?case by simp
next
  case (Cons t ts)
  then have "scan_step fm i t scan_init = (scan_init, False, None)"
    by (auto simp: scan_step_def plain_line_def closes_front_matter_def scan_init_def)
  with Cons show ?case by simp
qed

lemma plain_line_Nil [simp]: "plain_line []"
  by (simp add: plain_line_def opens_fence_def parse_heading_def closes_front_matter_def
      trim_start_matches_def run_length_def)

text \<open>Every heading of the scan is one of the scanned lines, unprotected, at its own index.\<close>

lemma scan_heading_sound:
  "h \<in> set (fst (scan_loop fm i st ts)) \<Longrightarrow>
     i \<le> hl_index h \<and> hl_index h < i + length ts \<and>
     \<not> snd (scan_loop fm i st ts) ! (hl_index h - i) \<and>
     parse_heading (ts ! (hl_index h - i)) = Some (hl_level h, hl_text h)"
proof (induction ts arbitrary: i st)
  case Nil
  then show ?case by simp
next
  case (Cons t ts)
  obtain st' p hd where step: "scan_step fm i t st = (st', p, hd)"
    by (metis prod_cases3)
  show ?case
  proof (cases "h \<in> set (fst (scan_loop fm (Suc i) st' ts))")
    case True
    from Cons.IH [OF True] show ?thesis
      using step by (auto simp: nth_Cons')
  next
    case False
    with Cons.prems step have hd: "hd = Some (hl_level h, hl_text h)" and ix: "hl_index h = i"
      by (auto split: option.splits)
    from step hd have "\<not> p" and "parse_heading t = Some (hl_level h, hl_text h)"
      by (auto simp: scan_step_def split: if_splits option.splits prod.splits)
    with step ix show ?thesis by auto
  qed
qed

lemma scan_headings_sorted: "sorted_wrt (\<lambda>a b. hl_index a < hl_index b) (fst (scan_loop fm i st ts))"
proof (induction ts arbitrary: i st)
  case Nil
  then show ?case by simp
next
  case (Cons t ts)
  obtain st' p hd where step: "scan_step fm i t st = (st', p, hd)"
    by (metis prod_cases3)
  have "\<forall>b \<in> set (fst (scan_loop fm (Suc i) st' ts)). i < hl_index b"
    using scan_heading_sound by fastforce
  with Cons step show ?case
    by (auto simp: sorted_wrt_append split: option.splits)
qed

lemma heading_sound:
  assumes "h \<in> set (headings d)"
  shows "hl_index h < length (d_lines d)" and "\<not> is_protected d (hl_index h)"
    and "parse_heading (l_text (d_lines d ! hl_index h)) = Some (hl_level h, hl_text h)"
proof -
  have len: "length (protected d) = length (d_lines d)"
    by (simp add: protected_def doc_scan_def)
  have *: "hl_index h < length (d_lines d)" "\<not> protected d ! hl_index h"
      "parse_heading (l_text (d_lines d ! hl_index h)) = Some (hl_level h, hl_text h)"
    using scan_heading_sound [OF assms [unfolded headings_def doc_scan_def]]
    by (auto simp: protected_def doc_scan_def)
  then show "hl_index h < length (d_lines d)" and "\<not> is_protected d (hl_index h)"
    and "parse_heading (l_text (d_lines d ! hl_index h)) = Some (hl_level h, hl_text h)"
    using len by (simp_all add: is_protected_def get_at_def)
qed

lemma length_protected [simp]: "length (protected d) = length (d_lines d)"
  by (simp add: protected_def doc_scan_def)

lemma headings_sorted: "sorted_wrt (\<lambda>a b. hl_index a < hl_index b) (headings d)"
  unfolding headings_def doc_scan_def by (rule scan_headings_sorted)

section \<open>Resolving\<close>

lemma resolve_eq: "resolve E d h = resolve_among E (headings d) h"
proof -
  have "filter (\<lambda>c. 0 \<le> hl_index c \<and> hl_index c < length (d_lines d)) (headings d) = headings d"
    by (rule filter_True) (use heading_sound(1) in auto)
  then show ?thesis by (simp add: resolve_def resolve_within_def)
qed

lemma resolve_among_in: "resolve_among E hs h = Some f \<Longrightarrow> f \<in> set hs"
  by (auto simp: resolve_among_def Let_def or_else_def last_opt_def get_at_def
      split: if_splits option.splits dest: nth_mem last_in_set)

lemma resolve_in: "resolve E d h = Some f \<Longrightarrow> f \<in> set (headings d)"
  by (simp add: resolve_eq resolve_among_in)

lemma resolve_within_in:
  "resolve_within E d h a b = Some f \<Longrightarrow> f \<in> set (headings d) \<and> a \<le> hl_index f \<and> hl_index f < b"
  unfolding resolve_within_def by (drule resolve_among_in) auto

lemma resolve_among_map:
  assumes "\<And>c. hl_text (f c) = hl_text c"
  shows "resolve_among E (map f hs) h = map_option f (resolve_among E hs h)"
proof -
  have "or_else (get_at (map f ms) n) (last_opt (map f ms)) =
      map_option f (or_else (get_at ms n) (last_opt ms))" for ms n
    by (auto simp: or_else_def last_opt_def get_at_def last_map split: option.splits)
  then show ?thesis
    by (simp add: resolve_among_def Let_def filter_map o_def assms del: filter_empty_conv)
qed

section \<open>Section geometry\<close>

lemma skip_blank_back_bounds:
  "start \<le> e \<Longrightarrow> start \<le> skip_blank_back ls start e \<and> skip_blank_back ls start e \<le> e"
  by (induction e) auto

lemma skip_blank_back_segment:
  "start \<le> e \<Longrightarrow> e \<le> length ls \<Longrightarrow>
     skip_blank_back ls start e = start + length (drop_while_end is_blank (segment ls start e))"
proof (induction e)
  case 0
  then show ?case by simp
next
  case (Suc e)
  show ?case
  proof (cases "start = Suc e")
    case True
    then show ?thesis by simp
  next
    case False
    with Suc.prems have le: "start \<le> e" and lt: "e < length ls" by auto
    have "segment ls start (Suc e) = segment ls start e @ segment ls e (Suc e)"
      using le by (simp add: segment_append_segment)
    also have "segment ls e (Suc e) = [ls ! e]"
      using lt by (simp add: segment_def take_Suc_conv_app_nth hd_drop_conv_nth take_Suc)
    finally have "segment ls start (Suc e) = segment ls start e @ [ls ! e]" .
    with Suc le lt show ?thesis
      by (simp add: drop_while_end_snoc is_some_and_get_at)
  qed
qed

text \<open>The body of a section as the part of a list of texts that is left when trailing blank lines,
  one closing rule and the blank lines above it are dropped.\<close>

definition trim_body :: "rstr list \<Rightarrow> rstr list" where
  "trim_body ts =
     (let a = drop_while_end blank ts
      in if a \<noteq> [] \<and> is_thematic_break (last a) then drop_while_end blank (butlast a) else a)"

lemma map_drop_while_end: "map f (drop_while_end (\<lambda>x. p (f x)) xs) = drop_while_end p (map f xs)"
  by (simp add: drop_while_end_def rev_map dropWhile_map o_def)

lemma map_drop_blank: "map l_text (drop_while_end is_blank ls) = drop_while_end blank (map l_text ls)"
  using map_drop_while_end [of l_text blank ls] by (simp add: is_blank_def [abs_def])

lemma segment_prefix: "prefix p (segment xs i j) \<Longrightarrow> p = segment xs i (i + length p)"
  by (auto simp: segment_def prefix_def)
     (metis append_eq_conv_conj length_append length_take min.cobounded2 min.commute take_take
        le_add1 min.absorb1)

lemma trim_blank_end_lines:
  assumes "start \<le> e" and "e \<le> length (d_lines d)"
  defines "a \<equiv> drop_while_end is_blank (segment (d_lines d) start e)"
  shows "trim_blank_end d start e =
     start + length (if a \<noteq> [] \<and> is_thematic_break (l_text (last a))
                     then drop_while_end is_blank (butlast a) else a)"
proof -
  have skip: "skip_blank_back (d_lines d) start e = start + length a"
    using skip_blank_back_segment [OF assms(1,2)] by (simp add: a_def)
  have seg: "a = segment (d_lines d) start (start + length a)"
    unfolding a_def by (rule segment_prefix) (rule drop_while_end_prefix)
  have len: "start + length a \<le> length (d_lines d)"
    using skip_blank_back_bounds [OF assms(1)] assms(2) skip by (metis le_trans)
  show ?thesis
  proof (cases "a = []")
    case True
    then show ?thesis using skip by (simp add: trim_blank_end_def Let_def)
  next
    case False
    then obtain b l where bl: "a = b @ [l]" by (meson rev_exhaust)
    have l: "d_lines d ! (start + length b) = l"
      using nth_segment [of "start + length a" "d_lines d" "length b" start] seg bl len
      by (metis (no_types, lifting) add_diff_cancel_left' length_append_singleton lessI nth_append_length)
    have b: "segment (d_lines d) start (start + length b) = b"
      using segment_prefix [of b "d_lines d" start "start + length a"] seg bl
      by (metis prefixI)
    have "skip_blank_back (d_lines d) start (start + length b) = start + length (drop_while_end is_blank b)"
      using skip_blank_back_segment [of start "start + length b" "d_lines d"] len bl b by simp
    then show ?thesis
      using skip bl l len by (simp add: trim_blank_end_def Let_def is_some_and_get_at)
  qed
qed

lemma trim_blank_end_eq:
  assumes "start \<le> e" and "e \<le> length (d_lines d)"
  shows "trim_blank_end d start e = start + length (trim_body (segment (texts d) start e))"
proof -
  let ?a = "drop_while_end is_blank (segment (d_lines d) start e)"
  have a: "drop_while_end blank (segment (texts d) start e) = map l_text ?a"
    by (simp add: map_drop_blank map_segment)
  have "length (drop_while_end blank (butlast (map l_text ?a))) = length (drop_while_end is_blank (butlast ?a))"
    using arg_cong [OF map_drop_blank [of "butlast ?a"], of length] by (simp add: map_butlast)
  then show ?thesis
    by (auto simp: trim_blank_end_lines [OF assms] trim_body_def Let_def a last_map)
qed

lemma trim_body_prefix: "prefix (trim_body ts) ts"
proof -
  have a: "prefix (drop_while_end blank ts) ts" by (rule drop_while_end_prefix)
  have "prefix (drop_while_end blank (butlast (drop_while_end blank ts))) (butlast (drop_while_end blank ts))"
    by (rule drop_while_end_prefix)
  also have "prefix (butlast (drop_while_end blank ts)) (drop_while_end blank ts)"
    by (rule prefixeq_butlast)
  also note a
  finally show ?thesis using a by (simp add: trim_body_def Let_def)
qed

lemma trim_blank_end_bounds:
  assumes "start \<le> e" and "e \<le> length (d_lines d)"
  shows "start \<le> trim_blank_end d start e" and "trim_blank_end d start e \<le> e"
proof -
  have "length (trim_body (segment (texts d) start e)) \<le> e - start"
    using prefix_length_le [OF trim_body_prefix [of "segment (texts d) start e"]] assms by simp
  then show "start \<le> trim_blank_end d start e" and "trim_blank_end d start e \<le> e"
    using assms by (simp_all add: trim_blank_end_eq)
qed

definition section_ok :: "Document \<Rightarrow> Section \<Rightarrow> bool" where
  "section_ok d s \<longleftrightarrow>
     s_start s \<le> s_own_end s \<and> s_own_end s \<le> s_body_end s \<and>
     s_body_end s \<le> s_end s \<and> s_end s \<le> length (d_lines d)"

lemma section_ok_whole: "section_ok d (whole d)"
  using skip_blank_back_bounds [of 0 "length (d_lines d)" "d_lines d"]
  by (simp add: section_ok_def whole_def Let_def)

text \<open>The three limits of a section, named.\<close>

definition sec_end :: "Document \<Rightarrow> HeadingLine \<Rightarrow> nat" where
  "sec_end d h =
     (case find (\<lambda>other. hl_index h < hl_index other \<and> hl_level other \<le> hl_level h) (headings d) of
        Some other \<Rightarrow> hl_index other
      | None \<Rightarrow> length (d_lines d))"

definition sec_body_end :: "Document \<Rightarrow> HeadingLine \<Rightarrow> nat" where
  "sec_body_end d h = trim_blank_end d (hl_index h + 1) (sec_end d h)"

definition sec_own_limit :: "Document \<Rightarrow> HeadingLine \<Rightarrow> nat" where
  "sec_own_limit d h =
     (case find (\<lambda>other. hl_index h < hl_index other \<and> hl_index other < sec_body_end d h) (headings d) of
        Some other \<Rightarrow> hl_index other
      | None \<Rightarrow> sec_body_end d h)"

lemma doc_section_eq:
  "doc_section d h =
     \<lparr>s_heading = Some (hl_index h), s_start = hl_index h + 1, s_body_end = sec_body_end d h,
      s_own_end = trim_blank_end d (hl_index h + 1) (sec_own_limit d h), s_end = sec_end d h\<rparr>"
  unfolding doc_section_def Let_def sec_own_limit_def sec_body_end_def sec_end_def by (rule refl)

lemma sec_end_bounds:
  assumes "h \<in> set (headings d)"
  shows "hl_index h + 1 \<le> sec_end d h" and "sec_end d h \<le> length (d_lines d)"
  using heading_sound(1) [OF assms] heading_sound(1) [of _ d]
  by (auto simp: sec_end_def split: option.splits dest!: find_SomeD intro: less_imp_le)

lemma sec_body_end_bounds:
  assumes "h \<in> set (headings d)"
  shows "hl_index h + 1 \<le> sec_body_end d h" and "sec_body_end d h \<le> sec_end d h"
  unfolding sec_body_end_def
  using trim_blank_end_bounds [OF sec_end_bounds [OF assms]] by simp_all

lemma sec_own_limit_bounds:
  assumes "h \<in> set (headings d)"
  shows "hl_index h + 1 \<le> sec_own_limit d h" and "sec_own_limit d h \<le> sec_body_end d h"
  using sec_body_end_bounds [OF assms]
  by (auto simp: sec_own_limit_def split: option.splits dest!: find_SomeD)

lemma section_ok_doc_section:
  assumes "h \<in> set (headings d)"
  shows "section_ok d (doc_section d h)"
proof -
  note b = sec_end_bounds [OF assms] sec_body_end_bounds [OF assms] sec_own_limit_bounds [OF assms]
  have "sec_own_limit d h \<le> length (d_lines d)" using b by linarith
  from trim_blank_end_bounds [OF b(5) this] b show ?thesis
    by (simp add: section_ok_def doc_section_eq)
qed

end
