(* ===== verification/Apply.thy ===== *)
theory Apply
  imports Document
begin

text \<open>
  The application rules of \<open>crates/thock-sync-core/apply.rs\<close>: how a write finds its target in a
  note, how it changes the note, and when its effect is already there.  A mutable document and
  the optional structural outcome are threaded as a state; an early return of the source is the
  result triple with the outcome it reports.
\<close>

section \<open>Outcomes\<close>

datatype Outcome = Created | SectionAdded | OApplied | KeptBoth | Noop

record Applied =
  a_text :: rstr
  a_outcome :: Outcome

definition CONFLICT_MARKER :: rstr where
  "CONFLICT_MARKER = lit ''<!--thock:also-->''"

section \<open>Finding and inserting\<close>

definition own :: "Section \<Rightarrow> Section" where
  "own s = s\<lparr>s_body_end := s_own_end s\<rparr>"

definition first_body_line :: "Document \<Rightarrow> Section \<Rightarrow> nat" where
  "first_body_line d s =
     (case find (\<lambda>i. is_some_and (get_at (d_lines d) i) (\<lambda>l. \<not> is_blank l))
             [s_start s..<s_body_end s] of
        Some i \<Rightarrow> i
      | None \<Rightarrow> s_body_end s)"

text \<open>The loop of \<open>block_end\<close>, from \<open>end\<close> on, with the end of the last content line so far.\<close>

function block_end_loop :: "Line list \<Rightarrow> nat \<Rightarrow> nat \<Rightarrow> nat \<Rightarrow> nat" where
  "block_end_loop lines body_end e last_content =
     (if e < body_end then
        (case get_at lines e of
           None \<Rightarrow> last_content
         | Some line \<Rightarrow>
             if is_blank line then block_end_loop lines body_end (e + 1) last_content
             else if starts_with [32] (l_text line) \<or> starts_with [9] (l_text line)
             then block_end_loop lines body_end (e + 1) (e + 1)
             else last_content)
      else last_content)"
  by pat_completeness auto
termination
  by (relation "measure (\<lambda>(lines, body_end, e, last_content). body_end - e)") auto

declare block_end_loop.simps [simp del]

definition block_end :: "Document \<Rightarrow> Section \<Rightarrow> nat \<Rightarrow> nat" where
  "block_end d s index = block_end_loop (d_lines d) (s_body_end s) (index + 1) (index + 1)"

definition cut :: "nat \<Rightarrow> nat \<Rightarrow> Document \<Rightarrow> Document" where
  "cut start end0 d =
     (let e = min end0 (length (d_lines d))
      in if e \<le> start then d
         else let lines = drain start e (d_lines d);
                  before_blank = (0 < start \<and> is_some_and (get_at lines (start - 1)) is_blank);
                  after_blank = is_some_and (get_at lines start) is_blank
              in d\<lparr>d_lines := if before_blank \<and> after_blank
                               then drain start (start + 1) lines else lines\<rparr>)"

definition mark :: "rstr \<Rightarrow> rstr" where
  "mark line = trim_end line @ [32] @ CONFLICT_MARKER"

definition normalize_endings :: "rstr \<Rightarrow> rstr" where
  "normalize_endings t = str_replace [13, 10] [10] t"

definition content_lines :: "rstr \<Rightarrow> rstr list" where
  "content_lines content =
     (let lines = split_on (\<lambda>c. c = 10) (normalize_endings content)
      in if last lines = [] then butlast lines else lines)"

definition adjacent_run :: "(nat \<times> rstr) list \<Rightarrow> bool" where
  "adjacent_run window =
     list_all (\<lambda>pair. map_option fst (get_at pair 1) = map_option (\<lambda>x. fst x + 1) (get_at pair 0))
       (windows 2 window)"

definition contains_run :: "(nat \<times> rstr) list \<Rightarrow> rstr list \<Rightarrow> bool" where
  "contains_run body lines =
     (if lines = [] then True
      else if length body < length lines then False
      else list_ex (\<lambda>window. adjacent_run window \<and>
               list_all (\<lambda>(have, want). trim_end (snd have) = trim_end want) (zip window lines))
             (windows (length lines) body))"

definition find_section :: "env \<Rightarrow> Document \<Rightarrow> Heading option \<Rightarrow> Section option" where
  "find_section E d heading =
     (case heading of
        None \<Rightarrow> Some (whole d)
      | Some h \<Rightarrow> map_option (doc_section d) (resolve E d h))"

definition insert_lines :: "Section \<Rightarrow> nat \<Rightarrow> rstr list \<Rightarrow> bool \<Rightarrow> Document \<Rightarrow> Document" where
  "insert_lines s at lines blank_line_before d =
     (if lines = [] then d
      else let needs_blank =
                 (blank_line_before \<and>
                  (case at of 0 \<Rightarrow> False
                   | Suc index \<Rightarrow>
                       s_heading s \<noteq> Some index \<and>
                       is_some_and (get_at (d_lines d) index) (\<lambda>l. \<not> is_blank l)))
           in doc_insert at (if needs_blank then [] # lines else lines) d)"

text \<open>Where a missing heading goes, and the lines that bring it.\<close>

definition heading_slot :: "Document \<Rightarrow> Heading \<Rightarrow> nat \<times> rstr list" where
  "heading_slot d h =
     (case find (\<lambda>c. hl_level c = 1) (drop 1 (headings d)) of
        Some c \<Rightarrow>
          (hl_index c,
           (if 0 < hl_index c \<and>
               is_some_and (get_at (d_lines d) (hl_index c - 1)) (\<lambda>l. \<not> is_blank l)
            then [[]] else []) @ [heading_line h, []])
      | None \<Rightarrow>
          (length (d_lines d),
           (if is_some_and (last_opt (d_lines d)) (\<lambda>l. \<not> is_blank l) then [[]] else []) @
           [heading_line h]))"

definition add_outcome :: "Outcome option \<Rightarrow> Outcome option" where
  "add_outcome outcome = (if outcome = None then Some SectionAdded else outcome)"

definition locate ::
    "env \<Rightarrow> Heading option \<Rightarrow> Document \<times> Outcome option \<Rightarrow> Document \<times> Section \<times> Outcome option" where
  "locate E heading st =
     (let (d, outcome) = st
      in case heading of
           None \<Rightarrow> (d, whole d, outcome)
         | Some h \<Rightarrow>
             (case resolve E d h of
                Some found \<Rightarrow> (d, doc_section d found, outcome)
              | None \<Rightarrow>
                  let (at, texts) = heading_slot d h;
                      d' = doc_insert at texts d
                  in (d',
                      (case resolve E d' h of Some found \<Rightarrow> doc_section d' found | None \<Rightarrow> whole d'),
                      add_outcome outcome)))"

definition locate_group ::
    "env \<Rightarrow> Heading option \<Rightarrow> Heading option \<Rightarrow> Document \<times> Outcome option
       \<Rightarrow> Document \<times> Section \<times> Outcome option" where
  "locate_group E to create_under st =
     (let (d, outcome) = st
      in case to of
           None \<Rightarrow> (d, whole d, outcome)
         | Some to' \<Rightarrow>
             (case create_under of
                None \<Rightarrow>
                  (case resolve E d to' of
                     Some found \<Rightarrow> (d, doc_section d found, outcome)
                   | None \<Rightarrow> locate E (Some to') (d, outcome))
              | Some parent0 \<Rightarrow>
                  let (d1, parent, outcome1) = locate E (Some parent0) (d, outcome)
                  in case resolve_within E d1 to' (s_start parent) (s_end parent) of
                       Some found \<Rightarrow> (d1, doc_section d1 found, outcome1)
                     | None \<Rightarrow>
                         let d2 = insert_lines parent (s_body_end parent) [heading_line to'] True d1
                         in (d2,
                             (case resolve_within E d2 to' (s_start parent) (length (d_lines d2)) of
                                Some found \<Rightarrow> doc_section d2 found
                              | None \<Rightarrow> whole d2),
                             add_outcome outcome1)))"

definition find_group ::
    "env \<Rightarrow> Document \<Rightarrow> Heading option \<Rightarrow> Heading option \<Rightarrow> Section option" where
  "find_group E d to create_under =
     (case to of
        None \<Rightarrow> Some (whole d)
      | Some to' \<Rightarrow>
          map_option (doc_section d)
            (case create_under of
               Some parent0 \<Rightarrow>
                 (case find_section E d (Some parent0) of
                    None \<Rightarrow> None
                  | Some parent \<Rightarrow> resolve_within E d to' (s_start parent) (s_end parent))
             | None \<Rightarrow> resolve E d to'))"

text \<open>The lines a line rule may name: the hash agrees and something is left to name it by.\<close>

definition names_line :: "env \<Rightarrow> rstr \<Rightarrow> rstr \<Rightarrow> bool" where
  "names_line E wanted t \<longleftrightarrow> line_hash E t = wanted \<and> normalize_line t \<noteq> []"

definition find_line :: "env \<Rightarrow> Document \<Rightarrow> Section \<Rightarrow> rstr \<Rightarrow> nat \<Rightarrow> nat option" where
  "find_line E d s wanted ordinal =
     (let matches = map fst (filter (\<lambda>(_, t). names_line E wanted t) (matchable d s))
      in or_else (get_at matches ordinal) (first_opt matches))"

section \<open>Is the effect already present?\<close>

definition place_reached ::
    "env \<Rightarrow> Document \<Rightarrow> Section \<Rightarrow> Place \<Rightarrow> nat \<Rightarrow> bool" where
  "place_reached E d destination place index =
     (case place of
        Top \<Rightarrow> index = first_body_line d destination
      | PlaceEnd \<Rightarrow> block_end d destination index = s_body_end destination
      | After anchor ordinal \<Rightarrow>
          (case find_line E d destination anchor ordinal of
             Some a \<Rightarrow> block_end d destination a = index
           | None \<Rightarrow> block_end d destination index = s_body_end destination))"

fun effect_present_op :: "env \<Rightarrow> Document \<Rightarrow> rstr \<Rightarrow> Operation \<Rightarrow> bool" where
  "effect_present_op E d content (PutFile _ _) = False"
| "effect_present_op E d content (MoveFile _) = False"
| "effect_present_op E d content (Create wanted) =
     (normalize_endings content = normalize_endings wanted \<or>
      contains_run (matchable d (whole d)) (content_lines wanted))"
| "effect_present_op E d content (Append heading lines _ _ _ _) =
     (case find_section E d heading of
        None \<Rightarrow> False
      | Some s \<Rightarrow> contains_run (matchable d s) lines)"
| "effect_present_op E d content (ReplaceLine heading wanted ordinal new_line) =
     (case find_section E d heading of
        None \<Rightarrow> False
      | Some s \<Rightarrow>
          let equals = (\<lambda>line. trim_end line = trim_end new_line \<or> trim_end line = mark new_line)
          in case find_line E d s wanted ordinal of
               Some index \<Rightarrow> is_some_and (get_at (d_lines d) index) (\<lambda>l. equals (l_text l))
             | None \<Rightarrow>
                 list_ex (\<lambda>(_, line). equals line \<or> line_hash E line = line_hash E new_line)
                   (matchable d s))"
| "effect_present_op E d content (RemoveLine heading wanted _) =
     (case find_section E d heading of
        None \<Rightarrow> True
      | Some s \<Rightarrow> \<not> list_ex (\<lambda>(_, line). line_hash E line = wanted) (matchable d s))"
| "effect_present_op E d content (ReplaceSection heading _ lines) =
     (case find_section E d (Some heading) of
        None \<Rightarrow> False
      | Some s \<Rightarrow>
          let body = body_texts d s
          in hash_lines E body = hash_lines E lines \<or>
             (case find (\<lambda>line. trim line \<noteq> []) lines of
                None \<Rightarrow> False
              | Some first \<Rightarrow> list_ex (\<lambda>line. trim_end line = mark first) body))"
| "effect_present_op E d content (MoveBlock heading wanted _ to place new_line create_under) =
     (case map_option own (find_group E d to create_under) of
        None \<Rightarrow> False
      | Some destination \<Rightarrow>
          let landed = (case new_line of Some l \<Rightarrow> line_hash E l | None \<Rightarrow> wanted);
              placed = list_ex (\<lambda>(index, _). place_reached E d destination place index)
                         (filter (\<lambda>(_, t). names_line E landed t) (matchable d destination))
          in placed \<and>
             (case map_option own (find_section E d heading) of
                Some source \<Rightarrow>
                  if s_heading source \<noteq> s_heading destination
                  then \<not> list_ex (\<lambda>(_, t). names_line E wanted t) (matchable d source)
                  else True
              | None \<Rightarrow> True))"
| "effect_present_op E d content (RemoveBlock heading wanted _) =
     (case map_option own (find_section E d heading) of
        None \<Rightarrow> True
      | Some s \<Rightarrow> \<not> list_ex (\<lambda>(_, t). names_line E wanted t) (matchable d s))"

definition effect_present :: "env \<Rightarrow> rstr \<Rightarrow> Write \<Rightarrow> bool" where
  "effect_present E content w = effect_present_op E (doc_split content) content (w_operation w)"

section \<open>Applying\<close>

definition set_line_text :: "nat \<Rightarrow> rstr \<Rightarrow> Document \<Rightarrow> Document" where
  "set_line_text i t d =
     (if i < length (d_lines d)
      then d\<lparr>d_lines := (d_lines d)[i := (d_lines d ! i)\<lparr>l_text := t\<rparr>]\<rparr> else d)"

definition remove_line_at :: "nat \<Rightarrow> Document \<Rightarrow> Document" where
  "remove_line_at i d =
     (if i < length (d_lines d) then d\<lparr>d_lines := drain i (i + 1) (d_lines d)\<rparr> else d)"

text \<open>The stale \<open>replace_section\<close>: the first non-blank line carries the marker.\<close>

fun mark_first :: "rstr list \<Rightarrow> rstr list" where
  "mark_first [] = []"
| "mark_first (l # ls) = (if trim l \<noteq> [] then mark l # ls else l # mark_first ls)"

text \<open>The texts of a block as it lands.\<close>

definition block_texts :: "Document \<Rightarrow> nat \<Rightarrow> nat \<Rightarrow> rstr option \<Rightarrow> rstr list" where
  "block_texts d index e new_line =
     (let texts = (if index \<le> e \<and> e \<le> length (d_lines d)
                   then map l_text (segment (d_lines d) index e) else [])
      in case (new_line, texts) of
           (Some l, _ # rest) \<Rightarrow> l # rest
         | _ \<Rightarrow> texts)"

definition landing :: "env \<Rightarrow> Document \<Rightarrow> Section \<Rightarrow> Place \<Rightarrow> nat" where
  "landing E d destination place =
     (case place of
        Top \<Rightarrow> first_body_line d destination
      | PlaceEnd \<Rightarrow> s_body_end destination
      | After anchor anchor_ordinal \<Rightarrow>
          (case find_line E d destination anchor anchor_ordinal of
             Some a \<Rightarrow> block_end d destination a
           | None \<Rightarrow> s_body_end destination))"

definition append_at :: "env \<Rightarrow> Document \<Rightarrow> Section \<Rightarrow> Placement \<Rightarrow> Anchor option \<Rightarrow> nat" where
  "append_at E d s placement after =
     (case Option.bind after (\<lambda>anchor.
             map_option (block_end d s) (find_line E d s (a_line_hash anchor) (a_ordinal anchor))) of
        Some at \<Rightarrow> at
      | None \<Rightarrow> (case placement of AtEnd \<Rightarrow> s_body_end s | BeforeChildren \<Rightarrow> s_own_end s))"

fun apply_op ::
    "env \<Rightarrow> Operation \<Rightarrow> Document \<times> Outcome option \<Rightarrow> Document \<times> Outcome option \<times> Outcome" where
  "apply_op E (PutFile _ _) (d, outcome) = (d, outcome, Noop)"
| "apply_op E (MoveFile _) (d, outcome) = (d, outcome, Noop)"
| "apply_op E (Create content) (d, outcome) =
     (insert_lines (whole d) (s_body_end (whole d)) (content_lines content) True d, outcome, OApplied)"
| "apply_op E (Append heading lines placement blank_line_before _ after) (d, outcome) =
     (let (d', s, outcome') = locate E heading (d, outcome)
      in (insert_lines s (append_at E d' s placement after) lines blank_line_before d',
          outcome', OApplied))"
| "apply_op E (ReplaceLine heading wanted ordinal new_line) (d, outcome) =
     (let (d', s, outcome') = locate E heading (d, outcome)
      in case find_line E d' s wanted ordinal of
           Some index \<Rightarrow> (set_line_text index new_line d', outcome', OApplied)
         | None \<Rightarrow> (insert_lines s (s_body_end s) [mark new_line] False d', outcome', KeptBoth))"
| "apply_op E (RemoveLine heading wanted ordinal) (d, outcome) =
     (let (d', s, outcome') = locate E heading (d, outcome)
      in case find_line E d' s wanted ordinal of
           Some index \<Rightarrow> (remove_line_at index d', outcome', OApplied)
         | None \<Rightarrow> (d', outcome', Noop))"
| "apply_op E (ReplaceSection heading base_hash lines) (d, outcome) =
     (let (d', s, outcome') = locate E (Some heading) (d, outcome)
      in if hash_lines E (body_texts d' s) = base_hash then
           (doc_insert (s_start s) lines
              (d'\<lparr>d_lines := drain (s_start s) (s_body_end s) (d_lines d')\<rparr>), outcome', OApplied)
         else if list_all (\<lambda>line. trim line = []) lines then (d', outcome', Noop)
         else (insert_lines s (s_body_end s) (mark_first lines) True d', outcome', KeptBoth))"
| "apply_op E (MoveBlock heading wanted ordinal to place new_line create_under) (d, outcome) =
     (case map_option own (find_section E d heading) of
        None \<Rightarrow> (d, outcome, Noop)
      | Some source \<Rightarrow>
          (case find_line E d source wanted ordinal of
             None \<Rightarrow> (d, outcome, Noop)
           | Some index \<Rightarrow>
               let e = block_end d source index;
                   texts = block_texts d index e new_line;
                   (d', s', outcome') = locate_group E to create_under (cut index e d, outcome);
                   destination = own s'
               in (insert_lines destination (landing E d' destination place) texts False d',
                   outcome', OApplied)))"
| "apply_op E (RemoveBlock heading wanted ordinal) (d, outcome) =
     (case map_option own (find_section E d heading) of
        None \<Rightarrow> (d, outcome, Noop)
      | Some s \<Rightarrow>
          (case find_line E d s wanted ordinal of
             Some index \<Rightarrow> (cut index (block_end d s index) d, outcome, OApplied)
           | None \<Rightarrow> (d, outcome, Noop)))"

definition finish :: "Document \<times> Outcome option \<times> Outcome \<Rightarrow> Applied" where
  "finish r =
     (let (d, outcome, applied) = r
      in \<lparr>a_text = doc_join d,
          a_outcome = (case outcome of Some structural \<Rightarrow> structural | None \<Rightarrow> applied)\<rparr>)"

text \<open>The document a write starts from when the file does not exist.\<close>

definition fresh_document :: "Operation \<Rightarrow> rstr option \<Rightarrow> Document" where
  "fresh_document oper seed =
     (case (oper, seed) of
        (Append _ _ _ _ True _, Some s) \<Rightarrow> doc_split s
      | _ \<Rightarrow>
          (case op_heading oper of
             Some h \<Rightarrow> doc_split (heading_line h @ [10, 10])
           | None \<Rightarrow> doc_empty))"

definition apply_write :: "env \<Rightarrow> rstr option \<Rightarrow> Write \<Rightarrow> rstr option \<Rightarrow> Applied" where
  "apply_write E existing w seed =
     (let oper = w_operation w
      in if is_file_level oper then
           \<lparr>a_text = (case existing of Some t \<Rightarrow> t | None \<Rightarrow> []), a_outcome = Noop\<rparr>
         else case existing of
           Some t \<Rightarrow>
             if effect_present E t w then \<lparr>a_text = t, a_outcome = Noop\<rparr>
             else finish (apply_op E oper (doc_split t, None))
         | None \<Rightarrow>
             (case oper of
                Create content \<Rightarrow> \<lparr>a_text = content, a_outcome = Created\<rparr>
              | _ \<Rightarrow> finish (apply_op E oper (fresh_document oper seed, Some Created))))"

end
