(* ===== verification/Insertion.thy ===== *)
theory Insertion
  imports Document_Props Apply
begin

text \<open>
  What an insertion of plain lines does to the rest of a note: the scan, the headings, the
  sections and the matchable lines of the new document in terms of the old one.  The lemmas of
  this theory carry the proof that applying an append twice changes nothing the second time.
\<close>

section \<open>Inserting plain lines\<close>

definition shift_from :: "nat \<Rightarrow> nat \<Rightarrow> HeadingLine \<Rightarrow> HeadingLine" where
  "shift_from at n h = (if hl_index h < at then h else shift_heading n h)"

lemma shift_from_simps [simp]:
  "hl_text (shift_from at n h) = hl_text h" "hl_level (shift_from at n h) = hl_level h"
  "hl_index (shift_from at n h) = (if hl_index h < at then hl_index h else hl_index h + n)"
  by (simp_all add: shift_from_def shift_heading_def)

lemma find_map_list: "find p (map f xs) = map_option f (find (\<lambda>x. p (f x)) xs)"
  by (induction xs) auto

lemma find_cong_list: "(\<And>x. x \<in> set xs \<Longrightarrow> p x = q x) \<Longrightarrow> find p xs = find q xs"
  by (induction xs) auto

lemma front_matter_texts:
  "front_matter_closes ls = list_ex closes_front_matter (drop 1 (map l_text ls))"
  by (simp add: front_matter_closes_def drop_map list_ex_iff)

text \<open>The situation of an insertion: \<open>d'\<close> is \<open>d\<close> with \<open>ts\<close> before line \<open>at\<close>.\<close>

definition inserted :: "Document \<Rightarrow> nat \<Rightarrow> rstr list \<Rightarrow> Document \<Rightarrow> bool" where
  "inserted d at ts d' \<longleftrightarrow>
     at \<le> length (d_lines d) \<and> texts d' = splice_at at ts (texts d)"

lemma inserted_doc_insert: "at \<le> length (d_lines d) \<Longrightarrow> inserted d at ts (doc_insert at ts d)"
  by (simp add: inserted_def texts_doc_insert min_absorb1)

lemma inserted_length: "inserted d at ts d' \<Longrightarrow> length (d_lines d') = length (d_lines d) + length ts"
  by (metis inserted_def length_map length_splice_at)

lemma inserted_front_matter:
  assumes "inserted d at ts d'" and "0 < at" and "list_all plain_line ts"
  shows "front_matter_closes (d_lines d') = front_matter_closes (d_lines d)"
proof -
  have tx: "texts d' = take at (texts d) @ ts @ drop at (texts d)"
    using assms(1) by (simp add: inserted_def splice_at_def)
  have ne: "take at (texts d) \<noteq> []" if "texts d \<noteq> []"
    using assms(2) that by simp
  have ts: "\<not> list_ex closes_front_matter ts"
    using assms(3) by (auto simp: list_ex_iff list_all_iff plain_line_def)
  show ?thesis
  proof (cases "texts d = []")
    case True
    with assms(1,2) show ?thesis by (simp add: inserted_def)
  next
    case False
    have "drop 1 (texts d) = drop 1 (take at (texts d)) @ drop at (texts d)"
      using ne [OF False] by (metis append_take_drop_id drop_Suc_Cons drop_0 list.exhaust append_Cons One_nat_def)
    moreover have "drop 1 (texts d') = drop 1 (take at (texts d)) @ ts @ drop at (texts d)"
      using ne [OF False] tx by (cases "take at (texts d)") auto
    ultimately show ?thesis using ts by (simp add: front_matter_texts)
  qed
qed

lemma inserted_scan:
  assumes ins: "inserted d at ts d'" and at: "0 < at" and plain: "list_all plain_line ts"
    and st: "scan_at d at = scan_init"
  shows "headings d' = map (shift_from at (length ts)) (headings d)"
    and "protected d' = splice_at at (replicate (length ts) False) (protected d)"
proof -
  let ?fm = "front_matter_closes (d_lines d)"
  let ?A = "take at (texts d)" and ?B = "drop at (texts d)"
  have fm: "front_matter_closes (d_lines d') = ?fm"
    by (rule inserted_front_matter [OF ins at plain])
  have len: "length ?A = at" using ins by (simp add: inserted_def)
  have e: "scan_end ?fm 0 scan_init ?A = scan_init" using st by (simp add: scan_at_def)
  have d: "doc_scan d = (fst (scan_loop ?fm 0 scan_init ?A) @ fst (scan_loop ?fm at scan_init ?B),
      snd (scan_loop ?fm 0 scan_init ?A) @ snd (scan_loop ?fm at scan_init ?B))"
    using scan_loop_append [of ?fm 0 scan_init ?A ?B] len e by (simp add: doc_scan_def)
  have "texts d' = ?A @ ts @ ?B" using ins by (simp add: inserted_def splice_at_def)
  then have d': "doc_scan d' =
     (fst (scan_loop ?fm 0 scan_init ?A) @ fst (scan_loop ?fm (at + length ts) scan_init ?B),
      snd (scan_loop ?fm 0 scan_init ?A) @ replicate (length ts) False @
        snd (scan_loop ?fm (at + length ts) scan_init ?B))"
    using scan_loop_append [of ?fm 0 scan_init ?A "ts @ ?B"]
      scan_loop_append [of ?fm at scan_init ts ?B] scan_plain [OF plain, of ?fm at] len e fm
    by (simp add: doc_scan_def)
  have shift: "scan_loop ?fm (at + length ts) scan_init ?B =
      (map (shift_heading (length ts)) (fst (scan_loop ?fm at scan_init ?B)), snd (scan_loop ?fm at scan_init ?B))"
    by (rule scan_loop_shift [OF at])
  have lo: "\<forall>h \<in> set (fst (scan_loop ?fm 0 scan_init ?A)). hl_index h < at"
    using scan_heading_sound len by fastforce
  have hi: "\<forall>h \<in> set (fst (scan_loop ?fm at scan_init ?B)). \<not> hl_index h < at"
    using scan_heading_sound by fastforce
  show "headings d' = map (shift_from at (length ts)) (headings d)"
    using lo hi by (simp add: headings_def d d' shift shift_from_def map_idI)
  have "length (snd (scan_loop ?fm 0 scan_init ?A)) = at" using len by simp
  then show "protected d' = splice_at at (replicate (length ts) False) (protected d)"
    by (simp add: protected_def d d' shift splice_at_def)
qed

lemma inserted_resolve:
  assumes "inserted d at ts d'" and "0 < at" and "list_all plain_line ts" and "scan_at d at = scan_init"
  shows "resolve E d' h = map_option (shift_from at (length ts)) (resolve E d h)"
  by (simp add: resolve_eq inserted_scan(1) [OF assms] resolve_among_map)

lemma inserted_sec_end:
  assumes ins: "inserted d at ts d'" and at: "0 < at" and plain: "list_all plain_line ts"
    and st: "scan_at d at = scan_init" and h: "hl_index h < at" and e: "at \<le> sec_end d h"
  shows "sec_end d' h = sec_end d h + length ts"
proof -
  let ?p = "\<lambda>other. hl_index h < hl_index other \<and> hl_level other \<le> hl_level h"
  have f: "find ?p (headings d') = map_option (shift_from at (length ts)) (find ?p (headings d))"
    unfolding inserted_scan(1) [OF ins at plain st] find_map_list
    by (rule arg_cong [where f = "map_option _"]) (rule find_cong_list, use h in auto)
  show ?thesis
    using f e inserted_length [OF ins] by (auto simp: sec_end_def split: option.splits)
qed

section \<open>The trimmed body after an insertion\<close>

definition solid :: "rstr \<Rightarrow> bool" where
  "solid t \<longleftrightarrow> \<not> blank t \<and> \<not> is_thematic_break t"

lemma trim_body_append:
  "trim_body (xs @ ys) =
     (if trim_body ys \<noteq> [] then xs @ trim_body ys
      else if drop_while_end blank ys = [] then trim_body xs
      else drop_while_end blank xs)"
proof (cases "drop_while_end blank ys" rule: rev_cases)
  case Nil
  then have "\<forall>y \<in> set ys. blank y" by (simp add: drop_while_end_eq_Nil)
  then have "drop_while_end blank (xs @ ys) = drop_while_end blank xs"
    by (simp add: drop_while_end_append_all)
  with Nil show ?thesis by (simp add: trim_body_def Let_def)
next
  case (snoc zs z)
  then have a: "drop_while_end blank (xs @ ys) = xs @ zs @ [z]"
    using drop_while_end_append_some [of blank ys xs] by simp
  show ?thesis
  proof (cases "is_thematic_break z")
    case False
    with a snoc show ?thesis by (simp add: trim_body_def Let_def)
  next
    case True
    have b: "trim_body (xs @ ys) = drop_while_end blank (xs @ zs)"
      using True a by (simp add: trim_body_def Let_def butlast_append)
    have c: "trim_body ys = drop_while_end blank zs"
      using True snoc by (simp add: trim_body_def Let_def)
    show ?thesis
    proof (cases "drop_while_end blank zs = []")
      case True
      then have "drop_while_end blank (xs @ zs) = drop_while_end blank xs"
        by (simp add: drop_while_end_eq_Nil drop_while_end_append_all)
      with b c snoc True show ?thesis by simp
    next
      case False
      with b c show ?thesis by (simp add: drop_while_end_append_some)
    qed
  qed
qed

lemma trim_body_solid: "ts \<noteq> [] \<Longrightarrow> solid (last ts) \<Longrightarrow> trim_body (xs @ ts) = xs @ ts"
  and drop_blank_solid: "ts \<noteq> [] \<Longrightarrow> solid (last ts) \<Longrightarrow> drop_while_end blank (xs @ ts) = xs @ ts"
  by (auto simp: trim_body_def Let_def solid_def drop_while_end_id)

lemma trim_body_insert:
  assumes ts: "ts \<noteq> []" "solid (last ts)" and len: "length xs \<le> length (trim_body (xs @ ys))"
  shows "length (trim_body (xs @ ts @ ys)) = length (trim_body (xs @ ys)) + length ts"
proof -
  have 1: "trim_body ((xs @ ts) @ ys) = (xs @ ts) @ trim_body ys"
    using trim_body_append [of "xs @ ts" ys] trim_body_solid [OF ts] drop_blank_solid [OF ts] by simp
  have "length (trim_body xs) \<le> length xs" "length (drop_while_end blank xs) \<le> length xs"
    by (rule prefix_length_le, rule trim_body_prefix drop_while_end_prefix)+
  then have "length (trim_body (xs @ ys)) = length xs + length (trim_body ys)"
    using len trim_body_append [of xs ys] by (auto split: if_splits)
  with 1 show ?thesis by simp
qed

lemma segment_splice:
  assumes "i \<le> at" and "at \<le> j" and "j \<le> length xs"
  shows "segment (splice_at at ts xs) i (j + length ts) = segment xs i at @ ts @ segment xs at j"
proof -
  have "drop i (take at xs @ ts @ drop at xs) = drop i (take at xs) @ ts @ drop at xs"
    using assms by simp
  moreover have "length (drop i (take at xs)) = at - i" using assms by simp
  moreover have "j + length ts - i - (at - i) = length ts + (j - at)" using assms by simp
  ultimately show ?thesis
    using assms by (simp add: segment_def splice_at_def drop_take)
qed

lemma inserted_sec_body_end:
  assumes ins: "inserted d at ts d'" and plain: "list_all plain_line ts"
    and ts: "ts \<noteq> []" "solid (last ts)"
    and st: "scan_at d at = scan_init" and h: "h \<in> set (headings d)"
    and lo: "hl_index h < at" and hi: "at \<le> sec_body_end d h"
  shows "sec_body_end d' h = sec_body_end d h + length ts"
proof -
  let ?i = "hl_index h + 1" and ?e = "sec_end d h"
  have at: "0 < at" and i: "?i \<le> at" using lo by auto
  have e: "at \<le> ?e" "?i \<le> ?e" "?e \<le> length (d_lines d)"
    using hi sec_body_end_bounds [OF h] sec_end_bounds [OF h] by auto
  have end': "sec_end d' h = ?e + length ts"
    by (rule inserted_sec_end [OF ins at plain st lo e(1)])
  have seg: "segment (texts d') ?i (?e + length ts) = segment (texts d) ?i at @ ts @ segment (texts d) at ?e"
    using ins segment_splice [OF i e(1), of "texts d" ts] e(3) by (simp add: inserted_def)
  have seg0: "segment (texts d) ?i ?e = segment (texts d) ?i at @ segment (texts d) at ?e"
    using i e by (simp add: segment_append_segment)
  have b: "sec_body_end d h = ?i + length (trim_body (segment (texts d) ?i ?e))"
    using trim_blank_end_eq [OF e(2,3)] by (simp add: sec_body_end_def)
  have "length (segment (texts d) ?i at) \<le> length (trim_body (segment (texts d) ?i ?e))"
    using hi b e i ins by (simp add: inserted_def)
  then have "length (trim_body (segment (texts d') ?i (?e + length ts))) =
      length (trim_body (segment (texts d) ?i ?e)) + length ts"
    unfolding seg seg0 by (rule trim_body_insert [OF ts])
  moreover have "sec_body_end d' h = ?i + length (trim_body (segment (texts d') ?i (?e + length ts)))"
    using trim_blank_end_eq [of ?i "?e + length ts" d'] e inserted_length [OF ins]
    by (simp add: sec_body_end_def end')
  ultimately show ?thesis using b by simp
qed

lemma whole_body_end: "s_body_end (whole d) = length (drop_while_end blank (texts d))"
proof -
  have "skip_blank_back (d_lines d) 0 (length (d_lines d)) = length (drop_while_end is_blank (d_lines d))"
    using skip_blank_back_segment [of 0 "length (d_lines d)" "d_lines d"] by simp
  also have "\<dots> = length (drop_while_end blank (texts d))"
    using arg_cong [OF map_drop_blank [of "d_lines d"], of length] by simp
  finally show ?thesis by (simp add: whole_def Let_def)
qed

lemma inserted_whole_body_end:
  assumes ins: "inserted d at ts d'" and ts: "ts \<noteq> []" "solid (last ts)" and at: "at \<le> s_body_end (whole d)"
  shows "s_body_end (whole d') = s_body_end (whole d) + length ts"
proof -
  let ?A = "take at (texts d)" and ?B = "drop at (texts d)"
  have tx: "texts d' = (?A @ ts) @ ?B" using ins by (simp add: inserted_def splice_at_def)
  have len: "length ?A \<le> length (drop_while_end blank (?A @ ?B))"
    using at by (simp add: whole_body_end)
  have shrink: "length (drop_while_end blank ?A) \<le> length ?A"
    by (rule prefix_length_le) (rule drop_while_end_prefix)
  show ?thesis
  proof (cases "drop_while_end blank ?B = []")
    case True
    then have all: "\<And>y. y \<in> set ?B \<Longrightarrow> blank y" by (simp add: drop_while_end_eq_Nil)
    then have "drop_while_end blank ((?A @ ts) @ ?B) = ?A @ ts"
      using drop_blank_solid [OF ts] by (simp add: drop_while_end_append_all del: append_assoc)
    moreover have keep: "drop_while_end blank (?A @ ?B) = drop_while_end blank ?A"
      using all by (rule drop_while_end_append_all)
    moreover have "length (drop_while_end blank ?A) = length ?A"
      using le_antisym [OF shrink len [unfolded keep]] .
    ultimately show ?thesis
      by (simp only: whole_body_end tx append_take_drop_id length_append)
  next
    case False
    then have "drop_while_end blank ((?A @ ts) @ ?B) = (?A @ ts) @ drop_while_end blank ?B"
      and "drop_while_end blank (?A @ ?B) = ?A @ drop_while_end blank ?B"
      by (rule drop_while_end_append_some)+
    then show ?thesis by (simp add: whole_body_end tx)
  qed
qed

section \<open>A section found again after an insertion\<close>

lemma find_section_ok: "find_section E d heading = Some s \<Longrightarrow> section_ok d s"
  by (auto simp: find_section_def section_ok_whole split: option.splits
      dest!: resolve_in intro: section_ok_doc_section)

lemma inserted_find_section:
  assumes ins: "inserted d at ts d'" and plain: "list_all plain_line ts"
    and ts: "ts \<noteq> []" "solid (last ts)" and st: "scan_at d at = scan_init" and pos: "0 < at"
    and s: "find_section E d heading = Some s" and at: "s_start s \<le> at" "at \<le> s_body_end s"
  obtains s' where "find_section E d' heading = Some s'" and "s_start s' = s_start s"
    and "s_body_end s' = s_body_end s + length ts"
proof (cases heading)
  case None
  then have "s = whole d" using s by (simp add: find_section_def)
  then show ?thesis
    using that [of "whole d'"] inserted_whole_body_end [OF ins ts] at None
    by (simp add: find_section_def whole_def Let_def)
next
  case (Some h)
  then obtain f where f: "resolve E d h = Some f" and s': "s = doc_section d f"
    using s by (auto simp: find_section_def)
  have mem: "f \<in> set (headings d)" using f by (rule resolve_in)
  have lo: "hl_index f < at" and hi: "at \<le> sec_body_end d f"
    using at by (simp_all add: s' doc_section_eq)
  have r: "resolve E d' h = Some f"
    using inserted_resolve [OF ins pos plain st, of E h] f lo by (simp add: shift_from_def)
  show ?thesis
    using that [of "doc_section d' f"] r Some inserted_sec_body_end [OF ins plain ts st mem lo hi]
    by (simp add: find_section_def s' doc_section_eq)
qed

section \<open>The run is found\<close>

definition numbered :: "nat \<Rightarrow> rstr list \<Rightarrow> (nat \<times> rstr) list" where
  "numbered at ts = map (\<lambda>i. (i, ts ! (i - at))) [at..<at + length ts]"

lemma length_numbered [simp]: "length (numbered at ts) = length ts"
  by (simp add: numbered_def)

lemma nth_numbered: "i < length ts \<Longrightarrow> numbered at ts ! i = (at + i, ts ! i)"
  by (simp add: numbered_def)

lemma adjacent_numbered: "adjacent_run (numbered at ts)"
  unfolding adjacent_run_def list_all_iff
proof
  fix pair assume "pair \<in> set (windows 2 (numbered at ts))"
  then obtain i where i: "i + 2 \<le> length ts" and pair: "pair = segment (numbered at ts) i (i + 2)"
    using in_windows by fastforce
  have "get_at pair 0 = Some (at + i, ts ! i)" "get_at pair 1 = Some (at + Suc i, ts ! Suc i)"
    using i by (simp_all add: pair get_at_def nth_segment nth_numbered)
  then show "map_option fst (get_at pair 1) = map_option (\<lambda>x. fst x + 1) (get_at pair 0)"
    by (simp only: option.map fst_conv) simp
qed

lemma segment_middle: "segment (xs @ ys @ zs) (length xs) (length xs + length ys) = ys"
  by (simp add: segment_def)

lemma contains_run_numbered: "contains_run (xs @ numbered at ts @ ys) ts"
proof (cases "ts = []")
  case True
  then show ?thesis by (simp add: contains_run_def)
next
  case False
  let ?M = "numbered at ts"
  have "?M \<in> set (windows (length ts) (xs @ ?M @ ys))"
    using windows_contains [of "length ts" "length xs" "xs @ ?M @ ys"] False
      segment_middle [of xs ?M ys] by simp
  moreover have "list_all (\<lambda>(have, want). trim_end (snd have) = trim_end want) (zip ?M ts)"
    by (auto simp: list_all_length nth_numbered)
  ultimately show ?thesis
    using adjacent_numbered [of at ts] False by (auto simp: contains_run_def list_ex_iff)
qed

lemma inserted_nth:
  assumes "inserted d at ts d'" and "i < length ts"
  shows "l_text (d_lines d' ! (at + i)) = ts ! i"
proof -
  have len: "at + i < length (d_lines d')"
    using inserted_length [OF assms(1)] assms by (simp add: inserted_def)
  have "texts d' ! (at + i) = ts ! i"
    using assms by (simp add: inserted_def splice_at_def nth_append)
  with len show ?thesis by simp
qed

lemma inserted_unprotected:
  assumes "inserted d at ts d'" and "0 < at" and "list_all plain_line ts" and "scan_at d at = scan_init"
    and "i < length ts"
  shows "\<not> is_protected d' (at + i)"
proof -
  have "at \<le> length (protected d)" using assms(1) by (simp add: inserted_def)
  then show ?thesis
    using assms(5)
    by (auto simp: is_protected_def get_at_def inserted_scan(2) [OF assms(1-4)] splice_at_def nth_append)
qed

lemma inserted_matchable:
  assumes ins: "inserted d at ts d'" and pos: "0 < at" and plain: "list_all plain_line ts"
    and st: "scan_at d at = scan_init"
    and s: "s_start s \<le> at" "at + length ts \<le> s_body_end s"
  obtains xs ys where "matchable d' s = xs @ numbered at ts @ ys"
proof -
  let ?p = "\<lambda>i. \<not> is_protected d' i \<and> i < length (d_lines d')"
  let ?f = "\<lambda>i. (i, l_text (d_lines d' ! i))"
  have "[s_start s..<s_body_end s] =
      [s_start s..<at] @ [at..<at + length ts] @ [at + length ts..<s_body_end s]"
    using s by (metis add.commute le_add1 le_trans upt_add_eq_append le_add_diff_inverse)
  moreover have mid: "?p i \<and> ?f i = (i, ts ! (i - at))" if "i \<in> set [at..<at + length ts]" for i
  proof -
    have i: "i - at < length ts" "at + (i - at) = i" using that by auto
    show ?thesis
      using inserted_unprotected [OF ins pos plain st i(1)] inserted_nth [OF ins i(1)]
        inserted_length [OF ins] ins that by (auto simp: i inserted_def)
  qed
  then have "filter ?p [at..<at + length ts] = [at..<at + length ts]" by (intro filter_True) blast
  moreover have "map ?f [at..<at + length ts] = numbered at ts"
    unfolding numbered_def using mid by (intro map_cong) auto
  ultimately show ?thesis
    by (intro that [of "map ?f (filter ?p [s_start s..<at])"
          "map ?f (filter ?p [at + length ts..<s_body_end s])"])
       (simp add: matchable_def)
qed

lemma numbered_Cons: "numbered at (t # ts) = (at, t) # numbered (Suc at) ts"
  by (rule nth_equalityI) (simp, auto simp: nth_numbered nth_Cons')

end
