(* ===== verification/Apply_Lemmas.thy ===== *)
theory Apply_Lemmas
  imports Insertion
begin

text \<open>
  Lemmas on the application rules: where a found line and its block lie, what an insertion and a
  cut do to the lines of a note, and when locating a section leaves the note alone.
\<close>

section \<open>Where an operation lands\<close>

lemma find_line_in:
  assumes "find_line E d s wanted ordinal = Some i"
  shows "s_start s \<le> i" and "i < s_body_end s" and "i < length (d_lines d)"
    and "\<not> is_protected d i" and "names_line E wanted (l_text (d_lines d ! i))"
proof -
  have pick: "x \<in> set xs" if "or_else (get_at xs n) (first_opt xs) = Some x" for x :: nat and xs n
    using that by (auto simp: or_else_def first_opt_def get_at_def split: option.splits if_splits)
  have "i \<in> set (map fst (filter (\<lambda>(_, t). names_line E wanted t) (matchable d s)))"
    using assms unfolding find_line_def Let_def by (rule pick)
  then show "s_start s \<le> i" and "i < s_body_end s" and "i < length (d_lines d)"
    and "\<not> is_protected d i" and "names_line E wanted (l_text (d_lines d ! i))"
    by (auto simp: matchable_def)
qed

lemma block_end_loop_bounds:
  "lc \<le> e \<Longrightarrow> e \<le> body_end \<Longrightarrow>
     lc \<le> block_end_loop ls body_end e lc \<and> block_end_loop ls body_end e lc \<le> body_end"
proof (induction ls body_end e lc rule: block_end_loop.induct)
  case (1 ls body_end e lc)
  then show ?case
    by (subst (1 2) block_end_loop.simps) (fastforce split: option.splits)
qed

lemma block_end_bounds:
  assumes "i < s_body_end s"
  shows "i < block_end d s i" and "block_end d s i \<le> s_body_end s"
  using block_end_loop_bounds [of "i + 1" "i + 1" "s_body_end s" "d_lines d"] assms
  by (auto simp: block_end_def)

lemma append_at_bounds:
  assumes "section_ok d s"
  shows "s_start s \<le> append_at E d s placement after" and "append_at E d s placement after \<le> s_body_end s"
proof -
  have "s_start s \<le> append_at E d s placement after \<and> append_at E d s placement after \<le> s_body_end s"
  proof (cases "Option.bind after (\<lambda>a. find_line E d s (a_line_hash a) (a_ordinal a))")
    case None
    then have "append_at E d s placement after =
        (case placement of AtEnd \<Rightarrow> s_body_end s | BeforeChildren \<Rightarrow> s_own_end s)"
      by (cases after) (auto simp: append_at_def)
    with assms show ?thesis by (cases placement) (auto simp: section_ok_def)
  next
    case (Some i)
    then obtain a where a: "after = Some a" and i: "find_line E d s (a_line_hash a) (a_ordinal a) = Some i"
      by (cases after) simp_all
    then have "append_at E d s placement after = block_end d s i"
      by (simp add: append_at_def)
    then show ?thesis
      using find_line_in(1,2) [OF i] block_end_bounds [of i s d] by simp
  qed
  then show "s_start s \<le> append_at E d s placement after"
    and "append_at E d s placement after \<le> s_body_end s" by simp_all
qed

lemma locate_found: "find_section E d heading = Some s \<Longrightarrow> locate E heading (d, oc) = (d, s, oc)"
  by (auto simp: locate_def find_section_def split: option.splits)

text \<open>The lines an insertion really brings.\<close>

definition with_blank :: "bool \<Rightarrow> rstr list \<Rightarrow> rstr list" where
  "with_blank b lines = (if b then [] # lines else lines)"

lemma insert_lines_eq:
  obtains b where "insert_lines s at lines bb d = doc_insert at (with_blank b lines) d"
proof (cases "lines = []")
  case True
  then show ?thesis using that [of False] by (simp add: insert_lines_def with_blank_def doc_insert_def)
next
  case False
  then show ?thesis using that by (simp add: insert_lines_def with_blank_def Let_def)
qed

lemma with_blank_simps [simp]:
  "with_blank b lines = [] \<longleftrightarrow> \<not> b \<and> lines = []"
  "lines \<noteq> [] \<Longrightarrow> last (with_blank b lines) = last lines"
  "list_all plain_line (with_blank b lines) = list_all plain_line lines"
  "list_all text_ok (with_blank b lines) = list_all text_ok lines"
  "set lines \<subseteq> set (with_blank b lines)"
  by (auto simp: with_blank_def)

lemma contains_run_with_blank:
  "contains_run (xs @ numbered at (with_blank b lines) @ ys) lines"
  using contains_run_numbered [of xs at lines ys] contains_run_numbered [of "xs @ [(at, [])]" "Suc at" lines ys]
  by (cases b) (simp_all add: with_blank_def numbered_Cons)

lemma solid_nonempty: "solid t \<Longrightarrow> t \<noteq> []"
  by (auto simp: solid_def blank_def)

text \<open>The core of idempotence: after plain lines were inserted in a found section the section is
  found again and holds them as a run.\<close>

lemma run_present_after_insert:
  fixes bb :: bool
  assumes d: "tame d" and s: "find_section E d heading = Some s"
    and lines: "lines \<noteq> []" "list_all plain_line lines" "solid (last lines)" "list_all text_ok lines"
    and at: "0 < at" "s_start s \<le> at" "at \<le> s_body_end s" and st: "scan_at d at = scan_init"
  defines "d' \<equiv> doc_split (doc_join (insert_lines s at lines bb d))"
  shows "\<exists>s'. find_section E d' heading = Some s' \<and> contains_run (matchable d' s') lines"
proof -
  obtain b where b: "insert_lines s at lines bb d = doc_insert at (with_blank b lines) d"
    by (rule insert_lines_eq)
  let ?ts = "with_blank b lines"
  have le: "at \<le> length (d_lines d)" using at find_section_ok [OF s] by (simp add: section_ok_def)
  have "tame (doc_insert at ?ts d)"
    using tame_doc_insert [OF d, of ?ts at] lines solid_nonempty by simp
  then have "d_lines d' = d_lines (doc_insert at ?ts d)"
    unfolding d'_def b by (intro d_lines_split_join tame_wf)
  then have ins: "inserted d at ?ts d'"
    using inserted_doc_insert [OF le, of ?ts] by (simp add: inserted_def)
  have ts: "?ts \<noteq> []" "solid (last ?ts)" "list_all plain_line ?ts" using lines by simp_all
  obtain s' where s': "find_section E d' heading = Some s'" "s_start s' = s_start s"
      "s_body_end s' = s_body_end s + length ?ts"
    by (rule inserted_find_section [OF ins ts(3,1,2) st at(1) s at(2,3)])
  obtain xs ys where "matchable d' s' = xs @ numbered at ?ts @ ys"
    by (rule inserted_matchable [OF ins at(1) ts(3) st, of s']) (use s' at in auto)
  with s' show ?thesis using contains_run_with_blank [of xs at b lines ys] by auto
qed

lemma valid_lines_ok:
  "validate w = Inr () \<Longrightarrow> w_operation w = Append heading lines p b c a \<Longrightarrow> list_all text_ok lines"
  by (auto simp: validate_ok_iff list_ex_iff list_all_iff intro: text_ok_no_break)

lemma present_not_file_level: "effect_present E t w \<Longrightarrow> \<not> is_file_level (w_operation w)"
  by (cases "w_operation w") (auto simp: effect_present_def)

lemma apply_write_present:
  "effect_present E t w \<Longrightarrow> apply_write E (Some t) w seed = \<lparr>a_text = t, a_outcome = Noop\<rparr>"
  using present_not_file_level by (simp add: apply_write_def Let_def)

lemma apply_write_existing:
  "\<not> is_file_level (w_operation w) \<Longrightarrow> \<not> effect_present E t w \<Longrightarrow>
     apply_write E (Some t) w seed = finish (apply_op E (w_operation w) (doc_split t, None))"
  by (simp add: apply_write_def Let_def)

section \<open>Nothing is lost\<close>

text \<open>The lines of its own a write may be kept beside.\<close>

fun op_lines :: "Operation \<Rightarrow> rstr list" where
  "op_lines (ReplaceLine _ _ _ new_line) = [new_line]"
| "op_lines (ReplaceSection _ _ lines) = lines"
| "op_lines _ = []"

definition solid_lines :: "rstr list \<Rightarrow> rstr multiset" where
  "solid_lines ts = mset (filter (\<lambda>t. \<not> blank t) ts)"

lemma solid_lines_append [simp]: "solid_lines (xs @ ys) = solid_lines xs + solid_lines ys"
  by (simp add: solid_lines_def)

lemma solid_lines_Nil [simp]: "solid_lines [] = {#}"
  by (simp add: solid_lines_def)

lemma solid_lines_mset: "solid_lines ts = filter_mset (\<lambda>t. \<not> blank t) (mset ts)"
  by (simp add: solid_lines_def)

lemma blank_Nil [simp]: "blank []"
  by (simp add: blank_def)

lemma solid_lines_with_blank [simp]: "solid_lines (with_blank b ts) = solid_lines ts"
  by (simp add: with_blank_def solid_lines_def)

lemma mset_subseq: "subseq xs ys \<Longrightarrow> mset xs \<subseteq># mset ys"
  by (induction rule: list_emb.induct) (auto intro: subset_mset.order_trans)

lemma solid_subseq: "subseq xs ys \<Longrightarrow> solid_lines xs \<subseteq># solid_lines ys"
  unfolding solid_lines_def by (intro mset_subseq subseq_filter)

lemma subseq_splice: "subseq xs (splice_at at ys xs)"
proof -
  have "subseq (take at xs @ drop at xs) (take at xs @ ys @ drop at xs)"
    by (intro list_emb_append_mono) auto
  then show ?thesis by (simp add: splice_at_def)
qed

lemma subseq_doc_insert: "subseq (texts d) (texts (doc_insert at ts d))"
  by (simp add: texts_doc_insert subseq_splice)

lemma subseq_insert_lines: "subseq (texts d) (texts (insert_lines s at ls b d))"
  using insert_lines_eq [of s at ls b d] by (metis subseq_doc_insert)

lemma subseq_insert_new: "subseq ls (texts (insert_lines s at ls b d))"
proof -
  obtain b' where b: "insert_lines s at ls b d = doc_insert at (with_blank b' ls) d" by (rule insert_lines_eq)
  have "subseq ls (with_blank b' ls)" by (simp add: with_blank_def list_emb_Cons)
  also have "subseq (with_blank b' ls) (splice_at k (with_blank b' ls) (texts d))" for k
    by (simp add: splice_at_def list_emb_prefix list_emb_append2)
  finally show ?thesis by (simp add: b texts_doc_insert)
qed

lemma solid_insert_lines:
  "solid_lines (texts (insert_lines s at ls b d)) = solid_lines (texts d) + solid_lines ls"
proof -
  obtain b' where b: "insert_lines s at ls b d = doc_insert at (with_blank b' ls) d" by (rule insert_lines_eq)
  show ?thesis
    unfolding b texts_doc_insert solid_lines_mset mset_splice_at filter_union_mset
    by (simp flip: solid_lines_mset)
qed

lemma subseq_locate: "locate E heading (d, oc) = (d', s, oc') \<Longrightarrow> subseq (texts d) (texts d')"
  by (auto simp: locate_def Let_def subseq_doc_insert split: option.splits prod.splits)

lemma subseq_locate_group:
  "locate_group E to cu (d, oc) = (d', s, oc') \<Longrightarrow> subseq (texts d) (texts d')"
  by (auto simp: locate_group_def Let_def split: option.splits prod.splits
      intro: subseq_insert_lines dest!: subseq_locate elim: subseq_order.trans)

lemma locate_unchanged: "locate E heading (d, None) = (d', s, None) \<Longrightarrow> d' = d"
  by (auto simp: locate_def Let_def add_outcome_def split: option.splits prod.splits)

lemma locate_group_unchanged: "locate_group E to cu (d, None) = (d', s, None) \<Longrightarrow> d' = d"
  by (auto simp: locate_group_def Let_def add_outcome_def split: option.splits prod.splits if_splits
      dest: locate_unchanged)

lemma locate_outcome:
  "locate E heading (d, oc) = (d', s, oc') \<Longrightarrow> oc' = oc \<or> oc = None \<and> oc' = Some SectionAdded"
  by (auto simp: locate_def Let_def add_outcome_def split: option.splits prod.splits if_splits)

text \<open>An append that found its section: what it writes holds the old lines in order, and its effect is
  present.\<close>

lemma append_lands:
  fixes seed :: "rstr option"
  assumes w: "w_operation w = Append heading lines placement bb tmpl after" and v: "validate w = Inr ()"
    and t: "t = [] \<or> last t \<noteq> 13"
    and s: "find_section E (doc_split t) heading = Some s"
    and at: "0 < append_at E (doc_split t) s placement after"
    and st: "scan_at (doc_split t) (append_at E (doc_split t) s placement after) = scan_init"
    and lines: "lines \<noteq> []" "list_all plain_line lines" "solid (last lines)"
  defines "t' \<equiv> a_text (apply_write E (Some t) w seed)"
  shows "effect_present E t' w" and "subseq (texts (doc_split t)) (texts (doc_split t'))"
proof -
  let ?d = "doc_split t" let ?at = "append_at E ?d s placement after"
  let ?i = "insert_lines s ?at lines bb ?d"
  have "effect_present E t' w \<and> subseq (texts ?d) (texts (doc_split t'))"
  proof (cases "effect_present E t w")
    case True
    then show ?thesis by (simp add: t'_def apply_write_present)
  next
    case False
    have t': "t' = doc_join ?i"
      using False locate_found [OF s] by (simp add: t'_def apply_write_existing w finish_def)
    have ok: "list_all text_ok lines" by (rule valid_lines_ok [OF v w])
    obtain s' where "find_section E (doc_split t') heading = Some s'" "contains_run (matchable (doc_split t') s') lines"
      using run_present_after_insert [OF tame_split [OF t] s lines ok at
          append_at_bounds [OF find_section_ok [OF s]] st, of bb] by (auto simp: t')
    moreover obtain b where "?i = doc_insert ?at (with_blank b lines) ?d" by (rule insert_lines_eq)
    then have "tame ?i" using tame_doc_insert [OF tame_split [OF t], of "with_blank b lines" ?at] lines ok solid_nonempty
      by simp
    then have "texts (doc_split t') = texts ?i" by (simp add: t' d_lines_split_join tame_wf)
    ultimately show ?thesis by (simp add: effect_present_def w subseq_insert_lines)
  qed
  then show "effect_present E t' w" and "subseq (texts ?d) (texts (doc_split t'))" by simp_all
qed

section \<open>Cutting a block\<close>

lemma solid_drain: "i \<le> j \<Longrightarrow> solid_lines (drain i j ts) + solid_lines (segment ts i j) = solid_lines ts"
  using arg_cong [OF mset_drain_segment, of i j "filter_mset (\<lambda>t. \<not> blank t)" ts]
  by (simp add: solid_lines_mset)

lemma solid_drop_blank:
  "i < length ts \<Longrightarrow> blank (ts ! i) \<Longrightarrow> solid_lines (drain i (i + 1) ts) = solid_lines ts"
  using solid_drain [of i "i + 1" ts]
  by (simp add: segment_def take_Suc hd_drop_conv_nth solid_lines_def)

lemma texts_cut:
  assumes "i < e" and "e \<le> length (d_lines d)"
  shows "texts (cut i e d) = drain i e (texts d) \<or>
     i < length (drain i e (texts d)) \<and> blank (drain i e (texts d) ! i) \<and>
     texts (cut i e d) = drain i (i + 1) (drain i e (texts d))"
proof -
  have "l_text (drain i e (d_lines d) ! i) = drain i e (texts d) ! i" if "i < length (drain i e (d_lines d))"
    using that by (simp flip: map_drain)
  moreover have "length (drain i e (texts d)) = length (drain i e (d_lines d))"
    by (simp flip: map_drain)
  ultimately show ?thesis
    using assms by (auto simp: cut_def Let_def is_some_and_get_at is_blank_def map_drain min_absorb1)
qed

lemma solid_cut:
  assumes "i < e" and "e \<le> length (d_lines d)"
  shows "solid_lines (texts (cut i e d)) + solid_lines (segment (texts d) i e) = solid_lines (texts d)"
  using texts_cut [OF assms] solid_drain [of i e "texts d"] assms solid_drop_blank [of i "drain i e (texts d)"]
  by auto

section \<open>What each operation does to the lines\<close>

text \<open>A block of a found line: its bounds, and the texts it carries.\<close>

lemma block_of_line:
  assumes "find_section E d heading = Some s" and "find_line E d (own s) wanted ordinal = Some i"
  shows "i < block_end d (own s) i" and "block_end d (own s) i \<le> length (d_lines d)"
proof -
  have "s_body_end (own s) \<le> length (d_lines d)"
    using find_section_ok [OF assms(1)] by (simp add: section_ok_def own_def)
  then show "i < block_end d (own s) i" and "block_end d (own s) i \<le> length (d_lines d)"
    using block_end_bounds [OF find_line_in(2) [OF assms(2)], of d] by auto
qed

lemma join_split: "doc_join (doc_split t) = t"
  by (simp add: doc_join_def split_lines_join)


lemma mark_first_in:
  "\<not> list_all (\<lambda>l. trim l = []) ls \<Longrightarrow> \<exists>l \<in> set ls. trim l \<noteq> [] \<and> mark l \<in> set (mark_first ls)"
  by (induction ls) auto

lemma set_insert_lines: "set ls \<subseteq> set (texts (insert_lines s at ls b d))"
  using subseq_insert_new [of ls s at b d] by (metis mset_subseq set_mset_mono set_mset_mset)

section \<open>Replaying writes\<close>

text \<open>
  The desk and the phone apply writes at least once: a queue may be replayed after a crash.  The
  contract that makes this harmless: a write whose effect is present changes nothing.
\<close>

locale replayable =
  fixes present :: "'w \<Rightarrow> 't \<Rightarrow> bool"
    and step :: "'w \<Rightarrow> 't \<Rightarrow> 't"
  assumes present_step: "present w t \<Longrightarrow> step w t = t"
begin

lemma replay_settled: "\<forall>w \<in> set ws. present w t \<Longrightarrow> fold step ws t = t"
  by (induction ws) (auto simp: present_step)

text \<open>Work already settled can be dropped from the front of a queue.\<close>

lemma replay_prefix: "\<forall>w \<in> set ws. present w t \<Longrightarrow> fold step (ws @ vs) t = fold step vs t"
  by (simp add: replay_settled)

end

abbreviation write_step :: "env \<Rightarrow> Write \<Rightarrow> rstr \<Rightarrow> rstr" where
  "write_step E w t \<equiv> a_text (apply_write E (Some t) w None)"

interpretation writes: replayable "\<lambda>w t. effect_present E t w" "write_step E" for E
  by unfold_locales (simp add: apply_write_present)

end
