(* ===== verification/Samples.thy ===== *)
theory Samples
  imports Apply
begin

text \<open>
  Concrete data for the evaluated instances of the theorems: an environment whose Unicode tables
  are the ASCII ones and whose digest is the identity, so that a line hash is the hex form of the
  first eight bytes of the normalised line, and a note with a heading tree, a nested item,
  repeated lines and a fence.
\<close>

definition ascii_env :: env where
  "ascii_env =
     \<lparr>is_alphanumeric = is_ascii_alphanumeric,
      char_to_lowercase = (\<lambda>c. [to_ascii_lowercase c]),
      str_to_lowercase = map to_ascii_lowercase,
      sha256 = (\<lambda>bs. bs),
      hex_encode = (\<lambda>bs. concat (map byte_to_hex bs))\<rparr>"

definition from_lines :: "string list \<Rightarrow> rstr" where
  "from_lines ls = concat (map (\<lambda>l. lit l @ [10]) ls)"

definition sample_note :: rstr where
  "sample_note = from_lines
     [''# Day'', ''## Backlog'', ''- [ ] call mum'', ''  - number in the book'', [],
      ''## Log'', ''- one'', ''- one'', ''```'', ''- one'', ''```'']"

definition sample_write :: "Operation \<Rightarrow> Write" where
  "sample_write oper = write_new (lit ''c1'') (lit ''journal.md'') oper"

definition backlog :: Heading where
  "backlog = heading_new (lit ''backlog'')"

definition log_heading :: Heading where
  "log_heading = heading_new (lit ''Log'')"

end
