(* ===== verification/Apply_Props.thy ===== *)
theory Apply_Props
  imports Apply_Lemmas Samples
begin

text \<open>
  The theorems on the application rules, each with an instance evaluated on a concrete note:
  replays are harmless, the edits change exactly the lines they name, conflicts keep both sides,
  a moved block is neither copied nor lost.
\<close>

section \<open>Replays\<close>





text \<open>Creating a file and creating it again is harmless: the first write brings the content
  unchanged, the second finds it there.\<close>

theorem create_twice:
  assumes "w_operation w = Create content"
  shows "apply_write E None w seed = \<lparr>a_text = content, a_outcome = Created\<rparr> \<and>
     apply_write E (Some content) w seed' = \<lparr>a_text = content, a_outcome = Noop\<rparr>"
  using assms apply_write_present [of E content w seed']
  by (simp add: apply_write_def effect_present_def)

theorem create_twice_witness:
  "apply_write ascii_env (Some sample_note) (sample_write (Create sample_note)) None =
     \<lparr>a_text = sample_note, a_outcome = Noop\<rparr>"
  using create_twice [of "sample_write (Create sample_note)" sample_note ascii_env None None]
  by (simp add: sample_write_def write_new_def)

section \<open>Line edits\<close>

text \<open>A \<open>remove_line\<close> either leaves the text byte for byte alone and reports \<open>Noop\<close>, or removes
  exactly one line, terminator included: a line the hash names, outside fences and front matter.
  It never adds a heading.\<close>

theorem remove_line_exact:
  assumes "w_operation w = RemoveLine heading wanted ordinal"
  shows "apply_write E (Some t) w seed = \<lparr>a_text = t, a_outcome = Noop\<rparr> \<or>
     (\<exists>i < length (split_lines t).
        names_line E wanted (l_text (split_lines t ! i)) \<and> \<not> is_protected (doc_split t) i \<and>
        apply_write E (Some t) w seed =
          \<lparr>a_text = concat (map line_str (drain i (i + 1) (split_lines t))), a_outcome = OApplied\<rparr>)"
proof (cases "effect_present E t w")
  case True
  then show ?thesis by (simp add: apply_write_present)
next
  case False
  then obtain s where s: "find_section E (doc_split t) heading = Some s"
    using assms by (auto simp: effect_present_def split: option.splits)
  note run = apply_write_existing [OF _ False, of seed, unfolded assms, simplified,
      unfolded locate_found [OF s]]
  show ?thesis
  proof (cases "find_line E (doc_split t) s wanted ordinal")
    case None
    then show ?thesis using run by (simp add: finish_def join_split)
  next
    case (Some i)
    then show ?thesis
      using run find_line_in [OF Some] by (auto simp: finish_def remove_line_at_def doc_join_def)
  qed
qed

theorem remove_line_exact_witness:
  "\<exists>i < length (split_lines sample_note).
     names_line ascii_env (line_hash ascii_env (lit ''one'')) (l_text (split_lines sample_note ! i)) \<and>
     \<not> is_protected (doc_split sample_note) i \<and>
     apply_write ascii_env (Some sample_note)
         (sample_write (RemoveLine (Some log_heading) (line_hash ascii_env (lit ''one'')) 1)) None =
       \<lparr>a_text = concat (map line_str (drain i (i + 1) (split_lines sample_note))), a_outcome = OApplied\<rparr>"
proof -
  let ?w = "sample_write (RemoveLine (Some log_heading) (line_hash ascii_env (lit ''one'')) 1)"
  have "a_outcome (apply_write ascii_env (Some sample_note) ?w None) = OApplied" by code_simp
  then show ?thesis
    using remove_line_exact [of ?w "Some log_heading" "line_hash ascii_env (lit ''one'')" 1
        ascii_env sample_note None]
    by (simp add: sample_write_def write_new_def) auto
qed

text \<open>A \<open>replace_line\<close> whose line is found changes the text of that line alone: every other
  line, and the terminator of this one, stay as they were.\<close>

theorem replace_line_exact:
  assumes w: "w_operation w = ReplaceLine heading wanted ordinal new_line" and "\<not> effect_present E t w"
    and s: "find_section E (doc_split t) heading = Some s"
    and i: "find_line E (doc_split t) s wanted ordinal = Some i"
  shows "apply_write E (Some t) w seed =
     \<lparr>a_text = concat (map line_str ((split_lines t)[i := (split_lines t ! i)\<lparr>l_text := new_line\<rparr>])),
      a_outcome = OApplied\<rparr>"
  using apply_write_existing [of w E t seed] assms locate_found [OF s] find_line_in [OF i]
  by (simp add: finish_def set_line_text_def doc_join_def)

theorem replace_line_exact_witness:
  "apply_write ascii_env (Some sample_note)
     (sample_write (ReplaceLine (Some backlog) (line_hash ascii_env (lit ''call mum'')) 0 (lit ''- [x] call mum'')))
     None =
   \<lparr>a_text = concat (map line_str ((split_lines sample_note)[2 :=
       (split_lines sample_note ! 2)\<lparr>l_text := lit ''- [x] call mum''\<rparr>])), a_outcome = OApplied\<rparr>"
proof (rule replace_line_exact)
  show "find_section ascii_env (doc_split sample_note) (Some backlog) =
      Some \<lparr>s_heading = Some 1, s_start = 2, s_body_end = 4, s_own_end = 4, s_end = 5\<rparr>" by code_simp
  show "w_operation (sample_write (ReplaceLine (Some backlog)
      (line_hash ascii_env (lit ''call mum'')) 0 (lit ''- [x] call mum''))) =
    ReplaceLine (Some backlog) (line_hash ascii_env (lit ''call mum'')) 0 (lit ''- [x] call mum'')" by code_simp
qed code_simp+

section \<open>Conflicts keep both sides\<close>

lemma kept_both_lines:
  assumes "apply_op E oper (d, oc) = (d', oc', KeptBoth)"
  shows "subseq (texts d) (texts d') \<and> (\<exists>line \<in> set (op_lines oper). mark line \<in> set (texts d'))"
proof (cases oper)
  case (ReplaceLine heading wanted ordinal new_line)
  obtain d1 s oc1 where l: "locate E heading (d, oc) = (d1, s, oc1)" by (metis prod_cases3)
  with assms ReplaceLine have d': "d' = insert_lines s (s_body_end s) [mark new_line] False d1"
    by (auto split: option.splits)
  have "subseq (texts d) (texts d')"
    using subseq_locate [OF l] subseq_insert_lines unfolding d' by (rule subseq_order.trans)
  then show ?thesis
    using set_insert_lines [of "[mark new_line]" s "s_body_end s" False d1] ReplaceLine d' by simp
next
  case (ReplaceSection heading base_hash lines)
  obtain d1 s oc1 where l: "locate E (Some heading) (d, oc) = (d1, s, oc1)" by (metis prod_cases3)
  with assms ReplaceSection have d': "d' = insert_lines s (s_body_end s) (mark_first lines) True d1"
    and "\<not> list_all (\<lambda>l. trim l = []) lines"
    by (auto split: if_splits)
  then obtain line where "line \<in> set lines" "mark line \<in> set (mark_first lines)"
    using mark_first_in by blast
  moreover have "subseq (texts d) (texts d')"
    using subseq_locate [OF l] subseq_insert_lines unfolding d' by (rule subseq_order.trans)
  ultimately show ?thesis
    using set_insert_lines [of "mark_first lines" s "s_body_end s" True d1] ReplaceSection d' by auto
qed (use assms in \<open>auto simp: Let_def split: option.splits prod.splits\<close>)

text \<open>A write that reports \<open>KeptBoth\<close> loses nothing: every old line stays, in order, and a line
  of the write is there with the conflict marker.\<close>

theorem kept_both_keeps:
  assumes "apply_op E oper (d, oc) = (d', oc', KeptBoth)"
  shows "subseq (texts d) (texts d') \<and>
    (\<exists>line \<in> set (op_lines oper). trim_end line @ [32] @ CONFLICT_MARKER \<in> set (texts d'))"
  using kept_both_lines [OF assms] unfolding mark_def .

theorem kept_both_keeps_witness:
  "\<exists>d' oc'. apply_op ascii_env (ReplaceLine (Some backlog) (lit ''00'') 0 (lit ''- [x] call mum''))
       (doc_split sample_note, None) = (d', oc', KeptBoth) \<and>
     subseq (texts (doc_split sample_note)) (texts d') \<and>
     trim_end (lit ''- [x] call mum'') @ [32] @ CONFLICT_MARKER \<in> set (texts d')"
proof -
  let ?r = "apply_op ascii_env (ReplaceLine (Some backlog) (lit ''00'') 0 (lit ''- [x] call mum''))
       (doc_split sample_note, None)"
  have "snd (snd ?r) = KeptBoth" by code_simp
  then obtain d' oc' where r: "?r = (d', oc', KeptBoth)" by (metis prod.collapse)
  from kept_both_keeps [OF r] r show ?thesis by auto
qed

text \<open>A fresh \<open>replace_section\<close>, whose base hash is the hash of the body it finds, replaces
  exactly the body of the section.\<close>

theorem replace_section_fresh:
  assumes s: "find_section E d (Some heading) = Some s" and h: "hash_lines E (body_texts d s) = base_hash"
    and r: "apply_op E (ReplaceSection heading base_hash lines) (d, oc) = (d', oc', out)"
  shows "texts d' = take (s_start s) (texts d) @ lines @ drop (s_body_end s) (texts d) \<and> out = OApplied"
proof -
  have ok: "s_start s \<le> s_body_end s" "s_body_end s \<le> length (d_lines d)"
    using find_section_ok [OF s] by (simp_all add: section_ok_def)
  then have "s_start s \<le> length (drain (s_start s) (s_body_end s) (texts d))"
    by (simp add: drain_def)
  then show ?thesis
    using r h ok by (auto simp: locate_found [OF s] texts_doc_insert map_drain splice_at_def
        drain_def min_absorb1 min_absorb2 take_map drop_map)
qed

theorem replace_section_fresh_witness:
  "texts (fst (apply_op ascii_env (ReplaceSection backlog
       (hash_lines ascii_env [lit ''- [ ] call mum'', lit ''  - number in the book'']) [lit ''- [ ] rest''])
       (doc_split sample_note, None))) =
     take 2 (texts (doc_split sample_note)) @ [lit ''- [ ] rest''] @ drop 4 (texts (doc_split sample_note))"
proof -
  let ?op = "ReplaceSection backlog (hash_lines ascii_env [lit ''- [ ] call mum'', lit ''  - number in the book''])
     [lit ''- [ ] rest'']"
  have s: "find_section ascii_env (doc_split sample_note) (Some backlog) =
      Some \<lparr>s_heading = Some 1, s_start = 2, s_body_end = 4, s_own_end = 4, s_end = 5\<rparr>" by code_simp
  have h: "hash_lines ascii_env (body_texts (doc_split sample_note)
        \<lparr>s_heading = Some 1, s_start = 2, s_body_end = 4, s_own_end = 4, s_end = 5\<rparr>) =
      hash_lines ascii_env [lit ''- [ ] call mum'', lit ''  - number in the book'']" by code_simp
  obtain d' oc' out where r: "apply_op ascii_env ?op (doc_split sample_note, None) = (d', oc', out)"
    by (metis prod_cases3)
  from replace_section_fresh [OF s h r] r show ?thesis by simp
qed

text \<open>A stale \<open>replace_section\<close> never overwrites: it does nothing when it brings no content, and
  otherwise keeps every line that is there and adds its own, the first one marked.\<close>

theorem replace_section_stale:
  assumes s: "find_section E d (Some heading) = Some s" and h: "hash_lines E (body_texts d s) \<noteq> base_hash"
    and r: "apply_op E (ReplaceSection heading base_hash lines) (d, oc) = (d', oc', out)"
  shows "out = Noop \<and> d' = d \<and> list_all (\<lambda>l. trim l = []) lines \<or>
     out = KeptBoth \<and> subseq (texts d) (texts d') \<and> subseq (mark_first lines) (texts d')"
  using r h by (auto simp: locate_found [OF s] split: if_splits intro: subseq_insert_lines subseq_insert_new)

theorem replace_section_stale_witness:
  "snd (snd (apply_op ascii_env (ReplaceSection backlog (lit ''stale'') [lit ''- [ ] rest''])
       (doc_split sample_note, None))) = KeptBoth \<and>
   subseq (mark_first [lit ''- [ ] rest'']) (texts (fst (apply_op ascii_env
       (ReplaceSection backlog (lit ''stale'') [lit ''- [ ] rest'']) (doc_split sample_note, None))))"
proof -
  have s: "find_section ascii_env (doc_split sample_note) (Some backlog) =
      Some \<lparr>s_heading = Some 1, s_start = 2, s_body_end = 4, s_own_end = 4, s_end = 5\<rparr>" by code_simp
  have h: "hash_lines ascii_env (body_texts (doc_split sample_note)
        \<lparr>s_heading = Some 1, s_start = 2, s_body_end = 4, s_own_end = 4, s_end = 5\<rparr>) \<noteq> lit ''stale''" by code_simp
  have n: "\<not> list_all (\<lambda>l. trim l = []) [lit ''- [ ] rest'']" by code_simp
  obtain d' oc' out where r: "apply_op ascii_env (ReplaceSection backlog (lit ''stale'') [lit ''- [ ] rest''])
      (doc_split sample_note, None) = (d', oc', out)" by (metis prod_cases3)
  from replace_section_stale [OF s h r] r n show ?thesis by simp
qed

section \<open>Blocks\<close>



text \<open>A \<open>move_block\<close> whose source section or line is missing leaves the text byte for byte alone:
  a move never turns into a copy of what the phone remembers.\<close>

theorem move_missing_unchanged:
  assumes "w_operation w = MoveBlock heading wanted ordinal to place new_line create_under"
    and "\<And>s. find_section E (doc_split t) heading = Some s \<Longrightarrow>
           find_line E (doc_split t) (own s) wanted ordinal = None"
  shows "apply_write E (Some t) w seed = \<lparr>a_text = t, a_outcome = Noop\<rparr>"
proof (cases "effect_present E t w")
  case True
  then show ?thesis by (simp add: apply_write_present)
next
  case False
  then show ?thesis
    using assms apply_write_existing [of w E t seed]
    by (auto simp: finish_def join_split split: option.splits)
qed

theorem move_missing_unchanged_witness:
  "apply_write ascii_env (Some sample_note) (sample_write (MoveBlock (Some (heading_new (lit ''nowhere'')))
     (lit ''00'') 0 (Some backlog) Top (Some (lit ''- [ ] ghost'')) None)) None =
     \<lparr>a_text = sample_note, a_outcome = Noop\<rparr>"
proof (rule move_missing_unchanged)
  show "w_operation (sample_write (MoveBlock (Some (heading_new (lit ''nowhere'')))
     (lit ''00'') 0 (Some backlog) Top (Some (lit ''- [ ] ghost'')) None)) =
     MoveBlock (Some (heading_new (lit ''nowhere'')))
       (lit ''00'') 0 (Some backlog) Top (Some (lit ''- [ ] ghost'')) None" by code_simp
  have "find_section ascii_env (doc_split sample_note) (Some (heading_new (lit ''nowhere''))) = None"
    by code_simp
  then show "find_section ascii_env (doc_split sample_note) (Some (heading_new (lit ''nowhere''))) = Some s
      \<Longrightarrow> find_line ascii_env (doc_split sample_note) (own s) (lit ''00'') 0 = None" for s
    by simp
qed

text \<open>A \<open>remove_block\<close> that reports \<open>Applied\<close> removes one block and nothing else: it starts at a
  line the hash names, outside fences and front matter, and every other line with content stays.\<close>

theorem remove_block_exact:
  assumes "apply_op E (RemoveBlock heading wanted ordinal) (d, oc) = (d', oc', OApplied)"
  shows "\<exists>i e. i < e \<and> e \<le> length (d_lines d) \<and> names_line E wanted (texts d ! i) \<and> \<not> is_protected d i \<and>
     solid_lines (texts d') + solid_lines (segment (texts d) i e) = solid_lines (texts d)"
proof -
  from assms obtain s i where s: "find_section E d heading = Some s"
    and i: "find_line E d (own s) wanted ordinal = Some i" and d': "d' = cut i (block_end d (own s) i) d"
    by (auto split: option.splits)
  from block_of_line [OF s i] find_line_in [OF i] solid_cut show ?thesis
    unfolding d' by (intro exI [of _ i] exI [of _ "block_end d (own s) i"]) auto
qed

theorem remove_block_exact_witness:
  "\<exists>d' oc' i e. apply_op ascii_env (RemoveBlock (Some backlog) (line_hash ascii_env (lit ''call mum'')) 0)
       (doc_split sample_note, None) = (d', oc', OApplied) \<and> i < e \<and>
     solid_lines (texts d') + solid_lines (segment (texts (doc_split sample_note)) i e) =
       solid_lines (texts (doc_split sample_note))"
proof -
  let ?r = "apply_op ascii_env (RemoveBlock (Some backlog) (line_hash ascii_env (lit ''call mum'')) 0)
       (doc_split sample_note, None)"
  have "snd (snd ?r) = OApplied" by code_simp
  then obtain d' oc' where r: "?r = (d', oc', OApplied)" by (metis prod.collapse)
  from remove_block_exact [OF r] r show ?thesis by blast
qed

section \<open>Missing files and appended lines\<close>

text \<open>A write that edits text and finds no file reports \<open>Created\<close>, whatever else it did: the
  structural outcome wins over the outcome of the operation.\<close>

theorem file_missing_created:
  "\<not> is_file_level (w_operation w) \<Longrightarrow> a_outcome (apply_write E None w seed) = Created"
  by (auto simp: apply_write_def finish_def Let_def locate_def locate_group_def add_outcome_def
      split: Operation.splits prod.splits option.splits dest: locate_outcome)

theorem file_missing_created_witness:
  "a_outcome (apply_write ascii_env None
     (sample_write (Append (Some backlog) [lit ''- [ ] milk''] AtEnd False True None)) (Some (lit ''# Day''))) = Created"
  using file_missing_created [of
      "sample_write (Append (Some backlog) [lit ''- [ ] milk''] AtEnd False True None)"
      ascii_env "Some (lit ''# Day'')"]
  by (simp add: sample_write_def write_new_def)

text \<open>Creating over an existing file and appending only add: every line that was there stays,
  in order, and the new lines are there, in order.\<close>

theorem additions_keep_lines:
  assumes "oper = Create content \<and> lines = content_lines content \<or>
      oper = Append heading lines placement b c after"
    and "apply_op E oper (d, oc) = (d', oc', out)"
  shows "subseq (texts d) (texts d') \<and> subseq lines (texts d')"
  using assms
  by (auto simp: Let_def subseq_insert_lines subseq_insert_new split: prod.splits
      dest!: subseq_locate intro: subseq_order.trans [OF _ subseq_insert_lines])

theorem additions_keep_lines_witness:
  "subseq [lit ''one'', lit ''two''] (texts (fst (apply_op ascii_env (Create (from_lines [''one'', ''two'']))
     (doc_split sample_note, None))))"
proof -
  have c: "content_lines (from_lines [''one'', ''two'']) = [lit ''one'', lit ''two'']" by code_simp
  obtain d' oc' out where r: "apply_op ascii_env (Create (from_lines [''one'', ''two'']))
      (doc_split sample_note, None) = (d', oc', out)" by (metis prod_cases3)
  from additions_keep_lines [OF _ r, of "from_lines [''one'', ''two'']" "[lit ''one'', lit ''two'']"] c r
  show ?thesis by simp
qed

end
