(* ===== verification/Utf8.thy ===== *)
theory Utf8
  imports Rust_Str
begin

text \<open>
  UTF-8 as the byte format of strings: the encoding of Unicode scalar values can be read back
  from the front of a byte list, so it is injective, and a NUL byte encodes a NUL character only.
\<close>

definition utf8_ints :: "rchar \<Rightarrow> int list" where
  "utf8_ints c =
     (if c < 128 then [c]
      else if c < 2048 then [192 + c div 64, 128 + c mod 64]
      else if c < 65536 then [224 + c div 4096, 128 + c div 64 mod 64, 128 + c mod 64]
      else [240 + c div 262144, 128 + c div 4096 mod 64, 128 + c div 64 mod 64, 128 + c mod 64])"

lemma uint_byte: "0 \<le> i \<Longrightarrow> i < 256 \<Longrightarrow> uint (word_of_int i :: byte) = i"
  by (simp add: uint_word_of_int take_bit_eq_mod)

lemma utf8_char_ints: "scalar c \<Longrightarrow> map uint (utf8_char c) = utf8_ints c"
proof -
  assume s: "scalar c"
  consider "c < 128" | "128 \<le> c" "c < 2048" | "2048 \<le> c" "c < 65536" | "65536 \<le> c" by linarith
  then show ?thesis
  proof cases
    case 1
    with s show ?thesis by (simp add: utf8_char_def utf8_ints_def scalar_def uint_byte)
  next
    case 2
    then have "c div 64 < 32" by (simp add: div_less_iff_less_mult)
    with 2 show ?thesis by (simp add: utf8_char_def utf8_ints_def uint_byte pos_imp_zdiv_nonneg_iff
        del: of_int_add of_int_numeral)
  next
    case 3
    then have "c div 4096 < 16" by (simp add: div_less_iff_less_mult)
    with 3 show ?thesis by (simp add: utf8_char_def utf8_ints_def uint_byte pos_imp_zdiv_nonneg_iff
        del: of_int_add of_int_numeral)
  next
    case 4
    with s have "c div 262144 < 5" by (simp add: div_less_iff_less_mult scalar_def)
    with 4 show ?thesis by (simp add: utf8_char_def utf8_ints_def uint_byte pos_imp_zdiv_nonneg_iff
        del: of_int_add of_int_numeral)
  qed
qed

text \<open>Reading one character back from the front of a list of bytes.\<close>

fun decode_front :: "int list \<Rightarrow> (rchar \<times> int list) option" where
  "decode_front [] = None"
| "decode_front (a # rest) =
     (if a < 128 then Some (a, rest)
      else if a < 224 then
        (case rest of b # r \<Rightarrow> Some ((a - 192) * 64 + (b - 128), r) | _ \<Rightarrow> None)
      else if a < 240 then
        (case rest of b # b' # r \<Rightarrow> Some (((a - 224) * 64 + (b - 128)) * 64 + (b' - 128), r) | _ \<Rightarrow> None)
      else
        (case rest of b # b' # b'' # r \<Rightarrow>
           Some ((((a - 240) * 64 + (b - 128)) * 64 + (b' - 128)) * 64 + (b'' - 128), r) | _ \<Rightarrow> None))"

lemma two_digits:
  "q' * 64 + r' = q \<Longrightarrow> q * 64 + r = c \<Longrightarrow> 4096 * q' + (r' * 64 + r) = (c :: int)"
  by linarith

lemma decode_front_utf8:
  assumes "scalar c"
  shows "decode_front (utf8_ints c @ xs) = Some (c, xs)"
proof -
  have d: "c div 4096 = c div 64 div 64" "c div 262144 = c div 64 div 64 div 64"
    by (simp_all flip: zdiv_zmult2_eq)
  have "c < 1114112" using assms by (simp add: scalar_def)
  consider "c < 128" | "128 \<le> c" "c < 2048" | "2048 \<le> c" "c < 65536" | "65536 \<le> c" by linarith
  then show ?thesis
  proof cases
    case 1
    then show ?thesis by (simp add: utf8_ints_def)
  next
    case 2
    then have "c div 64 < 32" by (simp add: div_less_iff_less_mult)
    with 2 show ?thesis by (simp add: utf8_ints_def)
  next
    case 3
    then have "c div 4096 < 16" "0 \<le> c div 4096" by (simp_all add: div_less_iff_less_mult pos_imp_zdiv_nonneg_iff)
    with 3 show ?thesis by (simp add: utf8_ints_def d)
  next
    case 4
    then have "0 \<le> c div 262144" by (simp add: pos_imp_zdiv_nonneg_iff)
    with 4 show ?thesis
      by (simp add: utf8_ints_def d) (rule two_digits [OF div_mult_mod_eq div_mult_mod_eq])
  qed
qed

lemma utf8_char_append_inj:
  assumes "scalar c" and "scalar d" and "utf8_char c @ xs = utf8_char d @ ys"
  shows "c = d \<and> xs = ys"
proof -
  have "decode_front (utf8_ints c @ map uint xs) = decode_front (utf8_ints d @ map uint ys)"
    using assms by (metis map_append utf8_char_ints)
  then have "c = d" using assms(1,2) by (simp add: decode_front_utf8)
  with assms(3) show ?thesis by simp
qed

lemma utf8_inj:
  "list_all scalar s \<Longrightarrow> list_all scalar t \<Longrightarrow> utf8 s = utf8 t \<Longrightarrow> s = t"
proof (induction s arbitrary: t)
  case Nil
  then show ?case by (cases t) auto
next
  case (Cons c s)
  then obtain d t' where t: "t = d # t'" by (cases t) auto
  with Cons.prems have "c = d" "utf8 s = utf8 t'"
    using utf8_char_append_inj [of c d "utf8 s" "utf8 t'"] by simp_all
  with Cons.IH [of t'] Cons.prems t show ?case by simp
qed

text \<open>The byte zero encodes the character zero alone.\<close>

lemma utf8_char_zero: "scalar c \<Longrightarrow> 0 \<in> set (utf8_char c) \<Longrightarrow> c = 0"
proof -
  assume s: "scalar c" and "0 \<in> set (utf8_char c)"
  then have "uint (0 :: byte) \<in> set (map uint (utf8_char c))" by (metis imageI list.set_map)
  then have "0 \<in> set (utf8_ints c)" using s by (simp add: utf8_char_ints)
  moreover have "0 \<le> c" using s by (simp add: scalar_def)
  ultimately show "c = 0"
    by (auto simp: utf8_ints_def pos_imp_zdiv_nonneg_iff add_eq_0_iff split: if_splits)
qed

lemma utf8_no_zero: "list_all scalar s \<Longrightarrow> 0 \<notin> set s \<Longrightarrow> 0 \<notin> set (utf8 s)"
  by (induction s) (auto dest: utf8_char_zero)

end
