(* ===== verification/Paths.thy ===== *)
theory Paths
  imports Rust_Str
begin

text \<open>
  The path rules of \<open>crates/thock-sync-core/thock_sync_core.rs\<close>: which vault-relative paths sync
  as text and which as pictures.  Unicode normalisation is the crate \<open>unicode_normalization\<close>'s
  and enters as the argument \<open>is_nfc\<close>.
\<close>

section \<open>Definitions\<close>

definition SYNCABLE_EXTENSIONS :: "rstr list" where
  "SYNCABLE_EXTENSIONS = map lit [''md'', ''txt'', ''toml'', ''json'', ''csv'']"

definition IMAGE_EXTENSIONS :: "rstr list" where
  "IMAGE_EXTENSIONS = map lit [''png'', ''jpg'', ''jpeg'', ''gif'', ''webp'']"

definition EXCLUDED_PREFIXES :: "rstr list" where
  "EXCLUDED_PREFIXES = map lit [''.thock/history/'', ''.thock/cache/'', ''.thock/sync/'', ''.git/'']"

definition MAX_PATH_BYTES :: nat where
  "MAX_PATH_BYTES = 1024"

abbreviation path_segments :: "rstr \<Rightarrow> rstr list" where
  "path_segments path \<equiv> split_on (\<lambda>c. c = 47) path"

definition well_formed_extension :: "(rstr \<Rightarrow> bool) \<Rightarrow> rstr \<Rightarrow> rstr option" where
  "well_formed_extension is_nfc path =
     (if path = [] \<or> MAX_PATH_BYTES < byte_len path \<or> \<not> is_nfc path then None
      else if starts_with [47] path \<or> ends_with [47] path \<or> 92 \<in> set path then None
      else if list_ex (\<lambda>segment. segment = [] \<or> segment = lit ''.'' \<or> segment = lit ''..'')
                (path_segments path) then None
      else if list_ex is_control path then None
      else if list_ex (\<lambda>p. starts_with p path) EXCLUDED_PREFIXES then None
      else case rsplit_once [46] path of
        None \<Rightarrow> None
      | Some (stem, extension) \<Rightarrow>
          if stem = [] \<or> ends_with [47] stem then None else Some extension)"

definition is_syncable_path :: "(rstr \<Rightarrow> bool) \<Rightarrow> rstr \<Rightarrow> bool" where
  "is_syncable_path is_nfc path \<longleftrightarrow>
     is_some_and (well_formed_extension is_nfc path)
       (\<lambda>extension. list_ex (\<lambda>allowed. eq_ignore_ascii_case extension allowed) SYNCABLE_EXTENSIONS)"

definition is_syncable_image_path :: "(rstr \<Rightarrow> bool) \<Rightarrow> rstr \<Rightarrow> rstr \<Rightarrow> bool" where
  "is_syncable_image_path is_nfc path images_dir0 =
     (let images_dir = trim_matches (\<lambda>c. c = 47) images_dir0
      in if images_dir = [] then False
         else case well_formed_extension is_nfc path of
           None \<Rightarrow> False
         | Some extension \<Rightarrow>
             is_some_and (strip_prefix images_dir path) (\<lambda>rest. starts_with [47] rest) \<and>
             list_ex (\<lambda>allowed. eq_ignore_ascii_case extension allowed) IMAGE_EXTENSIONS)"

section \<open>What a path that syncs looks like\<close>

lemma well_formed_extensionD:
  assumes "well_formed_extension is_nfc path = Some extension"
  shows "path \<noteq> []" and "byte_len path \<le> MAX_PATH_BYTES" and "is_nfc path"
    and "\<not> starts_with [47] path" and "\<not> ends_with [47] path" and "92 \<notin> set path"
    and "\<And>segment. segment \<in> set (path_segments path) \<Longrightarrow>
           segment \<noteq> [] \<and> segment \<noteq> lit ''.'' \<and> segment \<noteq> lit ''..''"
    and "\<And>c. c \<in> set path \<Longrightarrow> \<not> is_control c"
    and "\<And>p. p \<in> set EXCLUDED_PREFIXES \<Longrightarrow> \<not> starts_with p path"
    and "\<exists>stem. rsplit_once [46] path = Some (stem, extension) \<and> stem \<noteq> [] \<and> \<not> ends_with [47] stem"
  using assms by (auto simp: well_formed_extension_def list_ex_iff split: if_splits option.splits)

lemma well_formed_extensionI:
  assumes "path \<noteq> []" and "byte_len path \<le> MAX_PATH_BYTES" and "is_nfc path"
    and "\<not> starts_with [47] path" and "\<not> ends_with [47] path" and "92 \<notin> set path"
    and "\<And>segment. segment \<in> set (path_segments path) \<Longrightarrow>
           segment \<noteq> [] \<and> segment \<noteq> lit ''.'' \<and> segment \<noteq> lit ''..''"
    and "\<And>c. c \<in> set path \<Longrightarrow> \<not> is_control c"
    and "\<And>p. p \<in> set EXCLUDED_PREFIXES \<Longrightarrow> \<not> starts_with p path"
    and "rsplit_once [46] path = Some (stem, extension)" "stem \<noteq> []" "\<not> ends_with [47] stem"
  shows "well_formed_extension is_nfc path = Some extension"
  using assms by (auto simp: well_formed_extension_def list_ex_iff not_less)

lemma extensions_disjoint:
  "a \<in> set SYNCABLE_EXTENSIONS \<Longrightarrow> b \<in> set IMAGE_EXTENSIONS \<Longrightarrow>
     eq_ignore_ascii_case extension a \<Longrightarrow> \<not> eq_ignore_ascii_case extension b"
  by (auto simp: eq_ignore_ascii_case_def SYNCABLE_EXTENSIONS_def IMAGE_EXTENSIONS_def
      to_ascii_lowercase_def is_ascii_uppercase_def)

section \<open>Properties\<close>

text \<open>C5: A path that syncs stays inside the vault and outside the folders sync ignores: it is
  relative, has no empty, \<open>.\<close> or \<open>..\<close> segment, no backslash and no control character, at most 1024
  bytes, and is not under an excluded folder.\<close>

theorem syncable_path_safe:
  assumes "is_syncable_path is_nfc path \<or> is_syncable_image_path is_nfc path images_dir"
  shows "\<not> starts_with [47] path \<and>
     (\<forall>segment \<in> set (path_segments path). segment \<noteq> [] \<and> segment \<noteq> lit ''.'' \<and> segment \<noteq> lit ''..'') \<and>
     92 \<notin> set path \<and> (\<forall>c \<in> set path. \<not> is_control c) \<and> byte_len path \<le> 1024 \<and>
     (\<forall>p \<in> set EXCLUDED_PREFIXES. \<not> starts_with p path)"
proof -
  obtain extension where "well_formed_extension is_nfc path = Some extension"
    using assms
    by (auto simp: is_syncable_path_def is_syncable_image_path_def is_some_and_iff Let_def
        split: if_splits option.splits)
  from well_formed_extensionD [OF this] show ?thesis by (simp add: MAX_PATH_BYTES_def)
qed

theorem syncable_path_safe_witness:
  "is_syncable_path (\<lambda>_. True) (lit ''notes/2026.07/Day.MD'') \<and>
   \<not> is_syncable_path (\<lambda>_. True) (lit ''notes/../Day.md'') \<and>
   \<not> starts_with [47] (lit ''notes/2026.07/Day.MD'') \<and> byte_len (lit ''notes/2026.07/Day.MD'') \<le> 1024"
proof (intro conjI)
  show s: "is_syncable_path (\<lambda>_. True) (lit ''notes/2026.07/Day.MD'')" by code_simp
  show "\<not> is_syncable_path (\<lambda>_. True) (lit ''notes/../Day.md'')" by code_simp
  note safe = syncable_path_safe [of "\<lambda>_. True" "lit ''notes/2026.07/Day.MD''" "[]", OF disjI1 [OF s]]
  show "\<not> starts_with [47] (lit ''notes/2026.07/Day.MD'')" using safe by blast
  show "byte_len (lit ''notes/2026.07/Day.MD'') \<le> 1024" using safe by blast
qed

text \<open>No path syncs both as text and as a picture, whatever the images folder is.\<close>

theorem text_and_image_disjoint:
  "\<not> (is_syncable_path is_nfc path \<and> is_syncable_image_path is_nfc path images_dir)"
  using extensions_disjoint
  by (fastforce simp: is_syncable_path_def is_syncable_image_path_def is_some_and_iff list_ex_iff
      Let_def split: if_splits option.splits)

end
