(* ===== verification/Envelope.thy ===== *)
theory Envelope
  imports Utf8 Paths
begin

text \<open>
  The sealed blobs of \<open>crates/thock-sync-core/envelope.rs\<close>.  The cipher is the crate
  \<open>chacha20poly1305\<close>'s and enters as the record \<open>aead\<close>; what the code relies on is the
  hypothesis \<open>aead_correct\<close>: what was encrypted decrypts under the same key, nonce and
  associated data, and the ciphertext is sixteen bytes longer than the message.
\<close>

section \<open>Definitions\<close>

definition MAGIC :: "byte list" where
  "MAGIC = utf8 (lit ''TVS1'')"

definition NONCE_LEN :: nat where
  "NONCE_LEN = 12"

definition TAG_LEN :: nat where
  "TAG_LEN = 16"

definition OVERHEAD :: nat where
  "OVERHEAD = length MAGIC + NONCE_LEN + TAG_LEN"

datatype Context = CFile rstr rstr | CWrite rstr
  \<comment> \<open>path and blob\_id, or client\_id\<close>

fun associated_data :: "Context \<Rightarrow> byte list" where
  "associated_data (CFile path blob_id) =
     utf8 (lit ''thock-file/1'') @ [0] @ utf8 path @ [0] @ utf8 blob_id"
| "associated_data (CWrite client_id) = utf8 (lit ''thock-write/1'') @ [0] @ utf8 client_id"

datatype SealError = TooShort | BadMagic | Authentication

record aead =
  encrypt :: "byte list \<Rightarrow> byte list \<Rightarrow> byte list \<Rightarrow> byte list \<Rightarrow> byte list option"
    \<comment> \<open>key, nonce, associated data, message\<close>
  decrypt :: "byte list \<Rightarrow> byte list \<Rightarrow> byte list \<Rightarrow> byte list \<Rightarrow> byte list option"

definition seal_with_nonce ::
    "aead \<Rightarrow> byte list \<Rightarrow> byte list \<Rightarrow> Context \<Rightarrow> byte list \<Rightarrow> byte list" where
  "seal_with_nonce A key nonce context0 plaintext =
     (let ciphertext = (case encrypt A key nonce (associated_data context0) plaintext of
                          Some c \<Rightarrow> c | None \<Rightarrow> [])
      in MAGIC @ nonce @ ciphertext)"

text \<open>\<open>seal\<close>: the random nonce is what the generator returned.\<close>

definition seal :: "aead \<Rightarrow> byte list \<Rightarrow> byte list \<Rightarrow> Context \<Rightarrow> byte list \<Rightarrow> byte list" where
  "seal A generated_nonce key context0 plaintext =
     seal_with_nonce A key generated_nonce context0 plaintext"

definition open_envelope ::
    "aead \<Rightarrow> byte list \<Rightarrow> Context \<Rightarrow> byte list \<Rightarrow> SealError + byte list" where
  "open_envelope A key context0 envelope =
     (if length envelope < OVERHEAD then Inl TooShort
      else let magic = take (length MAGIC) envelope; rest = drop (length MAGIC) envelope
           in if magic \<noteq> MAGIC then Inl BadMagic
              else let nonce = take NONCE_LEN rest; ciphertext = drop NONCE_LEN rest
                   in case decrypt A key nonce (associated_data context0) ciphertext of
                        Some plaintext \<Rightarrow> Inr plaintext
                      | None \<Rightarrow> Inl Authentication)"

definition content_hash :: "env \<Rightarrow> byte list \<Rightarrow> rstr" where
  "content_hash E envelope = hex_encode E (sha256 E envelope)"

definition key_check :: "env \<Rightarrow> byte list \<Rightarrow> rstr" where
  "key_check E key = take 32 (hex_encode E (sha256 E (utf8 (lit ''thock-vault-key-check/1'') @ key)))"

section \<open>The documented behaviour of the cipher\<close>

definition aead_correct :: "aead \<Rightarrow> bool" where
  "aead_correct A \<longleftrightarrow>
     (\<forall>key nonce ad m c. encrypt A key nonce ad m = Some c \<longrightarrow>
        decrypt A key nonce ad c = Some m \<and> length c = length m + TAG_LEN)"

lemma length_MAGIC [simp]: "length MAGIC = 4"
  by (simp add: MAGIC_def utf8_char_def)

lemma OVERHEAD_eq [simp]: "OVERHEAD = 32"
  by (simp add: OVERHEAD_def NONCE_LEN_def TAG_LEN_def)

section \<open>Lemmas\<close>

lemma file_data_eq: "associated_data (CFile path blob_id) =
    [116, 104, 111, 99, 107, 45, 102, 105, 108, 101, 47, 49, 0] @ utf8 path @ [0] @ utf8 blob_id"
  by (simp add: utf8_char_def)

lemma write_data_eq: "associated_data (CWrite client_id) =
    [116, 104, 111, 99, 107, 45, 119, 114, 105, 116, 101, 47, 49, 0] @ utf8 client_id"
  by (simp add: utf8_char_def)

lemma split_at_zero:
  assumes "x \<notin> set as" and "x \<notin> set bs" and "as @ [x] @ cs = bs @ [x] @ ds"
  shows "as = bs \<and> cs = ds"
  using assms
proof (induction as arbitrary: bs)
  case Nil
  then show ?case by (cases bs) auto
next
  case (Cons a as)
  then show ?case by (cases bs) auto
qed

lemma no_control_no_nul: "(\<And>c. c \<in> set s \<Longrightarrow> \<not> is_control c) \<Longrightarrow> 0 \<notin> set s"
  using is_control_def [of 0] by fastforce

text \<open>The contexts the protocol uses: files at paths that sync, and writes; every string is made of
  Unicode scalar values, as each Rust string is.\<close>

fun context_ok :: "(rstr \<Rightarrow> bool) \<Rightarrow> Context \<Rightarrow> bool" where
  "context_ok is_nfc (CFile path blob_id) \<longleftrightarrow>
     (is_syncable_path is_nfc path \<or> (\<exists>dir. is_syncable_image_path is_nfc path dir)) \<and>
     list_all scalar path \<and> list_all scalar blob_id"
| "context_ok is_nfc (CWrite client_id) \<longleftrightarrow> list_all scalar client_id"

lemma context_path_no_nul: "context_ok is_nfc (CFile path blob_id) \<Longrightarrow> 0 \<notin> set (utf8 path)"
proof -
  assume a: "context_ok is_nfc (CFile path blob_id)"
  then obtain extension where "well_formed_extension is_nfc path = Some extension"
    by (auto simp: is_syncable_path_def is_syncable_image_path_def is_some_and_iff Let_def
        split: if_splits option.splits)
  then have "0 \<notin> set path" by (intro no_control_no_nul) (rule well_formed_extensionD(8))
  moreover have "list_all scalar path" using a by simp
  ultimately show ?thesis by (rule utf8_no_zero [rotated])
qed

lemma file_data_inj:
  assumes "context_ok is_nfc (CFile path blob_id)" and "context_ok is_nfc (CFile path' blob_id')"
    and "associated_data (CFile path blob_id) = associated_data (CFile path' blob_id')"
  shows "path = path' \<and> blob_id = blob_id'"
proof -
  have "utf8 path @ [0] @ utf8 blob_id = utf8 path' @ [0] @ utf8 blob_id'"
    using assms(3) unfolding file_data_eq by (simp only: append_eq_append_conv append_same_eq same_append_eq)
  then have "utf8 path = utf8 path'" "utf8 blob_id = utf8 blob_id'"
    using split_at_zero [OF context_path_no_nul [OF assms(1)] context_path_no_nul [OF assms(2)]] by blast+
  with assms(1,2) show ?thesis by (auto intro: utf8_inj)
qed

section \<open>Properties\<close>

lemma sealed_opens:
  assumes "aead_correct A" and "length nonce = NONCE_LEN"
    and "encrypt A key nonce (associated_data ctx) plaintext = Some c"
  shows "open_envelope A key ctx (seal_with_nonce A key nonce ctx plaintext) = Inr plaintext"
proof -
  from assms have "decrypt A key nonce (associated_data ctx) c = Some plaintext"
    and "length c = length plaintext + TAG_LEN" by (auto simp: aead_correct_def)
  with assms(2,3) show ?thesis
    by (simp add: open_envelope_def seal_with_nonce_def NONCE_LEN_def TAG_LEN_def)
qed

lemma sealed_length:
  assumes "aead_correct A" and "length nonce = NONCE_LEN"
    and "encrypt A key nonce (associated_data ctx) plaintext = Some c"
  shows "length (seal_with_nonce A key nonce ctx plaintext) = length plaintext + OVERHEAD"
  using assms
  by (auto simp: aead_correct_def seal_with_nonce_def NONCE_LEN_def TAG_LEN_def)

text \<open>What was sealed opens: an envelope made under a key, a twelve-byte nonce and a context
  opens under the same key and context to the plaintext, for every cipher that decrypts what it
  encrypted, and is 32 bytes longer than the plaintext.\<close>

theorem open_seal:
  assumes "aead_correct A" and "length nonce = NONCE_LEN"
    and "encrypt A key nonce (associated_data ctx) plaintext = Some c"
  shows "open_envelope A key ctx (seal_with_nonce A key nonce ctx plaintext) = Inr plaintext \<and>
     length (seal_with_nonce A key nonce ctx plaintext) = length plaintext + OVERHEAD"
  using sealed_opens [OF assms] sealed_length [OF assms] by simp

text \<open>A toy cipher with the shape of the real one: the tag is built from the key, the nonce and the
  associated data, and opening compares it.\<close>

definition toy_tag :: "byte list \<Rightarrow> byte list \<Rightarrow> byte list \<Rightarrow> byte list" where
  "toy_tag key nonce ad = take TAG_LEN (rev (key @ nonce @ ad) @ replicate TAG_LEN 0)"

definition toy_aead :: aead where
  "toy_aead =
     \<lparr>encrypt = (\<lambda>key nonce ad m. Some (m @ toy_tag key nonce ad)),
      decrypt = (\<lambda>key nonce ad c.
        let n = length c - TAG_LEN
        in if drop n c = toy_tag key nonce ad then Some (take n c) else None)\<rparr>"

lemma toy_aead_correct: "aead_correct toy_aead"
proof -
  have "length (toy_tag key nonce ad) = TAG_LEN" for key nonce ad
    unfolding toy_tag_def by (simp only: length_take length_append length_replicate)
  then show ?thesis by (simp add: aead_correct_def toy_aead_def)
qed

theorem open_seal_witness:
  "aead_correct toy_aead \<and>
   open_envelope toy_aead [1, 2] (CWrite (lit ''c1''))
     (seal_with_nonce toy_aead [1, 2] (replicate 12 7) (CWrite (lit ''c1'')) [5, 6, 7]) = Inr [5, 6, 7]"
proof -
  have "encrypt toy_aead [1, 2] (replicate 12 7) (associated_data (CWrite (lit ''c1''))) [5, 6, 7] =
      Some ([5, 6, 7] @ toy_tag [1, 2] (replicate 12 7) (associated_data (CWrite (lit ''c1''))))"
    by (simp add: toy_aead_def)
  from open_seal [OF toy_aead_correct _ this] toy_aead_correct show ?thesis by (simp add: NONCE_LEN_def)
qed

text \<open>An envelope opens exactly when it is the magic, a twelve-byte nonce and a ciphertext of at
  least a tag that decrypts for the context; otherwise the error says which check failed first:
  the length, the magic, or the authentication.\<close>

theorem open_envelope_spec:
  "open_envelope A key ctx envelope =
     (if length envelope < 32 then Inl TooShort
      else if take 4 envelope \<noteq> MAGIC then Inl BadMagic
      else case decrypt A key (take 12 (drop 4 envelope)) (associated_data ctx) (drop 16 envelope) of
             None \<Rightarrow> Inl Authentication | Some m \<Rightarrow> Inr m) \<and>
   (open_envelope A key ctx envelope = Inr m \<longleftrightarrow>
     (\<exists>nonce c. envelope = MAGIC @ nonce @ c \<and> length nonce = 12 \<and> 16 \<le> length c \<and>
        decrypt A key nonce (associated_data ctx) c = Some m))"
  (is "?spec \<and> ?iff")
proof
  show spec: ?spec by (simp add: open_envelope_def NONCE_LEN_def Let_def)
  show ?iff
  proof
    assume r: "open_envelope A key ctx envelope = Inr m"
    then have "take 4 envelope = MAGIC" and "32 \<le> length envelope"
      unfolding spec by (auto split: if_splits)
    then have "envelope = MAGIC @ take 12 (drop 4 envelope) @ drop 16 envelope" and "32 \<le> length envelope"
      using append_take_drop_id [of 4 envelope] append_take_drop_id [of 12 "drop 4 envelope"] by simp_all
    then show "\<exists>nonce c. envelope = MAGIC @ nonce @ c \<and> length nonce = 12 \<and> 16 \<le> length c \<and>
        decrypt A key nonce (associated_data ctx) c = Some m"
      using r unfolding spec
      by (intro exI [of _ "take 12 (drop 4 envelope)"] exI [of _ "drop 16 envelope"])
         (auto split: if_splits option.splits)
  next
    assume "\<exists>nonce c. envelope = MAGIC @ nonce @ c \<and> length nonce = 12 \<and> 16 \<le> length c \<and>
        decrypt A key nonce (associated_data ctx) c = Some m"
    then show "open_envelope A key ctx envelope = Inr m" unfolding spec by auto
  qed
qed

text \<open>C4: The associated data names its context: two contexts the protocol can use, files at paths
  that sync or writes, never share it, so that a blob sealed for one path, blob id or write cannot
  be read as another's.\<close>

theorem associated_data_binds:
  assumes "context_ok is_nfc ctx" and "context_ok is_nfc ctx'"
    and "associated_data ctx = associated_data ctx'"
  shows "ctx = ctx'"
proof (cases ctx; cases ctx')
  fix p b p' b' assume "ctx = CFile p b" "ctx' = CFile p' b'"
  with assms show ?thesis using file_data_inj by blast
next
  fix i i' assume "ctx = CWrite i" "ctx' = CWrite i'"
  with assms show ?thesis by (auto intro: utf8_inj simp del: lit_simps)
next
  fix p b i assume c: "ctx = CFile p b" "ctx' = CWrite i"
  show ?thesis using assms(3) unfolding c file_data_eq write_data_eq by simp
next
  fix p b i assume c: "ctx = CWrite i" "ctx' = CFile p b"
  show ?thesis using assms(3) unfolding c file_data_eq write_data_eq by simp
qed

theorem associated_data_binds_witness:
  "associated_data (CFile (lit ''notes/a.md'') (lit ''b1'')) \<noteq>
     associated_data (CFile (lit ''notes/b.md'') (lit ''b1''))"
proof
  assume e: "associated_data (CFile (lit ''notes/a.md'') (lit ''b1'')) =
     associated_data (CFile (lit ''notes/b.md'') (lit ''b1''))"
  have "is_syncable_path (\<lambda>_. True) (lit ''notes/a.md'')" "is_syncable_path (\<lambda>_. True) (lit ''notes/b.md'')"
    "list_all scalar (lit ''notes/a.md'')" "list_all scalar (lit ''notes/b.md'')" "list_all scalar (lit ''b1'')"
    by code_simp+
  then have "context_ok (\<lambda>_. True) (CFile (lit ''notes/a.md'') (lit ''b1''))"
    and "context_ok (\<lambda>_. True) (CFile (lit ''notes/b.md'') (lit ''b1''))" by (simp_all del: lit_simps)
  from associated_data_binds [OF this e] show False by simp
qed

end
