(* ===== verification/Search.thy ===== *)
theory Search
  imports Rust_Str
begin

text \<open>
  Splitting a string at a separator: where \<open>split_once\<close>, \<open>rsplit_once\<close> and \<open>split\<close> cut a string
  that was put together around the separator.  The readers of printed lines rest on these lemmas.
\<close>

section \<open>The separator is found where it was put\<close>

lemma rsplit_once_last:
  assumes "\<And>j. j \<noteq> 0 \<Longrightarrow> \<not> starts_with p (drop j (p @ b))" and "p \<noteq> []"
  shows "rsplit_once p (a @ p @ b) = Some (a, b)"
proof -
  have none: "str_rfind p s = None" if "\<And>j. j \<le> length s \<Longrightarrow> \<not> starts_with p (drop j s)" for s
    using that by (simp add: str_rfind_None str_find_None)
  have "str_rfind p (p @ b) = Some 0"
  proof (cases "p @ b")
    case (Cons c s)
    have "\<not> starts_with p (drop j s)" for j
      using assms(1) [of "Suc j"] Cons by simp
    then have "str_rfind p s = None" by (intro none)
    moreover have "starts_with p (c # s)" using Cons starts_with_append [of p b] by simp
    ultimately show ?thesis by (simp add: Cons)
  qed (use assms(2) in simp)
  then have "str_rfind p (a @ p @ b) = Some (length a)" by (induction a) auto
  then show ?thesis by (simp add: rsplit_once_def)
qed

lemma split_once_first:
  assumes "\<And>j. j < length a \<Longrightarrow> \<not> starts_with p (drop j (a @ p @ b))" and "p \<noteq> []"
  shows "split_once p (a @ p @ b) = Some (a, b)"
proof -
  have "str_find p (a @ p @ b) = Some (length a)"
    using assms(1)
  proof (induction a)
    case Nil
    have "starts_with p (p @ b)" by simp
    then show ?case using assms(2) by (cases "p @ b") auto
  next
    case (Cons c a)
    from Cons.prems [of 0] have "\<not> starts_with p (c # a @ p @ b)" by simp
    moreover have "str_find p (a @ p @ b) = Some (length a)"
      using Cons.IH Cons.prems [of "Suc j" for j] by simp
    ultimately show ?case by simp
  qed
  then show ?thesis by (simp add: split_once_def)
qed

lemma starts_with_nth:
  assumes "starts_with p (drop j s)" and "k < length p"
  shows "j + k < length s" and "s ! (j + k) = p ! k"
proof -
  from assms(1) obtain r where r: "drop j s = p @ r" by (auto simp: starts_with_iff)
  then have "length (drop j s) = length p + length r" by simp
  with assms(2) show "j + k < length s" by simp
  then have "s ! (j + k) = drop j s ! k" by simp
  with r assms(2) show "s ! (j + k) = p ! k" by (simp add: nth_append)
qed

lemma trim_no_ws: "(\<And>c. c \<in> set s \<Longrightarrow> \<not> is_whitespace c) \<Longrightarrow> trim s = s"
proof -
  assume a: "\<And>c. c \<in> set s \<Longrightarrow> \<not> is_whitespace c"
  then have "trim_start s = s" by (cases s) (auto simp: trim_start_def)
  moreover have "trim_end s = s"
    unfolding trim_end_def by (rule drop_while_end_id) (use a last_in_set in blast)
  ultimately show ?thesis by (simp add: trim_def)
qed

lemma split_on_free: "(\<And>c. c \<in> set ys \<Longrightarrow> \<not> p c) \<Longrightarrow> split_on p ys = [ys]"
  by (induction ys) auto

lemma split_on_at:
  "(\<And>c. c \<in> set xs \<Longrightarrow> \<not> p c) \<Longrightarrow> p x \<Longrightarrow> split_on p (xs @ x # ys) = xs # split_on p ys"
  by (induction xs) auto

lemma split_on_append_free:
  assumes "\<And>c. c \<in> set ys \<Longrightarrow> \<not> p c"
  shows "split_on p (xs @ ys) = butlast (split_on p xs) @ [last (split_on p xs) @ ys]"
proof (induction xs)
  case Nil
  then show ?case using split_on_free [OF assms] by simp
next
  case (Cons x xs)
  then show ?case by (cases "split_on p xs") (auto split: list.splits)
qed

lemma rsplit_once_join: "rsplit_once p s = Some (a, b) \<Longrightarrow> s = a @ p @ b"
proof -
  assume "rsplit_once p s = Some (a, b)"
  then obtain i where i: "str_rfind p s = Some i" "a = take i s" "b = drop (i + length p) s"
    by (auto simp: rsplit_once_def split: option.splits)
  from str_rfind_sound [OF i(1)] obtain r where r: "drop i s = p @ r" by (auto simp: starts_with_iff)
  then have "r = drop (length p) (drop i s)" by simp
  also have "\<dots> = b" by (simp add: i(3) add.commute)
  finally show "s = a @ p @ b" using r i(2) by (metis append_take_drop_id)
qed

lemma last_split_on_empty: "last (split_on p xs) = [] \<Longrightarrow> xs = [] \<or> p (last xs)"
proof (induction xs rule: rev_induct)
  case (snoc x xs)
  then show ?case
    using split_on_append_free [of "[x]" p xs] by (cases "p x") auto
qed simp

lemma rsplit_last_char: "x \<notin> set b \<Longrightarrow> rsplit_once [x] (a @ [x] @ b) = Some (a, b)"
proof (rule rsplit_once_last)
  fix j :: nat assume b: "x \<notin> set b" and j: "j \<noteq> 0"
  have "x \<notin> set (drop j ([x] @ b))" using b j by (cases j) (auto dest: in_set_dropD)
  then show "\<not> starts_with [x] (drop j ([x] @ b))" by (auto simp: starts_with_iff)
qed simp

lemma split_once_char: "x \<notin> set a \<Longrightarrow> split_once [x] (a @ [x] @ b) = Some (a, b)"
proof (rule split_once_first)
  fix j assume "x \<notin> set a" "j < length a"
  then show "\<not> starts_with [x] (drop j (a @ [x] @ b))"
    by (auto simp: starts_with_iff simp flip: Cons_nth_drop_Suc)
qed simp

lemma split_once_char_None: "x \<notin> set a \<Longrightarrow> split_once [x] a = None"
  using str_contains_single [of x a] by (simp add: split_once_def str_contains_def)

end
