(* ===== verification/Inbox.thy ===== *)
theory Inbox
  imports Paths Search
begin

text \<open>
  The lines an inbox decision writes (\<open>crates/thock-sync-core/inbox.rs\<close>): the archive path, the
  body rule, the task line, the triage log line and its reader, and the decision classes.
\<close>

section \<open>Definitions\<close>

definition INBOX_ARCHIVE_DIR :: rstr where
  "INBOX_ARCHIVE_DIR = lit ''archives/inbox''"

definition TRIAGE_LOG_PATH :: rstr where
  "TRIAGE_LOG_PATH = lit ''archives/inbox/triage-log.md''"

definition archive_path :: "rstr \<Rightarrow> rstr" where
  "archive_path inbox_path =
     (let name = last (path_segments inbox_path) in INBOX_ARCHIVE_DIR @ [47] @ name)"

text \<open>The lines after the front matter: a first line \<open>---\<close> and everything up to the line that
  closes it are skipped; an unclosed block takes the whole note.\<close>

definition skip_front_matter :: "rstr list \<Rightarrow> rstr list" where
  "skip_front_matter lines =
     (if first_opt lines = Some (lit ''---'')
      then drop 1 (dropWhile (\<lambda>l. \<not> (l = lit ''---'' \<or> l = lit ''...'')) (drop 1 lines))
      else lines)"

definition inbox_has_body :: "rstr \<Rightarrow> bool" where
  "inbox_has_body n =
     (let lines = map trim_end (str_lines n);
          content = skip_front_matter lines
      in get_at (filter (\<lambda>line. trim line \<noteq> []) content) 1 \<noteq> None)"

definition inbox_task_line :: "rstr \<Rightarrow> rstr \<Rightarrow> bool \<Rightarrow> rstr" where
  "inbox_task_line title stem has_body =
     (if has_body then lit ''- [ ] '' @ title @ lit '' [['' @ stem @ lit '']]''
      else lit ''- [ ] '' @ title)"

text \<open>The separators of the log: a middle dot and an arrow, each between spaces.\<close>

definition DOT :: rstr where "DOT = [32, 183, 32]"
definition ARROW :: rstr where "ARROW = [32, 8594, 32]"
definition MARKER :: rstr where "MARKER = lit '' <!--inbox:''"

definition triage_log_line :: "rstr \<Rightarrow> rstr \<Rightarrow> rstr \<Rightarrow> rstr option \<Rightarrow> rstr" where
  "triage_log_line day title destination digest =
     (case digest of
        Some d \<Rightarrow> lit ''- '' @ day @ DOT @ title @ ARROW @ destination @ MARKER @ d @ lit ''-->''
      | None \<Rightarrow> lit ''- '' @ day @ DOT @ title @ ARROW @ destination)"

datatype DecisionClass = Today | Soon | Someday | Archive | Discard | Other

definition DecisionClass_ALL :: "DecisionClass list" where
  "DecisionClass_ALL = [Today, Soon, Someday, Archive, Discard, Other]"

fun class_name :: "DecisionClass \<Rightarrow> rstr" where
  "class_name Today = lit ''today''"
| "class_name Soon = lit ''soon''"
| "class_name Someday = lit ''someday''"
| "class_name Archive = lit ''archive''"
| "class_name Discard = lit ''discard''"
| "class_name Other = lit ''other''"

definition from_name :: "rstr \<Rightarrow> DecisionClass option" where
  "from_name name0 =
     (let name = trim name0
      in find (\<lambda>c. eq_ignore_ascii_case (class_name c) name) DecisionClass_ALL)"

definition backlog_class :: "rstr \<Rightarrow> rstr \<Rightarrow> rstr \<Rightarrow> DecisionClass option" where
  "backlog_class destination soon_heading someday_heading =
     (case strip_prefix (lit ''Backlog'' @ DOT) destination of
        None \<Rightarrow> None
      | Some heading0 \<Rightarrow>
          let heading = trim heading0
          in if heading = trim soon_heading then Some Soon
             else if heading = trim someday_heading then Some Someday
             else None)"

definition decision_class :: "rstr \<Rightarrow> rstr \<Rightarrow> rstr \<Rightarrow> DecisionClass" where
  "decision_class destination0 soon_heading someday_heading =
     (let destination = trim destination0
      in if starts_with (lit ''Today'') destination then Today
         else case backlog_class destination soon_heading someday_heading of
           Some c \<Rightarrow> c
         | None \<Rightarrow>
             if destination = lit ''Archived'' then Archive
             else if destination = lit ''Discarded'' then Discard
             else Other)"

record TriageLogLine =
  t_day :: rstr
  t_title :: rstr
  t_destination :: rstr
  t_digest :: rstr

definition parse_triage_log_line :: "rstr \<Rightarrow> TriageLogLine option" where
  "parse_triage_log_line line =
     (case strip_prefix (lit ''- '') (trim_end line) of
        None \<Rightarrow> None
      | Some rest \<Rightarrow>
     (case rsplit_once MARKER rest of
        None \<Rightarrow> None
      | Some (rest, marker) \<Rightarrow>
     (case strip_suffix (lit ''-->'') marker of
        None \<Rightarrow> None
      | Some raw \<Rightarrow>
          let digest = trim raw
          in if digest = [] \<or> 64 < byte_len digest \<or> list_ex is_whitespace digest then None
             else
     (case split_once DOT rest of
        None \<Rightarrow> None
      | Some (day, rest) \<Rightarrow>
     (case rsplit_once ARROW rest of
        None \<Rightarrow> None
      | Some (title, destination) \<Rightarrow>
          if trim day = [] \<or> trim destination = [] then None
          else Some \<lparr>t_day = day, t_title = title, t_destination = destination, t_digest = digest\<rparr>)))))"

section \<open>Searching around a separator\<close>

text \<open>A separator with a middle character that one side lacks is found where it was put.\<close>

lemma split_dot: "183 \<notin> set day \<Longrightarrow> split_once DOT (day @ DOT @ rest) = Some (day, rest)"
proof (rule split_once_first)
  fix j assume d: "183 \<notin> set day" and j: "j < length day"
  show "\<not> starts_with DOT (drop j (day @ DOT @ rest))"
  proof
    assume "starts_with DOT (drop j (day @ DOT @ rest))"
    from starts_with_nth(2) [OF this, of 1] have "(day @ DOT @ rest) ! (j + 1) = 183"
      by (simp add: DOT_def)
    with d j show False
      by (cases "j + 1 < length day") (auto simp: nth_append DOT_def nth_Cons' dest: nth_mem split: if_splits)
  qed
qed (simp add: DOT_def)

lemma rsplit_arrow: "8594 \<notin> set b \<Longrightarrow> rsplit_once ARROW (a @ ARROW @ b) = Some (a, b)"
proof (rule rsplit_once_last)
  fix j :: nat assume b: "8594 \<notin> set b" and j: "j \<noteq> 0"
  show "\<not> starts_with ARROW (drop j (ARROW @ b))"
  proof
    assume s: "starts_with ARROW (drop j (ARROW @ b))"
    have "j + 1 < length (ARROW @ b)" and "(ARROW @ b) ! (j + 1) = 8594"
      using starts_with_nth [OF s, of 1] by (simp_all add: ARROW_def)
    then have "b ! (j - 2) = 8594" and "j - 2 < length b"
      using j by (auto simp: ARROW_def nth_Cons' numeral_2_eq_2 split: if_splits)
    with b show False by (metis nth_mem)
  qed
qed (simp add: ARROW_def)

lemma rsplit_marker: "32 \<notin> set b \<Longrightarrow> rsplit_once MARKER (a @ MARKER @ b) = Some (a, b)"
proof (rule rsplit_once_last)
  fix j :: nat assume b: "32 \<notin> set b" and j: "j \<noteq> 0"
  have tl: "32 \<notin> set (drop 1 (MARKER @ b))" using b by (simp add: MARKER_def)
  show "\<not> starts_with MARKER (drop j (MARKER @ b))"
  proof
    assume s: "starts_with MARKER (drop j (MARKER @ b))"
    have "j < length (MARKER @ b)" and "(MARKER @ b) ! j = 32"
      using starts_with_nth [OF s, of 0] by (simp_all add: MARKER_def)
    then have "drop 1 (MARKER @ b) ! (j - 1) = 32" and "j - 1 < length (drop 1 (MARKER @ b))"
      using j by (simp_all only: nth_drop length_drop) auto
    with tl show False by (metis nth_mem)
  qed
qed (simp add: MARKER_def)

section \<open>The triage log as a codec\<close>

definition print_triage :: "TriageLogLine \<Rightarrow> rstr" where
  "print_triage l = triage_log_line (t_day l) (t_title l) (t_destination l) (Some (t_digest l))"

definition triage_printable :: "TriageLogLine \<Rightarrow> bool" where
  "triage_printable l \<longleftrightarrow>
     trim (t_day l) \<noteq> [] \<and> 183 \<notin> set (t_day l) \<and>
     trim (t_destination l) \<noteq> [] \<and> 8594 \<notin> set (t_destination l) \<and>
     t_digest l \<noteq> [] \<and> byte_len (t_digest l) \<le> 64 \<and> \<not> list_ex is_whitespace (t_digest l)"

lemma parse_print_triage:
  assumes "triage_printable l"
  shows "parse_triage_log_line (print_triage l) = Some l"
proof -
  let ?rest = "t_day l @ DOT @ t_title l @ ARROW @ t_destination l"
  let ?body = "?rest @ MARKER @ t_digest l @ lit ''-->''"
  have "trim_end (lit ''- '' @ ?body) = lit ''- '' @ ?body"
    unfolding trim_end_def by (rule drop_while_end_id) (simp add: is_whitespace_def)
  then have "strip_prefix (lit ''- '') (trim_end (print_triage l)) = Some ?body"
    by (simp add: print_triage_def triage_log_line_def strip_prefix_Some)
  moreover have ws: "\<not> is_whitespace c" if "c \<in> set (t_digest l)" for c
    using assms that by (auto simp: triage_printable_def list_ex_iff)
  then have "32 \<notin> set (t_digest l @ lit ''-->'')" by (auto simp: is_whitespace_def)
  then have "rsplit_once MARKER ?body = Some (?rest, t_digest l @ lit ''-->'')"
    using rsplit_marker [of "t_digest l @ lit ''-->''" ?rest] by simp
  moreover have "strip_suffix (lit ''-->'') (t_digest l @ lit ''-->'') = Some (t_digest l)"
    unfolding strip_suffix_Some by simp
  moreover have "trim (t_digest l) = t_digest l" using ws by (rule trim_no_ws)
  moreover have "split_once DOT ?rest = Some (t_day l, t_title l @ ARROW @ t_destination l)"
    using assms by (intro split_dot) (simp add: triage_printable_def)
  moreover have "rsplit_once ARROW (t_title l @ ARROW @ t_destination l) = Some (t_title l, t_destination l)"
    using assms by (intro rsplit_arrow) (simp add: triage_printable_def)
  ultimately show ?thesis
    using assms by (simp add: parse_triage_log_line_def triage_printable_def Let_def not_less)
qed

interpretation triage_log: codec print_triage parse_triage_log_line triage_printable
  by unfold_locales (rule parse_print_triage)

section \<open>The last segment of a path\<close>

lemma segments_free: "47 \<notin> set ys \<Longrightarrow> path_segments ys = [ys]"
  by (rule split_on_free) auto

lemma segments_append:
  "47 \<notin> set ys \<Longrightarrow>
     path_segments (xs @ ys) = butlast (path_segments xs) @ [last (path_segments xs) @ ys]"
  by (rule split_on_append_free) auto

lemma syncable_extension_letters:
  "e \<in> set SYNCABLE_EXTENSIONS \<Longrightarrow> eq_ignore_ascii_case x e \<Longrightarrow> x \<noteq> [] \<and> 47 \<notin> set x \<and> 46 \<notin> set x"
  by (auto simp: SYNCABLE_EXTENSIONS_def eq_ignore_ascii_case_def to_ascii_lowercase_def
      is_ascii_uppercase_def split: if_splits)

text \<open>A path that syncs is a stem, a dot and one of the extensions; the stem's last segment is not
  empty.\<close>

lemma syncable_shape:
  assumes "is_syncable_path is_nfc path"
  obtains stem extension where "path = stem @ [46] @ extension" and "last (path_segments stem) \<noteq> []"
    and "extension \<noteq> []" and "47 \<notin> set extension" and "46 \<notin> set extension"
    and "list_ex (\<lambda>allowed. eq_ignore_ascii_case extension allowed) SYNCABLE_EXTENSIONS"
    and "well_formed_extension is_nfc path = Some extension"
proof -
  obtain extension where w: "well_formed_extension is_nfc path = Some extension"
    and e: "list_ex (\<lambda>allowed. eq_ignore_ascii_case extension allowed) SYNCABLE_EXTENSIONS"
    using assms by (auto simp: is_syncable_path_def is_some_and_iff)
  from well_formed_extensionD(10) [OF w] obtain stem where
    r: "rsplit_once [46] path = Some (stem, extension)" and n: "stem \<noteq> []" "\<not> ends_with [47] stem" by blast
  have "path = stem @ [46] @ extension" using r by (rule rsplit_once_join)
  moreover have "last (path_segments stem) \<noteq> []"
  proof
    assume "last (path_segments stem) = []"
    with n(1) have "last stem = 47" using last_split_on_empty by blast
    with n show False by (metis append_butlast_last_id ends_with_iff)
  qed
  moreover have "extension \<noteq> []" "47 \<notin> set extension" "46 \<notin> set extension"
    using e syncable_extension_letters by (auto simp: list_ex_iff)
  ultimately show ?thesis using that w e by blast
qed

lemma archive_path_shape:
  assumes "path = stem @ [46] @ extension" and "47 \<notin> set extension"
  shows "archive_path path = lit ''archives/inbox/'' @ last (path_segments stem) @ [46] @ extension"
proof -
  have "last (path_segments path) = last (path_segments stem) @ [46] @ extension"
    using segments_append [of "[46] @ extension" stem] assms by simp
  then show ?thesis by (simp add: archive_path_def INBOX_ARCHIVE_DIR_def)
qed

lemma archive_segments:
  "47 \<notin> set name \<Longrightarrow>
     path_segments (lit ''archives/inbox/'' @ name) = [lit ''archives'', lit ''inbox'', name]"
  using split_on_at [of "lit ''archives''" "\<lambda>c. c = 47" 47 "lit ''inbox/'' @ name"]
    split_on_at [of "lit ''inbox''" "\<lambda>c. c = 47" 47 name] segments_free [of name]
  by simp

section \<open>Properties\<close>

text \<open>The triage log reads back: a line written for a day, a title, a destination and a digest
  parses to the same four values, whatever the title holds, and two different entries are never
  written as the same line.\<close>

theorem triage_log_roundtrip:
  assumes "triage_printable l"
  shows "parse_triage_log_line (triage_log_line (t_day l) (t_title l) (t_destination l) (Some (t_digest l))) = Some l
     \<and> (triage_printable k \<and> print_triage k = print_triage l \<longrightarrow> k = l)"
  using triage_log.parse_print [OF assms] triage_log.print_inj [OF _ assms]
  by (auto simp: print_triage_def)

theorem triage_log_roundtrip_witness:
  "parse_triage_log_line (triage_log_line (lit ''2026-07-20'') (lit ''a '' @ ARROW @ lit ''b <!--inbox:x-->'')
      (lit ''Backlog'' @ DOT @ lit ''Soon'') (Some (lit ''ab12''))) =
     Some \<lparr>t_day = lit ''2026-07-20'', t_title = lit ''a '' @ ARROW @ lit ''b <!--inbox:x-->'',
           t_destination = lit ''Backlog'' @ DOT @ lit ''Soon'', t_digest = lit ''ab12''\<rparr>"
proof -
  let ?l = "\<lparr>t_day = lit ''2026-07-20'', t_title = lit ''a '' @ ARROW @ lit ''b <!--inbox:x-->'',
           t_destination = lit ''Backlog'' @ DOT @ lit ''Soon'', t_digest = lit ''ab12''\<rparr>"
  have "triage_printable ?l" by code_simp
  from triage_log_roundtrip [OF this] show ?thesis by simp
qed

text \<open>A decision class is spelled by its name, in any case and with surrounding space, and by
  nothing else.\<close>

theorem from_name_spec:
  "from_name name = Some c \<longleftrightarrow> map to_ascii_lowercase (trim name) = class_name c"
proof -
  have low: "map to_ascii_lowercase (class_name c) = class_name c" for c
    by (cases c) (simp_all add: to_ascii_lowercase_def is_ascii_uppercase_def)
  have inj: "class_name c = class_name d \<longleftrightarrow> c = d" for c d
    by (cases c; cases d) simp_all
  have "from_name name = find (\<lambda>c. class_name c = map to_ascii_lowercase (trim name)) DecisionClass_ALL"
    by (simp add: from_name_def Let_def eq_ignore_ascii_case_def low)
  then show ?thesis
    by (cases c) (auto simp: DecisionClass_ALL_def inj split: if_splits dest: sym)
qed

text \<open>A destination written for a Backlog heading reads back as that heading's class: the soon
  heading wins when both are spelled alike, and no configured heading can be taken for \<open>Archived\<close>
  or \<open>Discarded\<close>.\<close>

theorem decision_class_backlog:
  assumes "trim heading = heading" and "heading \<noteq> []"
  shows "decision_class (lit ''Backlog'' @ DOT @ heading) soon someday =
     (if heading = trim soon then Soon else if heading = trim someday then Someday else Other)"
proof -
  let ?d = "lit ''Backlog'' @ DOT @ heading"
  have "\<not> is_whitespace (last heading)"
  proof -
    have "trim_end heading = heading"
      using assms(1) by (metis trim_def trim_end_idem)
    then show ?thesis using assms(2) drop_while_end_last [of is_whitespace heading]
      by (simp add: trim_end_def)
  qed
  then have "trim_end ?d = ?d"
    unfolding trim_end_def by (intro drop_while_end_id) (simp add: assms(2) DOT_def)
  moreover have "trim_start ?d = ?d" by (simp add: trim_start_def is_whitespace_def)
  ultimately have "trim ?d = ?d" by (simp add: trim_def)
  moreover have "strip_prefix (lit ''Backlog'' @ DOT) ?d = Some heading"
    unfolding strip_prefix_Some by simp
  moreover have "\<not> starts_with (lit ''Today'') ?d" "?d \<noteq> lit ''Archived''" "?d \<noteq> lit ''Discarded''"
    by simp_all
  ultimately show ?thesis
    unfolding decision_class_def backlog_class_def Let_def by (simp add: assms(1) del: lit_simps)
qed

theorem decision_class_backlog_witness:
  "decision_class (lit ''Backlog'' @ DOT @ lit ''Next up'') (lit ''Next up '') (lit ''Someday'') = Soon"
  using decision_class_backlog [of "lit ''Next up''" "lit ''Next up ''" "lit ''Someday''"]
  by (simp add: trim_def trim_start_def trim_end_def drop_while_end_def is_whitespace_def)

text \<open>An inbox note that syncs is archived where it still syncs: the archive path keeps the file
  name, and passes every path rule as long as it stays within the byte limit and normalised.\<close>

theorem archive_path_syncable:
  assumes s: "is_syncable_path is_nfc path"
    and len: "byte_len (archive_path path) \<le> MAX_PATH_BYTES" and nfc: "is_nfc (archive_path path)"
  shows "is_syncable_path is_nfc (archive_path path) \<and>
     last (path_segments (archive_path path)) = last (path_segments path)"
proof -
  obtain stem extension where path: "path = stem @ [46] @ extension" and base: "last (path_segments stem) \<noteq> []"
    and e: "extension \<noteq> []" "47 \<notin> set extension" "46 \<notin> set extension"
    and ok: "list_ex (\<lambda>allowed. eq_ignore_ascii_case extension allowed) SYNCABLE_EXTENSIONS"
    and w: "well_formed_extension is_nfc path = Some extension" by (rule syncable_shape [OF s])
  let ?name = "last (path_segments stem) @ [46] @ extension"
  have a: "archive_path path = lit ''archives/inbox/'' @ ?name"
    by (rule archive_path_shape [OF path e(2)])
  have "path_segments path = butlast (path_segments stem) @ [?name]"
    unfolding path using e(2) by (intro segments_append) simp
  then have last: "last (path_segments path) = ?name" and mem: "?name \<in> set (path_segments path)" by simp_all
  have chars: "c \<in> set path \<and> c \<noteq> 47" if "c \<in> set ?name" for c
    using split_on_pieces [OF mem that] by simp
  have seg: "path_segments (archive_path path) = [lit ''archives'', lit ''inbox'', ?name]"
    unfolding a using chars by (intro archive_segments) blast
  have split: "rsplit_once [46] (archive_path path) =
      Some (lit ''archives/inbox/'' @ last (path_segments stem), extension)"
    using rsplit_last_char [OF e(3), of "lit ''archives/inbox/'' @ last (path_segments stem)"] a by simp
  have "well_formed_extension is_nfc (archive_path path) = Some extension"
  proof (rule well_formed_extensionI)
    note d = well_formed_extensionD [OF w]
    show "\<not> starts_with [47] (archive_path path)" "archive_path path \<noteq> []" unfolding a by simp_all
    have "last extension \<noteq> 47" using e(1,2) last_in_set by metis
    then have "last (archive_path path) \<noteq> 47" using e(1) unfolding a by simp
    then show "\<not> ends_with [47] (archive_path path)" by (auto simp: ends_with_iff)
    show "92 \<notin> set (archive_path path)" using d(6) chars unfolding a by auto
    show "segment \<noteq> [] \<and> segment \<noteq> lit ''.'' \<and> segment \<noteq> lit ''..''"
      if "segment \<in> set (path_segments (archive_path path))" for segment
      using that d(7) [OF mem] unfolding seg by auto
    show "\<not> is_control c" if "c \<in> set (archive_path path)" for c
      using that d(8) chars unfolding a by (auto simp: is_control_def)
    show "\<not> starts_with p (archive_path path)" if "p \<in> set EXCLUDED_PREFIXES" for p
      using that unfolding a by (auto simp: EXCLUDED_PREFIXES_def)
    have "last (last (path_segments stem)) \<noteq> 47" using base chars [of "last (last (path_segments stem))"] by simp
    then show "\<not> ends_with [47] (lit ''archives/inbox/'' @ last (path_segments stem))"
      using base by (auto simp: ends_with_iff dest: arg_cong [where f = last])
  qed (use len nfc split in simp_all)
  with ok last seg show ?thesis by (simp add: is_syncable_path_def)
qed

theorem archive_path_syncable_witness:
  "is_syncable_path (\<lambda>_. True) (archive_path (lit ''inbox/read me.md'')) \<and>
   archive_path (lit ''inbox/read me.md'') = lit ''archives/inbox/read me.md''"
proof
  have "is_syncable_path (\<lambda>_. True) (lit ''inbox/read me.md'')"
    and "byte_len (archive_path (lit ''inbox/read me.md'')) \<le> MAX_PATH_BYTES" by code_simp+
  from archive_path_syncable [OF this] show "is_syncable_path (\<lambda>_. True) (archive_path (lit ''inbox/read me.md''))"
    by simp
  show "archive_path (lit ''inbox/read me.md'') = lit ''archives/inbox/read me.md''" by code_simp
qed

end
