(* ===== verification/Dates.thy ===== *)
theory Dates
  imports Rust_Str
begin

text \<open>
  The date vocabulary of \<open>crates/thock-sync-core/dates.rs\<close>: formatting a date by a moment-style
  format and reading a text back by backtracking over the format's tokens.  Dates are the crate
  \<open>chrono\<close>'s: a type parameter \<open>'d\<close> with the operations of the record \<open>calendar\<close>, and
  \<open>calendar_ok\<close> states what the code relies on of them.
\<close>

section \<open>The calendar\<close>

record 'd calendar =
  cal_year :: "'d \<Rightarrow> int"
  cal_month :: "'d \<Rightarrow> nat"
  cal_day :: "'d \<Rightarrow> nat"
  num_days_from_sunday :: "'d \<Rightarrow> nat"
  iso_week :: "'d \<Rightarrow> nat"
  iso_year :: "'d \<Rightarrow> int"
  format_b :: "'d \<Rightarrow> rstr"
  format_B :: "'d \<Rightarrow> rstr"
  format_a :: "'d \<Rightarrow> rstr"
  format_A :: "'d \<Rightarrow> rstr"
  format_Ymd :: "'d \<Rightarrow> rstr"
  from_ymd_opt :: "int \<Rightarrow> nat \<Rightarrow> nat \<Rightarrow> 'd option"
  from_isoywd_mon :: "int \<Rightarrow> nat \<Rightarrow> 'd option"
  date_less :: "'d \<Rightarrow> 'd \<Rightarrow> bool"

section \<open>Formatting\<close>

text \<open>Rust's \<open>%\<close>: the remainder has the sign of the dividend.\<close>

definition rust_rem :: "int \<Rightarrow> int \<Rightarrow> int" where
  "rust_rem a b = sgn a * (abs a mod abs b)"

definition is_token_char :: "rchar \<Rightarrow> bool" where
  "is_token_char c \<longleftrightarrow> c = 89 \<or> c = 77 \<or> c = 68 \<or> c = 100 \<or> c = 87 \<or> c = 71"

text \<open>\<open>emit_date_token\<close>; the token characters are Y (89), M (77), D (68), d (100), W (87), G (71).\<close>

definition emit_date_token :: "'d calendar \<Rightarrow> 'd \<Rightarrow> rchar \<Rightarrow> nat \<Rightarrow> rstr" where
  "emit_date_token K date token run =
     (if token = 89 \<and> run = 2 then pad_zeros_int 2 (rust_rem (cal_year K date) 100)
      else if token = 89 then pad_zeros_int 4 (cal_year K date)
      else if token = 77 \<and> run = 1 then nat_to_str (cal_month K date)
      else if token = 77 \<and> run = 2 then pad_zeros 2 (cal_month K date)
      else if token = 77 \<and> run = 3 then format_b K date
      else if token = 77 then format_B K date
      else if token = 68 \<and> run = 1 then nat_to_str (cal_day K date)
      else if token = 68 then pad_zeros 2 (cal_day K date)
      else if token = 100 \<and> run = 1 then nat_to_str (num_days_from_sunday K date)
      else if token = 100 \<and> run = 2 then take 2 (format_A K date)
      else if token = 100 \<and> run = 3 then format_a K date
      else if token = 100 then format_A K date
      else if token = 87 \<and> run = 1 then nat_to_str (iso_week K date)
      else if token = 87 then pad_zeros 2 (iso_week K date)
      else if token = 71 \<and> run = 2 then pad_zeros_int 2 (rust_rem (iso_year K date) 100)
      else if token = 71 then pad_zeros_int 4 (iso_year K date)
      else format_A K date)"

text \<open>The two inner loops of the walk: to the closing bracket, and over a run.\<close>

definition token_run :: "rchar \<Rightarrow> rstr \<Rightarrow> nat" where
  "token_run c rest = 1 + length (takeWhile (\<lambda>x. x = c) rest)"

function format_loop :: "'d calendar \<Rightarrow> 'd \<Rightarrow> rstr \<Rightarrow> rstr \<Rightarrow> rstr" where
  "format_loop K date characters out =
     (case characters of
        [] \<Rightarrow> out
      | c # rest \<Rightarrow>
          if c = 91 then
            format_loop K date (drop 1 (dropWhile (\<lambda>x. x \<noteq> 93) rest))
              (out @ takeWhile (\<lambda>x. x \<noteq> 93) rest)
          else if is_token_char c then
            format_loop K date (drop (token_run c rest) characters)
              (out @ emit_date_token K date c (token_run c rest))
          else format_loop K date rest (out @ [c]))"
  by pat_completeness auto
termination
proof (relation "measure (\<lambda>(K, date, characters, out). length characters)", goal_cases)
  case (2 K date characters out c rest)
  then show ?case using length_dropWhile_le [of "\<lambda>x. x \<noteq> 93" rest] by simp
qed (auto simp: token_run_def)

declare format_loop.simps [simp del]

definition format_date :: "'d calendar \<Rightarrow> 'd \<Rightarrow> rstr \<Rightarrow> rstr" where
  "format_date K date format = format_loop K date format []"

section \<open>Tokens\<close>

datatype FormatToken = Literal rchar | Run rchar nat

function tokens_loop :: "rstr \<Rightarrow> FormatToken list \<Rightarrow> FormatToken list" where
  "tokens_loop characters tokens =
     (case characters of
        [] \<Rightarrow> tokens
      | c # rest \<Rightarrow>
          if c = 91 then
            tokens_loop (drop 1 (dropWhile (\<lambda>x. x \<noteq> 93) rest))
              (tokens @ map Literal (takeWhile (\<lambda>x. x \<noteq> 93) rest))
          else if is_token_char c then
            tokens_loop (drop (token_run c rest) characters) (tokens @ [Run c (token_run c rest)])
          else tokens_loop rest (tokens @ [Literal c]))"
  by pat_completeness auto
termination
proof (relation "measure (\<lambda>(characters, tokens). length characters)", goal_cases)
  case (2 characters tokens c rest)
  then show ?case using length_dropWhile_le [of "\<lambda>x. x \<noteq> 93" rest] by simp
qed (auto simp: token_run_def)

declare tokens_loop.simps [simp del]

definition format_tokens :: "rstr \<Rightarrow> FormatToken list" where
  "format_tokens format = tokens_loop format []"

definition has_token :: "rchar \<Rightarrow> FormatToken list \<Rightarrow> bool" where
  "has_token wanted tokens \<longleftrightarrow>
     list_ex (\<lambda>t. case t of Run c _ \<Rightarrow> c = wanted | Literal _ \<Rightarrow> False) tokens"

definition names_a_day :: "rstr \<Rightarrow> bool" where
  "names_a_day format =
     (let tokens = format_tokens format
      in has_token 89 tokens \<and> has_token 77 tokens \<and> has_token 68 tokens)"

section \<open>Parsing\<close>

record DateFields =
  f_year :: "int option"
  f_month :: "nat option"
  f_day :: "nat option"
  f_iso_year :: "int option"
  f_week :: "nat option"

definition no_fields :: DateFields where
  "no_fields = \<lparr>f_year = None, f_month = None, f_day = None, f_iso_year = None, f_week = None\<rparr>"

definition fields_resolve :: "'d calendar \<Rightarrow> DateFields \<Rightarrow> 'd option" where
  "fields_resolve K f =
     (case (f_year f, f_month f, f_day f) of
        (Some y, Some m, Some d) \<Rightarrow> from_ymd_opt K y m d
      | _ \<Rightarrow>
          (case f_iso_year f of
             None \<Rightarrow> None
           | Some y \<Rightarrow> (case f_week f of None \<Rightarrow> None | Some w \<Rightarrow> from_isoywd_mon K y w)))"

definition MONTH_NAMES :: "rstr list" where
  "MONTH_NAMES = map lit
     [''January'', ''February'', ''March'', ''April'', ''May'', ''June'', ''July'', ''August'',
      ''September'', ''October'', ''November'', ''December'']"

definition WEEKDAY_NAMES :: "rstr list" where
  "WEEKDAY_NAMES = map lit
     [''Monday'', ''Tuesday'', ''Wednesday'', ''Thursday'', ''Friday'', ''Saturday'', ''Sunday'']"

definition take_digits :: "rstr \<Rightarrow> nat \<Rightarrow> (nat \<times> rstr) option" where
  "take_digits input width =
     (if length input < width \<or> \<not> list_all is_ascii_digit (take width input) then None
      else Some (digits_value (take width input), drop width input))"

text \<open>What a token may read at the front of the input, in the order the matcher tries it: the input
  that is left and the fields after the token.\<close>

definition digit_options ::
    "nat list \<Rightarrow> rstr \<Rightarrow> (nat \<Rightarrow> DateFields) \<Rightarrow> (rstr \<times> DateFields) list" where
  "digit_options widths input set_field =
     concat (map (\<lambda>w. case take_digits input w of
                        None \<Rightarrow> []
                      | Some (value, rest) \<Rightarrow> [(rest, set_field value)]) widths)"

definition name_options ::
    "rstr list \<Rightarrow> rstr \<Rightarrow> (nat \<Rightarrow> DateFields) \<Rightarrow> (rstr \<times> DateFields) list" where
  "name_options names input set_field =
     concat (map (\<lambda>(index, name). case strip_prefix name input of
                        None \<Rightarrow> []
                      | Some rest \<Rightarrow> [(rest, set_field index)]) (enumerate 0 names))"

definition token_options :: "rchar \<Rightarrow> nat \<Rightarrow> rstr \<Rightarrow> DateFields \<Rightarrow> (rstr \<times> DateFields) list" where
  "token_options c run input fs =
     (if c = 89 \<and> run = 2 then digit_options [2] input (\<lambda>v. fs\<lparr>f_year := Some (2000 + int v)\<rparr>)
      else if c = 89 then digit_options [4] input (\<lambda>v. fs\<lparr>f_year := Some (int v)\<rparr>)
      else if c = 77 \<and> run = 1 then digit_options [2, 1] input (\<lambda>v. fs\<lparr>f_month := Some v\<rparr>)
      else if c = 77 \<and> run = 2 then digit_options [2] input (\<lambda>v. fs\<lparr>f_month := Some v\<rparr>)
      else if c = 77 then
        name_options (map (\<lambda>n. if run = 3 then take 3 n else n) MONTH_NAMES) input
          (\<lambda>i. fs\<lparr>f_month := Some (i + 1)\<rparr>)
      else if c = 68 \<and> run = 1 then digit_options [2, 1] input (\<lambda>v. fs\<lparr>f_day := Some v\<rparr>)
      else if c = 68 then digit_options [2] input (\<lambda>v. fs\<lparr>f_day := Some v\<rparr>)
      else if c = 100 \<and> run = 1 then digit_options [1] input (\<lambda>v. fs)
      else if c = 100 \<and> run = 2 then name_options (map (take 2) WEEKDAY_NAMES) input (\<lambda>i. fs)
      else if c = 100 then
        name_options (map (\<lambda>n. if run = 3 then take 3 n else n) WEEKDAY_NAMES) input (\<lambda>i. fs)
      else if c = 87 \<and> run = 1 then digit_options [2, 1] input (\<lambda>v. fs\<lparr>f_week := Some v\<rparr>)
      else if c = 87 then digit_options [2] input (\<lambda>v. fs\<lparr>f_week := Some v\<rparr>)
      else if c = 71 \<and> run = 2 then
        digit_options [2] input (\<lambda>v. fs\<lparr>f_iso_year := Some (2000 + int v)\<rparr>)
      else if c = 71 then digit_options [4] input (\<lambda>v. fs\<lparr>f_iso_year := Some (int v)\<rparr>)
      else [])"

fun try_match ::
    "'d calendar \<Rightarrow> rstr \<Rightarrow> rstr \<Rightarrow> FormatToken list \<Rightarrow> rstr \<Rightarrow> DateFields \<Rightarrow> 'd option" where
  "try_match K format full_input [] input fs =
     (if input \<noteq> [] then None
      else case fields_resolve K fs of
        None \<Rightarrow> None
      | Some date \<Rightarrow> if format_date K date format = full_input then Some date else None)"
| "try_match K format full_input (Literal l # tokens) input fs =
     (case strip_prefix [l] input of
        None \<Rightarrow> None
      | Some rest \<Rightarrow> try_match K format full_input tokens rest fs)"
| "try_match K format full_input (Run c run # tokens) input fs =
     find_map (\<lambda>(rest, fs'). try_match K format full_input tokens rest fs')
       (token_options c run input fs)"

definition parse_date :: "'d calendar \<Rightarrow> rstr \<Rightarrow> rstr \<Rightarrow> 'd option" where
  "parse_date K t format = try_match K format t (format_tokens format) t no_fields"

end
