(* ===== verification/Decimal.thy ===== *)
theory Decimal
  imports Rust_Str
begin

text \<open>
  Decimal numbers as Rust's formatter writes them and its parser reads them: the digits of a
  number, zero padding, and that reading gives the number back.
\<close>

section \<open>Reading what was written\<close>

lemma digits_value_snoc: "digits_value (s @ [c]) = digits_value s * 10 + nat (c - 48)"
  by (simp add: digits_value_def)

lemma digits_value_Nil [simp]: "digits_value [] = 0"
  by (simp add: digits_value_def)

lemma digits_value_zeros: "digits_value (replicate k 48 @ s) = digits_value s"
  by (induction k) (simp_all add: digits_value_def)

lemma digits_value_nat_to_str [simp]: "digits_value (nat_to_str n) = n"
proof (induction n rule: nat_to_str.induct)
  case (1 n)
  then show ?case
    by (cases "n < 10") (simp_all add: nat_to_str.simps [of n] digits_value_snoc digits_value_def)
qed

lemma nat_to_str_digits: "list_all is_ascii_digit (nat_to_str n)"
proof (induction n rule: nat_to_str.induct)
  case (1 n)
  then show ?case
    by (cases "n < 10") (simp_all add: nat_to_str.simps [of n] is_ascii_digit_def)
qed

lemma length_nat_to_str: "0 < k \<Longrightarrow> n < 10 ^ k \<Longrightarrow> length (nat_to_str n) \<le> k"
proof (induction n arbitrary: k rule: nat_to_str.induct)
  case (1 n)
  show ?case
  proof (cases "n < 10")
    case True
    with 1 show ?thesis by (simp add: nat_to_str.simps [of n])
  next
    case False
    from 1 obtain j where k: "k = Suc j" by (cases k) auto
    with 1(3) False have "0 < j" by (cases j) auto
    moreover from k 1(3) have "n div 10 < 10 ^ j" by (simp add: div_less_iff_less_mult mult.commute)
    ultimately show ?thesis using 1(1) [of j] False k by (simp add: nat_to_str.simps [of n])
  qed
qed

lemma nat_to_str_width: "n < 100 \<Longrightarrow> length (nat_to_str n) = (if n < 10 then 1 else 2)"
  by (simp add: nat_to_str.simps [of n] nat_to_str.simps [of "n div 10"])

lemma pad_zeros_digits: "list_all is_ascii_digit (pad_zeros w n)"
  by (simp add: pad_zeros_def Let_def nat_to_str_digits list_all_iff is_ascii_digit_def)
     (use nat_to_str_digits in \<open>auto simp: list_all_iff is_ascii_digit_def\<close>)

lemma digits_value_pad [simp]: "digits_value (pad_zeros w n) = n"
  by (simp add: pad_zeros_def Let_def digits_value_zeros)

lemma length_pad_zeros: "0 < w \<Longrightarrow> n < 10 ^ w \<Longrightarrow> length (pad_zeros w n) = w"
  using length_nat_to_str [of w n] by (simp add: pad_zeros_def Let_def)

lemma pad_zeros_inj: "pad_zeros w n = pad_zeros w m \<Longrightarrow> n = m"
  by (metis digits_value_pad)

lemma pad_zeros_int_nonneg: "0 \<le> i \<Longrightarrow> pad_zeros_int w i = pad_zeros w (nat i)"
  by (simp add: pad_zeros_int_def)

end
