(* ===== verification/Dates_Props.thy ===== *)
theory Dates_Props
  imports Dates Decimal
begin

text \<open>
  What the date vocabulary promises: formatting walks the tokens, a parsed date formats back to
  the text, and the backtracking matcher finds a date for every text a date formats to.
\<close>

section \<open>The walk and the tokens\<close>

fun emit_token :: "'d calendar \<Rightarrow> 'd \<Rightarrow> FormatToken \<Rightarrow> rstr" where
  "emit_token K date (Literal c) = [c]"
| "emit_token K date (Run c run) = emit_date_token K date c run"

lemma tokens_loop_Nil: "tokens_loop [] ts = ts"
  by (simp add: tokens_loop.simps)

lemma tokens_loop_Cons:
  "tokens_loop (c # rest) ts =
     (if c = 91 then
        tokens_loop (drop 1 (dropWhile (\<lambda>x. x \<noteq> 93) rest)) (ts @ map Literal (takeWhile (\<lambda>x. x \<noteq> 93) rest))
      else if is_token_char c then
        tokens_loop (drop (token_run c rest) (c # rest)) (ts @ [Run c (token_run c rest)])
      else tokens_loop rest (ts @ [Literal c]))"
  by (subst tokens_loop.simps) simp

lemma format_loop_Cons:
  "format_loop K d (c # rest) out =
     (if c = 91 then
        format_loop K d (drop 1 (dropWhile (\<lambda>x. x \<noteq> 93) rest)) (out @ takeWhile (\<lambda>x. x \<noteq> 93) rest)
      else if is_token_char c then
        format_loop K d (drop (token_run c rest) (c # rest)) (out @ emit_date_token K d c (token_run c rest))
      else format_loop K d rest (out @ [c]))"
  by (subst format_loop.simps) simp

lemma tokens_loop_acc: "tokens_loop cs ts = ts @ tokens_loop cs []"
proof (induction "length cs" arbitrary: cs ts rule: less_induct)
  case less
  show ?case
  proof (cases cs)
    case Nil
    then show ?thesis by (simp add: tokens_loop.simps)
  next
    case (Cons c rest)
    have "length (drop 1 (dropWhile (\<lambda>x. x \<noteq> 93) rest)) < length cs"
      using length_dropWhile_le [of "\<lambda>x. x \<noteq> 93" rest] Cons by simp
    moreover have "length (drop (token_run c rest) cs) < length cs" by (simp add: token_run_def Cons)
    moreover have "length rest < length cs" by (simp add: Cons)
    moreover have "tokens_loop cs' (ts @ us) = ts @ tokens_loop cs' us" if "length cs' < length cs" for cs' us
      using less [OF that, of "ts @ us"] less [OF that, of us] by simp
    ultimately show ?thesis
      unfolding Cons tokens_loop_Cons by (simp only: append_Nil split: if_split) simp
  qed
qed

lemma concat_literals: "concat (map (emit_token K d) (map Literal xs)) = xs"
  by (induction xs) auto

lemma format_loop_tokens: "format_loop K d cs out = out @ concat (map (emit_token K d) (tokens_loop cs []))"
proof (induction "length cs" arbitrary: cs out rule: less_induct)
  case less
  show ?case
  proof (cases cs)
    case Nil
    then show ?thesis by (simp add: tokens_loop.simps format_loop.simps)
  next
    case (Cons c rest)
    consider "c = 91" | "c \<noteq> 91" "is_token_char c" | "c \<noteq> 91" "\<not> is_token_char c" by blast
    then show ?thesis
    proof cases
      case 1
      let ?cs = "drop 1 (dropWhile (\<lambda>x. x \<noteq> 93) rest)" and ?l = "takeWhile (\<lambda>x. x \<noteq> 93) rest"
      have "length ?cs < length cs" using length_dropWhile_le [of "\<lambda>x. x \<noteq> 93" rest] Cons by simp
      note IH = less [OF this, of "out @ ?l"]
      have "tokens_loop cs [] = map Literal ?l @ tokens_loop ?cs []"
        using 1 Cons tokens_loop_acc [of ?cs "map Literal ?l"] by (simp add: tokens_loop_Cons)
      with IH 1 Cons show ?thesis
        by (simp add: format_loop_Cons concat_literals del: map_map)
    next
      case 2
      let ?cs = "drop (token_run c rest) cs"
      have "length ?cs < length cs" by (simp add: token_run_def Cons)
      note IH = less [OF this, of "out @ emit_date_token K d c (token_run c rest)"]
      have "tokens_loop cs [] = Run c (token_run c rest) # tokens_loop ?cs []"
        using 2 Cons tokens_loop_acc [of ?cs "[Run c (token_run c rest)]"]
        by (simp add: tokens_loop_Cons)
      with IH 2 Cons show ?thesis by (simp add: format_loop_Cons)
    next
      case 3
      have "length rest < length cs" by (simp add: Cons)
      note IH = less [OF this, of "out @ [c]"]
      have "tokens_loop cs [] = Literal c # tokens_loop rest []"
        using 3 Cons tokens_loop_acc [of rest "[Literal c]"] by (simp add: tokens_loop_Cons)
      with IH 3 Cons show ?thesis by (simp add: format_loop_Cons)
    qed
  qed
qed

lemma format_date_concat: "format_date K d f = concat (map (emit_token K d) (format_tokens f))"
  by (simp add: format_date_def format_tokens_def format_loop_tokens)

text \<open>The runs of a format are runs of token characters.\<close>

fun token_ok :: "FormatToken \<Rightarrow> bool" where
  "token_ok (Literal c) \<longleftrightarrow> True"
| "token_ok (Run c run) \<longleftrightarrow> is_token_char c \<and> 1 \<le> run"

lemma tokens_loop_ok: "list_all token_ok ts \<Longrightarrow> list_all token_ok (tokens_loop cs ts)"
proof (induction cs ts rule: tokens_loop.induct)
  case (1 cs ts)
  show ?case
  proof (cases cs)
    case Nil
    with 1 show ?thesis by (simp add: tokens_loop_Nil)
  next
    case (Cons c rest)
    have "list_all token_ok (map Literal xs)" for xs by (induction xs) auto
    moreover have "is_token_char c \<Longrightarrow> token_ok (Run c (token_run c rest))" by (simp add: token_run_def)
    ultimately show ?thesis
      using 1 Cons by (simp add: tokens_loop_Cons)
  qed
qed

lemma format_tokens_ok: "list_all token_ok (format_tokens f)"
  by (simp add: format_tokens_def tokens_loop_ok)

section \<open>Soundness of the matcher\<close>

lemma try_match_sound: "try_match K f full ts input fs = Some d \<Longrightarrow> format_date K d f = full"
proof (induction K f full ts input fs rule: try_match.induct)
  case (3 K f full c run ts input fs)
  from 3(2) obtain x where "x \<in> set (token_options c run input fs)"
    and "(case x of (rest, fs') \<Rightarrow> try_match K f full ts rest fs') = Some d"
    by (auto dest: find_map_Some)
  with 3(1) show ?case by (cases x) auto
qed (auto split: if_splits option.splits)

section \<open>Completeness of the matcher\<close>

text \<open>What the code relies on of \<open>chrono\<close>: a date built from a year, a month and a day has them, and
  its names and ISO week are the documented ones.\<close>

definition date_ok :: "'d calendar \<Rightarrow> 'd \<Rightarrow> bool" where
  "date_ok K d \<longleftrightarrow>
     1 \<le> cal_month K d \<and> cal_month K d \<le> 12 \<and> 1 \<le> cal_day K d \<and> cal_day K d \<le> 31 \<and>
     format_B K d = MONTH_NAMES ! (cal_month K d - 1) \<and> format_b K d = take 3 (format_B K d) \<and>
     format_A K d \<in> set WEEKDAY_NAMES \<and> format_a K d = take 3 (format_A K d) \<and>
     num_days_from_sunday K d < 7 \<and> 1 \<le> iso_week K d \<and> iso_week K d \<le> 53"

definition calendar_ok :: "'d calendar \<Rightarrow> bool" where
  "calendar_ok K \<longleftrightarrow>
     (\<forall>y m d x. from_ymd_opt K y m d = Some x \<longrightarrow>
        cal_year K x = y \<and> cal_month K x = m \<and> cal_day K x = d \<and> date_ok K x \<and>
        (0 \<le> y \<and> y \<le> 9999 \<longrightarrow>
           format_Ymd K x = pad_zeros 4 (nat y) @ [45] @ pad_zeros 2 m @ [45] @ pad_zeros 2 d))"

text \<open>The years a format can carry: four digits, and the years from 2000 to 2099 when a token writes
  two digits only.\<close>

definition years_fit :: "'d calendar \<Rightarrow> rstr \<Rightarrow> 'd \<Rightarrow> bool" where
  "years_fit K f d \<longleftrightarrow>
     0 \<le> cal_year K d \<and> cal_year K d \<le> 9999 \<and>
     (Run 89 2 \<in> set (format_tokens f) \<longrightarrow> 2000 \<le> cal_year K d \<and> cal_year K d \<le> 2099) \<and>
     (has_token 71 (format_tokens f) \<longrightarrow> 0 \<le> iso_year K d \<and> iso_year K d \<le> 9999)"

lemma has_token_run: "has_token c ts \<longleftrightarrow> (\<exists>run. Run c run \<in> set ts)"
  by (induction ts) (auto simp: has_token_def split: FormatToken.splits)

lemma take_digits_append:
  "list_all is_ascii_digit s \<Longrightarrow> take_digits (s @ rest) (length s) = Some (digits_value s, rest)"
  by (simp add: take_digits_def)

lemma digit_options_true:
  "list_all is_ascii_digit s \<Longrightarrow> length s \<in> set widths \<Longrightarrow>
     (rest, set_field (digits_value s)) \<in> set (digit_options widths (s @ rest) set_field)"
  unfolding digit_options_def
  by (auto intro!: bexI [of _ "length s"] simp: take_digits_append)

lemma name_options_true:
  assumes "i < length names" and "names ! i = s"
  shows "(rest, set_field i) \<in> set (name_options names (s @ rest) set_field)"
proof -
  have "enumerate 0 names ! i = (i, s)" using assms by (simp add: nth_enumerate_eq)
  then have "(i, s) \<in> set (enumerate 0 names)" using assms(1) by (metis length_enumerate nth_mem)
  then show ?thesis unfolding name_options_def by (force simp: strip_prefix_append)
qed

lemma pad_digits_true:
  "0 < w \<Longrightarrow> n < 10 ^ w \<Longrightarrow>
     (rest, set_field n) \<in> set (digit_options [w] (pad_zeros w n @ rest) set_field)"
  using digit_options_true [OF pad_zeros_digits, of w n "[w]" rest set_field] by (simp add: length_pad_zeros)

lemma plain_digits_true:
  "n < 100 \<Longrightarrow> (rest, set_field n) \<in> set (digit_options [2, 1] (nat_to_str n @ rest) set_field)"
  using digit_options_true [OF nat_to_str_digits, of n "[2, 1]" rest set_field]
  by (simp add: nat_to_str_width split: if_splits)

lemma rust_rem_nonneg: "0 \<le> y \<Longrightarrow> rust_rem y 100 = y mod 100"
  by (cases "y = 0") (simp_all add: rust_rem_def)

lemma year_mod_2000: "2000 \<le> y \<Longrightarrow> y \<le> 2099 \<Longrightarrow> 2000 + int (nat (y mod 100)) = (y :: int)"
proof -
  assume "2000 \<le> y" "y \<le> 2099"
  then have "(y - 2000) mod 100 = y - 2000" by (intro mod_pos_pos_trivial) auto
  moreover have "(y - 2000) mod 100 = y mod 100" by (simp add: mod_diff_eq [symmetric, of y])
  ultimately show ?thesis by simp
qed

text \<open>Among the readings of a token in front of what the date writes for it is the true one.\<close>

definition true_fields :: "'d calendar \<Rightarrow> 'd \<Rightarrow> rchar \<Rightarrow> DateFields \<Rightarrow> DateFields \<Rightarrow> bool" where
  "true_fields K d c fs fs' \<longleftrightarrow>
     f_year fs' = (if c = 89 then Some (cal_year K d) else f_year fs) \<and>
     f_month fs' = (if c = 77 then Some (cal_month K d) else f_month fs) \<and>
     f_day fs' = (if c = 68 then Some (cal_day K d) else f_day fs)"

lemma year_option_true:
  assumes "0 \<le> cal_year K d" "cal_year K d \<le> 9999" "run = 2 \<longrightarrow> 2000 \<le> cal_year K d \<and> cal_year K d \<le> 2099"
  shows "\<exists>fs'. (rest, fs') \<in> set (token_options 89 run (emit_date_token K d 89 run @ rest) fs)
     \<and> true_fields K d 89 fs fs'"
proof (cases "run = 2")
  case True
  let ?n = "nat (cal_year K d mod 100)"
  have "?n < 10 ^ 2" by simp
  with True show ?thesis
    using pad_digits_true [of 2 ?n rest "\<lambda>v. fs\<lparr>f_year := Some (2000 + int v)\<rparr>"] assms
      year_mod_2000 [of "cal_year K d"]
    by (intro exI [of _ "fs\<lparr>f_year := Some (cal_year K d)\<rparr>"])
       (simp add: token_options_def emit_date_token_def true_fields_def rust_rem_nonneg pad_zeros_int_nonneg)
next
  case False
  let ?n = "nat (cal_year K d)"
  have "?n < 10 ^ 4" using assms by (simp add: nat_less_iff)
  with False show ?thesis
    using pad_digits_true [of 4 ?n rest "\<lambda>v. fs\<lparr>f_year := Some (int v)\<rparr>"] assms
    by (intro exI [of _ "fs\<lparr>f_year := Some (cal_year K d)\<rparr>"])
       (simp add: token_options_def emit_date_token_def true_fields_def pad_zeros_int_nonneg)
qed

lemma month_names_length [simp]: "length MONTH_NAMES = 12" "length WEEKDAY_NAMES = 7"
  by (simp_all add: MONTH_NAMES_def WEEKDAY_NAMES_def)

lemma month_option_true:
  assumes "date_ok K d"
  shows "\<exists>fs'. (rest, fs') \<in> set (token_options 77 run (emit_date_token K d 77 run @ rest) fs)
     \<and> true_fields K d 77 fs fs'"
proof -
  let ?m = "cal_month K d" and ?fs = "fs\<lparr>f_month := Some (cal_month K d)\<rparr>"
  have m: "?m < 10 ^ 2" "?m < 100" and i: "?m - 1 < 12" "?m - 1 + 1 = ?m" using assms by (auto simp: date_ok_def)
  have B: "format_B K d = MONTH_NAMES ! (?m - 1)" and b: "format_b K d = take 3 (format_B K d)"
    using assms by (simp_all add: date_ok_def)
  consider "run = 1" | "run = 2" | "run \<noteq> 1" "run \<noteq> 2" by blast
  then have "(rest, ?fs) \<in> set (token_options 77 run (emit_date_token K d 77 run @ rest) fs)"
  proof cases
    case 1
    then show ?thesis
      using plain_digits_true [OF m(2), of rest "\<lambda>v. fs\<lparr>f_month := Some v\<rparr>"]
      by (simp add: token_options_def emit_date_token_def)
  next
    case 2
    then show ?thesis
      using pad_digits_true [OF _ m(1), of rest "\<lambda>v. fs\<lparr>f_month := Some v\<rparr>"]
      by (simp add: token_options_def emit_date_token_def)
  next
    case 3
    then show ?thesis
      using name_options_true [of "?m - 1" "map (\<lambda>n. if run = 3 then take 3 n else n) MONTH_NAMES"
          "emit_date_token K d 77 run" rest "\<lambda>i. fs\<lparr>f_month := Some (i + 1)\<rparr>"] i B b
      by (simp add: token_options_def emit_date_token_def)
  qed
  then show ?thesis by (intro exI [of _ ?fs]) (simp add: true_fields_def)
qed

lemma day_option_true:
  assumes "date_ok K d"
  shows "\<exists>fs'. (rest, fs') \<in> set (token_options 68 run (emit_date_token K d 68 run @ rest) fs)
     \<and> true_fields K d 68 fs fs'"
proof -
  let ?fs = "fs\<lparr>f_day := Some (cal_day K d)\<rparr>"
  have m: "cal_day K d < 10 ^ 2" "cal_day K d < 100" using assms by (auto simp: date_ok_def)
  have "(rest, ?fs) \<in> set (token_options 68 run (emit_date_token K d 68 run @ rest) fs)"
    using plain_digits_true [OF m(2), of rest "\<lambda>v. fs\<lparr>f_day := Some v\<rparr>"]
      pad_digits_true [OF _ m(1), of rest "\<lambda>v. fs\<lparr>f_day := Some v\<rparr>"]
    by (simp add: token_options_def emit_date_token_def)
  then show ?thesis by (intro exI [of _ ?fs]) (simp add: true_fields_def)
qed

lemma weekday_option_true:
  assumes "date_ok K d" and "1 \<le> run"
  shows "\<exists>fs'. (rest, fs') \<in> set (token_options 100 run (emit_date_token K d 100 run @ rest) fs)
     \<and> true_fields K d 100 fs fs'"
proof -
  obtain i where i: "i < 7" "format_A K d = WEEKDAY_NAMES ! i"
    using assms(1) month_names_length(2) by (metis date_ok_def in_set_conv_nth)
  have a: "format_a K d = take 3 (format_A K d)" and n: "num_days_from_sunday K d < 10 ^ 1"
    using assms(1) by (simp_all add: date_ok_def)
  have one: "nat_to_str (num_days_from_sunday K d) = pad_zeros 1 (num_days_from_sunday K d)"
    using length_nat_to_str_pos [of "num_days_from_sunday K d"]
    by (simp add: pad_zeros_def Let_def Suc_le_eq del: length_greater_0_conv length_nat_to_str_pos)
  consider "run = 1" | "run = 2" | "run \<noteq> 1" "run \<noteq> 2" by blast
  then have "(rest, fs) \<in> set (token_options 100 run (emit_date_token K d 100 run @ rest) fs)"
  proof cases
    case 1
    then show ?thesis
      using pad_digits_true [OF _ n, of rest "\<lambda>v. fs"] by (simp add: token_options_def emit_date_token_def one)
  next
    case 2
    then show ?thesis
      using name_options_true [of i "map (take 2) WEEKDAY_NAMES" "take 2 (format_A K d)" rest "\<lambda>_. fs"] i
      by (simp add: token_options_def emit_date_token_def)
  next
    case 3
    then show ?thesis
      using name_options_true [of i "map (\<lambda>n. if run = 3 then take 3 n else n) WEEKDAY_NAMES"
          "emit_date_token K d 100 run" rest "\<lambda>_. fs"] i a
      by (simp add: token_options_def emit_date_token_def)
  qed
  then show ?thesis by (intro exI [of _ fs]) (simp add: true_fields_def)
qed

lemma week_option_true:
  assumes "date_ok K d"
  shows "\<exists>fs'. (rest, fs') \<in> set (token_options 87 run (emit_date_token K d 87 run @ rest) fs)
     \<and> true_fields K d 87 fs fs'"
proof -
  let ?fs = "fs\<lparr>f_week := Some (iso_week K d)\<rparr>"
  have m: "iso_week K d < 10 ^ 2" "iso_week K d < 100" using assms by (auto simp: date_ok_def)
  have "(rest, ?fs) \<in> set (token_options 87 run (emit_date_token K d 87 run @ rest) fs)"
    using plain_digits_true [OF m(2), of rest "\<lambda>v. fs\<lparr>f_week := Some v\<rparr>"]
      pad_digits_true [OF _ m(1), of rest "\<lambda>v. fs\<lparr>f_week := Some v\<rparr>"]
    by (simp add: token_options_def emit_date_token_def)
  then show ?thesis by (intro exI [of _ ?fs]) (simp add: true_fields_def)
qed

lemma iso_year_option_true:
  assumes "0 \<le> iso_year K d" "iso_year K d \<le> 9999"
  shows "\<exists>fs'. (rest, fs') \<in> set (token_options 71 run (emit_date_token K d 71 run @ rest) fs)
     \<and> true_fields K d 71 fs fs'"
proof (cases "run = 2")
  case True
  let ?n = "nat (iso_year K d mod 100)"
  have "?n < 10 ^ 2" by simp
  with True show ?thesis
    using pad_digits_true [of 2 ?n rest "\<lambda>v. fs\<lparr>f_iso_year := Some (2000 + int v)\<rparr>"] assms
    by (intro exI [of _ "fs\<lparr>f_iso_year := Some (2000 + int ?n)\<rparr>"])
       (simp add: token_options_def emit_date_token_def true_fields_def rust_rem_nonneg pad_zeros_int_nonneg)
next
  case False
  let ?n = "nat (iso_year K d)"
  have "?n < 10 ^ 4" using assms by (simp add: nat_less_iff)
  with False show ?thesis
    using pad_digits_true [of 4 ?n rest "\<lambda>v. fs\<lparr>f_iso_year := Some (int v)\<rparr>"] assms
    by (intro exI [of _ "fs\<lparr>f_iso_year := Some (int ?n)\<rparr>"])
       (simp add: token_options_def emit_date_token_def true_fields_def pad_zeros_int_nonneg)
qed

text \<open>The readable years of the tokens still to come.\<close>

definition token_fits :: "'d calendar \<Rightarrow> 'd \<Rightarrow> FormatToken \<Rightarrow> bool" where
  "token_fits K d t \<longleftrightarrow>
     token_ok t \<and> 0 \<le> cal_year K d \<and> cal_year K d \<le> 9999 \<and>
     (t = Run 89 2 \<longrightarrow> 2000 \<le> cal_year K d \<and> cal_year K d \<le> 2099) \<and>
     (\<forall>run. t = Run 71 run \<longrightarrow> 0 \<le> iso_year K d \<and> iso_year K d \<le> 9999)"

lemma token_option_true:
  assumes "date_ok K d" and "token_fits K d (Run c run)"
  shows "\<exists>fs'. (rest, fs') \<in> set (token_options c run (emit_date_token K d c run @ rest) fs)
     \<and> true_fields K d c fs fs'"
proof -
  have "is_token_char c" "1 \<le> run" using assms(2) by (simp_all add: token_fits_def)
  then consider "c = 89" | "c = 77" | "c = 68" | "c = 100" | "c = 87" | "c = 71"
    by (auto simp: is_token_char_def)
  then show ?thesis
    by cases
       (use assms \<open>1 \<le> run\<close> in \<open>auto simp: token_fits_def intro: year_option_true month_option_true
          day_option_true weekday_option_true week_option_true iso_year_option_true\<close>)
qed

lemma find_map_not_None: "x \<in> set xs \<Longrightarrow> f x \<noteq> None \<Longrightarrow> find_map f xs \<noteq> None"
  by (induction xs) (auto split: option.splits)

text \<open>The fields read so far and the tokens still to come leave no part of the date open.\<close>

definition covered :: "'d calendar \<Rightarrow> 'd \<Rightarrow> FormatToken list \<Rightarrow> DateFields \<Rightarrow> bool" where
  "covered K d ts fs \<longleftrightarrow>
     (f_year fs = Some (cal_year K d) \<or> f_year fs = None \<and> has_token 89 ts) \<and>
     (f_month fs = Some (cal_month K d) \<or> f_month fs = None \<and> has_token 77 ts) \<and>
     (f_day fs = Some (cal_day K d) \<or> f_day fs = None \<and> has_token 68 ts)"

lemma try_match_complete:
  assumes "date_ok K d" and "from_ymd_opt K (cal_year K d) (cal_month K d) (cal_day K d) = Some d"
    and "list_all (token_fits K d) ts" and "covered K d ts fs"
  shows "try_match K f (format_date K d f) ts (concat (map (emit_token K d) ts)) fs \<noteq> None"
  using assms(3,4)
proof (induction ts arbitrary: fs)
  case Nil
  then show ?case using assms(2) by (simp add: covered_def has_token_def fields_resolve_def)
next
  case (Cons t ts)
  show ?case
  proof (cases t)
    case (Literal c)
    then show ?thesis
      using Cons by (simp add: covered_def has_token_def strip_prefix_def)
  next
    case (Run c run)
    let ?rest = "concat (map (emit_token K d) ts)"
    have "token_fits K d (Run c run)" using Cons.prems Run by simp
    from token_option_true [OF assms(1) this, of ?rest fs] obtain fs' where
      o: "(?rest, fs') \<in> set (token_options c run (emit_date_token K d c run @ ?rest) fs)"
      and t: "true_fields K d c fs fs'" by blast
    have "covered K d ts fs'"
      using Cons.prems(2) t Run by (auto simp: covered_def true_fields_def has_token_def)
    then have "try_match K f (format_date K d f) ts ?rest fs' \<noteq> None" using Cons by simp
    with o show ?thesis
      using find_map_not_None [OF o, of "\<lambda>(rest, fs'). try_match K f (format_date K d f) ts rest fs'"] Run
      by simp
  qed
qed

section \<open>A calendar that satisfies the hypotheses\<close>

text \<open>The Gregorian calendar on triples of year, month and day.\<close>

definition is_leap :: "int \<Rightarrow> bool" where
  "is_leap y \<longleftrightarrow> y mod 4 = 0 \<and> y mod 100 \<noteq> 0 \<or> y mod 400 = 0"

definition days_in_month :: "int \<Rightarrow> nat \<Rightarrow> nat" where
  "days_in_month y m =
     (if m = 2 then (if is_leap y then 29 else 28) else if m \<in> {4, 6, 9, 11} then 30 else 31)"

definition weekday_sunday :: "int \<times> nat \<times> nat \<Rightarrow> nat" where
  "weekday_sunday = (\<lambda>(y, m, d).
     let y' = (if m < 3 then y - 1 else y);
         t = (case get_at [0, 3, 2, 5, 0, 3, 5, 1, 4, 6, 2, 4 :: int] (m - 1) of Some k \<Rightarrow> k | None \<Rightarrow> 0)
     in nat ((y' + y' div 4 - y' div 100 + y' div 400 + t + int d) mod 7))"

definition weeks_in_year :: "int \<Rightarrow> nat" where
  "weeks_in_year y =
     (let p = (\<lambda>y. (y + y div 4 - y div 100 + y div 400) mod 7)
      in if p y = 4 \<or> p (y - 1) = 3 then 53 else 52)"

definition iso_of :: "int \<times> nat \<times> nat \<Rightarrow> int \<times> nat" where
  "iso_of x = (case x of (y, m, d) \<Rightarrow>
     let n = sum_list (map (days_in_month y) [1..<m]) + d;
         w = (let k = weekday_sunday x in if k = 0 then 7 else k);
         week = (n + 10 - w) div 7
     in if week < 1 then (y - 1, weeks_in_year (y - 1))
        else if weeks_in_year y < week then (y + 1, 1)
        else (y, week))"

definition gregorian_ymd :: "int \<Rightarrow> nat \<Rightarrow> nat \<Rightarrow> (int \<times> nat \<times> nat) option" where
  "gregorian_ymd y m d =
     (if 1 \<le> m \<and> m \<le> 12 \<and> 1 \<le> d \<and> d \<le> days_in_month y m then Some (y, m, d) else None)"

definition gregorian :: "(int \<times> nat \<times> nat) calendar" where
  "gregorian =
     (let name_B = (\<lambda>(y, m, d). case get_at MONTH_NAMES (m - 1) of Some n \<Rightarrow> n | None \<Rightarrow> []);
          name_A = (\<lambda>x. case get_at WEEKDAY_NAMES ((weekday_sunday x + 6) mod 7) of Some n \<Rightarrow> n | None \<Rightarrow> [])
      in \<lparr>cal_year = (\<lambda>(y, m, d). y), cal_month = (\<lambda>(y, m, d). m), cal_day = (\<lambda>(y, m, d). d),
          num_days_from_sunday = weekday_sunday, iso_week = snd \<circ> iso_of, iso_year = fst \<circ> iso_of,
          format_b = take 3 \<circ> name_B, format_B = name_B, format_a = take 3 \<circ> name_A, format_A = name_A,
          format_Ymd = (\<lambda>(y, m, d). pad_zeros_int 4 y @ [45] @ pad_zeros 2 m @ [45] @ pad_zeros 2 d),
          from_ymd_opt = gregorian_ymd,
          from_isoywd_mon = (\<lambda>y w. find (\<lambda>x. iso_of x = (y, w) \<and> weekday_sunday x = 1)
             (concat (map (\<lambda>y. concat (map (\<lambda>m. map (\<lambda>d. (y, m, d)) [1..<32]) [1..<13])) [y - 1, y]))),
          date_less = (\<lambda>(y, m, d) (y', m', d'). y < y' \<or> y = y' \<and> (m < m' \<or> m = m' \<and> d < d'))\<rparr>)"

lemma days_in_month_le: "days_in_month y m \<le> 31"
  by (simp add: days_in_month_def)

lemma weekday_less: "weekday_sunday x < 7"
  by (cases x) (simp add: weekday_sunday_def Let_def)

lemma weeks_in_year_bounds: "52 \<le> weeks_in_year y" "weeks_in_year y \<le> 53"
  by (simp_all add: weeks_in_year_def Let_def)

lemma iso_week_bounds: "1 \<le> snd (iso_of x) \<and> snd (iso_of x) \<le> 53"
proof -
  have "1 \<le> weeks_in_year y" for y by (rule order_trans [OF _ weeks_in_year_bounds(1)]) simp
  moreover note weeks_in_year_bounds(2) order_trans [OF _ weeks_in_year_bounds(2)]
  ultimately show ?thesis
    by (cases x) (simp add: iso_of_def Let_def not_less Suc_le_eq)
qed

lemma gregorian_ok: "calendar_ok gregorian"
  unfolding calendar_ok_def
proof (intro allI impI)
  fix y m d x assume "from_ymd_opt gregorian y m d = Some x"
  then have x: "x = (y, m, d)" and b: "1 \<le> m" "m \<le> 12" "1 \<le> d" "d \<le> days_in_month y m"
    by (auto simp: gregorian_def gregorian_ymd_def Let_def split: if_splits)
  have d: "d \<le> 31" and m: "m - Suc 0 < 12" using b(2,4) days_in_month_le le_trans by (blast, simp)
  have "WEEKDAY_NAMES ! k \<in> set WEEKDAY_NAMES" if "k < 7" for k using that by simp
  then show "cal_year gregorian x = y \<and> cal_month gregorian x = m \<and> cal_day gregorian x = d \<and>
      date_ok gregorian x \<and> (0 \<le> y \<and> y \<le> 9999 \<longrightarrow>
        format_Ymd gregorian x = pad_zeros 4 (nat y) @ [45] @ pad_zeros 2 m @ [45] @ pad_zeros 2 d)"
    using b d m weekday_less [of x] iso_week_bounds [of x]
    by (simp add: x date_ok_def gregorian_def Let_def get_at_def pad_zeros_int_nonneg)
qed

section \<open>Properties\<close>

text \<open>Formatting and tokenising agree: what \<open>format_date\<close> writes is the concatenation of what each
  token of \<open>format_tokens\<close> writes.\<close>

theorem format_date_walks_tokens:
  "format_date K d f = concat (map (emit_token K d) (format_tokens f))"
  by (rule format_date_concat)

text \<open>A parsed date always formats back to exactly the text it was read from.\<close>

theorem parse_date_sound:
  "parse_date K t f = Some d \<Longrightarrow> format_date K d f = t"
  unfolding parse_date_def by (rule try_match_sound)

theorem parse_date_sound_witness:
  "parse_date gregorian (lit ''Mon 20 July 2026'') (lit ''ddd D MMMM YYYY'') = Some (2026, 7, 20) \<and>
   format_date gregorian (2026, 7, 20) (lit ''ddd D MMMM YYYY'') = lit ''Mon 20 July 2026''"
proof
  show p: "parse_date gregorian (lit ''Mon 20 July 2026'') (lit ''ddd D MMMM YYYY'') = Some (2026, 7, 20)"
    by code_simp
  show "format_date gregorian (2026, 7, 20) (lit ''ddd D MMMM YYYY'') = lit ''Mon 20 July 2026''"
    by (rule parse_date_sound [OF p])
qed

text \<open>The matcher finds what a date wrote: for a format that names a day and a date whose years
  fit its tokens, parsing the formatted date succeeds, with a date that is written the same way.\<close>

theorem parse_date_complete:
  assumes "calendar_ok K" and "from_ymd_opt K y m n = Some d" and "names_a_day f" and "years_fit K f d"
  shows "\<exists>d'. parse_date K (format_date K d f) f = Some d' \<and> format_date K d' f = format_date K d f"
proof -
  have d: "date_ok K d" "from_ymd_opt K (cal_year K d) (cal_month K d) (cal_day K d) = Some d"
    using assms(1,2) by (auto simp: calendar_ok_def)
  have "list_all (token_fits K d) (format_tokens f)"
    using assms(4) format_tokens_ok [of f]
    by (auto simp: list_all_iff token_fits_def years_fit_def has_token_run)
  moreover have "covered K d (format_tokens f) no_fields"
    using assms(3) by (simp add: covered_def names_a_day_def Let_def no_fields_def)
  ultimately have "parse_date K (format_date K d f) f \<noteq> None"
    using try_match_complete [OF d] by (simp add: parse_date_def format_date_concat)
  then show ?thesis using try_match_sound by (fastforce simp: parse_date_def)
qed

theorem parse_date_complete_witness:
  "\<exists>d'. parse_date gregorian (format_date gregorian (2024, 2, 29) (lit ''YY/M/D'')) (lit ''YY/M/D'') = Some d' \<and>
     format_date gregorian d' (lit ''YY/M/D'') = format_date gregorian (2024, 2, 29) (lit ''YY/M/D'')"
proof (rule parse_date_complete [OF gregorian_ok])
  show "from_ymd_opt gregorian 2024 2 29 = Some (2024, 2, 29)" by code_simp
  show "names_a_day (lit ''YY/M/D'')" by code_simp
  show "years_fit gregorian (lit ''YY/M/D'') (2024, 2, 29)" by code_simp
qed

end
