(* ===== verification/Reminder.thy ===== *)
theory Reminder
  imports Document Dates
begin

text \<open>
  Reading reminders (\<open>crates/thock-sync-core/reminder.rs\<close>): the token and id grammar, the day of a
  daily note, where a token counts, the state and the group of a reminder, and the reminder lines
  of a note.  Dates and times are the crate \<open>chrono\<close>'s: the record \<open>chrono\<close> holds the calendar of
  \<open>Dates\<close>, a clock, and the addition of minutes to a date and time.  Byte ranges of the source
  become character ranges.
\<close>

section \<open>Constants\<close>

definition ID_LENGTH :: nat where "ID_LENGTH = 12"
definition DEFAULT_DAY_HEADING :: rstr where "DEFAULT_DAY_HEADING = lit ''Reminders''"
definition ID_OPEN :: rstr where "ID_OPEN = lit ''<!--rem:''"
definition CALENDAR_MARKER :: rstr where "CALENDAR_MARKER = lit ''<!--gcal:''"
definition TOKEN_OPEN :: rstr where "TOKEN_OPEN = lit ''(@''"
definition STRIKE :: rstr where "STRIKE = lit ''~~''"
definition MIRROR_SEPARATOR :: rstr where "MIRROR_SEPARATOR = [32, 183, 32]"
definition TEMPLATES_FOLDER :: rstr where "TEMPLATES_FOLDER = lit ''templates/''"
definition MIRROR_TEXT_CHARS :: nat where "MIRROR_TEXT_CHARS = 80"
definition EMPTY_MIRROR_TEXT :: rstr where "EMPTY_MIRROR_TEXT = lit ''Reminder''"

section \<open>Dates and times\<close>

record 't clock =
  from_hms_opt :: "nat \<Rightarrow> nat \<Rightarrow> nat \<Rightarrow> 't option"
  format_HM :: "'t \<Rightarrow> rstr"
  with_second_zero :: "'t \<Rightarrow> 't option"
  with_nanosecond_zero :: "'t \<Rightarrow> 't option"

record ('d, 't) chrono =
  cal :: "'d calendar"
  clk :: "'t clock"
  add_minutes :: "'d \<times> 't \<Rightarrow> nat \<Rightarrow> 'd \<times> 't"

record DailyNotes =
  dn_dir :: rstr
  dn_filename :: rstr

definition DailyNotes_default :: DailyNotes where
  "DailyNotes_default = \<lparr>dn_dir = lit ''daily'', dn_filename = lit ''YYYY-MM-DD''\<rparr>"

definition day_of :: "('d, 't) chrono \<Rightarrow> DailyNotes \<Rightarrow> rstr \<Rightarrow> 'd option" where
  "day_of C notes path =
     (if \<not> names_a_day (dn_filename notes) then None
      else let dir = trim_matches (\<lambda>c. c = 47) (dn_dir notes);
               below = (if dir = [] then Some path
                        else Option.bind (strip_prefix dir path) (strip_prefix [47]))
           in Option.bind (Option.bind below (strip_suffix (lit ''.md'')))
                (\<lambda>stem. parse_date (cal C) stem (dn_filename notes)))"

record ReminderConfig =
  rc_daily :: DailyNotes
  rc_day_headings :: "rstr list"

definition ReminderConfig_default :: ReminderConfig where
  "ReminderConfig_default = \<lparr>rc_daily = DailyNotes_default, rc_day_headings = [DEFAULT_DAY_HEADING]\<rparr>"

definition is_reminder_path :: "rstr \<Rightarrow> rstr list \<Rightarrow> bool" where
  "is_reminder_path path template_paths =
     (let is_markdown = is_some_and (rsplit_once [46] path)
            (\<lambda>(stem, extension). stem \<noteq> [] \<and> eq_ignore_ascii_case extension (lit ''md''))
      in if \<not> is_markdown \<or> starts_with (lit ''.thock/'') path \<or> starts_with (lit ''routines/'') path
            \<or> starts_with TEMPLATES_FOLDER path then False
         else \<not> list_ex (\<lambda>template. path = trim_start_matches (\<lambda>c. c = 47) template) template_paths)"

record ('d, 't) Due =
  due_date :: 'd
  due_time :: "'t option"

definition due_new :: "('d, 't) chrono \<Rightarrow> 'd \<Rightarrow> 't option \<Rightarrow> ('d, 't) Due" where
  "due_new C date time =
     \<lparr>due_date = date,
      due_time = Option.bind time
        (\<lambda>t. Option.bind (with_second_zero (clk C) t) (with_nanosecond_zero (clk C)))\<rparr>"

definition due_at :: "('d, 't) Due \<Rightarrow> 't \<Rightarrow> 'd \<times> 't" where
  "due_at due date_only_at =
     (due_date due, case due_time due of Some t \<Rightarrow> t | None \<Rightarrow> date_only_at)"

text \<open>\<open>YYYY-MM-DD\<close>, a real calendar date.\<close>

definition parse_iso_date :: "'d calendar \<Rightarrow> rstr \<Rightarrow> 'd option" where
  "parse_iso_date K t =
     (if length t \<noteq> 10 \<or> t ! 4 \<noteq> 45 \<or> t ! 7 \<noteq> 45 \<or>
         \<not> list_all (\<lambda>(index, c). index = 4 \<or> index = 7 \<or> is_ascii_digit c) (enumerate 0 t)
      then None
      else from_ymd_opt K (int (digits_value (take 4 t))) (digits_value (segment t 5 7))
             (digits_value (drop 8 t)))"

text \<open>\<open>H:MM\<close> or \<open>HH:MM\<close>.\<close>

definition parse_clock :: "'t clock \<Rightarrow> rstr \<Rightarrow> 't option" where
  "parse_clock L t =
     (case split_once [58] t of
        None \<Rightarrow> None
      | Some (hours, minutes) \<Rightarrow>
          if \<not> (1 \<le> length hours \<and> length hours \<le> 2) \<or> length minutes \<noteq> 2 \<or>
             \<not> list_all is_ascii_digit (hours @ minutes)
          then None
          else from_hms_opt L (digits_value hours) (digits_value minutes) 0)"

definition due_parse :: "('d, 't) chrono \<Rightarrow> rstr \<Rightarrow> ('d, 't) Due option" where
  "due_parse C t =
     (case split_once [32] t of
        Some (date, time) \<Rightarrow>
          (case parse_iso_date (cal C) date of
             None \<Rightarrow> None
           | Some d \<Rightarrow> (case parse_clock (clk C) time of
                         None \<Rightarrow> None
                       | Some c \<Rightarrow> Some (due_new C d (Some c))))
      | None \<Rightarrow>
          (case parse_iso_date (cal C) t of None \<Rightarrow> None | Some d \<Rightarrow> Some (due_new C d None)))"

text \<open>\<open>Display\<close> of a due.\<close>

definition due_str :: "('d, 't) chrono \<Rightarrow> ('d, 't) Due \<Rightarrow> rstr" where
  "due_str C due =
     format_Ymd (cal C) (due_date due) @
     (case due_time due of None \<Rightarrow> [] | Some t \<Rightarrow> [32] @ format_HM (clk C) t)"

section \<open>Tokens\<close>

datatype ('d, 't) When = WDate 'd | WDateTime 'd 't | WTime 't

fun when_due :: "('d, 't) chrono \<Rightarrow> ('d, 't) When \<Rightarrow> 'd option \<Rightarrow> ('d, 't) Due option" where
  "when_due C (WDate date) note_day = Some (due_new C date None)"
| "when_due C (WDateTime date time) note_day = Some (due_new C date (Some time))"
| "when_due C (WTime time) note_day = map_option (\<lambda>d. due_new C d (Some time)) note_day"

record ('d, 't) Token =
  tok_range :: "nat \<times> nat"
  tok_when :: "('d, 't) When"
  tok_struck :: bool

datatype Task = TOpen | TDone

datatype ReminderState = Open | Closed | Dropped

datatype Group = Overdue | GToday | Upcoming | Done

definition group :: "'d calendar \<Rightarrow> ReminderState \<Rightarrow> ('d, 't) Due option \<Rightarrow> 'd \<Rightarrow> Group option" where
  "group K state due today =
     (if state \<noteq> Open then Some Done
      else case due of
        None \<Rightarrow> None
      | Some d \<Rightarrow>
          Some (if date_less K (due_date d) today then Overdue
                else if due_date d = today then GToday
                else Upcoming))"

record ('d, 't) LineReminder =
  lr_id :: "rstr option"
  lr_token :: "('d, 't) Token option"
  lr_task :: "Task option"
  lr_due :: "('d, 't) Due option"

definition lr_state :: "('d, 't) LineReminder \<Rightarrow> ReminderState" where
  "lr_state r =
     (case lr_token r of
        None \<Rightarrow> Dropped
      | Some token \<Rightarrow>
          if tok_struck token \<or> lr_task r = Some TDone then Closed else Open)"

section \<open>One line\<close>

record InlineScan =
  is_excluded :: "(nat \<times> nat) list"
  is_found_id :: "rstr option"
  is_comment_open :: bool
  is_unclosed_comment :: "nat option"

definition is_id :: "rstr \<Rightarrow> bool" where
  "is_id t \<longleftrightarrow> byte_len t = ID_LENGTH \<and>
     list_all (\<lambda>c. is_ascii_digit c \<or> 97 \<le> c \<and> c \<le> 102) t"

definition id_in_comment :: "rstr \<Rightarrow> rstr option" where
  "id_in_comment comment =
     (case Option.bind (strip_prefix ID_OPEN comment) (strip_suffix COMMENT_CLOSE) of
        None \<Rightarrow> None
      | Some i \<Rightarrow> if is_id i then Some i else None)"

definition id_from_bytes :: "byte list \<Rightarrow> rstr" where
  "id_from_bytes bytes = concat (map byte_to_hex bytes)"

definition id_marker :: "rstr \<Rightarrow> rstr" where
  "id_marker i = ID_OPEN @ i @ COMMENT_CLOSE"

definition closing_backticks :: "rstr \<Rightarrow> nat \<Rightarrow> nat \<Rightarrow> nat option" where
  "closing_backticks line from run = code_span_close line run from"

text \<open>The length of the comment a text that starts with \<open><!--\<close> opens, given what follows the
  opener.\<close>

definition comment_length :: "rstr \<Rightarrow> nat option" where
  "comment_length inside =
     (if starts_with [62] inside then Some (length COMMENT_OPEN + 1)
      else if starts_with [45, 62] inside then Some (length COMMENT_OPEN + 2)
      else map_option (\<lambda>offset. length COMMENT_OPEN + offset + length COMMENT_CLOSE)
             (str_find COMMENT_CLOSE inside))"

lemma comment_length_pos: "comment_length inside = Some n \<Longrightarrow> 0 < n"
  by (auto simp: comment_length_def COMMENT_OPEN_def split: if_splits)

lemma run_length_at: "i < length s \<Longrightarrow> s ! i = c \<Longrightarrow> 0 < run_length c (drop i s)"
  by (simp add: run_length_def flip: Cons_nth_drop_Suc)

lemma closing_backticks_after: "closing_backticks line from run = Some e \<Longrightarrow> from < e"
  unfolding closing_backticks_def by (rule code_span_close_ge)

function scan_inline_loop :: "rstr \<Rightarrow> nat \<Rightarrow> (nat \<times> nat) list \<Rightarrow> rstr option \<Rightarrow> InlineScan" where
  "scan_inline_loop line cursor excluded found =
     (if cursor < length line then
        let rest = drop cursor line
        in (case strip_prefix COMMENT_OPEN rest of
              Some inside \<Rightarrow>
                (case comment_length inside of
                   Some n \<Rightarrow>
                     scan_inline_loop line (cursor + n) (excluded @ [(cursor, cursor + n)])
                       (or_else (id_in_comment (segment line cursor (cursor + n))) found)
                 | None \<Rightarrow>
                     \<lparr>is_excluded = excluded @ [(cursor, length line)], is_found_id = found,
                      is_comment_open = True, is_unclosed_comment = Some cursor\<rparr>)
            | None \<Rightarrow>
                if line ! cursor = 96 then
                  let run = run_length 96 rest
                  in (case closing_backticks line (cursor + run) run of
                        Some e \<Rightarrow> scan_inline_loop line e (excluded @ [(cursor, e)]) found
                      | None \<Rightarrow> scan_inline_loop line (cursor + run) excluded found)
                else scan_inline_loop line (cursor + 1) excluded found)
      else \<lparr>is_excluded = excluded, is_found_id = found, is_comment_open = False,
            is_unclosed_comment = None\<rparr>)"
  by pat_completeness auto
termination
  by (relation "measure (\<lambda>(line, cursor, excluded, found). length line - cursor)")
     (auto dest!: comment_length_pos closing_backticks_after simp: run_length_at diff_less_mono2)

declare scan_inline_loop.simps [simp del]

definition scan_inline :: "rstr \<Rightarrow> bool \<Rightarrow> InlineScan" where
  "scan_inline line in_comment =
     (if in_comment then
        (case str_find COMMENT_CLOSE line of
           Some close \<Rightarrow>
             let cursor = close + length COMMENT_CLOSE
             in scan_inline_loop line cursor [(0, cursor)] None
         | None \<Rightarrow>
             \<lparr>is_excluded = [(0, length line)], is_found_id = None, is_comment_open = True,
              is_unclosed_comment = None\<rparr>)
      else scan_inline_loop line 0 [] None)"

definition writable_end :: "rstr \<Rightarrow> nat" where
  "writable_end line =
     (case is_unclosed_comment (scan_inline line False) of Some i \<Rightarrow> i | None \<Rightarrow> length line)"

definition parse_when :: "('d, 't) chrono \<Rightarrow> rstr \<Rightarrow> ('d, 't) When option" where
  "parse_when C t =
     (case split_once [32] t of
        Some (date, time) \<Rightarrow>
          (case parse_iso_date (cal C) date of
             None \<Rightarrow> None
           | Some d \<Rightarrow> map_option (WDateTime d) (parse_clock (clk C) time))
      | None \<Rightarrow>
          if 58 \<in> set t then map_option WTime (parse_clock (clk C) t)
          else map_option WDate (parse_iso_date (cal C) t))"

text \<open>The loop of \<open>last_token\<close>.\<close>

function last_token_loop ::
    "('d, 't) chrono \<Rightarrow> rstr \<Rightarrow> (nat \<times> nat) list \<Rightarrow> nat \<Rightarrow> ('d, 't) Token option
       \<Rightarrow> ('d, 't) Token option" where
  "last_token_loop C line excluded search found =
     (case str_find TOKEN_OPEN (drop search line) of
        None \<Rightarrow> found
      | Some offset \<Rightarrow>
          let start = search + offset;
              search' = start + length TOKEN_OPEN
          in if ends_with [92] (take start line) then last_token_loop C line excluded search' found
             else (case str_find [41] (drop search' line) of
                     None \<Rightarrow> found
                   | Some close \<Rightarrow>
                       let e = search' + close + 1
                       in if list_ex (\<lambda>(from, to). from < e \<and> start < to) excluded
                          then last_token_loop C line excluded search' found
                          else (case parse_when C (segment line search' (e - 1)) of
                                  None \<Rightarrow> last_token_loop C line excluded search' found
                                | Some w \<Rightarrow>
                                    let struck = ends_with STRIKE (take start line) \<and>
                                                 starts_with STRIKE (drop e line);
                                        range = (if struck
                                                 then (start - length STRIKE, e + length STRIKE)
                                                 else (start, e))
                                    in last_token_loop C line excluded search'
                                         (Some \<lparr>tok_range = range, tok_when = w, tok_struck = struck\<rparr>))))"
  by pat_completeness auto
termination
proof (relation "measure (\<lambda>(C, line, excluded, search, found). length line - search)", goal_cases)
  case 1
  then show ?case by simp
qed (auto dest!: str_find_bound simp: TOKEN_OPEN_def)

declare last_token_loop.simps [simp del]

definition last_token :: "('d, 't) chrono \<Rightarrow> rstr \<Rightarrow> (nat \<times> nat) list \<Rightarrow> ('d, 't) Token option" where
  "last_token C line excluded = last_token_loop C line excluded 0 None"

text \<open>The loop of \<open>strip_quote_markers\<close>, on a text whose leading white space is gone.\<close>

function quote_loop :: "rstr \<Rightarrow> rstr" where
  "quote_loop rest =
     (case strip_prefix [62] rest of
        None \<Rightarrow> rest
      | Some inner \<Rightarrow> quote_loop (trim_start inner))"
  by pat_completeness auto
termination
proof (relation "measure length", goal_cases)
  case (2 rest inner)
  then have "length inner < length rest" by (simp add: strip_prefix_Some)
  then show ?case using length_dropWhile_le [of is_whitespace inner] by (simp add: trim_start_def)
qed simp

declare quote_loop.simps [simp del]

definition strip_quote_markers :: "rstr \<Rightarrow> rstr" where
  "strip_quote_markers t = quote_loop (trim_start t)"

definition task_of :: "rstr \<Rightarrow> (Task \<times> nat) option" where
  "task_of line =
     (let trimmed = strip_quote_markers line;
          after_marker = strip_list_marker trimmed
      in if length after_marker = length trimmed then None
         else let mark = length line - length after_marker + 1
              in if take 4 after_marker = lit ''[ ] '' then Some (TOpen, mark)
                 else if take 4 after_marker = lit ''[x] '' \<or> take 4 after_marker = lit ''[X] ''
                 then Some (TDone, mark)
                 else None)"

record ('d, 't) ReadLine =
  rl_reminder :: "('d, 't) LineReminder option"
  rl_comment_open :: bool

definition read_line ::
    "('d, 't) chrono \<Rightarrow> rstr \<Rightarrow> 'd option \<Rightarrow> bool \<Rightarrow> ('d, 't) ReadLine" where
  "read_line C line note_day in_comment =
     (let scan = scan_inline line in_comment
      in if str_contains CALENDAR_MARKER line then
           \<lparr>rl_reminder = None, rl_comment_open = is_comment_open scan\<rparr>
         else let token = last_token C line (is_excluded scan);
                  task = map_option fst (task_of line)
              in \<lparr>rl_reminder =
                    (if token \<noteq> None \<or> is_found_id scan \<noteq> None then
                       Some \<lparr>lr_id = is_found_id scan, lr_token = token, lr_task = task,
                             lr_due = Option.bind token (\<lambda>t. when_due C (tok_when t) note_day)\<rparr>
                     else None),
                  rl_comment_open = is_comment_open scan\<rparr>)"

definition parse_line :: "('d, 't) chrono \<Rightarrow> rstr \<Rightarrow> 'd option \<Rightarrow> ('d, 't) LineReminder option" where
  "parse_line C line note_day = rl_reminder (read_line C line note_day False)"

section \<open>Mirror lines\<close>

datatype 'd MirrorMark = MMoved 'd | MDropped | MRemoved

record ('d, 't) MirrorLine =
  ml_checked :: bool
  ml_time :: "'t option"
  ml_text :: rstr
  ml_mark :: "'d MirrorMark option"
  ml_carried :: "('d, 't) Due option"
  ml_note :: rstr
  ml_id :: rstr

definition parse_mirror_mark :: "'d calendar \<Rightarrow> rstr \<Rightarrow> 'd MirrorMark option" where
  "parse_mirror_mark K after =
     (if after = lit '' (dropped)'' then Some MDropped
      else if after = lit '' (removed)'' then Some MRemoved
      else map_option MMoved (Option.bind (strip_prefix [32, 8594, 32] after) (parse_iso_date K)))"

definition parse_mirror_body :: "'d calendar \<Rightarrow> rstr \<Rightarrow> (rstr \<times> 'd MirrorMark option) option" where
  "parse_mirror_body K body =
     (case strip_prefix STRIKE body of
        None \<Rightarrow> if body \<noteq> [] then Some (body, None) else None
      | Some struck \<Rightarrow>
          (case rsplit_once STRIKE struck of
             None \<Rightarrow> None
           | Some (t, after) \<Rightarrow>
               (case parse_mirror_mark K after of
                  None \<Rightarrow> None
                | Some mark \<Rightarrow> Some (t, Some mark))))"

text \<open>The parts of \<open>MirrorLine::parse\<close>, right to left: the checkbox, the id, the note link, the
  carried due and the planner time.\<close>

definition mirror_box :: "rstr \<Rightarrow> (bool \<times> rstr) option" where
  "mirror_box rest =
     (case strip_prefix (lit ''- [ ] '') rest of
        Some r \<Rightarrow> Some (False, r)
      | None \<Rightarrow>
          map_option (Pair True)
            (or_else (strip_prefix (lit ''- [x] '') rest) (strip_prefix (lit ''- [X] '') rest)))"

definition mirror_note :: "rstr \<Rightarrow> (rstr \<times> rstr) option" where
  "mirror_note rest =
     (case strip_suffix (lit '']]'') rest of
        None \<Rightarrow> None
      | Some r \<Rightarrow>
          (case rsplit_once (MIRROR_SEPARATOR @ lit ''[['') r of
             None \<Rightarrow> None
           | Some (prior, link) \<Rightarrow>
               let target = takeWhile (\<lambda>c. c \<noteq> 124) link
               in if target = [] \<or> 91 \<in> set target \<or> 93 \<in> set target then None
                  else Some (prior, target)))"

definition mirror_carried ::
    "('d, 't) chrono \<Rightarrow> rstr \<Rightarrow> rstr \<times> ('d, 't) Due option" where
  "mirror_carried C rest =
     (case rsplit_once MIRROR_SEPARATOR rest of
        Some (prior, due) \<Rightarrow>
          (case due_parse C due of Some d \<Rightarrow> (prior, Some d) | None \<Rightarrow> (rest, None))
      | None \<Rightarrow> (rest, None))"

definition mirror_time :: "'t clock \<Rightarrow> rstr \<Rightarrow> 't option \<times> rstr" where
  "mirror_time L rest =
     (case split_once [32] rest of
        Some (time, body) \<Rightarrow>
          (case parse_clock L time of
             Some t \<Rightarrow> if byte_len time = 5 then (Some t, body) else (None, rest)
           | None \<Rightarrow> (None, rest))
      | None \<Rightarrow> (None, rest))"

definition mirror_parse :: "('d, 't) chrono \<Rightarrow> rstr \<Rightarrow> ('d, 't) MirrorLine option" where
  "mirror_parse C line =
     (case mirror_box (trim_end line) of
        None \<Rightarrow> None
      | Some (checked, rest) \<Rightarrow>
     (case rsplit_once [32] rest of
        None \<Rightarrow> None
      | Some (rest, marker) \<Rightarrow>
     (case id_in_comment marker of
        None \<Rightarrow> None
      | Some i \<Rightarrow>
     (case mirror_note rest of
        None \<Rightarrow> None
      | Some (rest, link) \<Rightarrow>
          let (rest, carried) = mirror_carried C rest;
              (time, body) = mirror_time (clk C) rest
          in (case parse_mirror_body (cal C) body of
                None \<Rightarrow> None
              | Some (t, mark) \<Rightarrow>
                  Some \<lparr>ml_checked = checked, ml_time = time, ml_text = t, ml_mark = mark,
                        ml_carried = carried, ml_note = link, ml_id = i\<rparr>)))))"

text \<open>\<open>Display\<close> of a mirror line.\<close>

definition mirror_str :: "('d, 't) chrono \<Rightarrow> ('d, 't) MirrorLine \<Rightarrow> rstr" where
  "mirror_str C m =
     lit ''- ['' @ (if ml_checked m then [120] else [32]) @ lit ''] '' @
     (case ml_time m of None \<Rightarrow> [] | Some t \<Rightarrow> format_HM (clk C) t @ [32]) @
     (case ml_mark m of
        None \<Rightarrow> ml_text m
      | Some (MMoved date) \<Rightarrow>
          STRIKE @ ml_text m @ STRIKE @ [32, 8594, 32] @ format_Ymd (cal C) date
      | Some MDropped \<Rightarrow> STRIKE @ ml_text m @ STRIKE @ lit '' (dropped)''
      | Some MRemoved \<Rightarrow> STRIKE @ ml_text m @ STRIKE @ lit '' (removed)'') @
     (case ml_carried m of None \<Rightarrow> [] | Some d \<Rightarrow> MIRROR_SEPARATOR @ due_str C d) @
     MIRROR_SEPARATOR @ lit ''[['' @ ml_note m @ lit '']] '' @ id_marker (ml_id m)"

section \<open>A whole note\<close>

record ('d, 't) Appearance =
  ap_line :: nat
  ap_reminder :: "('d, 't) LineReminder"
  ap_mirror :: bool

definition heading_matches :: "env \<Rightarrow> rstr \<Rightarrow> rstr \<Rightarrow> bool" where
  "heading_matches E t name =
     (if str_to_lowercase E (trim t) = str_to_lowercase E (trim name) then True
      else let key = heading_key E name in key \<noteq> [] \<and> heading_key E t = key)"

definition day_sections :: "env \<Rightarrow> Document \<Rightarrow> rstr list \<Rightarrow> (nat \<times> nat) list" where
  "day_sections E d names =
     map (\<lambda>h. (hl_index h + 1,
               case find (\<lambda>other. hl_index h < hl_index other \<and> hl_level other \<le> hl_level h) (headings d) of
                 Some other \<Rightarrow> hl_index other
               | None \<Rightarrow> length (d_lines d)))
       (filter (\<lambda>h. list_ex (heading_matches E (hl_text h)) names) (headings d))"

text \<open>The loop of \<open>parse_note\<close>, from a line index on.\<close>

fun note_loop ::
    "('d, 't) chrono \<Rightarrow> 'd option \<Rightarrow> (nat \<times> nat) list \<Rightarrow> bool list \<Rightarrow> nat \<Rightarrow> rstr list \<Rightarrow> bool
       \<Rightarrow> ('d, 't) Appearance list" where
  "note_loop C note_day sections flags index [] in_comment = []"
| "note_loop C note_day sections flags index (t # ts) in_comment =
     (if (case get_at flags index of Some b \<Rightarrow> b | None \<Rightarrow> False) then
        note_loop C note_day sections flags (index + 1) ts in_comment
      else let read = read_line C t note_day in_comment;
               later = note_loop C note_day sections flags (index + 1) ts (rl_comment_open read)
           in (case rl_reminder read of
                 None \<Rightarrow> later
               | Some reminder \<Rightarrow>
                   let mirror = (lr_token reminder = None \<and> lr_id reminder \<noteq> None \<and>
                                 list_ex (\<lambda>(from, to). from \<le> index \<and> index < to) sections \<and>
                                 mirror_parse C t \<noteq> None)
                   in \<lparr>ap_line = index, ap_reminder = reminder, ap_mirror = mirror\<rparr> # later))"

definition parse_note ::
    "env \<Rightarrow> ('d, 't) chrono \<Rightarrow> rstr \<Rightarrow> rstr \<Rightarrow> ReminderConfig \<Rightarrow> ('d, 't) Appearance list" where
  "parse_note E C t path config =
     (let d = doc_split t;
          note_day = day_of C (rc_daily config) path;
          sections = (case note_day of Some _ \<Rightarrow> day_sections E d (rc_day_headings config) | None \<Rightarrow> [])
      in note_loop C note_day sections (protected d) 0 (map l_text (d_lines d)) False)"

record NoteHeading =
  nh_row :: nat
  nh_level :: nat
  nh_text :: rstr

definition note_headings :: "rstr \<Rightarrow> NoteHeading list" where
  "note_headings t =
     map (\<lambda>h. \<lparr>nh_row = hl_index h, nh_level = hl_level h, nh_text = hl_text h\<rparr>)
       (headings (doc_split t))"

end
