(* ===== verification/Reminder_Edit.thy ===== *)
theory Reminder_Edit
  imports Reminder
begin

text \<open>
  The edits every writer makes to a reminder's home line, and the texts shown for it
  (\<open>crates/thock-sync-core/reminder.rs\<close>, sections 11 and 7.1 of the reminder spec).  An edit that
  does not apply to a line is \<open>None\<close>.
\<close>

section \<open>Tokens for a due\<close>

definition token_text :: "('d, 't) chrono \<Rightarrow> ('d, 't) Due \<Rightarrow> 'd option \<Rightarrow> rstr" where
  "token_text C due home_day =
     (case due_time due of
        Some time \<Rightarrow>
          if home_day = Some (due_date due) then TOKEN_OPEN @ format_HM (clk C) time @ [41]
          else TOKEN_OPEN @ due_str C due @ [41]
      | None \<Rightarrow> TOKEN_OPEN @ due_str C due @ [41])"

definition snoozed_due :: "('d, 't) chrono \<Rightarrow> 'd \<times> 't \<Rightarrow> nat \<Rightarrow> ('d, 't) Due" where
  "snoozed_due C now minutes =
     (let later = add_minutes C now minutes;
          floor = (case Option.bind (with_second_zero (clk C) (snd later)) (with_nanosecond_zero (clk C)) of
                     Some t \<Rightarrow> (fst later, t) | None \<Rightarrow> later);
          rounded = (if floor = later then later else add_minutes C floor 1)
      in due_new C (fst rounded) (Some (snd rounded)))"

section \<open>Ranges\<close>

definition replace_range :: "rstr \<Rightarrow> nat \<times> nat \<Rightarrow> rstr \<Rightarrow> rstr" where
  "replace_range line r new = take (fst r) line @ new @ drop (snd r) line"

definition remove_range :: "rstr \<Rightarrow> nat \<times> nat \<Rightarrow> rstr" where
  "remove_range line r =
     (let prior = take (fst r) line;
          after = drop (snd r) line
      in if trim after = [] then trim_end prior
         else if \<not> is_some_and (first_opt after) is_whitespace then trim_end prior @ after
         else if prior = [] \<or> is_some_and (last_opt prior) is_whitespace
         then prior @ trim_start after
         else prior @ after)"

text \<open>The loop of \<open>trailing_comments_start\<close> on the trimmed line: the text before the trailing run
  of comments.\<close>

function trailing_loop :: "rstr \<Rightarrow> rstr" where
  "trailing_loop tail =
     (if \<not> ends_with COMMENT_CLOSE tail then tail
      else case str_rfind COMMENT_OPEN tail of
        None \<Rightarrow> tail
      | Some i \<Rightarrow>
          let from = i + length COMMENT_OPEN;
              to = length tail - length COMMENT_CLOSE
          in if to < from \<or> str_contains COMMENT_CLOSE (segment tail from to) then tail
             else trailing_loop (trim_end (take i tail)))"
  by pat_completeness auto
termination
proof (relation "measure length", goal_cases)
  case (2 tail i)
  have "length (trim_end (take i tail)) \<le> length (take i tail)"
    unfolding trim_end_def by (rule prefix_length_le) (rule drop_while_end_prefix)
  moreover have "i + length COMMENT_OPEN \<le> length tail" using 2(2) by (rule str_rfind_bound)
  ultimately show ?case by (simp add: COMMENT_OPEN_def)
qed simp

declare trailing_loop.simps [simp del]

definition trailing_comments_start :: "rstr \<Rightarrow> nat" where
  "trailing_comments_start line = length (trailing_loop (trim_end line))"

definition insert_before_trailing_comments :: "rstr \<Rightarrow> rstr \<Rightarrow> rstr" where
  "insert_before_trailing_comments line token =
     (let split = trailing_comments_start (take (writable_end line) line);
          head = take split line;
          comments = trim (drop split line)
      in head @ (if head \<noteq> [] \<and> \<not> ends_with [32] head then [32] else []) @ token @
         (if comments \<noteq> [] then [32] @ comments else []))"

section \<open>Home-line edits\<close>

definition close_reminder :: "('d, 't) chrono \<Rightarrow> rstr \<Rightarrow> rstr option" where
  "close_reminder C line =
     (case parse_line C line None of
        None \<Rightarrow> None
      | Some reminder \<Rightarrow>
          if lr_state reminder \<noteq> Open then None
          else case task_of line of
            Some (TOpen, mark) \<Rightarrow> Some (replace_range line (mark, mark + 1) [120])
          | _ \<Rightarrow>
              (case lr_token reminder of
                 None \<Rightarrow> None
               | Some token \<Rightarrow>
                   let t = segment line (fst (tok_range token)) (snd (tok_range token))
                   in Some (replace_range line (tok_range token) (STRIKE @ t @ STRIKE))))"

definition reopen :: "('d, 't) chrono \<Rightarrow> rstr \<Rightarrow> rstr option" where
  "reopen C line =
     (case parse_line C line None of
        None \<Rightarrow> None
      | Some reminder \<Rightarrow>
          if lr_state reminder \<noteq> Closed then None
          else case lr_token reminder of
            None \<Rightarrow> None
          | Some token \<Rightarrow>
              let (from, to) = tok_range token;
                  edited = (if tok_struck token
                            then replace_range line (from, to)
                                   (segment line (from + length STRIKE) (to - length STRIKE))
                            else line)
              in (case task_of edited of
                    Some (TDone, mark) \<Rightarrow> Some (replace_range edited (mark, mark + 1) [32])
                  | _ \<Rightarrow> Some edited))"

definition rewrite :: "('d, 't) chrono \<Rightarrow> rstr \<Rightarrow> ('d, 't) Due \<Rightarrow> 'd option \<Rightarrow> rstr option" where
  "rewrite C line due home_day =
     (case parse_line C line home_day of
        None \<Rightarrow> None
      | Some reminder \<Rightarrow>
          let t = token_text C due home_day
          in Some (case lr_token reminder of
                     Some token \<Rightarrow>
                       if tok_struck token
                       then replace_range line (tok_range token) (STRIKE @ t @ STRIKE)
                       else replace_range line (tok_range token) t
                   | None \<Rightarrow> insert_before_trailing_comments line t))"

definition drop_token :: "('d, 't) chrono \<Rightarrow> rstr \<Rightarrow> rstr option" where
  "drop_token C line =
     map_option (\<lambda>token. remove_range line (tok_range token))
       (Option.bind (parse_line C line None) lr_token)"

definition add_id :: "('d, 't) chrono \<Rightarrow> rstr \<Rightarrow> rstr \<Rightarrow> rstr option" where
  "add_id C line i =
     (if str_contains CALENDAR_MARKER line \<or> \<not> is_id i then None
      else if is_some_and (parse_line C line None) (\<lambda>reminder. lr_id reminder \<noteq> None) then None
      else let e = writable_end line;
               head = trim_end (take e line);
               tail = trim_end (drop e line)
           in Some (head @ (if head \<noteq> [] then [32] else []) @ id_marker i @
                    (if tail \<noteq> [] then [32] @ tail else [])))"

definition attach ::
    "('d, 't) chrono \<Rightarrow> rstr \<Rightarrow> ('d, 't) Due \<Rightarrow> rstr \<Rightarrow> 'd option \<Rightarrow> rstr option" where
  "attach C line due i home_day =
     (if str_contains CALENDAR_MARKER line \<or> \<not> is_id i then None
      else let with_token = (case parse_line C line home_day of
                 Some _ \<Rightarrow> rewrite C line due home_day
               | None \<Rightarrow> Some (insert_before_trailing_comments line (token_text C due home_day)))
           in (case with_token of
                 None \<Rightarrow> None
               | Some t \<Rightarrow> Some (case add_id C t i of Some t' \<Rightarrow> t' | None \<Rightarrow> t)))"

definition place_token :: "('d, 't) chrono \<Rightarrow> rstr \<Rightarrow> ('d, 't) Due \<Rightarrow> 'd option \<Rightarrow> rstr option" where
  "place_token C line due home_day =
     (if str_contains CALENDAR_MARKER line then None
      else case parse_line C line home_day of
        Some _ \<Rightarrow> rewrite C line due home_day
      | None \<Rightarrow> Some (insert_before_trailing_comments line (token_text C due home_day)))"

section \<open>Display text\<close>

definition strip_reminder :: "('d, 't) chrono \<Rightarrow> rstr \<Rightarrow> rstr" where
  "strip_reminder C t =
     (let without_token = (case Option.bind (parse_line C t None) lr_token of
                             Some token \<Rightarrow> remove_range t (tok_range token)
                           | None \<Rightarrow> t);
          t' = take (writable_end without_token) without_token
      in take (trailing_comments_start t') t')"

definition trailing_metadata_start :: "('d, 't) chrono \<Rightarrow> rstr \<Rightarrow> nat" where
  "trailing_metadata_start C t =
     (let comments = trailing_comments_start (take (writable_end t) t)
      in case Option.bind (parse_line C t None) lr_token of
           Some token \<Rightarrow>
             if snd (tok_range token) \<le> comments \<and>
                trim (segment t (snd (tok_range token)) comments) = []
             then length (trim_end (take (fst (tok_range token)) t))
             else comments
         | None \<Rightarrow> comments)"

definition reminder_text :: "('d, 't) chrono \<Rightarrow> rstr \<Rightarrow> rstr" where
  "reminder_text C line =
     (let t = strip_reminder C line;
          trimmed = strip_quote_markers t;
          item = strip_list_marker trimmed;
          t' = (if length item < length trimmed then strip_checkbox item else item)
      in trim (strip_time_prefix t'))"

text \<open>The loop of \<open>escape_tokens\<close>.\<close>

function escape_loop :: "rstr \<Rightarrow> rstr \<Rightarrow> rstr" where
  "escape_loop escaped rest =
     (case str_find TOKEN_OPEN rest of
        None \<Rightarrow> escaped @ rest
      | Some offset \<Rightarrow>
          let e = escaped @ take offset rest;
              e' = (if ends_with [92] e then e else e @ [92])
          in escape_loop (e' @ TOKEN_OPEN) (drop (offset + length TOKEN_OPEN) rest))"
  by pat_completeness auto
termination
  by (relation "measure (\<lambda>(escaped, rest). length rest)")
     (auto dest!: str_find_bound simp: TOKEN_OPEN_def)

declare escape_loop.simps [simp del]

definition escape_tokens :: "rstr \<Rightarrow> rstr" where
  "escape_tokens t = escape_loop [] t"

definition last_whitespace :: "rstr \<Rightarrow> nat option" where
  "last_whitespace s =
     (let n = length (drop_while_end (\<lambda>c. \<not> is_whitespace c) s)
      in if n = 0 then None else Some (n - 1))"

definition cut_text :: "rstr \<Rightarrow> nat \<Rightarrow> rstr" where
  "cut_text t max_chars =
     (if length t \<le> max_chars then t
      else let prefix = take max_chars t;
               cut = (case last_whitespace prefix of
                        Some space \<Rightarrow>
                          if 0 < space \<and> \<not> is_some_and (first_opt (drop max_chars t)) is_whitespace
                          then take space prefix else prefix
                      | None \<Rightarrow> prefix)
           in trim_end cut @ [8230])"

definition mirror_text :: "rstr \<Rightarrow> rstr" where
  "mirror_text t =
     (let clean = join_with [32] (split_whitespace (str_replace STRIKE [] (str_replace COMMENT_OPEN [] t)))
      in if clean = [] then EMPTY_MIRROR_TEXT
         else cut_text (escape_tokens clean) MIRROR_TEXT_CHARS)"

definition note_link :: "rstr \<Rightarrow> rstr" where
  "note_link path = (case strip_suffix (lit ''.md'') path of Some p \<Rightarrow> p | None \<Rightarrow> path)"

definition index_link_line :: "rstr \<Rightarrow> rstr \<Rightarrow> rstr" where
  "index_link_line path i = lit ''- [['' @ note_link path @ lit '']] '' @ id_marker i"

end
