(* ===== verification/Reminder_Text.thy ===== *)
theory Reminder_Text
  imports Reminder_Edit Dates_Props Search
begin

text \<open>
  Dues and tokens as text: what the reminder code relies on of the clock, dates, times and dues
  that are read back from what is written for them, the token of a due, and the escaping and
  cutting of the text of a mirror line.
\<close>

section \<open>What the code relies on of the clock\<close>

text \<open>A time built from an hour and a minute prints them, and has no seconds to drop.\<close>

definition clock_ok :: "'t clock \<Rightarrow> bool" where
  "clock_ok L \<longleftrightarrow>
     (\<forall>h m s t. from_hms_opt L h m s = Some t \<longrightarrow>
        h < 24 \<and> m < 60 \<and> format_HM L t = pad_zeros 2 h @ [58] @ pad_zeros 2 m \<and>
        (s = 0 \<longrightarrow> with_second_zero L t = Some t \<and> with_nanosecond_zero L t = Some t))"

definition chrono_ok :: "('d, 't) chrono \<Rightarrow> bool" where
  "chrono_ok C \<longleftrightarrow> calendar_ok (cal C) \<and> clock_ok (clk C)"

text \<open>The dates and times the four-digit and the minute forms can carry.\<close>

definition date_fits :: "'d calendar \<Rightarrow> 'd \<Rightarrow> bool" where
  "date_fits K d \<longleftrightarrow> (\<exists>y m n. from_ymd_opt K y m n = Some d \<and> 0 \<le> y \<and> y \<le> 9999)"

definition time_fits :: "'t clock \<Rightarrow> 't \<Rightarrow> bool" where
  "time_fits L t \<longleftrightarrow> (\<exists>h m. from_hms_opt L h m 0 = Some t)"

definition due_fits :: "('d, 't) chrono \<Rightarrow> ('d, 't) Due \<Rightarrow> bool" where
  "due_fits C due \<longleftrightarrow> date_fits (cal C) (due_date due) \<and>
     (\<forall>t. due_time due = Some t \<longrightarrow> time_fits (clk C) t)"

section \<open>Dates and times as text\<close>

lemma digits_no_char: "list_all is_ascii_digit s \<Longrightarrow> c < 48 \<or> 57 < c \<Longrightarrow> c \<notin> set s"
  by (auto simp: list_all_iff is_ascii_digit_def)

lemma pad_no_char: "c < 48 \<or> 57 < c \<Longrightarrow> c \<notin> set (pad_zeros w n)"
  by (rule digits_no_char [OF pad_zeros_digits])

lemma list_all_enumerate_append:
  "list_all (\<lambda>(i, x). P i x) (enumerate n (xs @ ys)) \<longleftrightarrow>
     list_all (\<lambda>(i, x). P i x) (enumerate n xs) \<and> list_all (\<lambda>(i, x). P i x) (enumerate (n + length xs) ys)"
  by (simp add: enumerate_append_eq)

lemma digits_enumerate:
  "list_all is_ascii_digit s \<Longrightarrow>
     list_all (\<lambda>(index, c). index = 4 \<or> index = 7 \<or> is_ascii_digit c) (enumerate n s)"
  by (induction s arbitrary: n) auto

lemma parse_iso_date_text:
  assumes "length a = 4" "length b = 2" "length c = 2"
    and "list_all is_ascii_digit a" "list_all is_ascii_digit b" "list_all is_ascii_digit c"
  shows "parse_iso_date K (a @ [45] @ b @ [45] @ c) =
     from_ymd_opt K (int (digits_value a)) (digits_value b) (digits_value c)"
proof -
  let ?t = "a @ [45] @ b @ [45] @ c"
  have "list_all (\<lambda>(index, c). index = 4 \<or> index = 7 \<or> is_ascii_digit c) (enumerate 0 ?t)"
    using assms by (simp add: list_all_enumerate_append digits_enumerate)
  moreover have "length ?t = 10" "?t ! 4 = 45" "?t ! 7 = 45" "take 4 ?t = a" "segment ?t 5 7 = b" "drop 8 ?t = c"
    using assms by (simp_all add: nth_append segment_def)
  ultimately show ?thesis unfolding parse_iso_date_def by (simp only: simp_thms if_False)
qed

lemma parse_iso_date_format:
  assumes "calendar_ok K" and "date_fits K d"
  shows "parse_iso_date K (format_Ymd K d) = Some d"
proof -
  from assms(2) obtain y m n where ymd: "from_ymd_opt K y m n = Some d" "0 \<le> y" "y \<le> 9999"
    by (auto simp: date_fits_def)
  with assms(1) have f: "format_Ymd K d = pad_zeros 4 (nat y) @ [45] @ pad_zeros 2 m @ [45] @ pad_zeros 2 n"
    and b: "m \<le> 12" "n \<le> 31" by (auto simp: calendar_ok_def date_ok_def)
  have "length (pad_zeros 4 (nat y)) = 4" "length (pad_zeros 2 m) = 2" "length (pad_zeros 2 n) = 2"
    using ymd b by (simp_all add: length_pad_zeros nat_less_iff)
  from parse_iso_date_text [OF this pad_zeros_digits pad_zeros_digits pad_zeros_digits, of K] ymd
  show ?thesis by (simp add: f)
qed

lemma format_Ymd_no_char:
  assumes "calendar_ok K" and "date_fits K d" and "c < 45 \<or> 57 < c"
  shows "c \<notin> set (format_Ymd K d)"
proof -
  from assms(2) obtain y m n where "from_ymd_opt K y m n = Some d" "0 \<le> y" "y \<le> 9999"
    by (auto simp: date_fits_def)
  with assms(1) have "format_Ymd K d = pad_zeros 4 (nat y) @ [45] @ pad_zeros 2 m @ [45] @ pad_zeros 2 n"
    by (auto simp: calendar_ok_def)
  then show ?thesis using assms(3) pad_no_char [of c] by auto
qed

lemma format_HM_shape:
  assumes "clock_ok L" and "time_fits L t"
  obtains h m where "from_hms_opt L h m 0 = Some t" "h < 24" "m < 60"
    "format_HM L t = pad_zeros 2 h @ [58] @ pad_zeros 2 m"
  using assms by (auto simp: clock_ok_def time_fits_def)

lemma parse_clock_format:
  assumes "clock_ok L" and "time_fits L t"
  shows "parse_clock L (format_HM L t) = Some t"
proof -
  obtain h m where hm: "from_hms_opt L h m 0 = Some t" "h < 24" "m < 60"
    and f: "format_HM L t = pad_zeros 2 h @ [58] @ pad_zeros 2 m" by (rule format_HM_shape [OF assms])
  have "length (pad_zeros 2 h) = 2" "length (pad_zeros 2 m) = 2" using hm by (simp_all add: length_pad_zeros)
  moreover have "split_once [58] (format_HM L t) = Some (pad_zeros 2 h, pad_zeros 2 m)"
    unfolding f by (rule split_once_char) (simp add: pad_no_char)
  ultimately show ?thesis using hm by (simp add: parse_clock_def pad_zeros_digits)
qed

lemma format_HM_no_char: "clock_ok L \<Longrightarrow> time_fits L t \<Longrightarrow> c < 48 \<or> 58 < c \<Longrightarrow> c \<notin> set (format_HM L t)"
  using pad_no_char [of c] by (elim format_HM_shape) auto

lemma length_format_HM:
  assumes "clock_ok L" and "time_fits L t"
  shows "length (format_HM L t) = 5"
proof -
  obtain h m where hm: "h < 24" "m < 60" and f: "format_HM L t = pad_zeros 2 h @ [58] @ pad_zeros 2 m"
    by (rule format_HM_shape [OF assms])
  have "length (pad_zeros 2 h) = 2" "length (pad_zeros 2 m) = 2" using hm by (simp_all add: length_pad_zeros)
  then show ?thesis by (simp add: f)
qed

lemma due_new_fits:
  "clock_ok (clk C) \<Longrightarrow> (\<And>t. time = Some t \<Longrightarrow> time_fits (clk C) t) \<Longrightarrow>
     due_new C d time = \<lparr>due_date = d, due_time = time\<rparr>"
  by (cases time) (fastforce simp: due_new_def clock_ok_def time_fits_def)+

lemma due_parse_str:
  assumes "chrono_ok C" and "due_fits C due"
  shows "due_parse C (due_str C due) = Some due"
proof -
  have ok: "calendar_ok (cal C)" "clock_ok (clk C)" using assms(1) by (simp_all add: chrono_ok_def)
  have d: "date_fits (cal C) (due_date due)" and t: "\<And>t. due_time due = Some t \<Longrightarrow> time_fits (clk C) t"
    using assms(2) by (auto simp: due_fits_def)
  have sp: "32 \<notin> set (format_Ymd (cal C) (due_date due))" by (rule format_Ymd_no_char [OF ok(1) d]) simp
  have new: "due_new C (due_date due) (due_time due) = due" by (simp add: due_new_fits [OF ok(2) t])
  show ?thesis
  proof (cases "due_time due")
    case None
    then show ?thesis
      using split_once_char_None [OF sp] parse_iso_date_format [OF ok(1) d] new
      by (simp add: due_parse_def due_str_def)
  next
    case (Some c)
    then show ?thesis
      using split_once_char [OF sp, of "format_HM (clk C) c"] parse_iso_date_format [OF ok(1) d] new
        parse_clock_format [OF ok(2) t]
      by (simp add: due_parse_def due_str_def)
  qed
qed

interpretation due_text: codec "due_str C" "due_parse C" "\<lambda>due. chrono_ok C \<and> due_fits C due" for C
  by unfold_locales (auto intro: due_parse_str)

section \<open>Tokens\<close>

lemma due_str_no_char:
  assumes "chrono_ok C" and "due_fits C due" and "c < 45 \<or> 58 < c" and "c \<noteq> 32"
  shows "c \<notin> set (due_str C due)"
proof -
  have ok: "calendar_ok (cal C)" "clock_ok (clk C)" using assms(1) by (simp_all add: chrono_ok_def)
  have "c \<notin> set (format_Ymd (cal C) (due_date due))"
    using assms(2,3) by (intro format_Ymd_no_char [OF ok(1)]) (auto simp: due_fits_def)
  moreover have "c \<notin> set (format_HM (clk C) t)" if "due_time due = Some t" for t
    using assms(2,3) that by (intro format_HM_no_char [OF ok(2)]) (auto simp: due_fits_def)
  ultimately show ?thesis using assms(4) by (auto simp: due_str_def split: option.splits)
qed

text \<open>The text between the parentheses of the token for a due.\<close>

definition token_inner :: "('d, 't) chrono \<Rightarrow> ('d, 't) Due \<Rightarrow> 'd option \<Rightarrow> rstr" where
  "token_inner C due home_day =
     (case due_time due of
        Some time \<Rightarrow> if home_day = Some (due_date due) then format_HM (clk C) time else due_str C due
      | None \<Rightarrow> due_str C due)"

lemma token_text_inner: "token_text C due home_day = TOKEN_OPEN @ token_inner C due home_day @ [41]"
  by (auto simp: token_text_def token_inner_def split: option.splits)

lemma parse_when_date:
  assumes "calendar_ok (cal C)" and "date_fits (cal C) d"
  shows "parse_when C (format_Ymd (cal C) d) = Some (WDate d)"
proof -
  have "32 \<notin> set (format_Ymd (cal C) d)" "58 \<notin> set (format_Ymd (cal C) d)"
    by (rule format_Ymd_no_char [OF assms]; simp)+
  then show ?thesis
    using parse_iso_date_format [OF assms] by (simp add: parse_when_def split_once_char_None)
qed

lemma parse_when_time:
  assumes "clock_ok (clk C)" and "time_fits (clk C) t"
  shows "parse_when C (format_HM (clk C) t) = Some (WTime t)"
proof -
  have "58 \<in> set (format_HM (clk C) t)" using assms by (elim format_HM_shape) auto
  moreover have "32 \<notin> set (format_HM (clk C) t)" by (rule format_HM_no_char [OF assms]) simp
  ultimately show ?thesis
    using parse_clock_format [OF assms] by (simp add: parse_when_def split_once_char_None)
qed

lemma parse_when_datetime:
  assumes "calendar_ok (cal C)" and "date_fits (cal C) d" and "clock_ok (clk C)" and "time_fits (clk C) t"
  shows "parse_when C (format_Ymd (cal C) d @ [32] @ format_HM (clk C) t) = Some (WDateTime d t)"
proof -
  have "32 \<notin> set (format_Ymd (cal C) d)" by (rule format_Ymd_no_char [OF assms(1,2)]) simp
  then have "split_once [32] (format_Ymd (cal C) d @ [32] @ format_HM (clk C) t) =
      Some (format_Ymd (cal C) d, format_HM (clk C) t)" by (rule split_once_char)
  then show ?thesis
    unfolding parse_when_def
    by (simp only: option.case prod.case parse_iso_date_format [OF assms(1,2)] parse_clock_format [OF assms(3,4)]
        option.map)
qed

lemma token_inner_due:
  assumes "chrono_ok C" and "due_fits C due"
  obtains w where "parse_when C (token_inner C due home_day) = Some w" and "when_due C w home_day = Some due"
proof -
  have ok: "calendar_ok (cal C)" "clock_ok (clk C)" using assms(1) by (simp_all add: chrono_ok_def)
  have d: "date_fits (cal C) (due_date due)" and t: "\<And>t. due_time due = Some t \<Longrightarrow> time_fits (clk C) t"
    using assms(2) by (auto simp: due_fits_def)
  have new: "due_new C (due_date due) (due_time due) = due" by (simp add: due_new_fits [OF ok(2) t])
  show ?thesis
  proof (cases "due_time due")
    case None
    then show ?thesis
      using that parse_when_date [OF ok(1) d] new by (simp add: token_inner_def due_str_def)
  next
    case (Some c)
    show ?thesis
    proof (cases "home_day = Some (due_date due)")
      case True
      then show ?thesis
        using that [of "WTime c"] parse_when_time [OF ok(2) t] new Some by (simp add: token_inner_def)
    next
      case False
      then show ?thesis
        using that [of "WDateTime (due_date due) c"] parse_when_datetime [OF ok(1) d ok(2) t] new Some
        by (simp add: token_inner_def due_str_def)
    qed
  qed
qed

lemma token_inner_no_char:
  "chrono_ok C \<Longrightarrow> due_fits C due \<Longrightarrow> c < 45 \<or> 58 < c \<Longrightarrow> c \<noteq> 32 \<Longrightarrow> c \<notin> set (token_inner C due home_day)"
  using due_str_no_char [of C due c] format_HM_no_char [of "clk C" _ c]
  by (auto simp: token_inner_def chrono_ok_def due_fits_def split: option.splits if_splits)

lemma find_char: "x \<notin> set a \<Longrightarrow> str_find [x] (a @ x # b) = Some (length a)"
  by (induction a) auto

lemma find_token_open_None: "40 \<notin> set s \<Longrightarrow> str_find TOKEN_OPEN s = None"
  by (auto simp: str_find_None starts_with_iff TOKEN_OPEN_def) (metis in_set_dropD list.set_intros(1))

text \<open>A token at the end of what the scan may read is found there.\<close>

lemma last_token_written:
  assumes "chrono_ok C" and "due_fits C due"
  shows "\<exists>w. last_token C (token_text C due home_day) [] =
       Some \<lparr>tok_range = (0, length (token_text C due home_day)), tok_when = w, tok_struck = False\<rparr> \<and>
     when_due C w home_day = Some due"
proof -
  let ?i = "token_inner C due home_day"
  have line: "token_text C due home_day = [40, 64] @ ?i @ [41]" by (simp add: token_text_inner TOKEN_OPEN_def)
  obtain w where w: "parse_when C ?i = Some w" "when_due C w home_day = Some due"
    by (rule token_inner_due [OF assms])
  have no: "40 \<notin> set ?i" "41 \<notin> set ?i" using token_inner_no_char [OF assms] by simp_all
  let ?line = "token_text C due home_day"
  have f: "str_find TOKEN_OPEN (drop 0 ?line) = Some 0" by (simp add: line TOKEN_OPEN_def)
  have c: "str_find [41] (drop 2 ?line) = Some (length ?i)" using find_char [OF no(2), of "[]"] by (simp add: line)
  have seg: "segment ?line 2 (length ?i + 2) = ?i" by (simp add: line segment_def)
  have n: "str_find TOKEN_OPEN (drop 2 ?line) = None" using no by (intro find_token_open_None) (simp add: line)
  have len: "length ?line = Suc (Suc (Suc (length ?i)))" by (simp add: line)
  have open_len: "length TOKEN_OPEN = 2" by (simp add: TOKEN_OPEN_def)
  have stop: "last_token_loop C ?line [] 2 x = x" for x
    by (subst last_token_loop.simps) (simp add: n)
  have "last_token C ?line [] = last_token_loop C ?line [] 0 None" by (simp add: last_token_def)
  also have "\<dots> = Some \<lparr>tok_range = (0, length ?line), tok_when = w, tok_struck = False\<rparr>"
    using f c seg w(1) stop len
    by (subst last_token_loop.simps) (simp add: Let_def open_len ends_with_def STRIKE_def numeral_2_eq_2)
  finally show ?thesis using w(2) by blast
qed

section \<open>Escaped tokens\<close>

text \<open>Every opening of a token has a backslash before it.\<close>

definition opens_at :: "rstr \<Rightarrow> nat \<Rightarrow> bool" where
  "opens_at s i \<longleftrightarrow> i + 1 < length s \<and> s ! i = 40 \<and> s ! (i + 1) = 64"

definition no_live :: "rstr \<Rightarrow> bool" where
  "no_live s \<longleftrightarrow> (\<forall>i. opens_at s i \<longrightarrow> 0 < i \<and> s ! (i - 1) = 92)"

lemma token_open_at: "starts_with TOKEN_OPEN (drop i s) \<longleftrightarrow> opens_at s i"
proof
  assume "starts_with TOKEN_OPEN (drop i s)"
  from starts_with_nth [OF this, of 0] starts_with_nth [OF this, of 1]
  show "opens_at s i" by (simp add: TOKEN_OPEN_def opens_at_def)
next
  assume a: "opens_at s i"
  then have "drop i s = s ! i # s ! Suc i # drop (Suc (Suc i)) s"
    by (metis Cons_nth_drop_Suc Suc_eq_plus1 Suc_lessD opens_at_def)
  with a show "starts_with TOKEN_OPEN (drop i s)" by (simp add: TOKEN_OPEN_def opens_at_def)
qed

lemma find_open_None: "str_find TOKEN_OPEN s = None \<longleftrightarrow> (\<forall>i. \<not> opens_at s i)"
  by (auto simp: str_find_None token_open_at) (auto simp: opens_at_def)

lemma last_at: "i + 1 = length a \<Longrightarrow> a ! i = last a"
  by (cases a rule: rev_cases) auto

lemma no_live_prefix:
  assumes "no_live s" and "prefix p s"
  shows "no_live p"
proof -
  from assms(2) obtain r where s: "s = p @ r" by (auto simp: prefix_def)
  show ?thesis
    unfolding no_live_def
  proof (intro allI impI)
    fix i assume "opens_at p i"
    then have i: "i + 1 < length p" "p ! i = 40" "p ! (i + 1) = 64" by (auto simp: opens_at_def)
    then have "opens_at s i" by (simp add: opens_at_def s nth_append)
    with assms(1) have "0 < i \<and> s ! (i - 1) = 92" by (auto simp: no_live_def)
    with i show "0 < i \<and> p ! (i - 1) = 92" by (auto simp: s nth_append split: if_splits)
  qed
qed

lemma no_live_append:
  assumes "no_live a" and "str_find TOKEN_OPEN b = None" and "a = [] \<or> last a \<noteq> 40"
  shows "no_live (a @ b)"
  unfolding no_live_def
proof (intro allI impI)
  fix i assume "opens_at (a @ b) i"
  then have i: "i + 1 < length (a @ b)" "(a @ b) ! i = 40" "(a @ b) ! (i + 1) = 64" by (auto simp: opens_at_def)
  consider "i + 1 < length a" | "i + 1 = length a" | "length a \<le> i" by linarith
  then show "0 < i \<and> (a @ b) ! (i - 1) = 92"
  proof cases
    case 1
    with i have "opens_at a i" by (simp add: opens_at_def nth_append)
    with assms(1) 1 show ?thesis by (auto simp: no_live_def nth_append)
  next
    case 2
    with i(2) have "last a = 40" "a \<noteq> []" using last_at [OF 2] by (auto simp: nth_append)
    with assms(3) show ?thesis by simp
  next
    case 3
    with i have "opens_at b (i - length a)"
      by (simp add: opens_at_def nth_append Suc_diff_le)
    then show ?thesis using assms(2) by (simp add: find_open_None)
  qed
qed

lemma no_live_after_backslash:
  assumes "no_live e" and "e \<noteq> []" and "last e = 92"
  shows "no_live (e @ TOKEN_OPEN)"
  unfolding no_live_def
proof (intro allI impI)
  fix i assume "opens_at (e @ TOKEN_OPEN) i"
  then have i: "i + 1 < length (e @ TOKEN_OPEN)" "(e @ TOKEN_OPEN) ! i = 40" "(e @ TOKEN_OPEN) ! (i + 1) = 64"
    by (auto simp only: opens_at_def)
  consider "i + 1 < length e" | "i + 1 = length e" | "i = length e" using i(1) by (fastforce simp: TOKEN_OPEN_def)
  then show "0 < i \<and> (e @ TOKEN_OPEN) ! (i - 1) = 92"
  proof cases
    case 1
    with i have "opens_at e i" by (simp add: opens_at_def nth_append)
    with assms(1) 1 show ?thesis by (auto simp: no_live_def nth_append)
  next
    case 2
    then have "(e @ TOKEN_OPEN) ! i = last e" using last_at [OF 2] by (simp add: nth_append)
    with i(2) assms(3) show ?thesis by simp
  next
    case 3
    then have "(e @ TOKEN_OPEN) ! (i - 1) = last e"
      using assms(2) last_at [of "i - 1" e] by (simp add: nth_append)
    with 3 assms show ?thesis by simp
  qed
qed

lemma no_live_token:
  assumes "no_live e"
  shows "no_live ((if ends_with [92] e then e else e @ [92]) @ TOKEN_OPEN)"
proof (cases "ends_with [92] e")
  case True
  then show ?thesis using no_live_after_backslash [OF assms] by (auto simp: ends_with_iff)
next
  case False
  have "no_live (e @ [92])"
    using assms by (auto simp: no_live_def opens_at_def nth_append split: if_splits)
  with False show ?thesis using no_live_after_backslash [of "e @ [92]"] by simp
qed

lemma find_take_None: "str_find TOKEN_OPEN s = Some i \<Longrightarrow> str_find TOKEN_OPEN (take i s) = None"
proof -
  assume f: "str_find TOKEN_OPEN s = Some i"
  show ?thesis unfolding find_open_None
  proof (intro allI notI)
    fix j assume "opens_at (take i s) j"
    then have "j + 1 < i" "opens_at s j" by (auto simp: opens_at_def)
    then show False using str_find_least [OF f, of j] by (simp add: token_open_at)
  qed
qed

lemma escape_loop_no_live:
  "no_live escaped \<Longrightarrow> escaped = [] \<or> last escaped \<noteq> 40 \<Longrightarrow> no_live (escape_loop escaped rest)"
proof (induction escaped rest rule: escape_loop.induct)
  case (1 escaped rest)
  show ?case
  proof (cases "str_find TOKEN_OPEN rest")
    case None
    then show ?thesis using no_live_append [OF 1(2) None 1(3)] by (subst escape_loop.simps) simp
  next
    case (Some i)
    have "no_live (escaped @ take i rest)" by (rule no_live_append [OF 1(2) find_take_None [OF Some] 1(3)])
    note step = no_live_token [OF this]
    have "last (x @ TOKEN_OPEN) \<noteq> 40" for x by (simp add: TOKEN_OPEN_def)
    with 1(1) [OF Some refl refl step] show ?thesis
      by (subst escape_loop.simps) (simp add: Some Let_def)
  qed
qed

lemma escape_tokens_no_live: "no_live (escape_tokens t)"
  unfolding escape_tokens_def by (rule escape_loop_no_live) (simp_all add: no_live_def opens_at_def)

lemma last_token_loop_no_live: "no_live line \<Longrightarrow> last_token_loop C line ex search found = found"
proof (induction C line ex search found rule: last_token_loop.induct)
  case (1 C line ex search found)
  show ?case
  proof (cases "str_find TOKEN_OPEN (drop search line)")
    case None
    then show ?thesis by (subst last_token_loop.simps) simp
  next
    case (Some offset)
    from str_find_sound [OF this] have "starts_with TOKEN_OPEN (drop (search + offset) line)"
      by (simp add: add.commute)
    with 1(5) have p: "0 < search + offset" "line ! (search + offset - 1) = 92" and "search + offset < length line"
      by (auto simp: no_live_def token_open_at opens_at_def)
    then have "take (search + offset) line = take (search + offset - 1) line @ [92]"
      by (metis Suc_pred' less_imp_diff_less take_Suc_conv_app_nth)
    then have "ends_with [92] (take (search + offset) line)" by (auto simp: ends_with_iff)
    with 1(1) [OF Some refl refl this 1(5)] Some show ?thesis
      by (subst last_token_loop.simps) (simp add: Let_def)
  qed
qed

section \<open>Cutting\<close>

lemma cut_text_shape:
  assumes "n < length t"
  obtains p where "prefix p t" and "length p \<le> n" and "cut_text t n = p @ [8230]"
proof -
  let ?cut = "case last_whitespace (take n t) of
      Some space \<Rightarrow> if 0 < space \<and> \<not> is_some_and (first_opt (drop n t)) is_whitespace
        then take space (take n t) else take n t
    | None \<Rightarrow> take n t"
  have "prefix (take k (take n t)) (take n t)" for k by (rule take_is_prefix)
  then have "prefix ?cut (take n t)" by (simp only: if_split split: option.split) simp
  moreover have "prefix (trim_end ?cut) ?cut" unfolding trim_end_def by (rule drop_while_end_prefix)
  ultimately have p: "prefix (trim_end ?cut) (take n t)" by (rule prefix_order.trans [rotated])
  have "prefix (trim_end ?cut) t" using p take_is_prefix by (rule prefix_order.trans)
  moreover have "length (trim_end ?cut) \<le> n" using prefix_length_le [OF p] by simp
  moreover have "cut_text t n = trim_end ?cut @ [8230]" using assms by (simp add: cut_text_def Let_def)
  ultimately show ?thesis by (rule that)
qed

lemma cut_text_no_live: "no_live t \<Longrightarrow> no_live (cut_text t n)"
proof (cases "length t \<le> n")
  case True
  then show "no_live t \<Longrightarrow> ?thesis" by (simp add: cut_text_def)
next
  case False
  assume t: "no_live t"
  from False obtain p where p: "prefix p t" "cut_text t n = p @ [8230]"
    using cut_text_shape [of n t] by (metis not_le)
  have np: "no_live p" by (rule no_live_prefix [OF t p(1)])
  show ?thesis
    unfolding p(2) no_live_def
  proof (intro allI impI)
    fix i assume "opens_at (p @ [8230]) i"
    then have i: "i + 1 < length (p @ [8230])" "(p @ [8230]) ! i = 40" "(p @ [8230]) ! (i + 1) = 64"
      by (auto simp only: opens_at_def)
    then have "i + 1 < length p" by (cases "i + 1 = length p") (auto simp: nth_append)
    with i have "opens_at p i" by (simp add: opens_at_def nth_append)
    with np \<open>i + 1 < length p\<close> show "0 < i \<and> (p @ [8230]) ! (i - 1) = 92" by (auto simp: no_live_def nth_append)
  qed
qed

end
