(* ===== verification/Reminder_Scan.thy ===== *)
theory Reminder_Scan
  imports Reminder_Text
begin

text \<open>
  How the scan of a line depends on its front: the comments, code spans and tokens of a line are
  those of what follows a front without their opening characters; the shape of a task line; and
  that ticking its box changes nothing else a reader sees.
\<close>

section \<open>Lines that agree from a position on\<close>

lemma find_skip: "w \<noteq> [] \<Longrightarrow> hd w \<notin> set p \<Longrightarrow> str_find w (p @ r) = map_option ((+) (length p)) (str_find w r)"
proof (induction p)
  case Nil
  then show ?case by (cases "str_find w r") auto
next
  case (Cons c p)
  then have "\<not> starts_with w (c # p @ r)" by (cases w) auto
  with Cons show ?case by (cases "str_find w r") auto
qed

lemma contains_skip: "w \<noteq> [] \<Longrightarrow> hd w \<notin> set p \<Longrightarrow> str_contains w (p @ r) = str_contains w r"
  by (simp add: str_contains_def find_skip)

lemma drop_more: "drop i l = drop i l' \<Longrightarrow> i \<le> j \<Longrightarrow> drop j l = drop j l'"
proof -
  assume "drop i l = drop i l'" "i \<le> j"
  then have "drop (j - i) (drop i l) = drop (j - i) (drop i l')" by simp
  then show ?thesis using \<open>i \<le> j\<close> by simp
qed

lemma segment_drop: "drop i l = drop i l' \<Longrightarrow> i \<le> j \<Longrightarrow> segment l j k = segment l' j k"
  unfolding segment_def by (drule (1) drop_more) simp

lemma code_span_close_cong:
  "drop search l = drop search l' \<Longrightarrow> code_span_close l n search = code_span_close l' n search"
proof (induction l n search rule: code_span_close.induct)
  case (1 l n search)
  have d: "drop (search + k) l = drop (search + k) l'" for k using 1(2) by (rule drop_more) simp
  show ?case
  proof (cases "str_find [96] (drop search l)")
    case None
    then show ?thesis using 1(2) by (simp add: code_span_close.simps [of _ n search])
  next
    case (Some rel)
    let ?c = "search + rel" let ?run = "run_length 96 (drop ?c l)"
    have "code_span_close l n (?c + ?run) = code_span_close l' n (?c + ?run)" if "?run \<noteq> n"
      using 1(1) [OF Some refl refl that] d [of "rel + ?run"] by (simp add: add.assoc)
    then show ?thesis
      using Some 1(2) d [of rel] by (simp add: code_span_close.simps [of _ n search] Let_def)
  qed
qed

lemma scan_loop_cong:
  "length l = length l' \<Longrightarrow> drop cursor l = drop cursor l' \<Longrightarrow>
     scan_inline_loop l cursor ex found = scan_inline_loop l' cursor ex found"
proof (induction l cursor ex found rule: scan_inline_loop.induct)
  case (1 l cursor ex found)
  note len = 1(5) and d = 1(6)
  show ?case
  proof (cases "cursor < length l")
    case False
    then show ?thesis using len by (simp add: scan_inline_loop.simps [of _ cursor])
  next
    case lt: True
    have at: "l ! cursor = l' ! cursor" using lt len d by (metis hd_drop_conv_nth)
    have more: "drop j l = drop j l'" if "cursor \<le> j" for j using d that by (rule drop_more)
    show ?thesis
    proof (cases "strip_prefix COMMENT_OPEN (drop cursor l)")
      case (Some inside)
      show ?thesis
      proof (cases "comment_length inside")
        case None
        then show ?thesis using lt len d Some by (simp add: scan_inline_loop.simps [of _ cursor] Let_def)
      next
        case (Some n)
        note c = \<open>strip_prefix COMMENT_OPEN (drop cursor l) = Some inside\<close>
        have "segment l cursor (cursor + n) = segment l' cursor (cursor + n)" using d by (rule segment_drop) simp
        with 1(4) [OF lt refl c Some len more] lt len d c Some show ?thesis
          by (simp add: scan_inline_loop.simps [of _ cursor] Let_def)
      qed
    next
      case None
      show ?thesis
      proof (cases "l ! cursor = 96")
        case True
        let ?run = "run_length 96 (drop cursor l)"
        have cl: "closing_backticks l (cursor + ?run) ?run = closing_backticks l' (cursor + ?run) ?run"
          unfolding closing_backticks_def by (rule code_span_close_cong) (rule more, simp)
        show ?thesis
        proof (cases "closing_backticks l (cursor + ?run) ?run")
          case c: None
          have "scan_inline_loop l (cursor + ?run) ex found = scan_inline_loop l' (cursor + ?run) ex found"
            by (rule 1(1) [OF lt refl None True refl c len more]) simp
          then show ?thesis
            using lt len d None True at cl c by (simp add: scan_inline_loop.simps [of _ cursor] Let_def)
        next
          case (Some e)
          have "cursor \<le> e" using closing_backticks_after [OF Some] by simp
          with 1(2) [OF lt refl None True refl Some len more] show ?thesis
            using lt len d None True at cl Some by (simp add: scan_inline_loop.simps [of _ cursor] Let_def)
        qed
      next
        case False
        have "scan_inline_loop l (cursor + 1) ex found = scan_inline_loop l' (cursor + 1) ex found"
          by (rule 1(3) [OF lt refl None False len more]) simp
        then show ?thesis
          using lt len d None False at by (simp add: scan_inline_loop.simps [of _ cursor] Let_def)
      qed
    qed
  qed
qed

text \<open>Characters that open neither a comment nor a code span are stepped over.\<close>

lemma scan_skip:
  assumes "60 \<notin> set p" and "96 \<notin> set p"
  shows "scan_inline_loop (p @ r) 0 [] None = scan_inline_loop (p @ r) (length p) [] None"
proof -
  have "scan_inline_loop (p @ r) (length p - k) [] None = scan_inline_loop (p @ r) (length p) [] None"
    if "k \<le> length p" for k using that
  proof (induction k)
    case 0
    then show ?case by simp
  next
    case (Suc k)
    let ?c = "length p - Suc k"
    have c: "?c < length (p @ r)" "Suc ?c = length p - k" "?c < length p" using Suc.prems by auto
    have at: "(p @ r) ! ?c = p ! ?c" "p ! ?c \<in> set p" using c by (auto simp: nth_append)
    have ne: "(p @ r) ! ?c \<noteq> 96" using at assms(2) by metis
    have "\<not> starts_with COMMENT_OPEN (drop ?c (p @ r))"
      using at assms(1) starts_with_nth(2) [of COMMENT_OPEN ?c "p @ r" 0] by (auto simp: COMMENT_OPEN_def)
    then have "strip_prefix COMMENT_OPEN (drop ?c (p @ r)) = None" by (simp add: strip_prefix_def)
    then have "scan_inline_loop (p @ r) ?c [] None = scan_inline_loop (p @ r) (Suc ?c) [] None"
      using c ne by (subst scan_inline_loop.simps) (simp add: Let_def del: drop_append)
    then show ?case using Suc c(2) by simp
  qed
  from this [of "length p"] show ?thesis by simp
qed

section \<open>The last token does not depend on the front of the line\<close>

lemma ends_with_segment:
  "k \<le> length l \<Longrightarrow> ends_with w (take k l) \<longleftrightarrow> length w \<le> k \<and> segment l (k - length w) k = w"
  by (auto simp: ends_with_def segment_def drop_take)

lemma ends_with_cong:
  assumes "length l = length l'" and "drop n l = drop n l'" and "n + length w \<le> k" and "k \<le> length l"
  shows "ends_with w (take k l) = ends_with w (take k l')"
proof -
  have "segment l (k - length w) k = segment l' (k - length w) k"
    using assms(2) by (rule segment_drop) (use assms(3) in simp)
  then show ?thesis using assms by (simp add: ends_with_segment)
qed

lemma last_token_cong:
  "length l = length l' \<Longrightarrow> drop n l = drop n l' \<Longrightarrow> n + 2 \<le> search \<Longrightarrow>
     last_token_loop C l ex search found = last_token_loop C l' ex search found"
proof (induction C l ex search found rule: last_token_loop.induct)
  case (1 C l ex search found)
  note len = 1(5) and d = 1(6) and s = 1(7)
  have more: "drop j l = drop j l'" if "search \<le> j" for j using d by (rule drop_more) (use s that in simp)
  show ?case
  proof (cases "str_find TOKEN_OPEN (drop search l)")
    case None
    then show ?thesis using more [of search] by (simp add: last_token_loop.simps [of _ _ _ search])
  next
    case f: (Some offset)
    let ?start = "search + offset" let ?s = "?start + length TOKEN_OPEN"
    have f': "str_find TOKEN_OPEN (drop search l') = Some offset" using f more [of search] by simp
    have le: "?s \<le> length l"
      using str_find_bound [OF f] by (cases "search \<le> length l") (auto simp: TOKEN_OPEN_def)
    have ew: "ends_with w (take ?start l) = ends_with w (take ?start l')" if "length w \<le> 2" for w
      using len d by (rule ends_with_cong) (use s that le in auto)
    have s2: "n + 2 \<le> ?s" using s by simp
    show ?thesis
    proof (cases "ends_with [92] (take ?start l)")
      case True
      with 1(1) [OF f refl refl True len d s2] ew [of "[92]"] f f' show ?thesis
        by (simp add: last_token_loop.simps [of _ _ _ search] Let_def)
    next
      case esc: False
      note esc' = esc [unfolded ew [of "[92]", simplified]]
      show ?thesis
      proof (cases "str_find [41] (drop ?s l)")
        case None
        then show ?thesis
          using f f' esc esc' more [of ?s] by (simp add: last_token_loop.simps [of _ _ _ search] Let_def)
      next
        case c: (Some close)
        let ?e = "?s + close + 1"
        have c': "str_find [41] (drop ?s l') = Some close" using c more [of ?s] by simp
        have seg: "segment l ?s (?e - 1) = segment l' ?s (?e - 1)" using d by (rule segment_drop) (use s in simp)
        have de: "drop ?e l = drop ?e l'" by (rule more) simp
        have st: "ends_with STRIKE (take ?start l) = ends_with STRIKE (take ?start l')"
          by (rule ew) (simp add: STRIKE_def)
        show ?thesis
        proof (cases "list_ex (\<lambda>(from, to). from < ?e \<and> ?start < to) ex")
          case True
          from 1(2) [OF f refl refl esc c refl True len d s2] show ?thesis
            unfolding last_token_loop.simps [of _ _ _ search] f f' Let_def option.case c c'
            using True esc esc' by simp
        next
          case x: False
          show ?thesis
          proof (cases "parse_when C (segment l ?s (?e - 1))")
            case None
            from 1(3) [OF f refl refl esc c refl x None len d s2] show ?thesis
              unfolding last_token_loop.simps [of _ _ _ search] f f' Let_def option.case c c'
              using x esc esc' None seg by simp
          next
            case (Some w)
            from 1(4) [OF f refl refl esc c refl x Some refl refl len d s2] show ?thesis
              unfolding last_token_loop.simps [of _ _ _ search] f f' Let_def option.case c c'
              using x esc esc' Some seg st de by simp
          qed
        qed
      qed
    qed
  qed
qed

lemma last_token_skip:
  assumes "40 \<notin> set p"
  shows "last_token C (p @ r) ex = last_token_loop C (p @ r) ex (length p) None"
proof -
  have "str_find TOKEN_OPEN (p @ r) = map_option ((+) (length p)) (str_find TOKEN_OPEN r)"
    by (rule find_skip) (use assms in \<open>simp_all add: TOKEN_OPEN_def\<close>)
  moreover have "drop (length p) (p @ r) = r" by simp
  ultimately show ?thesis
    unfolding last_token_def last_token_loop.simps [of C "p @ r" ex 0]
      last_token_loop.simps [of C "p @ r" ex "length p"]
    by (cases "str_find TOKEN_OPEN r") (simp_all only: drop_0 option.map option.case add_0)
qed

section \<open>The shape of a task line\<close>

abbreviation quote_char :: "rchar \<Rightarrow> bool" where
  "quote_char c \<equiv> is_whitespace c \<or> c = 62"

lemma dropWhile_quote: "dropWhile quote_char (trim_start s) = dropWhile quote_char s"
  by (induction s) (auto simp: trim_start_def)

lemma quote_loop_eq: "trim_start s = s \<Longrightarrow> quote_loop s = dropWhile quote_char s"
proof (induction s rule: quote_loop.induct)
  case (1 s)
  show ?case
  proof (cases "strip_prefix [62] s")
    case None
    have "s = [] \<or> \<not> is_whitespace (hd s)"
      using 1(2) hd_dropWhile [of is_whitespace s] unfolding trim_start_def by metis
    then have "s = [] \<or> \<not> quote_char (hd s)"
      using None by (cases s) (auto simp: strip_prefix_def split: if_splits)
    then have "dropWhile quote_char s = s" by (cases s) auto
    with None show ?thesis by (simp add: quote_loop.simps [of s])
  next
    case (Some inner)
    then have s: "s = 62 # inner" by (simp add: strip_prefix_Some)
    have "quote_loop (trim_start inner) = dropWhile quote_char (trim_start inner)"
      by (rule 1(1) [OF Some]) simp
    then have "quote_loop s = dropWhile quote_char inner"
      using Some by (simp add: quote_loop.simps [of s] dropWhile_quote)
    then show ?thesis by (simp add: s)
  qed
qed

lemma strip_quote_markers_eq: "strip_quote_markers s = dropWhile quote_char s"
  unfolding strip_quote_markers_def by (subst quote_loop_eq) (simp_all add: dropWhile_quote)

definition list_marker :: "rstr \<Rightarrow> bool" where
  "list_marker m \<longleftrightarrow> m = lit ''- '' \<or> m = lit ''* '' \<or> m = lit ''+ '' \<or>
     (\<exists>ds. 1 \<le> length ds \<and> length ds \<le> 9 \<and> list_all is_ascii_digit ds \<and>
        (m = ds @ lit ''. '' \<or> m = ds @ lit '') ''))"

lemma strip_list_marker_cases:
  "strip_list_marker t = t \<or> (\<exists>m. list_marker m \<and> t = m @ strip_list_marker t)"
proof (cases "find_map (\<lambda>marker. strip_prefix marker t) [lit ''- '', lit ''* '', lit ''+ '']")
  case (Some rest)
  then have "\<exists>m \<in> {lit ''- '', lit ''* '', lit ''+ ''}. t = m @ rest"
    by (auto split: option.splits simp: strip_prefix_Some simp del: lit_simps)
  with Some show ?thesis by (auto simp: strip_list_marker_def list_marker_def simp del: lit_simps)
next
  case None
  let ?n = "length (takeWhile is_ascii_digit t)" and ?ds = "takeWhile is_ascii_digit t"
  have ds: "list_all is_ascii_digit ?ds" by (auto simp: list_all_iff dest: set_takeWhileD)
  have t: "t = ?ds @ drop ?n t" by (metis takeWhile_dropWhile_id dropWhile_eq_drop)
  show ?thesis
  proof (cases "1 \<le> ?n \<and> ?n \<le> 9")
    case False
    then show ?thesis unfolding strip_list_marker_def None Let_def option.case by (simp only: if_False simp_thms)
  next
    case True
    show ?thesis
    proof (cases "or_else (strip_prefix (lit ''. '') (drop ?n t)) (strip_prefix (lit '') '') (drop ?n t))")
      case o: None
      with None True show ?thesis by (simp add: strip_list_marker_def Let_def)
    next
      case (Some rest)
      then have "drop ?n t = lit ''. '' @ rest \<or> drop ?n t = lit '') '' @ rest"
        by (auto simp: or_else_def strip_prefix_Some split: option.splits)
      then have "t = (?ds @ lit ''. '') @ rest \<or> t = (?ds @ lit '') '') @ rest"
        using t by (metis append_assoc)
      moreover have "list_marker (?ds @ lit ''. '')" "list_marker (?ds @ lit '') '')"
        using True ds by (auto simp: list_marker_def)
      moreover have "strip_list_marker t = rest"
        using None True Some by (simp add: strip_list_marker_def Let_def)
      ultimately show ?thesis by blast
    qed
  qed
qed

lemma strip_list_marker_marker: "list_marker m \<Longrightarrow> strip_list_marker (m @ X) = X"
proof -
  assume "list_marker m"
  then consider "m = lit ''- ''" | "m = lit ''* ''" | "m = lit ''+ ''"
    | ds where "1 \<le> length ds" "length ds \<le> 9" "list_all is_ascii_digit ds"
        "m = ds @ lit ''. '' \<or> m = ds @ lit '') ''"
    by (auto simp: list_marker_def)
  then show ?thesis
  proof cases
    case (4 ds)
    then obtain d ds' where ds: "ds = d # ds'" "is_ascii_digit d" by (cases ds) auto
    have no: "find_map (\<lambda>marker. strip_prefix marker (m @ X)) [lit ''- '', lit ''* '', lit ''+ ''] = None"
      using 4(4) ds by (auto simp: strip_prefix_def is_ascii_digit_def)
    have tw: "takeWhile is_ascii_digit (m @ X) = ds"
      using 4(3,4) by (auto simp: takeWhile_append list_all_iff is_ascii_digit_def)
    have "drop (length ds) (m @ X) = lit ''. '' @ X \<or> drop (length ds) (m @ X) = lit '') '' @ X" using 4(4) by auto
    then have "or_else (strip_prefix (lit ''. '') (drop (length ds) (m @ X)))
        (strip_prefix (lit '') '') (drop (length ds) (m @ X))) = Some X"
      unfolding strip_prefix_def by (elim disjE) (simp_all only:, simp_all)
    then show ?thesis using no tw 4(1,2) by (simp add: strip_list_marker_def Let_def)
  qed (simp_all add: strip_list_marker_def strip_prefix_def)
qed

lemma digit_not_quote: "is_ascii_digit c \<Longrightarrow> \<not> quote_char c"
  by (auto simp: is_ascii_digit_def is_whitespace_def)

lemma list_marker_chars:
  assumes "list_marker m"
  shows "m \<noteq> [] \<and> \<not> quote_char (hd m) \<and> 60 \<notin> set m \<and> 96 \<notin> set m \<and> 40 \<notin> set m"
proof -
  have "ds \<noteq> [] \<and> \<not> quote_char (hd ds) \<and> 60 \<notin> set ds \<and> 96 \<notin> set ds \<and> 40 \<notin> set ds"
    if "1 \<le> length ds" "list_all is_ascii_digit ds" for ds
    using that digit_not_quote by (cases ds) (auto simp: list_all_iff is_ascii_digit_def)
  then show ?thesis using assms by (auto simp: list_marker_def hd_append is_whitespace_def)
qed

lemma task_of_shape:
  assumes "task_of line = Some (TOpen, pos)"
  obtains q m r where "line = q @ m @ lit ''[ ] '' @ r" and "\<forall>c \<in> set q. quote_char c" and "list_marker m"
    and "pos = length q + length m + 1"
proof -
  let ?t = "strip_quote_markers line" and ?q = "takeWhile quote_char line"
  have line: "line = ?q @ ?t" by (simp add: strip_quote_markers_eq)
  from assms have ne: "length (strip_list_marker ?t) \<noteq> length ?t"
    and b: "take 4 (strip_list_marker ?t) = lit ''[ ] ''"
    and p: "pos = length line - length (strip_list_marker ?t) + 1"
    by (auto simp: task_of_def Let_def split: if_splits)
  from ne obtain m where m: "list_marker m" "?t = m @ strip_list_marker ?t"
    using strip_list_marker_cases [of ?t] by auto
  let ?r = "drop 4 (strip_list_marker ?t)"
  have "strip_list_marker ?t = lit ''[ ] '' @ ?r" using b by (metis append_take_drop_id)
  then have "line = ?q @ m @ lit ''[ ] '' @ ?r" using line m(2) by metis
  moreover have "\<forall>c \<in> set ?q. quote_char c" by (auto dest: set_takeWhileD)
  moreover have "pos = length ?q + length m + 1"
    using p arg_cong [OF line, of length] arg_cong [OF m(2), of length] by simp
  ultimately show ?thesis using that m(1) by blast
qed

lemma task_of_box:
  assumes "\<forall>c \<in> set q. quote_char c" and "list_marker m"
  shows "task_of (q @ m @ lit ''[ ] '' @ r) = Some (TOpen, length q + length m + 1)"
    and "task_of (q @ m @ lit ''[x] '' @ r) = Some (TDone, length q + length m + 1)"
proof -
  note c = list_marker_chars [OF assms(2)]
  have "strip_quote_markers (q @ m @ X) = m @ X" for X
    unfolding strip_quote_markers_eq using assms(1) c by (cases m) (auto simp: dropWhile_append)
  moreover note strip_list_marker_marker [OF assms(2)]
  ultimately show "task_of (q @ m @ lit ''[ ] '' @ r) = Some (TOpen, length q + length m + 1)"
    and "task_of (q @ m @ lit ''[x] '' @ r) = Some (TDone, length q + length m + 1)"
    using c by (simp_all add: task_of_def Let_def)
qed

section \<open>Ticking a task\<close>

lemma quote_char_free: "\<forall>c \<in> set q. quote_char c \<Longrightarrow> 60 \<notin> set q \<and> 96 \<notin> set q \<and> 40 \<notin> set q"
  by (auto simp: is_whitespace_def)

text \<open>A reader of the line sees everything but the box the same way.\<close>

lemma box_read:
  assumes "\<forall>c \<in> set q. quote_char c" and "list_marker m"
  shows "parse_line C (q @ m @ lit ''[x] '' @ r) day =
     map_option (\<lambda>v. v\<lparr>lr_task := Some TDone\<rparr>) (parse_line C (q @ m @ lit ''[ ] '' @ r) day)"
proof -
  let ?p = "\<lambda>b. q @ m @ [91, b]" and ?l = "\<lambda>b. q @ m @ [91, b, 93, 32] @ r"
  note c = list_marker_chars [OF assms(2)] quote_char_free [OF assms(1)]
  have l: "?l b = ?p b @ 93 # 32 # r" "?l b = (q @ m @ [91, b, 93, 32]) @ r" for b by simp_all
  have drop: "drop (length (?p b)) (?l b) = 93 # 32 # r" for b by simp
  have front: "60 \<notin> set (?p b)" "96 \<notin> set (?p b)" "40 \<notin> set (q @ m @ [91, b, 93, 32])" if "b = 32 \<or> b = 120" for b
    using c that by auto
  have "scan_inline (?l b) False = scan_inline_loop (?l b) (length (?p b)) [] None" if "b = 32 \<or> b = 120" for b
    using scan_skip [OF front(1,2), OF that that] unfolding scan_inline_def l(1) by simp
  moreover have "scan_inline_loop (?l 120) (length (?p 120)) [] None = scan_inline_loop (?l 32) (length (?p 32)) [] None"
    using scan_loop_cong [of "?l 120" "?l 32" "length (?p 120)"] by simp
  ultimately have scan: "scan_inline (?l 120) False = scan_inline (?l 32) False" by simp
  have "last_token C (?l b) ex = last_token_loop C (?l b) ex (length (?p b) + 2) None"
    if "b = 32 \<or> b = 120" for b ex
    using last_token_skip [OF front(3), OF that, of C r ex] unfolding l(2) by (simp add: numeral_2_eq_2)
  moreover have "last_token_loop C (?l 120) ex (length (?p 120) + 2) None =
      last_token_loop C (?l 32) ex (length (?p 32) + 2) None" for ex
    using last_token_cong [of "?l 120" "?l 32" "length (?p 120)" "length (?p 120) + 2" C ex None] by simp
  ultimately have token: "last_token C (?l 120) ex = last_token C (?l 32) ex" for ex by simp
  have cm: "str_contains CALENDAR_MARKER (?l 120) = str_contains CALENDAR_MARKER (?l 32)"
    unfolding l(1) using front(1) [of 120] front(1) [of 32]
    by (subst (1 2) contains_skip) (simp_all add: CALENDAR_MARKER_def)
  have task: "task_of (?l 120) = Some (TDone, length q + length m + 1)"
    using task_of_box(2) [OF assms] by simp
  show ?thesis using scan token cm task by (simp add: parse_line_def read_line_def Let_def)
qed

end
