(* ===== verification/Reminder_Props.thy ===== *)
theory Reminder_Props
  imports Reminder_Scan Samples
begin

text \<open>
  What the reminder code promises: dues and tokens that read back, an edit that is undone to the
  letter, ids, mirror texts that are never homes, and which lines of a note are reminders.
\<close>

section \<open>Ids\<close>

lemma hex_digit_range: "n < 16 \<Longrightarrow> is_ascii_digit (hex_digit n) \<or> 97 \<le> hex_digit n \<and> hex_digit n \<le> 102"
  by (auto simp: hex_digit_def is_ascii_digit_def)

lemma utf8_ascii: "list_all (\<lambda>c. c < 128) s \<Longrightarrow> length (utf8 s) = length s"
  by (induction s) (auto simp: utf8_def utf8_char_def)

lemma byte_to_hex_chars: "c \<in> set (byte_to_hex b) \<Longrightarrow> is_ascii_digit c \<or> 97 \<le> c \<and> c \<le> 102"
proof -
  have "unat b < 256" using unsigned_less [of b, where ?'a = nat] by simp
  then have "unat b div 16 < 16" by (simp add: less_mult_imp_div_less)
  then show "c \<in> set (byte_to_hex b) \<Longrightarrow> ?thesis" using hex_digit_range [of "unat b div 16"] hex_digit_range [of "unat b mod 16"]
    by (auto simp: byte_to_hex_def)
qed

lemma id_from_bytes_is_id: "length bytes = 6 \<Longrightarrow> is_id (id_from_bytes bytes)"
proof -
  assume "length bytes = 6"
  moreover have "length (concat (map byte_to_hex bytes)) = 2 * length bytes"
    by (induction bytes) (simp_all add: byte_to_hex_def)
  moreover have all: "list_all (\<lambda>c. is_ascii_digit c \<or> 97 \<le> c \<and> c \<le> 102) (id_from_bytes bytes)"
    using byte_to_hex_chars by (auto simp: id_from_bytes_def list_all_iff)
  moreover have "length (utf8 (id_from_bytes bytes)) = length (id_from_bytes bytes)"
    by (rule utf8_ascii) (use all in \<open>auto simp: list_all_iff is_ascii_digit_def\<close>)
  ultimately show ?thesis by (simp add: is_id_def byte_len_def ID_LENGTH_def id_from_bytes_def)
qed

lemma strip_suffix_append: "strip_suffix w (s @ w) = Some s"
  by (simp add: strip_suffix_def ends_with_def)

lemma id_in_comment_marker: "is_id i \<Longrightarrow> id_in_comment (id_marker i) = Some i"
  by (simp add: id_in_comment_def id_marker_def strip_prefix_def strip_suffix_append)

section \<open>The reminders of a note\<close>

definition flag_set :: "bool list \<Rightarrow> nat \<Rightarrow> bool" where
  "flag_set flags i \<longleftrightarrow> (case get_at flags i of Some b \<Rightarrow> b | None \<Rightarrow> False)"

lemma note_loop_lines:
  "a \<in> set (note_loop C day sections flags index ts open) \<Longrightarrow>
     index \<le> ap_line a \<and> ap_line a < index + length ts \<and>
     \<not> flag_set flags (ap_line a) \<and>
     (ap_mirror a \<longrightarrow> sections \<noteq> [] \<and> lr_token (ap_reminder a) = None \<and> lr_id (ap_reminder a) \<noteq> None \<and>
        mirror_parse C (ts ! (ap_line a - index)) \<noteq> None)"
proof (induction ts arbitrary: index "open")
  case Nil
  then show ?case by simp
next
  case (Cons t ts)
  let ?read = "read_line C t day open"
  have later: ?case if "a \<in> set (note_loop C day sections flags (index + 1) ts b)" for b
  proof -
    have "index + 1 \<le> ap_line a" using Cons.IH [OF that] by blast
    then have "ap_line a - index = Suc (ap_line a - Suc index)" by arith
    then show ?thesis using Cons.IH [OF that] by auto
  qed
  show ?case
  proof (cases "flag_set flags index")
    case True
    then show ?thesis using Cons.prems later by (simp add: flag_set_def)
  next
    case False
    then have nl: "note_loop C day sections flags index (t # ts) open =
        (let later = note_loop C day sections flags (index + 1) ts (rl_comment_open ?read)
         in case rl_reminder ?read of None \<Rightarrow> later
            | Some reminder \<Rightarrow> \<lparr>ap_line = index, ap_reminder = reminder,
                ap_mirror = (lr_token reminder = None \<and> lr_id reminder \<noteq> None \<and>
                  list_ex (\<lambda>(from, to). from \<le> index \<and> index < to) sections \<and>
                  mirror_parse C t \<noteq> None)\<rparr> # later)"
      by (simp add: flag_set_def Let_def split: option.split)
    have "sections \<noteq> []" if "list_ex (\<lambda>(from, to). from \<le> index \<and> index < to) sections"
      using that by auto
    then show ?thesis
      using Cons.prems False later unfolding nl by (auto simp: Let_def split: option.splits)
  qed
qed

lemma note_loop_sorted: "sorted_wrt (<) (map ap_line (note_loop C day sections flags index ts open))"
proof (induction ts arbitrary: index "open")
  case (Cons t ts)
  have "index < ap_line a" if "a \<in> set (note_loop C day sections flags (index + 1) ts b)" for a b
    using note_loop_lines [OF that] by simp
  with Cons.IH show ?case by (auto simp: Let_def split: option.splits)
qed simp

section \<open>Evaluated instances\<close>

definition sample_clock :: "(nat \<times> nat \<times> nat \<times> nat) clock" where
  "sample_clock =
     \<lparr>from_hms_opt = (\<lambda>h m s. if h < 24 \<and> m < 60 \<and> s < 60 then Some (h, m, s, 0) else None),
      format_HM = (\<lambda>(h, m, s, n). pad_zeros 2 h @ [58] @ pad_zeros 2 m),
      with_second_zero = (\<lambda>(h, m, s, n). Some (h, m, 0, n)),
      with_nanosecond_zero = (\<lambda>(h, m, s, n). Some (h, m, s, 0))\<rparr>"

text \<open>Minutes are added within the day; no theorem here rests on the wrap-around.\<close>

definition sample_chrono :: "(int \<times> nat \<times> nat, nat \<times> nat \<times> nat \<times> nat) chrono" where
  "sample_chrono =
     \<lparr>cal = gregorian, clk = sample_clock,
      add_minutes = (\<lambda>(d, (h, m, s, n)) k. (d, ((h + (m + k) div 60) mod 24, (m + k) mod 60, s, n)))\<rparr>"

lemma sample_chrono_ok: "chrono_ok sample_chrono"
  by (auto simp: chrono_ok_def sample_chrono_def gregorian_ok clock_ok_def sample_clock_def split: if_splits)

definition sample_due :: "(int \<times> nat \<times> nat, nat \<times> nat \<times> nat \<times> nat) Due" where
  "sample_due = \<lparr>due_date = (2026, 7, 20), due_time = Some (9, 5, 0, 0)\<rparr>"

lemma sample_due_fits: "due_fits sample_chrono sample_due"
proof -
  have "from_ymd_opt gregorian 2026 7 20 = Some (2026, 7, 20)" by code_simp
  moreover have "from_hms_opt sample_clock 9 5 0 = Some (9, 5, 0, 0)" by code_simp
  ultimately show ?thesis
    by (force simp: due_fits_def date_fits_def time_fits_def sample_due_def sample_chrono_def)
qed

definition sample_day_note :: rstr where
  "sample_day_note = from_lines [''- [ ] call (@10:00)'', ''```'', ''(@2026-07-20)'', ''```'']"

section \<open>Properties\<close>

text \<open>Closing the reminder of an open task ticks its box and nothing else: the closed line reads
  as the same reminder with its task done, and reopening it gives the line back to the letter.\<close>

theorem close_reopen_task:
  assumes "parse_line C line None = Some r" and "lr_state r = Open" and "lr_task r = Some TOpen"
  shows "\<exists>line'. close_reminder C line = Some line' \<and>
     parse_line C line' None = Some (r\<lparr>lr_task := Some TDone\<rparr>) \<and> reopen C line' = Some line"
proof -
  have "map_option fst (task_of line) = Some TOpen"
    using assms(1,3) by (auto simp: parse_line_def read_line_def Let_def split: if_splits)
  then obtain pos where t: "task_of line = Some (TOpen, pos)" by auto
  then obtain q m s where line: "line = q @ m @ lit ''[ ] '' @ s" and q: "\<forall>c \<in> set q. quote_char c"
    and m: "list_marker m" and pos: "pos = length q + length m + 1" by (rule task_of_shape)
  let ?line' = "q @ m @ lit ''[x] '' @ s"
  have close: "close_reminder C line = Some ?line'"
    using assms t pos by (simp add: close_reminder_def replace_range_def line)
  have read: "parse_line C ?line' None = Some (r\<lparr>lr_task := Some TDone\<rparr>)"
    using box_read [OF q m, of C s None] assms(1) line by simp
  obtain token where token: "lr_token r = Some token" "\<not> tok_struck token"
    using assms(2) by (auto simp: lr_state_def split: option.splits if_splits)
  have "reopen C ?line' = Some line"
    using read token task_of_box(2) [OF q m, of s]
    by (simp add: reopen_def lr_state_def replace_range_def line split: prod.split)
  with close read show ?thesis by blast
qed

theorem close_reopen_task_witness:
  "close_reminder sample_chrono (lit ''> 2. [ ] ring `(@10:00)` (@2026-07-20)'') =
     Some (lit ''> 2. [x] ring `(@10:00)` (@2026-07-20)'') \<and>
   reopen sample_chrono (lit ''> 2. [x] ring `(@10:00)` (@2026-07-20)'') =
     Some (lit ''> 2. [ ] ring `(@10:00)` (@2026-07-20)'')"
proof -
  let ?line = "lit ''> 2. [ ] ring `(@10:00)` (@2026-07-20)''"
  let ?r = "\<lparr>lr_id = None, lr_token = Some \<lparr>tok_range = (25, 38), tok_when = WDate (2026, 7, 20), tok_struck = False\<rparr>,
      lr_task = Some TOpen, lr_due = Some \<lparr>due_date = (2026, 7, 20), due_time = None\<rparr>\<rparr>"
  have p: "parse_line sample_chrono ?line None = Some ?r" by code_simp
  have c: "close_reminder sample_chrono ?line = Some (lit ''> 2. [x] ring `(@10:00)` (@2026-07-20)'')" by code_simp
  from close_reopen_task [OF p] c show ?thesis by (simp add: lr_state_def)
qed

text \<open>A due that the four-digit date and minute forms can carry is read back from its own text.\<close>

theorem due_roundtrip:
  assumes "chrono_ok C" and "due_fits C due"
  shows "due_parse C (due_str C due) = Some due"
  using assms by (intro due_text.parse_print) simp

theorem due_roundtrip_witness: "due_parse sample_chrono (lit ''2026-07-20 09:05'') = Some sample_due"
proof -
  have "due_str sample_chrono sample_due = lit ''2026-07-20 09:05''" by code_simp
  then show ?thesis using due_roundtrip [OF sample_chrono_ok sample_due_fits] by simp
qed

text \<open>C6: The token written for a due means that due: whatever the home day the writer and the reader
  share, the line scan finds one token, over its whole text and not struck out, and its due is the
  one written.\<close>

theorem token_reads_back:
  assumes "chrono_ok C" and "due_fits C due"
  shows "\<exists>r. parse_line C (token_text C due home_day) home_day = Some r \<and> lr_state r = Open \<and>
     lr_due r = Some due \<and> map_option tok_range (lr_token r) = Some (0, length (token_text C due home_day))"
proof -
  let ?t = "token_text C due home_day"
  have t: "?t = [40, 64] @ token_inner C due home_day @ [41]" by (simp add: token_text_inner TOKEN_OPEN_def)
  then have no: "60 \<notin> set ?t" "96 \<notin> set ?t" using token_inner_no_char [OF assms] by auto
  have "str_contains CALENDAR_MARKER (?t @ []) = str_contains CALENDAR_MARKER []"
    using no by (intro contains_skip) (simp_all add: CALENDAR_MARKER_def)
  moreover have "scan_inline ?t False = scan_inline_loop ?t (length ?t) [] None"
    using scan_skip [OF no, of "[]"] by (simp add: scan_inline_def)
  moreover have "task_of ?t = None"
    by (simp add: t task_of_def strip_quote_markers_eq is_whitespace_def strip_list_marker_def strip_prefix_def
        is_ascii_digit_def Let_def)
  ultimately show ?thesis
    using last_token_written [OF assms, of home_day]
    by (auto simp: parse_line_def read_line_def Let_def str_contains_def CALENDAR_MARKER_def lr_state_def
        scan_inline_loop.simps [of ?t "length ?t"])
qed

theorem token_reads_back_witness:
  "\<exists>r. parse_line sample_chrono (lit ''(@09:05)'') (Some (2026, 7, 20)) = Some r \<and> lr_state r = Open \<and>
     lr_due r = Some sample_due \<and> map_option tok_range (lr_token r) = Some (0, 8)"
proof -
  have "token_text sample_chrono sample_due (Some (2026, 7, 20)) = lit ''(@09:05)''" by code_simp
  then show ?thesis
    using token_reads_back [OF sample_chrono_ok sample_due_fits, of "Some (2026, 7, 20)"]
    by (simp add: eval_nat_numeral)
qed

text \<open>The text a mirror line shows never makes the line a home: no token is found in it, wherever
  the scan may look, and it is at most one character longer than the limit.\<close>

theorem mirror_text_no_token:
  "last_token C (mirror_text t) excluded = None \<and> length (mirror_text t) \<le> MIRROR_TEXT_CHARS + 1"
proof -
  have cut: "length (cut_text s n) \<le> n + 1" for s n
    by (cases "n < length s") (auto elim!: cut_text_shape, simp add: cut_text_def)
  have "no_live EMPTY_MIRROR_TEXT"
    by (rule no_live_prefix [of "EMPTY_MIRROR_TEXT"]) (auto simp: no_live_def opens_at_def EMPTY_MIRROR_TEXT_def
        nth_Cons' split: if_splits)
  then have "no_live (mirror_text t)"
    by (simp add: mirror_text_def Let_def cut_text_no_live escape_tokens_no_live)
  moreover have "length (mirror_text t) \<le> MIRROR_TEXT_CHARS + 1"
    using cut [of _ MIRROR_TEXT_CHARS]
    by (simp add: mirror_text_def Let_def EMPTY_MIRROR_TEXT_def MIRROR_TEXT_CHARS_def del: One_nat_def)
  ultimately show ?thesis by (simp add: last_token_def last_token_loop_no_live)
qed

text \<open>Twelve hex digits from six bytes are an id, and the marker written for it is read as it.\<close>

theorem fresh_id_reads_back:
  assumes "length bytes = 6"
  shows "is_id (id_from_bytes bytes) \<and>
     id_in_comment (id_marker (id_from_bytes bytes)) = Some (id_from_bytes bytes)"
  using id_from_bytes_is_id [OF assms] id_in_comment_marker by simp

theorem fresh_id_reads_back_witness:
  "id_in_comment (lit ''<!--rem:00ff10a4079e-->'') = Some (lit ''00ff10a4079e'')"
proof -
  have "id_from_bytes [0, 255, 16, 164, 7, 158] = lit ''00ff10a4079e''" by code_simp
  moreover have "id_marker (lit ''00ff10a4079e'') = lit ''<!--rem:00ff10a4079e-->''" by code_simp
  ultimately show ?thesis using fresh_id_reads_back [of "[0, 255, 16, 164, 7, 158]"] by simp
qed

text \<open>The reminders of a note are listed in line order, one per line at most, never from a protected
  line (front matter, a fence), and a mirror is only ever listed in a daily note, on a line without
  a token that carries an id and parses as a mirror line.\<close>

theorem parse_note_appearances:
  "sorted_wrt (<) (map ap_line (parse_note E C t path config)) \<and>
   (\<forall>a \<in> set (parse_note E C t path config).
      ap_line a < length (d_lines (doc_split t)) \<and> \<not> is_protected (doc_split t) (ap_line a) \<and>
      (ap_mirror a \<longrightarrow>
         day_of C (rc_daily config) path \<noteq> None \<and> lr_token (ap_reminder a) = None \<and>
         lr_id (ap_reminder a) \<noteq> None \<and>
         mirror_parse C (l_text (d_lines (doc_split t) ! ap_line a)) \<noteq> None))"
proof (intro conjI ballI)
  show "sorted_wrt (<) (map ap_line (parse_note E C t path config))"
    unfolding parse_note_def Let_def by (rule note_loop_sorted)
next
  fix a assume "a \<in> set (parse_note E C t path config)"
  note a = note_loop_lines [OF this [unfolded parse_note_def Let_def]]
  show "ap_line a < length (d_lines (doc_split t))" using a by simp
  show "\<not> is_protected (doc_split t) (ap_line a)"
    using a by (simp add: is_protected_def flag_set_def)
  show "ap_mirror a \<longrightarrow> day_of C (rc_daily config) path \<noteq> None \<and> lr_token (ap_reminder a) = None \<and>
         lr_id (ap_reminder a) \<noteq> None \<and>
         mirror_parse C (l_text (d_lines (doc_split t) ! ap_line a)) \<noteq> None"
    using a by (auto split: option.splits)
qed

theorem parse_note_appearances_witness:
  "map ap_line (parse_note ascii_env sample_chrono sample_day_note (lit ''daily/2026-07-20.md'') ReminderConfig_default) = [0] \<and>
   \<not> is_protected (doc_split sample_day_note) 0"
proof -
  let ?as = "parse_note ascii_env sample_chrono sample_day_note (lit ''daily/2026-07-20.md'') ReminderConfig_default"
  have l: "map ap_line ?as = [0]" by code_simp
  then obtain a where "?as = [a]" "ap_line a = 0" by auto
  with l parse_note_appearances [of ascii_env sample_chrono sample_day_note "lit ''daily/2026-07-20.md''"
      ReminderConfig_default] show ?thesis by simp
qed

end
