(* ===== verification/Bridge_Rules.thy ===== *)
theory Bridge_Rules
  imports Write Dates
begin

text \<open>
  The rules every bridge write obeys (\<open>crates/thock-bridge/rules.rs\<close>) and the identity of a client
  (\<open>thock_bridge.rs\<close>): which vault paths a tool may touch, which facts are refused, and the lines
  and writes the desk appends on an agent's behalf.  The Unicode tables are the fields of \<open>env\<close>,
  the calendar is the record of \<open>Dates\<close>, and \<open>NaiveDate::parse_from_str\<close> with the pattern
  \<open>%Y-%m-%d\<close> is the argument \<open>parse_Ymd\<close>.
\<close>

section \<open>Constants\<close>

definition INBOX_PATH :: rstr where "INBOX_PATH = lit ''memory/inbox.md''"
definition FACT_MAX_CHARS :: nat where "FACT_MAX_CHARS = 300"
definition FORBIDDEN_HEADING :: rstr where "FORBIDDEN_HEADING = lit ''What Thock should not keep''"
definition VIA_MARKER :: rstr where "VIA_MARKER = [32, 183, 32] @ lit ''via ''"
definition SEPARATOR :: rstr where "SEPARATOR = [32, 183, 32]"

section \<open>Paths\<close>

datatype PathError = PEmpty | Absolute | Traversal | Hidden | EmptyComponent

fun path_error_str :: "PathError \<Rightarrow> rstr" where
  "path_error_str PEmpty = lit ''the path is empty''"
| "path_error_str Absolute = lit ''the path must be relative to the vault''"
| "path_error_str Traversal = lit ''the path leaves the vault''"
| "path_error_str Hidden = lit ''paths under a dot-folder are Thock's own and stay closed''"
| "path_error_str EmptyComponent = lit ''the path has an empty segment''"

definition is_slash :: "rchar \<Rightarrow> bool" where
  "is_slash c \<longleftrightarrow> c = 47 \<or> c = 92"

text \<open>The loop over the components: the first fault found, if any.\<close>

fun component_error :: "rstr list \<Rightarrow> PathError option" where
  "component_error [] = None"
| "component_error (c # cs) =
     (if c = [] then Some EmptyComponent
      else if c = lit ''..'' then Some Traversal
      else if starts_with [46] c then Some Hidden
      else component_error cs)"

definition validate_vault_path :: "rstr \<Rightarrow> PathError + unit" where
  "validate_vault_path path0 =
     (let path = trim path0
      in if path = [] then Inl PEmpty
         else if starts_with [47] path \<or> starts_with [92] path \<or> get_at path 1 = Some 58
         then Inl Absolute
         else case component_error (split_on is_slash path) of
                Some e \<Rightarrow> Inl e
              | None \<Rightarrow> Inr ())"

section \<open>Names of harnesses\<close>

text \<open>The loop of \<open>sanitize_harness\<close>: what is pushed for the rest of the characters.\<close>

fun harness_loop :: "bool \<Rightarrow> rstr \<Rightarrow> rstr" where
  "harness_loop last_dash [] = []"
| "harness_loop last_dash (c # cs) =
     (let lower = to_ascii_lowercase c
      in if is_ascii_alphanumeric lower then lower # harness_loop False cs
         else if \<not> last_dash then 45 # harness_loop True cs
         else harness_loop last_dash cs)"

definition sanitize_harness :: "rstr \<Rightarrow> rstr" where
  "sanitize_harness raw =
     (let out = trim_matches (\<lambda>c. c = 45) (harness_loop True (take 60 (trim raw)))
      in if out = [] then lit ''agent'' else take 40 out)"

record ClientIdentity =
  ci_harness :: rstr
  ci_host :: rstr

definition identity_new :: "rstr \<Rightarrow> rstr \<Rightarrow> ClientIdentity" where
  "identity_new harness host = \<lparr>ci_harness = sanitize_harness harness, ci_host = host\<rparr>"

definition identity_label :: "ClientIdentity \<Rightarrow> rstr" where
  "identity_label i = ci_harness i @ [64] @ ci_host i"

section \<open>Topics the person keeps out\<close>

definition STOP_WORDS :: "rstr list" where
  "STOP_WORDS = map lit
     [''about'', ''after'', ''again'', ''also'', ''anything'', ''around'', ''before'', ''between'',
      ''could'', ''during'', ''else'', ''ever'', ''every'', ''everything'', ''from'', ''have'',
      ''into'', ''just'', ''keep'', ''kept'', ''like'', ''mine'', ''more'', ''most'', ''much'',
      ''never'', ''none'', ''nothing'', ''only'', ''other'', ''ours'', ''over'', ''please'',
      ''same'', ''should'', ''some'', ''something'', ''such'', ''than'', ''that'', ''their'',
      ''theirs'', ''them'', ''then'', ''there'', ''these'', ''they'', ''thing'', ''things'',
      ''this'', ''thock'', ''those'', ''through'', ''under'', ''until'', ''upon'', ''very'',
      ''want'', ''what'', ''whatever'', ''when'', ''where'', ''which'', ''while'', ''with'',
      ''without'', ''would'', ''your'', ''yours'']"

definition words :: "env \<Rightarrow> rstr \<Rightarrow> rstr list" where
  "words E t =
     map (str_to_lowercase E) (filter (\<lambda>w. w \<noteq> []) (split_on (\<lambda>c. \<not> is_alphanumeric E c) t))"

text \<open>\<open>trim_start_matches\<close> with a string pattern.\<close>

function trim_start_str :: "rstr \<Rightarrow> rstr \<Rightarrow> rstr" where
  "trim_start_str p s =
     (if p \<noteq> [] \<and> starts_with p s then trim_start_str p (drop (length p) s) else s)"
  by pat_completeness auto
termination
proof (relation "measure (\<lambda>(p, s). length s)", goal_cases)
  case (2 p s)
  then have "s \<noteq> []" by (auto simp: starts_with_def)
  with 2 show ?case by simp
qed simp

declare trim_start_str.simps [simp del]

definition opens_forbidden :: "rstr \<Rightarrow> bool" where
  "opens_forbidden heading =
     (let t = trim (trim_start_matches (\<lambda>c. c = 35) heading);
          star = (\<lambda>c. c = 42 \<or> c = 95)
      in eq_ignore_ascii_case t FORBIDDEN_HEADING \<or>
         eq_ignore_ascii_case (trim_end_matches star (trim_start_matches star t)) FORBIDDEN_HEADING)"

definition line_topics :: "env \<Rightarrow> rstr \<Rightarrow> rstr list" where
  "line_topics E trimmed =
     (let body = trim (trim_start_str (lit ''[x]'') (trim_start_str (lit ''[ ]'')
                   (trim_start_matches (\<lambda>c. c = 45 \<or> c = 42 \<or> c = 43) trimmed)));
          long_words = filter (\<lambda>w. 4 \<le> length w) (words E body);
          kept = filter (\<lambda>w. w \<notin> set STOP_WORDS) long_words
      in if kept = [] then long_words else kept)"

fun push_topics :: "rstr list \<Rightarrow> rstr list \<Rightarrow> rstr list" where
  "push_topics topics [] = topics"
| "push_topics topics (w # ws) =
     push_topics (if w \<in> set topics then topics else topics @ [w]) ws"

fun topics_loop :: "env \<Rightarrow> rstr list \<Rightarrow> bool \<Rightarrow> rstr list \<Rightarrow> rstr list" where
  "topics_loop E topics inside [] = topics"
| "topics_loop E topics inside (line # ls) =
     (let trimmed = trim line
      in case strip_prefix [35] trimmed of
           Some heading \<Rightarrow> topics_loop E topics (opens_forbidden heading) ls
         | None \<Rightarrow>
             if \<not> inside then topics_loop E topics inside ls
             else topics_loop E (push_topics topics (line_topics E trimmed)) inside ls)"

definition forbidden_topics :: "env \<Rightarrow> rstr \<Rightarrow> rstr list" where
  "forbidden_topics E profile = topics_loop E [] False (str_lines profile)"

section \<open>Credentials\<close>

definition digit_count_hit :: "nat \<Rightarrow> bool" where
  "digit_count_hit n \<longleftrightarrow> 13 \<le> n \<and> n \<le> 19"

fun digit_run_loop :: "nat \<Rightarrow> bool \<Rightarrow> rstr \<Rightarrow> bool" where
  "digit_run_loop digits previous_was_separator [] = digit_count_hit digits"
| "digit_run_loop digits previous_was_separator (c # cs) =
     (if is_ascii_digit c then digit_run_loop (digits + 1) False cs
      else if (c = 32 \<or> c = 45) \<and> 0 < digits \<and> \<not> previous_was_separator
      then digit_run_loop digits True cs
      else digit_count_hit digits \<or> digit_run_loop 0 False cs)"

definition has_long_digit_run :: "rstr \<Rightarrow> bool" where
  "has_long_digit_run t = digit_run_loop 0 False t"

text \<open>The IBAN test reads bytes; the code points of ASCII characters are their bytes.\<close>

definition is_iban :: "rstr \<Rightarrow> bool" where
  "is_iban token0 =
     (let bytes = map uint (utf8 (trim_matches (\<lambda>c. \<not> is_ascii_alphanumeric c) token0))
      in 15 \<le> length bytes \<and> length bytes \<le> 34 \<and>
         is_ascii_uppercase (bytes ! 0) \<and> is_ascii_uppercase (bytes ! 1) \<and>
         is_ascii_digit (bytes ! 2) \<and> is_ascii_digit (bytes ! 3) \<and>
         list_all is_ascii_alphanumeric (drop 4 bytes) \<and> list_ex is_ascii_digit (drop 4 bytes))"

definition is_ascii_hexdigit :: "rchar \<Rightarrow> bool" where
  "is_ascii_hexdigit c \<longleftrightarrow> is_ascii_digit c \<or> 97 \<le> c \<and> c \<le> 102 \<or> 65 \<le> c \<and> c \<le> 70"

definition API_TOKEN :: rstr where "API_TOKEN = lit ''an API token''"

definition token_separator :: "rchar \<Rightarrow> bool" where
  "token_separator c \<longleftrightarrow> is_whitespace c \<or> c \<in> {34, 39, 96, 40, 41, 44, 59}"

text \<open>The body of the loop over the tokens.\<close>

definition token_shape :: "bool \<Rightarrow> rstr \<Rightarrow> rstr option" where
  "token_shape strict token =
     (if byte_len token < 12 then None
      else if starts_with (lit ''sk-'') token \<or> starts_with (lit ''ghp_'') token
              \<or> starts_with (lit ''AKIA'') token then Some API_TOKEN
      else if list_ex (\<lambda>p. starts_with p token) [lit ''xoxa-'', lit ''xoxb-'', lit ''xoxp-'']
      then Some API_TOKEN
      else if \<not> strict then None
      else if 32 \<le> byte_len token \<and> list_all is_ascii_hexdigit token then Some (lit ''a key'')
      else if 32 \<le> byte_len token \<and>
              list_all (\<lambda>c. is_ascii_alphanumeric c \<or> c \<in> {43, 47, 61, 95, 45}) token \<and>
              list_ex is_ascii_digit token \<and> list_ex is_ascii_uppercase token \<and>
              list_ex is_ascii_lowercase token then Some (lit ''a key'')
      else if is_iban token then Some (lit ''an account number'')
      else None)"

text \<open>The loop over the occurrences of one keyword.\<close>

function keyword_hit :: "rstr \<Rightarrow> rstr \<Rightarrow> bool" where
  "keyword_hit keyword lower =
     (if keyword = [] then False
      else case str_find keyword lower of
        None \<Rightarrow> False
      | Some found \<Rightarrow>
          let after = drop (found + length keyword) lower;
              t = trim_start after
          in starts_with [58] t \<or> starts_with [61] t \<or> keyword_hit keyword after)"
  by pat_completeness auto
termination
proof (relation "measure (\<lambda>(keyword, lower). length lower)", goal_cases)
  case (2 keyword lower found)
  then show ?case using str_find_bound [OF 2(2)] by (cases keyword) auto
qed simp

declare keyword_hit.simps [simp del]

definition SECRET_KEYWORDS :: "rstr list" where
  "SECRET_KEYWORDS = map lit
     [''password'', ''passwd'', ''secret'', ''token'', ''api_key'', ''api-key'', ''api key'', ''apikey'']"

definition credential_shape :: "env \<Rightarrow> rstr \<Rightarrow> bool \<Rightarrow> rstr option" where
  "credential_shape E t strict =
     (let lower = str_to_lowercase E t
      in case find_map (token_shape strict) (split_on token_separator t) of
           Some shape \<Rightarrow> Some shape
         | None \<Rightarrow>
             if list_ex (\<lambda>k. keyword_hit k lower) SECRET_KEYWORDS then Some (lit ''a secret'')
             else if strict \<and> has_long_digit_run t then Some (lit ''an account or card number'')
             else None)"

definition looks_like_credential :: "env \<Rightarrow> rstr \<Rightarrow> rstr option" where
  "looks_like_credential E t = credential_shape E t True"

section \<open>Facts\<close>

datatype FilterRefusal =
  REmpty | TooLong | Multiline | LeadingBullet | ForbiddenTopic rstr | Credential rstr

fun refusal_str :: "FilterRefusal \<Rightarrow> rstr" where
  "refusal_str REmpty = lit ''the line is empty''"
| "refusal_str TooLong =
     lit ''the line is over '' @ nat_to_str FACT_MAX_CHARS @ lit '' characters; keep it to one fact''"
| "refusal_str Multiline = lit ''one line only; it holds a line break''"
| "refusal_str LeadingBullet = lit ''write the fact without a leading `- `; the desk adds the bullet''"
| "refusal_str (ForbiddenTopic _) = lit ''that topic is on the person's do-not-keep list''"
| "refusal_str (Credential shape) = lit ''that looks like '' @ shape @ lit ''; secrets are never kept''"

definition forbidden_in :: "env \<Rightarrow> rstr list \<Rightarrow> rstr \<Rightarrow> rstr option" where
  "forbidden_in E forbidden t = find (\<lambda>topic. topic \<in> set (words E t)) forbidden"

definition check_fact :: "env \<Rightarrow> rstr \<Rightarrow> rstr list \<Rightarrow> FilterRefusal + rstr" where
  "check_fact E t forbidden =
     (let trimmed = trim t
      in if trimmed = [] then Inl REmpty
         else if 10 \<in> set trimmed \<or> 13 \<in> set trimmed then Inl Multiline
         else if FACT_MAX_CHARS < length trimmed then Inl TooLong
         else if starts_with (lit ''- '') trimmed \<or> starts_with (lit ''* '') trimmed
         then Inl LeadingBullet
         else case looks_like_credential E trimmed of
                Some shape \<Rightarrow> Inl (Credential shape)
              | None \<Rightarrow>
                  (case forbidden_in E forbidden trimmed of
                     Some topic \<Rightarrow> Inl (ForbiddenTopic topic)
                   | None \<Rightarrow> Inr trimmed))"

text \<open>The loop of \<open>find_unkeepable\<close>, from a line index on.\<close>

fun unkeepable_loop :: "env \<Rightarrow> rstr list \<Rightarrow> nat \<Rightarrow> rstr list \<Rightarrow> rstr option" where
  "unkeepable_loop E forbidden index [] = None"
| "unkeepable_loop E forbidden index (line # ls) =
     (let trimmed = trim line
      in if trimmed = [] then unkeepable_loop E forbidden (index + 1) ls
         else case credential_shape E trimmed False of
           Some shape \<Rightarrow> Some (lit ''line '' @ nat_to_str (index + 1) @ lit '' looks like '' @ shape)
         | None \<Rightarrow>
             (case forbidden_in E forbidden trimmed of
                Some topic \<Rightarrow>
                  Some (lit ''line '' @ nat_to_str (index + 1) @
                        lit '' touches a topic on the person's do-not-keep list ('' @ topic @ lit '')'')
              | None \<Rightarrow> unkeepable_loop E forbidden (index + 1) ls))"

definition find_unkeepable :: "env \<Rightarrow> rstr \<Rightarrow> rstr list \<Rightarrow> rstr option" where
  "find_unkeepable E t forbidden = unkeepable_loop E forbidden 0 (str_lines t)"

section \<open>Lines\<close>

definition inbox_line :: "'d calendar \<Rightarrow> 'd \<Rightarrow> rstr \<Rightarrow> ClientIdentity \<Rightarrow> rstr" where
  "inbox_line K date said identity =
     lit ''- '' @ format_Ymd K date @ SEPARATOR @ trim said @ VIA_MARKER @ identity_label identity"

record 'd InboxLine =
  il_date :: 'd
  il_fact :: rstr
  il_via :: "ClientIdentity option"

definition parse_inbox_line :: "(rstr \<Rightarrow> 'd option) \<Rightarrow> rstr \<Rightarrow> 'd InboxLine option" where
  "parse_inbox_line parse_Ymd line =
     (case strip_prefix (lit ''- '') (trim line) of
        None \<Rightarrow> None
      | Some body \<Rightarrow>
     (case split_once SEPARATOR body of
        None \<Rightarrow> None
      | Some (date0, rest) \<Rightarrow>
     (case parse_Ymd (trim date0) of
        None \<Rightarrow> None
      | Some date \<Rightarrow>
     (case rsplit_once VIA_MARKER rest of
        None \<Rightarrow> Some \<lparr>il_date = date, il_fact = trim rest, il_via = None\<rparr>
      | Some (said, via) \<Rightarrow>
          (case split_once [64] (trim via) of
             None \<Rightarrow> None
           | Some (harness, host) \<Rightarrow>
               Some \<lparr>il_date = date, il_fact = trim said,
                     il_via = Some \<lparr>ci_harness = harness, ci_host = host\<rparr>\<rparr>)))))"

definition today_line :: "ClientIdentity \<Rightarrow> rstr \<Rightarrow> rstr" where
  "today_line identity line = lit ''- '' @ identity_label identity @ SEPARATOR @ trim line"

definition parse_today_line :: "rstr \<Rightarrow> (ClientIdentity \<times> rstr) option" where
  "parse_today_line line =
     (case strip_prefix (lit ''- '') (trim line) of
        None \<Rightarrow> None
      | Some body \<Rightarrow>
     (case split_once SEPARATOR body of
        None \<Rightarrow> None
      | Some (who, t) \<Rightarrow>
     (case split_once [64] (trim who) of
        None \<Rightarrow> None
      | Some (harness, host) \<Rightarrow> Some (\<lparr>ci_harness = harness, ci_host = host\<rparr>, trim t))))"

section \<open>Writes\<close>

definition inbox_write :: "rstr \<Rightarrow> rstr \<Rightarrow> Write" where
  "inbox_write client_id line =
     write_new client_id INBOX_PATH (Append None [line] AtEnd False False None)"

definition today_write :: "rstr \<Rightarrow> rstr \<Rightarrow> rstr \<Rightarrow> rstr list \<Rightarrow> Write" where
  "today_write client_id note_path heading lines =
     write_new client_id note_path
       (Append (Some (heading_new (trim heading))) lines AtEnd False True None)"

end
