(* ===== verification/Bridge_Props.thy ===== *)
theory Bridge_Props
  imports Bridge_Rules Reminder_Text Apply_Lemmas Samples
begin

text \<open>
  What the bridge's rules promise: paths that stay in the vault, names and facts of a known shape,
  lines that read back, and a remembered fact that lands once however often the call is retried.
\<close>

section \<open>Trimmed strings\<close>

lemma last_drop_while_end: "drop_while_end p xs \<noteq> [] \<Longrightarrow> \<not> p (last (drop_while_end p xs))"
  by (induction xs rule: rev_induct) (auto simp: drop_while_end_snoc)

lemma hd_drop_while_end: "drop_while_end p xs \<noteq> [] \<Longrightarrow> hd (drop_while_end p xs) = hd xs"
  by (induction xs rule: rev_induct) (auto simp: drop_while_end_snoc hd_append split: if_splits)

lemma trim_ends:
  assumes "s \<noteq> []" and "\<not> is_whitespace (hd s)" and "\<not> is_whitespace (last s)"
  shows "trim s = s"
  using assms by (cases s) (simp_all add: trim_def trim_start_def trim_end_def drop_while_end_id)

lemma trim_ends_iff:
  "trim s = s \<longleftrightarrow> s = [] \<or> \<not> is_whitespace (hd s) \<and> \<not> is_whitespace (last s)"
proof
  assume t: "trim s = s"
  have "\<not> is_whitespace (last s)" if "s \<noteq> []"
    using last_drop_while_end [of is_whitespace "trim_start s"] that t by (simp add: trim_def trim_end_def)
  moreover have "\<not> is_whitespace (hd s)" if "s \<noteq> []"
  proof -
    have ne: "trim_start s \<noteq> []" using that t by (auto simp: trim_def trim_end_def drop_while_end_def)
    have "hd s = hd (trim_start s)"
      using hd_drop_while_end [of is_whitespace "trim_start s"] that t by (simp add: trim_def trim_end_def)
    then show ?thesis using ne hd_dropWhile [of is_whitespace s] by (simp add: trim_start_def)
  qed
  ultimately show "s = [] \<or> \<not> is_whitespace (hd s) \<and> \<not> is_whitespace (last s)" by blast
qed (metis trim_Nil trim_ends)

lemma trim_idem [simp]: "trim (trim s) = trim s"
proof (cases "trim s = []")
  case False
  then have ne: "trim_end (trim_start s) \<noteq> []" by (simp add: trim_def)
  then have st: "trim_start s \<noteq> []" by (auto simp: trim_end_def drop_while_end_def)
  have "\<not> is_whitespace (hd (trim_start s))" using st hd_dropWhile [of is_whitespace s] by (simp add: trim_start_def)
  then have "\<not> is_whitespace (hd (trim s))"
    using hd_drop_while_end [of is_whitespace "trim_start s"] ne by (simp add: trim_def trim_end_def)
  moreover have "\<not> is_whitespace (last (trim s))"
    using last_drop_while_end [of is_whitespace "trim_start s"] ne by (simp add: trim_def trim_end_def)
  ultimately show ?thesis using False by (intro trim_ends)
qed simp

section \<open>Paths\<close>

lemma component_error_None:
  "component_error cs = None \<longleftrightarrow> list_all (\<lambda>c. c \<noteq> [] \<and> \<not> starts_with [46] c) cs"
  by (induction cs) auto

lemma split_on_hd_slash: "is_slash (hd p) \<Longrightarrow> p \<noteq> [] \<Longrightarrow> [] \<in> set (split_on is_slash p)"
  by (cases p) auto

section \<open>Names\<close>

definition harness_char :: "rchar \<Rightarrow> bool" where
  "harness_char c \<longleftrightarrow> is_ascii_lowercase c \<or> is_ascii_digit c \<or> c = 45"

lemma lower_alnum: "is_ascii_alphanumeric (to_ascii_lowercase c) \<Longrightarrow> harness_char (to_ascii_lowercase c)"
  by (auto simp: is_ascii_alphanumeric_def to_ascii_lowercase_def harness_char_def is_ascii_lowercase_def
      is_ascii_uppercase_def is_ascii_digit_def split: if_splits)

lemma harness_loop_chars: "list_all harness_char (harness_loop b cs)"
proof (induction b cs rule: harness_loop.induct)
  case (2 b c cs)
  have "harness_char 45" by (simp add: harness_char_def)
  with 2 lower_alnum [of c] show ?case by (auto simp: Let_def)
qed simp

lemma drop_while_end_set: "set (drop_while_end p xs) \<subseteq> set xs"
  using set_mono_prefix [OF drop_while_end_prefix [of p xs]] .

lemma sanitize_chars: "list_all harness_char (sanitize_harness raw)"
proof -
  let ?l = "harness_loop True (take 60 (trim raw))"
  have "set (trim_matches (\<lambda>c. c = 45) ?l) \<subseteq> set ?l"
    using drop_while_end_set [of "\<lambda>c. c = 45" "dropWhile (\<lambda>c. c = 45) ?l"]
    by (auto simp: trim_matches_def trim_end_matches_def trim_start_matches_def dest: set_dropWhileD)
  then have "list_all harness_char (take 40 (trim_matches (\<lambda>c. c = 45) ?l))"
    using harness_loop_chars [of True "take 60 (trim raw)"] by (auto simp: list_all_iff dest: in_set_takeD)
  moreover have "list_all harness_char (lit ''agent'')"
    by (simp add: harness_char_def is_ascii_lowercase_def)
  ultimately show ?thesis by (simp only: sanitize_harness_def Let_def if_split) blast
qed

lemma sanitize_nonempty: "sanitize_harness raw \<noteq> []"
  by (simp add: sanitize_harness_def Let_def)

lemma sanitize_hd: "hd (sanitize_harness raw) \<noteq> 45"
proof -
  have "hd (trim_matches (\<lambda>c. c = 45) s) \<noteq> 45" if "trim_matches (\<lambda>c. c = 45) s \<noteq> []" for s
  proof -
    have ne: "dropWhile (\<lambda>c. c = 45) s \<noteq> []"
      using that by (metis append_Nil drop_while_end_set set_empty subset_empty trim_matches_def
          trim_end_matches_def trim_start_matches_def)
    have "hd (trim_matches (\<lambda>c. c = 45) s) = hd (dropWhile (\<lambda>c. c = 45) s)"
      using that unfolding trim_matches_def trim_end_matches_def trim_start_matches_def by (rule hd_drop_while_end)
    then show ?thesis using hd_dropWhile [OF ne] by simp
  qed
  then show ?thesis by (simp add: sanitize_harness_def Let_def hd_take)
qed

lemma harness_char_facts:
  "harness_char c \<Longrightarrow> \<not> is_whitespace c \<and> c \<noteq> 183 \<and> c \<noteq> 64 \<and> c \<noteq> 10 \<and> c \<noteq> 13"
  by (auto simp: harness_char_def is_ascii_lowercase_def is_ascii_digit_def is_whitespace_def)

section \<open>Facts\<close>

lemma forbidden_in_None: "forbidden_in E forbidden t = None \<longleftrightarrow> set forbidden \<inter> set (words E t) = {}"
  by (auto simp: forbidden_in_def find_None_iff)

lemma check_fact_ok_iff:
  "check_fact E t forbidden = Inr f \<longleftrightarrow>
     f = trim t \<and> f \<noteq> [] \<and> length f \<le> FACT_MAX_CHARS \<and> \<not> has_break f \<and>
     \<not> starts_with (lit ''- '') f \<and> \<not> starts_with (lit ''* '') f \<and>
     looks_like_credential E f = None \<and> set forbidden \<inter> set (words E f) = {}"
  unfolding check_fact_def Let_def has_break_def forbidden_in_None [symmetric]
  by (auto split: option.splits)

section \<open>Printed lines\<close>

text \<open>The hosts whose label is read back from a line.\<close>

definition host_ok :: "rstr \<Rightarrow> bool" where
  "host_ok host \<longleftrightarrow> 183 \<notin> set host \<and> trim_end host = host \<and> \<not> has_break host"

lemma identity_label_ends:
  fixes harness :: rstr
  assumes "host_ok host"
  defines "label \<equiv> identity_label (identity_new harness host)"
  shows "label \<noteq> []" and "\<not> is_whitespace (hd label)" and "\<not> is_whitespace (last label)"
    and "183 \<notin> set label" and "\<not> has_break label"
    and "split_once [64] label = Some (sanitize_harness harness, host)"
proof -
  let ?h = "sanitize_harness harness"
  have l: "label = ?h @ [64] @ host" by (simp add: label_def identity_label_def identity_new_def)
  have c: "\<not> is_whitespace x \<and> x \<noteq> 183 \<and> x \<noteq> 64 \<and> x \<noteq> 10 \<and> x \<noteq> 13" if "x \<in> set ?h" for x
    using sanitize_chars [of harness] that by (intro harness_char_facts) (auto simp: list_all_iff)
  show "label \<noteq> []" by (simp add: l)
  show "\<not> is_whitespace (hd label)" using c [of "hd ?h"] sanitize_nonempty [of harness] by (simp add: l)
  show "\<not> is_whitespace (last label)"
    using assms(1) last_drop_while_end [of is_whitespace host]
    by (cases "host = []") (simp_all add: l host_ok_def trim_end_def is_whitespace_def)
  show "183 \<notin> set label" using c assms(1) by (auto simp: l host_ok_def)
  show "\<not> has_break label" using c assms(1) by (auto simp: l host_ok_def has_break_def)
  show "split_once [64] label = Some (?h, host)" unfolding l by (rule split_once_char) (use c in blast)
qed

lemma split_separator:
  assumes "183 \<notin> set a"
  shows "split_once SEPARATOR (a @ SEPARATOR @ b) = Some (a, b)"
proof (rule split_once_first)
  fix j assume j: "j < length a"
  show "\<not> starts_with SEPARATOR (drop j (a @ SEPARATOR @ b))"
  proof
    assume "starts_with SEPARATOR (drop j (a @ SEPARATOR @ b))"
    from starts_with_nth(2) [OF this, of 1] have "(a @ SEPARATOR @ b) ! (j + 1) = 183" by (simp add: SEPARATOR_def)
    then show False using j assms
      by (cases "j + 1 < length a") (auto simp: nth_append SEPARATOR_def dest: nth_mem)
  qed
qed (simp add: SEPARATOR_def)

lemma rsplit_via:
  assumes "183 \<notin> set b"
  shows "rsplit_once VIA_MARKER (a @ VIA_MARKER @ b) = Some (a, b)"
proof (rule rsplit_once_last)
  fix j :: nat assume j: "j \<noteq> 0"
  show "\<not> starts_with VIA_MARKER (drop j (VIA_MARKER @ b))"
  proof
    assume st: "starts_with VIA_MARKER (drop j (VIA_MARKER @ b))"
    have i: "j + 1 < length (VIA_MARKER @ b)" "(VIA_MARKER @ b) ! (j + 1) = 183"
      using starts_with_nth [OF st, of 1] by (simp_all add: VIA_MARKER_def)
    show False
    proof (cases "j + 1 < length VIA_MARKER")
      case True
      then have "j \<in> {1, 2, 3, 4, 5}" using j by (auto simp: VIA_MARKER_def)
      with i(2) show False by (auto simp: VIA_MARKER_def)
    next
      case False
      then have "(VIA_MARKER @ b) ! (j + 1) = b ! (j + 1 - length VIA_MARKER)" by (simp add: nth_append)
      moreover have "j + 1 - length VIA_MARKER < length b" using i(1) False by simp
      ultimately show False using i(2) assms nth_mem by metis
    qed
  qed
qed (simp add: VIA_MARKER_def)

lemma date_text:
  assumes "calendar_ok K" and "date_fits K d"
  shows "183 \<notin> set (format_Ymd K d)" and "trim (format_Ymd K d) = format_Ymd K d"
    and "\<not> has_break (format_Ymd K d)" and "\<exists>c cs. format_Ymd K d = c # cs \<and> is_ascii_digit c"
proof -
  obtain y m n where "format_Ymd K d = pad_zeros 4 (nat y) @ [45] @ pad_zeros 2 m @ [45] @ pad_zeros 2 n"
    using assms by (auto simp: date_fits_def calendar_ok_def)
  moreover have "pad_zeros 4 k \<noteq> []" "list_all is_ascii_digit (pad_zeros 4 k)" for k
    using length_nat_to_str_pos [of k] pad_zeros_digits [of 4 k] by (simp add: pad_zeros_def Let_def, blast)
  ultimately show "\<exists>c cs. format_Ymd K d = c # cs \<and> is_ascii_digit c"
    by (metis append_Cons list.exhaust list.pred_inject(2))
  note n = format_Ymd_no_char [OF assms]
  show "183 \<notin> set (format_Ymd K d)" by (rule n) simp
  show "\<not> has_break (format_Ymd K d)" using n [of 10] n [of 13] by (simp add: has_break_def)
  show "trim (format_Ymd K d) = format_Ymd K d"
  proof (rule trim_no_ws)
    fix c assume "c \<in> set (format_Ymd K d)"
    then have "45 \<le> c \<and> c \<le> 57" using n [of c] by (meson not_le)
    then show "\<not> is_whitespace c" by (auto simp: is_whitespace_def)
  qed
qed

section \<open>The inbox line as a codec\<close>

definition print_inbox :: "'d calendar \<Rightarrow> 'd InboxLine \<Rightarrow> rstr" where
  "print_inbox K l = inbox_line K (il_date l) (il_fact l)
     (case il_via l of Some i \<Rightarrow> i | None \<Rightarrow> \<lparr>ci_harness = [], ci_host = []\<rparr>)"

text \<open>The lines the desk writes: a date the calendar prints and reads back, an accepted fact and a
  client whose harness name was sanitised.\<close>

definition inbox_printable :: "'d calendar \<Rightarrow> (rstr \<Rightarrow> 'd option) \<Rightarrow> 'd InboxLine \<Rightarrow> bool" where
  "inbox_printable K parse_Ymd l \<longleftrightarrow>
     calendar_ok K \<and> date_fits K (il_date l) \<and> parse_Ymd (format_Ymd K (il_date l)) = Some (il_date l) \<and>
     trim (il_fact l) = il_fact l \<and>
     (\<exists>harness host. host_ok host \<and> il_via l = Some (identity_new harness host))"

lemma trim_bullet: "\<not> is_whitespace (last s) \<Longrightarrow> s \<noteq> [] \<Longrightarrow> trim (lit ''- '' @ s) = lit ''- '' @ s"
  by (rule trim_ends) (simp_all add: is_whitespace_def)

lemma parse_print_inbox:
  assumes "inbox_printable K parse_Ymd l"
  shows "parse_inbox_line parse_Ymd (print_inbox K l) = Some l"
proof -
  from assms obtain harness host where via: "il_via l = Some (identity_new harness host)" and host: "host_ok host"
    and K: "calendar_ok K" "date_fits K (il_date l)"
    and parse: "parse_Ymd (format_Ymd K (il_date l)) = Some (il_date l)" and t: "trim (il_fact l) = il_fact l"
    by (auto simp: inbox_printable_def)
  let ?i = "identity_new harness host" and ?d = "format_Ymd K (il_date l)"
  note L = identity_label_ends [OF host, of harness] and D = date_text [OF K]
  let ?rest = "il_fact l @ VIA_MARKER @ identity_label ?i"
  have line: "print_inbox K l = lit ''- '' @ ?d @ SEPARATOR @ ?rest"
    by (simp add: print_inbox_def inbox_line_def via t)
  have "trim (print_inbox K l) = print_inbox K l"
    unfolding line using L(1,3) by (intro trim_bullet) (simp_all add: SEPARATOR_def)
  then have "strip_prefix (lit ''- '') (trim (print_inbox K l)) = Some (?d @ SEPARATOR @ ?rest)"
    by (simp only: line strip_prefix_append)
  moreover have "split_once SEPARATOR (?d @ SEPARATOR @ ?rest) = Some (?d, ?rest)" by (rule split_separator) (rule D)
  moreover have "rsplit_once VIA_MARKER ?rest = Some (il_fact l, identity_label ?i)" by (rule rsplit_via) (rule L)
  moreover have "trim (identity_label ?i) = identity_label ?i" using L by (intro trim_ends)
  ultimately show ?thesis
    using D(2) parse t via L(6)
    by (simp add: parse_inbox_line_def identity_new_def)
qed

interpretation inbox_text: codec "print_inbox K" "parse_inbox_line parse_Ymd" "inbox_printable K parse_Ymd"
  for K parse_Ymd
  by unfold_locales (rule parse_print_inbox)

section \<open>The inbox line in a note\<close>

lemma bullet_plain: "is_ascii_digit c \<Longrightarrow> plain_line (45 # 32 # c # cs) \<and> solid (45 # 32 # c # cs)"
  by (auto simp: plain_line_def opens_fence_def parse_heading_def closes_front_matter_def
      trim_start_matches_def run_length_def solid_def blank_def is_thematic_break_def is_ascii_digit_def
      trim_eq_Nil is_whitespace_def)

lemma inbox_line_plain:
  assumes "inbox_printable K parse_Ymd l" and "\<not> has_break (il_fact l)"
  shows "plain_line (print_inbox K l)" and "solid (print_inbox K l)" and "\<not> has_break (print_inbox K l)"
proof -
  from assms(1) obtain harness host where via: "il_via l = Some (identity_new harness host)" and host: "host_ok host"
    and K: "calendar_ok K" "date_fits K (il_date l)" and t: "trim (il_fact l) = il_fact l"
    by (auto simp: inbox_printable_def)
  note D = date_text [OF K]
  obtain c cs where "format_Ymd K (il_date l) = c # cs" "is_ascii_digit c" using D(4) by blast
  then have "\<exists>cs'. print_inbox K l = 45 # 32 # c # cs'" "is_ascii_digit c"
    by (simp_all add: print_inbox_def inbox_line_def)
  then show "plain_line (print_inbox K l)" "solid (print_inbox K l)" using bullet_plain by auto
  show "\<not> has_break (print_inbox K l)"
    using D(3) identity_label_ends(5) [OF host, of harness] assms(2)
    by (simp add: print_inbox_def inbox_line_def via t has_break_def SEPARATOR_def VIA_MARKER_def)
qed

section \<open>Evaluated instances\<close>

definition sample_inbox :: rstr where
  "sample_inbox = from_lines [''# Noted'', [], ''- 2026-07-19'']"

lemma sample_date:
  "date_fits gregorian (2026, 7, 20)" "parse_iso_date gregorian (format_Ymd gregorian (2026, 7, 20)) = Some (2026, 7, 20)"
proof -
  have "from_ymd_opt gregorian 2026 7 20 = Some (2026, 7, 20)" by code_simp
  then show "date_fits gregorian (2026, 7, 20)" unfolding date_fits_def by fastforce
  then show "parse_iso_date gregorian (format_Ymd gregorian (2026, 7, 20)) = Some (2026, 7, 20)"
    by (rule parse_iso_date_format [OF gregorian_ok])
qed

lemma sample_fact: "check_fact ascii_env (lit '' Likes tea '') [lit ''salary''] = Inr (lit ''Likes tea'')"
  by code_simp

lemma sample_host_ok: "host_ok (lit ''robin'')"
  by code_simp

section \<open>Properties\<close>

text \<open>A path passes exactly when it is not empty, names no drive, and every component between its
  slashes and backslashes is neither empty nor starts with a dot: nothing absolute, no way up and no
  dot-folder gets through.\<close>

theorem vault_path_ok_iff:
  "validate_vault_path path = Inr () \<longleftrightarrow>
     trim path \<noteq> [] \<and> get_at (trim path) 1 \<noteq> Some 58 \<and>
     list_all (\<lambda>c. c \<noteq> [] \<and> \<not> starts_with [46] c) (split_on is_slash (trim path))"
proof -
  let ?cs = "split_on is_slash (trim path)"
  have "[] \<in> set (split_on is_slash p)" if "starts_with [47] p \<or> starts_with [92] p" for p
    using that by (cases p) (auto simp: is_slash_def)
  then have "component_error ?cs \<noteq> None" if "starts_with [47] (trim path) \<or> starts_with [92] (trim path)"
    using that unfolding component_error_None list_all_iff by blast
  then show ?thesis
    unfolding component_error_None [symmetric] by (auto simp: validate_vault_path_def Let_def split: option.split)
qed

text \<open>Whatever the header said, a recorded harness name is a non-empty string of at most forty
  lower-case ASCII letters, digits and dashes that does not start with a dash.\<close>

theorem sanitize_harness_shape:
  "sanitize_harness raw \<noteq> [] \<and> length (sanitize_harness raw) \<le> 40 \<and>
   list_all (\<lambda>c. is_ascii_lowercase c \<or> is_ascii_digit c \<or> c = 45) (sanitize_harness raw) \<and>
   hd (sanitize_harness raw) \<noteq> 45"
  using sanitize_nonempty sanitize_hd sanitize_chars [of raw]
  by (auto simp: harness_char_def [abs_def] sanitize_harness_def Let_def)

text \<open>A fact is accepted exactly when its trimmed text is one non-empty line of at most 300
  characters without a bullet, shows no credential shape and shares no word with the forbidden
  topics; and the text accepted is that trimmed text.\<close>

theorem check_fact_spec:
  "check_fact E t forbidden = Inr f \<longleftrightarrow>
     f = trim t \<and> f \<noteq> [] \<and> length f \<le> 300 \<and> 10 \<notin> set f \<and> 13 \<notin> set f \<and>
     \<not> starts_with (lit ''- '') f \<and> \<not> starts_with (lit ''* '') f \<and>
     credential_shape E f True = None \<and> set forbidden \<inter> set (words E f) = {}"
  unfolding check_fact_ok_iff looks_like_credential_def has_break_def FACT_MAX_CHARS_def by blast

text \<open>The line of an accepted fact reads back as what was said, when and by whom.\<close>

theorem inbox_line_roundtrip:
  assumes "calendar_ok K" and "date_fits K d" and "parse_Ymd (format_Ymd K d) = Some d"
    and "check_fact E t forbidden = Inr f" and "host_ok host"
  shows "parse_inbox_line parse_Ymd (inbox_line K d f (identity_new harness host)) =
     Some \<lparr>il_date = d, il_fact = f, il_via = Some (identity_new harness host)\<rparr>"
proof -
  have "inbox_printable K parse_Ymd \<lparr>il_date = d, il_fact = f, il_via = Some (identity_new harness host)\<rparr>"
    using assms by (auto simp: inbox_printable_def check_fact_ok_iff)
  from inbox_text.parse_print [OF this] show ?thesis by (simp add: print_inbox_def)
qed

theorem inbox_line_roundtrip_witness:
  "parse_inbox_line (parse_iso_date gregorian)
     (inbox_line gregorian (2026, 7, 20) (lit ''Likes tea'') (identity_new (lit ''Claude Code!'') (lit ''robin''))) =
   Some \<lparr>il_date = (2026, 7, 20), il_fact = lit ''Likes tea'',
         il_via = Some \<lparr>ci_harness = lit ''claude-code'', ci_host = lit ''robin''\<rparr>\<rparr>"
proof -
  have "identity_new (lit ''Claude Code!'') (lit ''robin'') =
      \<lparr>ci_harness = lit ''claude-code'', ci_host = lit ''robin''\<rparr>" by code_simp
  with inbox_line_roundtrip [where parse_Ymd = "parse_iso_date gregorian" and harness = "lit ''Claude Code!''",
      OF gregorian_ok sample_date sample_fact sample_host_ok]
  show ?thesis by simp
qed

text \<open>The whole path of a remembered fact, from the filter to the note: the write made for an
  accepted fact is valid, keeps every line of the inbox and brings its own, and a call that is
  retried writes it once.  The inbox has content and does not end inside a fence or front matter.\<close>

theorem remember_once:
  assumes "calendar_ok K" and "date_fits K d" and "parse_Ymd (format_Ymd K d) = Some d"
    and "check_fact E t forbidden = Inr f" and "host_ok host" and "trim client_id \<noteq> []"
    and "inbox = [] \<or> last inbox \<noteq> 13" and "0 < s_body_end (whole (doc_split inbox))"
    and "scan_at (doc_split inbox) (s_body_end (whole (doc_split inbox))) = scan_init"
    and w: "w = inbox_write client_id (inbox_line K d f (identity_new harness host))"
  shows "validate w = Inr () \<and>
     subseq (texts (doc_split inbox)) (texts (doc_split (write_step E w inbox))) \<and>
     apply_write E (Some (write_step E w inbox)) w None = \<lparr>a_text = write_step E w inbox, a_outcome = Noop\<rparr>"
proof -
  let ?l = "\<lparr>il_date = d, il_fact = f, il_via = Some (identity_new harness host)\<rparr>"
  let ?line = "inbox_line K d f (identity_new harness host)" and ?d = "doc_split inbox"
  have p: "inbox_printable K parse_Ymd ?l" "\<not> has_break (il_fact ?l)"
    using assms by (auto simp: inbox_printable_def check_fact_ok_iff)
  have line: "plain_line ?line" "solid ?line" "\<not> has_break ?line"
    using inbox_line_plain [OF p] by (simp_all add: print_inbox_def)
  have oper: "w_operation w = Append None [?line] AtEnd False False None"
    by (simp add: w inbox_write_def write_new_def)
  have v: "validate w = Inr ()"
    using assms(6) line(3) unfolding validate_ok_iff oper
    by (simp add: w inbox_write_def write_new_def op_headings_def INBOX_PATH_def trim_eq_Nil is_whitespace_def)
  have at: "append_at E ?d (whole ?d) AtEnd None = s_body_end (whole ?d)" by (simp add: append_at_def)
  have s: "find_section E ?d None = Some (whole ?d)" by (simp add: find_section_def)
  note lands = append_lands [OF oper v assms(7) s, unfolded at, OF assms(8,9), of None]
  show ?thesis using v lands line by (simp add: apply_write_present)
qed

theorem remember_once_witness:
  "\<exists>w. w = inbox_write (lit ''b'') (inbox_line gregorian (2026, 7, 20) (lit ''Likes tea'')
        (identity_new (lit ''codex'') (lit ''robin''))) \<and>
     validate w = Inr () \<and> write_step ascii_env w sample_inbox \<noteq> sample_inbox \<and>
     a_outcome (apply_write ascii_env (Some (write_step ascii_env w sample_inbox)) w None) = Noop"
proof -
  let ?w = "inbox_write (lit ''b'') (inbox_line gregorian (2026, 7, 20) (lit ''Likes tea'')
        (identity_new (lit ''codex'') (lit ''robin'')))"
  have "trim (lit ''b'') \<noteq> []" "sample_inbox = [] \<or> last sample_inbox \<noteq> 13"
    "0 < s_body_end (whole (doc_split sample_inbox))"
    "scan_at (doc_split sample_inbox) (s_body_end (whole (doc_split sample_inbox))) = scan_init"
    by code_simp+
  from remember_once [where parse_Ymd = "parse_iso_date gregorian", OF gregorian_ok sample_date sample_fact sample_host_ok this refl]
  have "validate ?w = Inr ()" "a_outcome (apply_write ascii_env (Some (write_step ascii_env ?w sample_inbox)) ?w None) = Noop"
    by simp_all
  moreover have "write_step ascii_env ?w sample_inbox \<noteq> sample_inbox" by code_simp
  ultimately show ?thesis by blast
qed

end
