(* ===== verification/Offline.thy ===== *)
theory Offline
  imports Write "HOL-Library.While_Combinator"
begin

text \<open>
  What a bridge client keeps for when the desk is away (\<open>crates/thock-bridge/offline.rs\<close>): the
  cache and the outbox.  The outbox is one text file; the model keeps its text and a script of the
  faults the file system answers with, one per file operation, so that every error path of the
  source is a branch.  \<open>serde_json\<close> on an entry is the record \<open>entry_serde\<close>.  The \<open>send\<close> closure
  runs without the lock, so it may change the file: that is how another process on the machine
  pushes while a drain is under way.
\<close>

section \<open>The disk under the outbox\<close>

record Disk =
  d_file :: "rstr option"
  d_faults :: "rstr option list"

text \<open>One file operation: the fault it meets, if any.  The script runs out into success.\<close>

definition io_step :: "Disk \<Rightarrow> rstr option \<times> Disk" where
  "io_step d = (case d_faults d of [] \<Rightarrow> (None, d) | f # fs \<Rightarrow> (f, d\<lparr>d_faults := fs\<rparr>))"

section \<open>Entries\<close>

record OutboxEntry =
  oe_id :: rstr
  oe_at :: rstr
  oe_tool :: rstr
  oe_args :: Value
  oe_harness :: rstr

definition entry_new :: "rstr \<Rightarrow> rstr \<Rightarrow> rstr \<Rightarrow> Value \<Rightarrow> rstr \<Rightarrow> OutboxEntry" where
  "entry_new uuid now tool args harness =
     \<lparr>oe_id = uuid, oe_at = now, oe_tool = tool, oe_args = args, oe_harness = harness\<rparr>"

record entry_serde =
  entry_to_string :: "OutboxEntry \<Rightarrow> rstr + rstr"
  entry_from_str :: "rstr \<Rightarrow> OutboxEntry option"

datatype DrainFailure = Transport rstr | Refused rstr

record DrainStop =
  st_entry :: OutboxEntry
  st_reason :: rstr

record DrainReport =
  dr_sent :: nat
  dr_refused :: "(OutboxEntry \<times> rstr) list"
  dr_stopped :: "DrainStop option"

definition report_default :: DrainReport where
  "report_default = \<lparr>dr_sent = 0, dr_refused = [], dr_stopped = None\<rparr>"

section \<open>The outbox\<close>

definition lock_take :: "Disk \<Rightarrow> (rstr + unit) \<times> Disk" where
  "lock_take d = (case io_step d of (Some e, d') \<Rightarrow> (Inl e, d') | (None, d') \<Rightarrow> (Inr (), d'))"

definition outbox_push :: "entry_serde \<Rightarrow> OutboxEntry \<Rightarrow> Disk \<Rightarrow> (rstr + unit) \<times> Disk" where
  "outbox_push S entry d =
     (case lock_take d of
        (Inl e, d1) \<Rightarrow> (Inl e, d1)
      | (Inr _, d1) \<Rightarrow>
     (case io_step d1 of
        (Some e, d2) \<Rightarrow> (Inl e, d2)
      | (None, d2) \<Rightarrow>
          let before_write = (case d_file d2 of Some t \<Rightarrow> t | None \<Rightarrow> []);
              d3 = d2\<lparr>d_file := Some before_write\<rparr>
          in (case entry_to_string S entry of
                Inl e \<Rightarrow> (Inl e, d3)
              | Inr line \<Rightarrow>
                  (case io_step d3 of
                     (Some e, d4) \<Rightarrow> (Inl e, d4)
                   | (None, d4) \<Rightarrow> (Inr (), d4\<lparr>d_file := Some (before_write @ line @ [10])\<rparr>)))))"

text \<open>The entries a text of the file holds: the lines that are not blank and read as entries.\<close>

definition text_entries :: "entry_serde \<Rightarrow> rstr \<Rightarrow> OutboxEntry list" where
  "text_entries S raw =
     List.map_filter (entry_from_str S) (filter (\<lambda>line. trim line \<noteq> []) (str_lines raw))"

definition outbox_entries :: "entry_serde \<Rightarrow> Disk \<Rightarrow> OutboxEntry list \<times> Disk" where
  "outbox_entries S d =
     (case io_step d of
        (Some _, d1) \<Rightarrow> ([], d1)
      | (None, d1) \<Rightarrow> (case d_file d1 of None \<Rightarrow> ([], d1) | Some raw \<Rightarrow> (text_entries S raw, d1)))"

definition outbox_len :: "entry_serde \<Rightarrow> Disk \<Rightarrow> nat \<times> Disk" where
  "outbox_len S d = (let (es, d') = outbox_entries S d in (length es, d'))"

definition outbox_is_empty :: "entry_serde \<Rightarrow> Disk \<Rightarrow> bool \<times> Disk" where
  "outbox_is_empty S d = (let (n, d') = outbox_len S d in (n = 0, d'))"

fun entries_text :: "entry_serde \<Rightarrow> OutboxEntry list \<Rightarrow> rstr + rstr" where
  "entries_text S [] = Inr []"
| "entries_text S (e # es) =
     (case entry_to_string S e of
        Inl m \<Rightarrow> Inl m
      | Inr line \<Rightarrow> (case entries_text S es of Inl m \<Rightarrow> Inl m | Inr t \<Rightarrow> Inr (line @ [10] @ t)))"

definition outbox_rewrite :: "entry_serde \<Rightarrow> OutboxEntry list \<Rightarrow> Disk \<Rightarrow> (rstr + unit) \<times> Disk" where
  "outbox_rewrite S es d =
     (if es = [] then
        (case io_step d of
           (None, d1) \<Rightarrow> (Inr (), d1\<lparr>d_file := None\<rparr>)
         | (Some e, d1) \<Rightarrow> if d_file d1 = None then (Inr (), d1) else (Inl e, d1))
      else
        (case entries_text S es of
           Inl m \<Rightarrow> (Inl m, d)
         | Inr t \<Rightarrow>
             (case io_step d of
                (Some e, d1) \<Rightarrow> (Inl e, d1)
              | (None, d1) \<Rightarrow> (Inr (), d1\<lparr>d_file := Some t\<rparr>))))"

definition outbox_remove :: "entry_serde \<Rightarrow> rstr \<Rightarrow> Disk \<Rightarrow> (rstr + unit) \<times> Disk" where
  "outbox_remove S i d =
     (case lock_take d of
        (Inl e, d1) \<Rightarrow> (Inl e, d1)
      | (Inr _, d1) \<Rightarrow>
          let (es, d2) = outbox_entries S d1
          in outbox_rewrite S (filter (\<lambda>e. oe_id e \<noteq> i) es) d2)"

section \<open>Draining\<close>

text \<open>The variables of the loop of \<open>drain\<close>, with the state \<open>'s\<close> of the closure \<open>send\<close>; \<open>ds_returned\<close>
  is set by a \<open>return\<close>.\<close>

record 's DrainState =
  ds_disk :: Disk
  ds_send :: 's
  ds_done :: "rstr list"
  ds_report :: DrainReport
  ds_returned :: bool

type_synonym 's sender = "Disk \<Rightarrow> 's \<Rightarrow> OutboxEntry \<Rightarrow> (DrainFailure + unit) \<times> Disk \<times> 's"

definition stop_at :: "OutboxEntry option \<Rightarrow> rstr \<Rightarrow> DrainReport \<Rightarrow> DrainReport" where
  "stop_at entry reason report =
     report\<lparr>dr_stopped := map_option (\<lambda>e. \<lparr>st_entry = e, st_reason = reason\<rparr>) entry\<rparr>"

text \<open>After a call that landed or was refused: the entry is done and leaves the file.\<close>

definition settle ::
    "entry_serde \<Rightarrow> OutboxEntry \<Rightarrow> Disk \<Rightarrow> 's \<Rightarrow> DrainReport \<Rightarrow> 's DrainState \<Rightarrow> 's DrainState" where
  "settle S entry d s report st =
     (case outbox_remove S (oe_id entry) d of
        (Inr _, d') \<Rightarrow>
          st\<lparr>ds_disk := d', ds_send := s, ds_done := ds_done st @ [oe_id entry], ds_report := report\<rparr>
      | (Inl e, d') \<Rightarrow>
          st\<lparr>ds_disk := d', ds_send := s, ds_done := ds_done st @ [oe_id entry],
             ds_report := stop_at (Some entry) (lit ''couldn't update the outbox: '' @ e) report,
             ds_returned := True\<rparr>)"

definition drain_step :: "entry_serde \<Rightarrow> 's sender \<Rightarrow> 's DrainState \<Rightarrow> 's DrainState" where
  "drain_step S send st =
     (case lock_take (ds_disk st) of
        (Inl e, d1) \<Rightarrow>
          let (es, d2) = outbox_entries S d1
          in st\<lparr>ds_disk := d2, ds_returned := True,
                ds_report := stop_at (first_opt es) (lit ''couldn't lock the outbox: '' @ e) (ds_report st)\<rparr>
      | (Inr _, d1) \<Rightarrow>
          let (es, d2) = outbox_entries S d1
          in (case find (\<lambda>e. oe_id e \<notin> set (ds_done st)) es of
                None \<Rightarrow> st\<lparr>ds_disk := d2, ds_returned := True\<rparr>
              | Some entry \<Rightarrow>
                  (case send d2 (ds_send st) entry of
                     (Inr _, d3, s) \<Rightarrow>
                       settle S entry d3 s ((ds_report st)\<lparr>dr_sent := dr_sent (ds_report st) + 1\<rparr>) st
                   | (Inl (Refused reason), d3, s) \<Rightarrow>
                       settle S entry d3 s
                         ((ds_report st)\<lparr>dr_refused := dr_refused (ds_report st) @ [(entry, reason)]\<rparr>) st
                   | (Inl (Transport reason), d3, s) \<Rightarrow>
                       st\<lparr>ds_disk := d3, ds_send := s, ds_returned := True,
                          ds_report := stop_at (Some entry) reason (ds_report st)\<rparr>)))"

definition drain_start :: "Disk \<Rightarrow> 's \<Rightarrow> 's DrainState" where
  "drain_start d s =
     \<lparr>ds_disk = d, ds_send = s, ds_done = [], ds_report = report_default, ds_returned = False\<rparr>"

text \<open>The loop may run for as long as others keep pushing: it is \<open>None\<close> when it does not return.\<close>

definition outbox_drain :: "entry_serde \<Rightarrow> 's sender \<Rightarrow> Disk \<Rightarrow> 's \<Rightarrow> 's DrainState option" where
  "outbox_drain S send d s =
     while_option (\<lambda>st. \<not> ds_returned st) (drain_step S send) (drain_start d s)"

section \<open>The cache\<close>

record CachedText =
  ct_as_of :: rstr
  ct_text :: rstr

text \<open>The files under the cache's root, by relative path, and \<open>serde_json\<close> on a cached text.\<close>

type_synonym Cache = "rstr \<Rightarrow> rstr option"

record cached_serde =
  cached_to_vec :: "CachedText \<Rightarrow> rstr + rstr"
  cached_from_slice :: "rstr \<Rightarrow> CachedText option"

text \<open>A store answers with the fault of making the folder or of writing the file, when there is one.\<close>

type_synonym store_faults = "rstr option \<times> rstr option"

definition write_json ::
    "cached_serde \<Rightarrow> store_faults \<Rightarrow> rstr \<Rightarrow> CachedText \<Rightarrow> Cache \<Rightarrow> (rstr + unit) \<times> Cache" where
  "write_json S io relative value cache =
     (case fst io of
        Some e \<Rightarrow> (Inl e, cache)
      | None \<Rightarrow>
          (case cached_to_vec S value of
             Inl e \<Rightarrow> (Inl e, cache)
           | Inr json \<Rightarrow>
               (case snd io of
                  Some e \<Rightarrow> (Inl e, cache)
                | None \<Rightarrow> (Inr (), cache(relative := Some json)))))"

definition read_json :: "cached_serde \<Rightarrow> rstr \<Rightarrow> Cache \<Rightarrow> CachedText option" where
  "read_json S relative cache = Option.bind (cache relative) (cached_from_slice S)"

definition sha256_hex :: "env \<Rightarrow> rstr \<Rightarrow> rstr" where
  "sha256_hex E t = hex_encode E (sha256 E (utf8 t))"

definition note_file :: "env \<Rightarrow> rstr \<Rightarrow> rstr" where
  "note_file E path = lit ''notes/'' @ sha256_hex E path @ lit ''.json''"

definition search_file :: "rstr \<Rightarrow> rstr" where
  "search_file key = lit ''searches/'' @ key @ lit ''.json''"

definition store_context ::
    "cached_serde \<Rightarrow> store_faults \<Rightarrow> rstr \<Rightarrow> rstr \<Rightarrow> Cache \<Rightarrow> (rstr + unit) \<times> Cache" where
  "store_context S io now t = write_json S io (lit ''context.json'') \<lparr>ct_as_of = now, ct_text = t\<rparr>"

definition cached_context :: "cached_serde \<Rightarrow> Cache \<Rightarrow> CachedText option" where
  "cached_context S = read_json S (lit ''context.json'')"

definition store_index ::
    "cached_serde \<Rightarrow> store_faults \<Rightarrow> rstr \<Rightarrow> rstr \<Rightarrow> Cache \<Rightarrow> (rstr + unit) \<times> Cache" where
  "store_index S io now t = write_json S io (lit ''index.json'') \<lparr>ct_as_of = now, ct_text = t\<rparr>"

definition cached_index :: "cached_serde \<Rightarrow> Cache \<Rightarrow> CachedText option" where
  "cached_index S = read_json S (lit ''index.json'')"

definition store_note ::
    "env \<Rightarrow> cached_serde \<Rightarrow> store_faults \<Rightarrow> rstr \<Rightarrow> rstr \<Rightarrow> rstr \<Rightarrow> Cache \<Rightarrow> (rstr + unit) \<times> Cache" where
  "store_note E S io now path t = write_json S io (note_file E path) \<lparr>ct_as_of = now, ct_text = t\<rparr>"

definition cached_note :: "env \<Rightarrow> cached_serde \<Rightarrow> rstr \<Rightarrow> Cache \<Rightarrow> CachedText option" where
  "cached_note E S path = read_json S (note_file E path)"

definition store_search ::
    "cached_serde \<Rightarrow> store_faults \<Rightarrow> rstr \<Rightarrow> rstr \<Rightarrow> rstr \<Rightarrow> Cache \<Rightarrow> (rstr + unit) \<times> Cache" where
  "store_search S io now key t = write_json S io (search_file key) \<lparr>ct_as_of = now, ct_text = t\<rparr>"

definition cached_search :: "cached_serde \<Rightarrow> rstr \<Rightarrow> Cache \<Rightarrow> CachedText option" where
  "cached_search S key = read_json S (search_file key)"

definition cache_age :: "cached_serde \<Rightarrow> Cache \<Rightarrow> rstr option" where
  "cache_age S cache = map_option ct_as_of (cached_context S cache)"

text \<open>\<open>rfc3339_minute\<close> stands for \<open>chrono\<close>'s reading of a time stamp and its \<open>%Y-%m-%d %H:%M\<close> in UTC.\<close>

definition offline_suffix :: "(rstr \<Rightarrow> rstr option) \<Rightarrow> rstr \<Rightarrow> rstr \<Rightarrow> rstr" where
  "offline_suffix rfc3339_minute as_of desk =
     (let moment = (case rfc3339_minute as_of of Some t \<Rightarrow> t | None \<Rightarrow> as_of)
      in [10, 10] @ lit ''(from cache, as of '' @ moment @ lit ''; the desk at '' @ desk @ lit '' is unreachable)'')"

end
