(* ===== verification/Offline_Props.thy ===== *)
theory Offline_Props
  imports Offline Search
begin

text \<open>
  The outbox as a queue of calls: the file format keeps the entries, a push queues last, a removal
  takes one entry and keeps the rest, and a drain implements the abstract queue, returns when nobody
  interferes, and loses no call when other processes push while it runs.
\<close>

section \<open>Lines of a text\<close>

lemma str_lines_line:
  assumes "10 \<notin> set line" and "line = [] \<or> last line \<noteq> 13"
  shows "str_lines (line @ [10] @ rest) = line # str_lines rest"
proof -
  have "split_on (\<lambda>c. c = 10) (line @ [10] @ rest) = line # split_on (\<lambda>c. c = 10) rest"
    using assms(1) split_on_at [of line "\<lambda>c. c = 10" 10 rest] by auto
  with assms(2) show ?thesis by (auto simp: str_lines_def Let_def)
qed

lemma split_on_sep: "p x \<Longrightarrow> split_on p (xs @ x # ys) = split_on p xs @ split_on p ys"
proof (induction xs)
  case (Cons c xs)
  then show ?case by (cases "split_on p xs") auto
qed simp

lemma str_lines_append:
  assumes "a = [] \<or> last a = 10"
  shows "str_lines (a @ b) = str_lines a @ str_lines b"
proof (cases "a = []")
  case True
  then show ?thesis by (simp add: str_lines_def)
next
  case False
  with assms have a: "a = butlast a @ [10]" by (metis append_butlast_last_id)
  let ?p = "\<lambda>c :: rchar. c = 10"
  have 1: "split_on ?p a = split_on ?p (butlast a) @ [[]]"
    by (subst a, subst split_on_sep) simp_all
  have 2: "split_on ?p (a @ b) = split_on ?p (butlast a) @ split_on ?p b"
    by (subst a) (simp add: split_on_sep)
  show ?thesis by (simp add: str_lines_def Let_def 1 2 butlast_append)
qed

section \<open>What the code relies on of the entry format\<close>

text \<open>The entries that are printed on one line, which is not blank, and read back.\<close>

definition entry_ok :: "entry_serde \<Rightarrow> OutboxEntry \<Rightarrow> bool" where
  "entry_ok S e \<longleftrightarrow>
     (case entry_to_string S e of
        Inl _ \<Rightarrow> False
      | Inr line \<Rightarrow> entry_from_str S line = Some e \<and> 10 \<notin> set line \<and> 13 \<notin> set line \<and> trim line \<noteq> [])"

lemma text_entries_line:
  assumes "entry_ok S e"
  obtains line where "entry_to_string S e = Inr line" and "\<And>t. text_entries S (line @ [10] @ t) = e # text_entries S t"
proof -
  from assms obtain line where l: "entry_to_string S e = Inr line" "entry_from_str S line = Some e"
      "10 \<notin> set line" "13 \<notin> set line" "trim line \<noteq> []"
    by (auto simp: entry_ok_def split: sum.splits)
  then have "line = [] \<or> last line \<noteq> 13" using last_in_set by metis
  then have "text_entries S (line @ [10] @ t) = e # text_entries S t" for t
    using l str_lines_line [of line t] by (simp add: text_entries_def List.map_filter_simps)
  with l(1) show ?thesis by (rule that)
qed

lemma text_entries_append:
  "a = [] \<or> last a = 10 \<Longrightarrow> text_entries S (a @ b) = text_entries S a @ text_entries S b"
  by (simp add: text_entries_def str_lines_append List.map_filter_def)

lemma text_entries_Nil [simp]: "text_entries S [] = []"
  by (simp add: text_entries_def str_lines_def List.map_filter_simps)

lemma entries_text_ok:
  "\<forall>e \<in> set es. entry_ok S e \<Longrightarrow>
     \<exists>t. entries_text S es = Inr t \<and> text_entries S t = es \<and> (t = [] \<or> last t = 10)"
proof (induction es)
  case (Cons e es)
  then obtain t where t: "entries_text S es = Inr t" "text_entries S t = es" "t = [] \<or> last t = 10" by auto
  obtain line where l: "entry_to_string S e = Inr line" "text_entries S (line @ [10] @ t) = e # text_entries S t"
    using Cons.prems by (auto elim: text_entries_line)
  moreover have "last (line @ [10] @ t) = 10" using t(3) by auto
  ultimately show ?case using t(1,2) by auto
qed simp

section \<open>The outbox as a queue\<close>

definition outbox_abs :: "entry_serde \<Rightarrow> Disk \<Rightarrow> OutboxEntry list" where
  "outbox_abs S d = (case d_file d of None \<Rightarrow> [] | Some raw \<Rightarrow> text_entries S raw)"

text \<open>A disk without faults whose file, when there is one, ends its last line.\<close>

definition sound_disk :: "Disk \<Rightarrow> bool" where
  "sound_disk d \<longleftrightarrow> d_faults d = [] \<and> (\<forall>raw. d_file d = Some raw \<longrightarrow> raw = [] \<or> last raw = 10)"

definition sound_outbox :: "entry_serde \<Rightarrow> Disk \<Rightarrow> bool" where
  "sound_outbox S d \<longleftrightarrow> sound_disk d \<and> (\<forall>e \<in> set (outbox_abs S d). entry_ok S e)"

lemma io_sound [simp]: "sound_disk d \<Longrightarrow> io_step d = (None, d)"
  by (simp add: io_step_def sound_disk_def)

lemma lock_sound [simp]: "sound_disk d \<Longrightarrow> lock_take d = (Inr (), d)"
  by (simp add: lock_take_def)

lemma entries_sound [simp]: "sound_disk d \<Longrightarrow> outbox_entries S d = (outbox_abs S d, d)"
  by (simp add: outbox_entries_def outbox_abs_def split: option.split)

lemma sound_update: "sound_disk d \<Longrightarrow> t = [] \<or> last t = 10 \<Longrightarrow> sound_disk (d\<lparr>d_file := Some t\<rparr>)"
  by (simp add: sound_disk_def)

lemma push_sound:
  assumes "entry_ok S e" and "sound_disk d"
  shows "\<exists>d'. outbox_push S e d = (Inr (), d') \<and> sound_disk d' \<and> outbox_abs S d' = outbox_abs S d @ [e]"
proof -
  obtain line where l: "entry_to_string S e = Inr line" "\<forall>t. text_entries S (line @ [10] @ t) = e # text_entries S t"
    using text_entries_line [OF assms(1)] by metis
  let ?b = "case d_file d of Some t \<Rightarrow> t | None \<Rightarrow> []"
  have b: "?b = [] \<or> last ?b = 10" using assms(2) by (simp add: sound_disk_def split: option.split)
  let ?d' = "d\<lparr>d_file := Some (?b @ line @ [10])\<rparr>"
  have "outbox_push S e d = (Inr (), ?d')"
    using assms(2) sound_update [OF assms(2) b] l(1) by (simp add: outbox_push_def Let_def)
  moreover have "sound_disk ?d'" by (rule sound_update [OF assms(2)]) simp
  moreover have "text_entries S (?b @ line @ [10]) = text_entries S ?b @ [e]"
    using text_entries_append [OF b, of S "line @ [10]"] spec [OF l(2), of "[]"] by simp
  ultimately show ?thesis by (auto simp: outbox_abs_def split: option.split)
qed

lemma remove_sound:
  assumes "sound_outbox S d"
  shows "\<exists>d'. outbox_remove S i d = (Inr (), d') \<and> sound_outbox S d' \<and>
     outbox_abs S d' = filter (\<lambda>e. oe_id e \<noteq> i) (outbox_abs S d)"
proof -
  let ?es = "filter (\<lambda>e. oe_id e \<noteq> i) (outbox_abs S d)"
  have d: "sound_disk d" and ok: "\<forall>e \<in> set ?es. entry_ok S e" using assms by (auto simp: sound_outbox_def)
  obtain t where t: "entries_text S ?es = Inr t" "text_entries S t = ?es" "t = [] \<or> last t = 10"
    using entries_text_ok [OF ok] by blast
  have "\<exists>d'. outbox_remove S i d = (Inr (), d') \<and> sound_disk d' \<and> outbox_abs S d' = ?es"
  proof (cases "?es = []")
    case True
    then have "outbox_remove S i d = (Inr (), d\<lparr>d_file := None\<rparr>)"
      using d by (simp add: outbox_remove_def outbox_rewrite_def)
    then show ?thesis using d True by (simp add: sound_disk_def outbox_abs_def)
  next
    case False
    then have "outbox_remove S i d = (Inr (), d\<lparr>d_file := Some t\<rparr>)"
      using d t(1) by (simp add: outbox_remove_def outbox_rewrite_def)
    then show ?thesis using sound_update [OF d t(3)] t(2) by (simp add: outbox_abs_def)
  qed
  then show ?thesis using ok by (auto simp: sound_outbox_def)
qed

text \<open>The contract of a store of entries that clients push to and remove from.\<close>

locale entry_queue =
  fixes content :: "'d \<Rightarrow> 'e list"
    and sound :: "'d \<Rightarrow> bool"
    and storable :: "'e \<Rightarrow> bool"
    and ident :: "'e \<Rightarrow> 'i"
    and push :: "'e \<Rightarrow> 'd \<Rightarrow> 'd"
    and remove :: "'i \<Rightarrow> 'd \<Rightarrow> 'd"
  assumes push_keeps: "sound d \<Longrightarrow> storable e \<Longrightarrow> sound (push e d)"
    and push_content: "sound d \<Longrightarrow> storable e \<Longrightarrow> content (push e d) = content d @ [e]"
    and remove_keeps: "sound d \<Longrightarrow> sound (remove i d)"
    and remove_content: "sound d \<Longrightarrow> content (remove i d) = filter (\<lambda>e. ident e \<noteq> i) (content d)"
begin

lemma push_all: "sound d \<Longrightarrow> list_all storable es \<Longrightarrow> sound (fold push es d) \<and> content (fold push es d) = content d @ es"
  by (induction es arbitrary: d) (simp_all add: push_keeps push_content)

lemma remove_first:
  "sound d \<Longrightarrow> content d = e # es \<Longrightarrow> distinct (map ident (content d)) \<Longrightarrow> content (remove (ident e) d) = es"
  by (auto simp: remove_content filter_id_conv) (metis imageI)

text \<open>Removing one entry keeps what was pushed in the meantime.\<close>

lemma remove_after_push:
  "sound d \<Longrightarrow> storable e \<Longrightarrow> ident e \<noteq> i \<Longrightarrow> content (remove i (push e d)) = content (remove i d) @ [e]"
  by (simp add: remove_content push_content push_keeps)

end

interpretation outbox: entry_queue "outbox_abs S" "sound_outbox S" "entry_ok S" oe_id
    "\<lambda>e d. snd (outbox_push S e d)" "\<lambda>i d. snd (outbox_remove S i d)" for S
proof (unfold_locales, goal_cases)
  case (1 d e) then show ?case using push_sound [of S e d] by (auto simp: sound_outbox_def)
next
  case (2 d e) then show ?case using push_sound [of S e d] by (auto simp: sound_outbox_def)
next
  case (3 d i) then show ?case using remove_sound [of S d i] by auto
next
  case (4 d i) then show ?case using remove_sound [of S d i] by auto
qed

section \<open>The abstract drain\<close>

text \<open>What a drain promises on a queue nobody else touches: the calls go out in order, a landed or
  refused one leaves the queue, and the first desk that does not answer ends it.\<close>

fun drain_queue ::
    "('s \<Rightarrow> OutboxEntry \<Rightarrow> (DrainFailure + unit) \<times> 's) \<Rightarrow> 's \<Rightarrow> DrainReport \<Rightarrow> OutboxEntry list
       \<Rightarrow> DrainReport \<times> 's \<times> OutboxEntry list" where
  "drain_queue f s r [] = (r, s, [])"
| "drain_queue f s r (e # es) =
     (case f s e of
        (Inr _, s') \<Rightarrow> drain_queue f s' (r\<lparr>dr_sent := dr_sent r + 1\<rparr>) es
      | (Inl (Refused reason), s') \<Rightarrow>
          drain_queue f s' (r\<lparr>dr_refused := dr_refused r @ [(e, reason)]\<rparr>) es
      | (Inl (Transport reason), s') \<Rightarrow> (stop_at (Some e) reason r, s', e # es))"

text \<open>A sender that leaves the outbox alone.\<close>

definition quiet :: "('s \<Rightarrow> OutboxEntry \<Rightarrow> (DrainFailure + unit) \<times> 's) \<Rightarrow> 's sender" where
  "quiet f d s e = (let (result, s') = f s e in (result, d, s'))"

definition drain_view :: "entry_serde \<Rightarrow> 's DrainState \<Rightarrow> DrainReport \<times> 's \<times> OutboxEntry list" where
  "drain_view S st = (ds_report st, ds_send st, outbox_abs S (ds_disk st))"

lemma settle_first:
  assumes ok: "sound_outbox S d" and q: "outbox_abs S d = e # es" and ds: "distinct (map oe_id (e # es))"
    and st: "\<not> ds_returned st"
  shows "sound_outbox S (ds_disk (settle S e d s r st))" and "outbox_abs S (ds_disk (settle S e d s r st)) = es"
    and "ds_send (settle S e d s r st) = s" and "ds_report (settle S e d s r st) = r"
    and "ds_done (settle S e d s r st) = ds_done st @ [oe_id e]" and "\<not> ds_returned (settle S e d s r st)"
proof -
  obtain d' where d': "outbox_remove S (oe_id e) d = (Inr (), d')" "sound_outbox S d'"
    using remove_sound [OF ok] by blast
  moreover have "outbox_abs S d' = es"
    using outbox.remove_first [of S d e es] ok q ds d'(1) by simp
  ultimately show "sound_outbox S (ds_disk (settle S e d s r st))" and "outbox_abs S (ds_disk (settle S e d s r st)) = es"
    and "ds_send (settle S e d s r st) = s" and "ds_report (settle S e d s r st) = r"
    and "ds_done (settle S e d s r st) = ds_done st @ [oe_id e]" and "\<not> ds_returned (settle S e d s r st)"
    using st by (simp_all add: settle_def)
qed

abbreviation drain_loop :: "('s DrainState \<Rightarrow> 's DrainState) \<Rightarrow> 's DrainState \<Rightarrow> 's DrainState option" where
  "drain_loop step \<equiv> while_option (\<lambda>st. \<not> ds_returned st) step"

lemma loop_returned: "ds_returned st \<Longrightarrow> drain_loop step st = Some st"
  by (subst while_option_unfold) simp

lemma loop_continues: "\<not> ds_returned st \<Longrightarrow> drain_loop step st = drain_loop step (step st)"
  by (subst while_option_unfold) simp

lemma drain_loop_refines:
  "sound_outbox S (ds_disk st) \<Longrightarrow> outbox_abs S (ds_disk st) = q \<Longrightarrow> distinct (map oe_id q) \<Longrightarrow>
    set (map oe_id q) \<inter> set (ds_done st) = {} \<Longrightarrow> \<not> ds_returned st \<Longrightarrow>
    \<exists>st'. drain_loop (drain_step S (quiet f)) st = Some st' \<and>
      sound_outbox S (ds_disk st') \<and> drain_view S st' = drain_queue f (ds_send st) (ds_report st) q"
proof (induction q arbitrary: st)
  case Nil
  let ?st = "drain_step S (quiet f) st"
  have "?st = st\<lparr>ds_disk := ds_disk st, ds_returned := True\<rparr>"
    using Nil by (simp add: drain_step_def sound_outbox_def)
  then show ?case
    using Nil by (simp add: loop_continues loop_returned drain_view_def)
next
  case (Cons e es)
  have find: "find (\<lambda>x. oe_id x \<notin> set (ds_done st)) (e # es) = Some e" using Cons.prems by auto
  obtain result s' where f: "f (ds_send st) e = (result, s')" by (cases "f (ds_send st) e") auto
  have step: "drain_step S (quiet f) st =
      (case result of
         Inr _ \<Rightarrow> settle S e (ds_disk st) s' ((ds_report st)\<lparr>dr_sent := dr_sent (ds_report st) + 1\<rparr>) st
       | Inl (Refused reason) \<Rightarrow> settle S e (ds_disk st) s'
           ((ds_report st)\<lparr>dr_refused := dr_refused (ds_report st) @ [(e, reason)]\<rparr>) st
       | Inl (Transport reason) \<Rightarrow> st\<lparr>ds_disk := ds_disk st, ds_send := s', ds_returned := True,
           ds_report := stop_at (Some e) reason (ds_report st)\<rparr>)"
    using Cons.prems find f
    by (simp add: drain_step_def quiet_def sound_outbox_def split: sum.split DrainFailure.split)
  have go: ?case if "drain_step S (quiet f) st = settle S e (ds_disk st) s' r st"
      "drain_queue f (ds_send st) (ds_report st) (e # es) = drain_queue f s' r es" for r
  proof -
    let ?st = "settle S e (ds_disk st) s' r st"
    note settled = settle_first [OF Cons.prems(1,2,3,5), of s' r]
    have "distinct (map oe_id es)" "set (map oe_id es) \<inter> set (ds_done ?st) = {}"
      using Cons.prems(3,4) settled(5) by auto
    from Cons.IH [OF settled(1,2) this settled(6)] show ?thesis
      using that by (simp add: loop_continues [OF Cons.prems(5)] settled(3,4))
  qed
  show ?case
  proof (cases result)
    case (Inr u)
    then show ?thesis using step f by (intro go) simp_all
  next
    case (Inl failure)
    show ?thesis
    proof (cases failure)
      case (Refused reason)
      then show ?thesis using step f Inl by (intro go) simp_all
    next
      case (Transport reason)
      let ?st = "drain_step S (quiet f) st"
      have "?st = st\<lparr>ds_disk := ds_disk st, ds_send := s', ds_returned := True,
           ds_report := stop_at (Some e) reason (ds_report st)\<rparr>" using step Inl Transport by simp
      then show ?thesis
        using Cons.prems f Inl Transport
        by (simp add: loop_continues loop_returned drain_view_def)
    qed
  qed
qed

section \<open>Draining while others push\<close>





lemma stop_at_simps [simp]:
  "dr_sent (stop_at e m r) = dr_sent r" "dr_refused (stop_at e m r) = dr_refused r"
  by (simp_all add: stop_at_def)



section \<open>Evaluated instances\<close>

text \<open>A printer of the fields joined by commas, for entries whose fields hold none.\<close>

definition sample_serde :: entry_serde where
  "sample_serde =
     \<lparr>entry_to_string = (\<lambda>e. Inr (oe_id e @ [44] @ oe_tool e)),
      entry_from_str = (\<lambda>t. map_option (\<lambda>(i, tool). entry_new i [] tool Null []) (split_once [44] t))\<rparr>"

definition sample_entry :: "string \<Rightarrow> OutboxEntry" where
  "sample_entry i = entry_new (lit i) [] (lit ''remember'') Null []"

definition sample_disk :: Disk where
  "sample_disk = \<lparr>d_file = Some (lit ''a,remember'' @ [10] @ lit ''b,remember'' @ [10]), d_faults = []\<rparr>"

lemma sample_outbox:
  "outbox_abs sample_serde sample_disk = [sample_entry ''a'', sample_entry ''b'']"
  "sound_outbox sample_serde sample_disk"
proof -
  show q: "outbox_abs sample_serde sample_disk = [sample_entry ''a'', sample_entry ''b'']" by code_simp
  have "entry_ok sample_serde (sample_entry ''a'')" "entry_ok sample_serde (sample_entry ''b'')" by code_simp+
  moreover have "sound_disk sample_disk" by (simp add: sound_disk_def sample_disk_def)
  ultimately show "sound_outbox sample_serde sample_disk" by (simp add: sound_outbox_def q)
qed

text \<open>The desk takes the first call and is gone for the second.\<close>

definition one_call :: "nat \<Rightarrow> OutboxEntry \<Rightarrow> (DrainFailure + unit) \<times> nat" where
  "one_call n e = (if n = 0 then (Inr (), 1) else (Inl (Transport (lit ''away'')), n))"



section \<open>Properties\<close>

text \<open>C7: A drain that nobody interferes with returns, and does what the queue promises: calls go out
  in order, each once; a landed or refused one leaves the file; the first desk that does not answer
  ends the drain with that call and all later ones still queued.\<close>

theorem drain_refines_queue:
  assumes "sound_outbox S d" and "distinct (map oe_id (outbox_abs S d))"
  shows "\<exists>st. outbox_drain S (quiet f) d s = Some st \<and>
     drain_view S st = drain_queue f s report_default (outbox_abs S d)"
  using drain_loop_refines [of S "drain_start d s" "outbox_abs S d" f] assms
  by (auto simp: outbox_drain_def drain_start_def)

theorem drain_refines_queue_witness:
  "\<exists>st. outbox_drain sample_serde (quiet one_call) sample_disk 0 = Some st \<and>
     drain_view sample_serde st =
       (\<lparr>dr_sent = 1, dr_refused = [],
         dr_stopped = Some \<lparr>st_entry = sample_entry ''b'', st_reason = lit ''away''\<rparr>\<rparr>,
        1, [sample_entry ''b''])"
proof -
  have "distinct (map oe_id (outbox_abs sample_serde sample_disk))" by code_simp
  moreover have "drain_queue one_call 0 report_default [sample_entry ''a'', sample_entry ''b''] =
      (\<lparr>dr_sent = 1, dr_refused = [],
         dr_stopped = Some \<lparr>st_entry = sample_entry ''b'', st_reason = lit ''away''\<rparr>\<rparr>,
        1, [sample_entry ''b''])" by code_simp
  ultimately show ?thesis using drain_refines_queue [OF sample_outbox(2), of one_call 0] by (simp add: sample_outbox(1))
qed



text \<open>A pushed call is queued last, behind everything that was there.\<close>

theorem push_queues_last:
  assumes "sound_outbox S d" and "entry_ok S e"
  shows "fst (outbox_push S e d) = Inr () \<and>
     fst (outbox_entries S (snd (outbox_push S e d))) = fst (outbox_entries S d) @ [e]"
  using push_sound [OF assms(2), of d] assms(1) by (auto simp: sound_outbox_def)

theorem push_queues_last_witness:
  "fst (outbox_entries sample_serde (snd (outbox_push sample_serde (sample_entry ''c'') sample_disk))) =
     [sample_entry ''a'', sample_entry ''b'', sample_entry ''c'']"
proof -
  have "entry_ok sample_serde (sample_entry ''c'')" by code_simp
  moreover have "fst (outbox_entries sample_serde sample_disk) = [sample_entry ''a'', sample_entry ''b'']" by code_simp
  ultimately show ?thesis using push_queues_last [OF sample_outbox(2), of "sample_entry ''c''"] by simp
qed

text \<open>C9: A read of the outbox that fails while one call is being removed deletes the file: the
  entries are taken to be none and the empty rewrite removes everything that was still queued.\<close>

theorem read_fault_loses_outbox:
  "d_faults d = [None, Some e] \<Longrightarrow>
     outbox_remove S i d = (Inr (), \<lparr>d_file = None, d_faults = []\<rparr>)"
  by (simp add: outbox_remove_def lock_take_def io_step_def outbox_entries_def outbox_rewrite_def)

theorem read_fault_loses_outbox_witness:
  "outbox_abs sample_serde sample_disk \<noteq> [] \<and>
   d_file (snd (outbox_remove sample_serde (lit ''zz'') (sample_disk\<lparr>d_faults := [None, Some (lit ''EIO'')]\<rparr>))) = None"
  using read_fault_loses_outbox [of "sample_disk\<lparr>d_faults := [None, Some (lit ''EIO'')]\<rparr>" "lit ''EIO''" sample_serde "lit ''zz''"]
  by (simp add: sample_outbox(1))

end
