(* ===== verification/Utf8_Lossy.thy ===== *)
theory Utf8_Lossy
  imports Utf8
begin

text \<open>
  Reading bytes as text the way the standard library does: \<open>String::from_utf8_lossy\<close>, which puts one
  replacement character for each maximal ill-formed part, and \<open>str::from_utf8\<close>, which refuses them.
\<close>

section \<open>One character from the front\<close>

definition is_continuation :: "int \<Rightarrow> bool" where
  "is_continuation b \<longleftrightarrow> 128 \<le> b \<and> b \<le> 191"

text \<open>The second bytes that may follow the first of three or of four.\<close>

definition second_of_three :: "int \<Rightarrow> int \<Rightarrow> bool" where
  "second_of_three a b \<longleftrightarrow>
     (if a = 224 then 160 \<le> b \<and> b \<le> 191 else if a = 237 then 128 \<le> b \<and> b \<le> 159 else is_continuation b)"

definition second_of_four :: "int \<Rightarrow> int \<Rightarrow> bool" where
  "second_of_four a b \<longleftrightarrow>
     (if a = 240 then 144 \<le> b \<and> b \<le> 191 else if a = 244 then 128 \<le> b \<and> b \<le> 143 else is_continuation b)"

text \<open>The character read, or \<open>None\<close> for an ill-formed part, and the number of bytes it takes.\<close>

fun lossy_front :: "int list \<Rightarrow> rchar option \<times> nat" where
  "lossy_front [] = (None, 0)"
| "lossy_front (a # rest) =
     (if a < 128 then (Some a, 1)
      else if 194 \<le> a \<and> a \<le> 223 then
        (case rest of
           b # _ \<Rightarrow> if is_continuation b then (Some ((a - 192) * 64 + (b - 128)), 2) else (None, 1)
         | [] \<Rightarrow> (None, 1))
      else if 224 \<le> a \<and> a \<le> 239 then
        (case rest of
           b # r \<Rightarrow>
             if second_of_three a b then
               (case r of
                  c # _ \<Rightarrow>
                    if is_continuation c
                    then (Some (((a - 224) * 64 + (b - 128)) * 64 + (c - 128)), 3) else (None, 2)
                | [] \<Rightarrow> (None, 2))
             else (None, 1)
         | [] \<Rightarrow> (None, 1))
      else if 240 \<le> a \<and> a \<le> 244 then
        (case rest of
           b # r \<Rightarrow>
             if second_of_four a b then
               (case r of
                  c # r' \<Rightarrow>
                    if is_continuation c then
                      (case r' of
                         d # _ \<Rightarrow>
                           if is_continuation d
                           then (Some ((((a - 240) * 64 + (b - 128)) * 64 + (c - 128)) * 64 + (d - 128)), 4)
                           else (None, 3)
                       | [] \<Rightarrow> (None, 3))
                    else (None, 2)
                | [] \<Rightarrow> (None, 2))
             else (None, 1)
         | [] \<Rightarrow> (None, 1))
      else (None, 1))"

lemma lossy_front_progress: "bs \<noteq> [] \<Longrightarrow> 0 < snd (lossy_front bs)"
  by (cases bs) (auto split: list.splits)

section \<open>Whole texts\<close>

definition REPLACEMENT :: rchar where "REPLACEMENT = 65533"

function lossy_ints :: "int list \<Rightarrow> rchar option list" where
  "lossy_ints bs =
     (if bs = [] then [] else fst (lossy_front bs) # lossy_ints (drop (snd (lossy_front bs)) bs))"
  by pat_completeness auto
termination
proof (relation "measure length")
  fix bs :: "int list"
  assume "bs \<noteq> []"
  then show "(drop (snd (lossy_front bs)) bs, bs) \<in> measure length"
    using lossy_front_progress [of bs] by (cases bs) (simp_all del: lossy_front.simps)
qed simp

declare lossy_ints.simps [simp del]

definition from_utf8_lossy :: "byte list \<Rightarrow> rstr" where
  "from_utf8_lossy bs = map (\<lambda>c. case c of Some x \<Rightarrow> x | None \<Rightarrow> REPLACEMENT) (lossy_ints (map uint bs))"

definition from_utf8 :: "byte list \<Rightarrow> rstr option" where
  "from_utf8 bs = those (lossy_ints (map uint bs))"

section \<open>Texts read back\<close>

text \<open>The digits of a character in base 64, as linear facts.\<close>

lemma base64_digits:
  fixes c :: int
  shows "c div 4096 = c div 262144 * 64 + c div 4096 mod 64"
    and "c div 64 = c div 4096 * 64 + c div 64 mod 64"
    and "c = c div 64 * 64 + c mod 64"
proof -
  have d: "c div 4096 = c div 64 div 64" "c div 262144 = c div 64 div 64 div 64"
    by (simp_all flip: zdiv_zmult2_eq)
  show "c div 4096 = c div 262144 * 64 + c div 4096 mod 64" by (simp only: d div_mult_mod_eq)
  show "c div 64 = c div 4096 * 64 + c div 64 mod 64" by (simp only: d div_mult_mod_eq)
  show "c = c div 64 * 64 + c mod 64" by (simp only: div_mult_mod_eq)
qed

lemma lossy_front_utf8:
  assumes "scalar c"
  shows "lossy_front (utf8_ints c @ xs) = (Some c, length (utf8_ints c))"
proof -
  define h p q n m l where d: "h = c div 262144" "p = c div 4096" "q = c div 4096 mod 64"
    "n = c div 64" "m = c div 64 mod 64" "l = c mod 64"
  have e: "p = h * 64 + q" "n = p * 64 + m" "c = n * 64 + l"
    unfolding d by (rule base64_digits)+
  have r: "0 \<le> q" "q < 64" "0 \<le> m" "m < 64" "0 \<le> l" "l < 64" by (simp_all add: d)
  have s: "0 \<le> c" "c < 1114112" "c < 55296 \<or> 57344 \<le> c" using assms by (auto simp: scalar_def)
  consider "c < 128" | "128 \<le> c" "c < 2048" | "2048 \<le> c" "c < 65536" | "65536 \<le> c" by linarith
  then show ?thesis
  proof cases
    case 1
    then show ?thesis by (simp add: utf8_ints_def)
  next
    case 2
    with e r have "2 \<le> n" "n < 32" by linarith+
    moreover have "utf8_ints c = [192 + n, 128 + l]" using 2 by (simp add: utf8_ints_def d)
    ultimately show ?thesis using r e(3) by (simp add: is_continuation_def)
  next
    case 3
    with e r have "0 \<le> p" "p < 16" "p = 0 \<longrightarrow> 32 \<le> m" by linarith+
    moreover have "p = 13 \<longrightarrow> m < 32" using e(2,3) r s by linarith
    moreover have "utf8_ints c = [224 + p, 128 + m, 128 + l]" using 3 by (simp add: utf8_ints_def d)
    ultimately show ?thesis using r e(2,3) by (auto simp: is_continuation_def second_of_three_def)
  next
    case 4
    with e r s have "0 \<le> h" "h \<le> 4" "h = 0 \<longrightarrow> 16 \<le> q" "h = 4 \<longrightarrow> q < 16" by linarith+
    moreover have "utf8_ints c = [240 + h, 128 + q, 128 + m, 128 + l]"
      using 4 by (simp add: utf8_ints_def d)
    ultimately show ?thesis using r e by (auto simp: is_continuation_def second_of_four_def)
  qed
qed

lemma lossy_ints_utf8: "list_all scalar s \<Longrightarrow> lossy_ints (map uint (utf8 s)) = map Some s"
proof (induction s)
  case Nil
  show ?case by (simp add: lossy_ints.simps [of "[]"])
next
  case (Cons c s)
  then have "map uint (utf8 (c # s)) = utf8_ints c @ map uint (utf8 s)" by (simp add: utf8_char_ints)
  moreover have "utf8_ints c \<noteq> []" by (simp add: utf8_ints_def)
  ultimately show ?case
    using Cons lossy_front_utf8 [of c] by (simp add: lossy_ints.simps [of "utf8_ints c @ xs" for xs] del: lossy_front.simps)
qed

lemma from_utf8_lossy_utf8 [simp]: "list_all scalar s \<Longrightarrow> from_utf8_lossy (utf8 s) = s"
  by (simp add: from_utf8_lossy_def lossy_ints_utf8 map_idI)

lemma those_map_Some [simp]: "those (map Some xs) = Some xs"
  by (induction xs) simp_all

lemma from_utf8_utf8 [simp]: "list_all scalar s \<Longrightarrow> from_utf8 (utf8 s) = Some s"
  by (simp add: from_utf8_def lossy_ints_utf8)

section \<open>What is read is text\<close>

lemma lossy_front_scalar:
  assumes "fst (lossy_front bs) = Some c" and "list_all (\<lambda>b. 0 \<le> b) bs"
  shows "scalar c"
proof (cases bs)
  case (Cons a rest)
  then show ?thesis
    using assms
    by (auto simp: scalar_def is_continuation_def second_of_three_def second_of_four_def
        split: if_splits list.splits)
qed (use assms in simp)

lemma lossy_ints_scalar: "list_all (\<lambda>b. 0 \<le> b) bs \<Longrightarrow> Some c \<in> set (lossy_ints bs) \<Longrightarrow> scalar c"
proof (induction bs rule: lossy_ints.induct)
  case (1 bs)
  show ?case
  proof (cases "bs = [] \<or> fst (lossy_front bs) = Some c")
    case True
    then show ?thesis using 1(2,3) lossy_front_scalar by (auto simp: lossy_ints.simps [of "[]"])
  next
    case False
    then have "Some c \<in> set (lossy_ints (drop (snd (lossy_front bs)) bs))"
      using 1(3) by (subst (asm) lossy_ints.simps) auto
    with 1(1,2) False show ?thesis by (auto simp: list_all_iff dest: in_set_dropD)
  qed
qed

lemma from_utf8_lossy_scalar: "list_all scalar (from_utf8_lossy bs)"
proof -
  have "scalar REPLACEMENT" by (simp add: scalar_def REPLACEMENT_def)
  moreover have "list_all (\<lambda>b. 0 \<le> b) (map uint bs)" by (simp add: list_all_iff)
  ultimately show ?thesis
    using lossy_ints_scalar [of "map uint bs"] by (auto simp: from_utf8_lossy_def list_all_iff split: option.splits)
qed

lemma scalar_lit: "list_all scalar (lit s)"
proof -
  have "scalar (of_char c)" for c :: char
    using of_char_mod_256 [of c, where 'a = int] pos_mod_bound [of 256 "of_char c :: int"] pos_mod_sign [of 256 "of_char c :: int"]
    by (simp add: scalar_def)
  then show ?thesis by (simp add: lit_def list_all_iff)
qed

end
