(* ===== verification/Bridge_Http.thy ===== *)
theory Bridge_Http
  imports Utf8_Lossy
begin

text \<open>
  The bridge's HTTP (\<open>crates/thock-bridge/http.rs\<close>): the desk's routes, bearer tokens, percent
  coding, the request head a socket delivers, the response written back, and the client's blocking
  round trip.  A reader is the bytes that will still arrive and how the stream ends; the network,
  a writer and \<open>serde_json\<close> are records of functions the definitions take as arguments.  Where the
  source panics the model returns \<open>None\<close>.
\<close>

section \<open>Numbers in texts\<close>

text \<open>The digit a character stands for in a radix of at most 16 (\<open>char::to_digit\<close>).\<close>

definition to_digit :: "nat \<Rightarrow> rchar \<Rightarrow> nat option" where
  "to_digit radix c =
     (let d = if 48 \<le> c \<and> c \<le> 57 then Some (nat (c - 48))
              else if 97 \<le> c \<and> c \<le> 102 then Some (nat (c - 87))
              else if 65 \<le> c \<and> c \<le> 70 then Some (nat (c - 55)) else None
      in case d of Some n \<Rightarrow> if n < radix then Some n else None | None \<Rightarrow> None)"

fun radix_loop :: "nat \<Rightarrow> nat \<Rightarrow> nat \<Rightarrow> rstr \<Rightarrow> nat option" where
  "radix_loop radix limit n [] = Some n"
| "radix_loop radix limit n (c # s) =
     (case to_digit radix c of
        None \<Rightarrow> None
      | Some d \<Rightarrow> if n * radix + d < limit then radix_loop radix limit (n * radix + d) s else None)"

text \<open>\<open>from_str_radix\<close> of an unsigned type whose values are below \<open>limit\<close>: an optional plus sign,
  then at least one digit, with no overflow on the way.\<close>

definition from_str_radix :: "nat \<Rightarrow> nat \<Rightarrow> rstr \<Rightarrow> nat option" where
  "from_str_radix radix limit s =
     (let t = (if s \<noteq> [] \<and> hd s = 43 then tl s else s)
      in if t = [] then None else radix_loop radix limit 0 t)"

abbreviation parse_usize :: "rstr \<Rightarrow> nat option" where
  "parse_usize \<equiv> from_str_radix 10 (2 ^ 64)"

abbreviation parse_u16 :: "rstr \<Rightarrow> nat option" where
  "parse_u16 \<equiv> from_str_radix 10 (2 ^ 16)"

section \<open>Percent coding\<close>

definition unreserved :: "byte \<Rightarrow> bool" where
  "unreserved b \<longleftrightarrow> is_ascii_alphanumeric (uint b) \<or> uint b \<in> {45, 95, 46, 126}"

definition upper_hex_digit :: "nat \<Rightarrow> rchar" where
  "upper_hex_digit n = (if n < 10 then 48 + int n else 55 + int n)"

definition encode_byte :: "byte \<Rightarrow> rstr" where
  "encode_byte b =
     (if unreserved b then [uint b]
      else [37, upper_hex_digit (unat b div 16), upper_hex_digit (unat b mod 16)])"

definition percent_encode :: "rstr \<Rightarrow> rstr" where
  "percent_encode s = concat (map encode_byte (utf8 s))"

definition hex_pair :: "byte \<Rightarrow> byte \<Rightarrow> byte option" where
  "hex_pair high low =
     (case to_digit 16 (uint high) of
        None \<Rightarrow> None
      | Some h \<Rightarrow> (case to_digit 16 (uint low) of
                     None \<Rightarrow> None
                   | Some l \<Rightarrow> Some (or (push_bit 4 (of_nat h)) (of_nat l))))"

fun decode_loop :: "byte list \<Rightarrow> byte list" where
  "decode_loop [] = []"
| "decode_loop (b # rest) =
     (case (if b = 37 \<and> 2 \<le> length rest then hex_pair (rest ! 0) (rest ! 1) else None) of
        Some v \<Rightarrow> v # decode_loop (drop 2 rest)
      | None \<Rightarrow> b # decode_loop rest)"

definition percent_decode :: "rstr \<Rightarrow> rstr" where
  "percent_decode s = from_utf8_lossy (decode_loop (utf8 s))"

section \<open>Routes and tokens\<close>

datatype Route = Pair | Health | Mcp | McpNotPost | Skill | AgentFile rstr rstr | NotFound

definition AGENTS_PREFIX :: rstr where "AGENTS_PREFIX = lit ''/v1/agents/''"

definition parse_route :: "rstr \<Rightarrow> rstr \<Rightarrow> Route" where
  "parse_route meth url =
     (let path = trim_end_matches (\<lambda>c. c = 47) (hd (split_on (\<lambda>c. c = 63) url))
      in if meth = lit ''POST'' \<and> path = lit ''/v1/pair'' then Pair
         else if meth = lit ''GET'' \<and> path = lit ''/v1/health'' then Health
         else if meth = lit ''POST'' \<and> path = lit ''/mcp'' then Mcp
         else if path = lit ''/mcp'' then McpNotPost
         else if meth = lit ''GET'' \<and> path = lit ''/v1/skill'' then Skill
         else if meth = lit ''PUT'' \<and> starts_with AGENTS_PREFIX path then
           (case split_once [47] (drop (length AGENTS_PREFIX) path) of
              Some (harness, p) \<Rightarrow>
                if harness \<noteq> [] \<and> p \<noteq> [] then AgentFile (percent_decode harness) (percent_decode p)
                else NotFound
            | None \<Rightarrow> NotFound)
         else NotFound)"

definition bearer_value :: "rstr \<Rightarrow> rstr option" where
  "bearer_value v =
     (case split_once [32] (trim v) of
        None \<Rightarrow> None
      | Some (scheme, token) \<Rightarrow>
          if eq_ignore_ascii_case scheme (lit ''bearer'') \<and> trim token \<noteq> [] then Some (trim token)
          else None)"

definition bearer_token :: "(rstr \<times> rstr) list \<Rightarrow> rstr option" where
  "bearer_token headers =
     find_map (\<lambda>(name, v). bearer_value v)
       (filter (\<lambda>(name, v). eq_ignore_ascii_case name (lit ''authorization'')) headers)"

text \<open>\<open>json_str\<close> is \<open>serde_json\<close>'s text of a string, quotes included.\<close>

definition response_json :: "(rstr \<Rightarrow> rstr) \<Rightarrow> rstr \<Rightarrow> rstr" where
  "response_json json_str error = lit ''{'' @ json_str (lit ''error'') @ lit '':'' @ json_str error @ lit ''}''"

section \<open>Request heads\<close>

record RequestHead =
  rh_method :: rstr
  rh_url :: rstr
  rh_headers :: "(rstr \<times> rstr) list"
  rh_content_length :: nat

definition head_header :: "RequestHead \<Rightarrow> rstr \<Rightarrow> rstr option" where
  "head_header h name =
     map_option snd (List.find (\<lambda>(field, v). eq_ignore_ascii_case field name) (rh_headers h))"

definition MAX_HEAD_BYTES :: nat where "MAX_HEAD_BYTES = 16 * 1024"

text \<open>The bytes still to come and how the stream ends: it closes, the socket's time runs out
  (\<open>WouldBlock\<close>, \<open>TimedOut\<close>), or another error.\<close>

datatype StreamEnd = Closed | TimedOut | Broken

record Reader =
  r_bytes :: "byte list"
  r_end :: StreamEnd

fun take_line :: "nat \<Rightarrow> byte list \<Rightarrow> byte list" where
  "take_line n [] = []"
| "take_line n (b # bs) = (if n = 0 then [] else b # (if b = 10 then [] else take_line (n - 1) bs))"

text \<open>\<open>reader.take(limit).read_line(line)\<close> with its errors as statuses: bytes up to a line feed, to
  the limit or to the end of the stream, which must then be UTF-8.\<close>

definition take_read_line :: "nat \<Rightarrow> Reader \<Rightarrow> (nat + rstr \<times> nat) \<times> Reader" where
  "take_read_line limit r =
     (let l = take_line limit (r_bytes r);
          r' = r\<lparr>r_bytes := drop (length l) (r_bytes r)\<rparr>
      in if length l = limit \<or> l \<noteq> [] \<and> last l = 10 \<or> r_end r = Closed then
           (case from_utf8 l of Some s \<Rightarrow> (Inr (s, length l), r') | None \<Rightarrow> (Inl 400, r'))
         else (Inl (if r_end r = TimedOut then 408 else 400), r'))"

text \<open>The closure \<open>read_line\<close>, with \<open>consumed\<close> threaded through it.\<close>

definition head_line :: "nat \<Rightarrow> Reader \<Rightarrow> (nat + rstr \<times> nat \<times> nat) \<times> Reader" where
  "head_line consumed r =
     (let remaining = (MAX_HEAD_BYTES - consumed) + 1
      in case take_read_line remaining r of
           (Inl e, r') \<Rightarrow> (Inl e, r')
         | (Inr (line, n), r') \<Rightarrow>
             if MAX_HEAD_BYTES < consumed + n \<or> n = remaining then (Inl 431, r')
             else (Inr (line, n, consumed + n), r'))"

lemma length_take_line: "length (take_line n bs) \<le> n" "length (take_line n bs) \<le> length bs"
  by (induction n bs rule: take_line.induct) auto

lemma head_line_shrinks:
  assumes "head_line consumed r = (Inr (line, n, consumed'), r')"
  shows "length (r_bytes r') = length (r_bytes r) - n" and "n \<le> length (r_bytes r)"
    and "consumed' = consumed + n" and "consumed' \<le> MAX_HEAD_BYTES" and "r_end r' = r_end r"
    and "r_bytes r' = drop n (r_bytes r)"
proof -
  define l where "l = take_line ((MAX_HEAD_BYTES - consumed) + 1) (r_bytes r)"
  from assms have n: "n = length l" "r' = r\<lparr>r_bytes := drop n (r_bytes r)\<rparr>"
      "consumed' = consumed + n" "consumed' \<le> MAX_HEAD_BYTES"
    by (auto simp: head_line_def take_read_line_def Let_def l_def split: if_splits option.splits)
  moreover have "length l \<le> length (r_bytes r)" by (simp add: l_def length_take_line)
  ultimately show "length (r_bytes r') = length (r_bytes r) - n" "n \<le> length (r_bytes r)"
    "consumed' = consumed + n" "consumed' \<le> MAX_HEAD_BYTES" "r_end r' = r_end r"
    "r_bytes r' = drop n (r_bytes r)" by simp_all
qed

lemma head_line_progress:
  "(Inr (line, n, consumed'), r') = head_line consumed r \<Longrightarrow> 0 < n \<Longrightarrow>
     length (r_bytes r') < length (r_bytes r)"
  using head_line_shrinks(1,2) [of consumed r line n consumed' r'] by simp

definition is_line_end :: "rchar \<Rightarrow> bool" where
  "is_line_end c \<longleftrightarrow> c = 13 \<or> c = 10"

function header_loop :: "nat \<Rightarrow> Reader \<Rightarrow> (rstr \<times> rstr) list \<Rightarrow> nat \<Rightarrow>
    (nat + (rstr \<times> rstr) list \<times> nat) \<times> Reader" where
  "header_loop consumed r headers content_length =
     (case head_line consumed r of
        (Inl e, r') \<Rightarrow> (Inl e, r')
      | (Inr (line, n, consumed'), r') \<Rightarrow>
          if n = 0 then (Inl 400, r')
          else let trimmed = trim_end_matches is_line_end line
               in if trimmed = [] then (Inr (headers, content_length), r')
                  else (case split_once [58] trimmed of
                          None \<Rightarrow> (Inl 400, r')
                        | Some (name0, value0) \<Rightarrow>
                            let name = trim name0; v = trim value0
                            in if eq_ignore_ascii_case name (lit ''content-length'') then
                                 (case parse_usize v of
                                    None \<Rightarrow> (Inl 400, r')
                                  | Some len \<Rightarrow> header_loop consumed' r' (headers @ [(name, v)]) len)
                               else header_loop consumed' r' (headers @ [(name, v)]) content_length))"
  by pat_completeness auto
termination
  by (relation "measure (\<lambda>(consumed, r, headers, len). length (r_bytes r))")
     (auto dest: head_line_progress)

declare header_loop.simps [simp del]

definition read_request_head :: "Reader \<Rightarrow> (nat + RequestHead) \<times> Reader" where
  "read_request_head r =
     (case head_line 0 r of
        (Inl e, r') \<Rightarrow> (Inl e, r')
      | (Inr (line, n, consumed), r') \<Rightarrow>
          if n = 0 then (Inl 400, r')
          else (case split_whitespace line of
                  meth # url # _ \<Rightarrow>
                    (case header_loop consumed r' [] 0 of
                       (Inl e, r'') \<Rightarrow> (Inl e, r'')
                     | (Inr (headers, len), r'') \<Rightarrow>
                         (Inr \<lparr>rh_method = meth, rh_url = url, rh_headers = headers,
                               rh_content_length = len\<rparr>, r''))
                | _ \<Rightarrow> (Inl 400, r')))"

text \<open>\<open>read_exact\<close> into a buffer of the length asked for.\<close>

definition read_body :: "Reader \<Rightarrow> nat \<Rightarrow> (nat + byte list) \<times> Reader" where
  "read_body r len =
     (if len \<le> length (r_bytes r)
      then (Inr (take len (r_bytes r)), r\<lparr>r_bytes := drop len (r_bytes r)\<rparr>)
      else (Inl 408, r\<lparr>r_bytes := []\<rparr>))"

text \<open>A read of a \<open>DeadlineStream\<close> at the time \<open>now\<close>: the stream under it answers a timeout setting
  and a read of \<open>len\<close> bytes.  Times are in nanoseconds.\<close>

datatype ReadError = TimeIsUp | StreamError rstr

definition deadline_read ::
    "(nat \<Rightarrow> rstr + unit) \<Rightarrow> (nat \<Rightarrow> nat \<Rightarrow> rstr + byte list) \<Rightarrow> nat \<Rightarrow> nat \<Rightarrow> nat \<Rightarrow> ReadError + byte list" where
  "deadline_read set_read_timeout stream_read deadline now len =
     (let remaining = deadline - now
      in if remaining = 0 then Inl TimeIsUp
         else (case set_read_timeout remaining of
                 Inl e \<Rightarrow> Inl (StreamError e)
               | Inr _ \<Rightarrow> (case stream_read remaining len of
                              Inl e \<Rightarrow> Inl (StreamError e)
                            | Inr bs \<Rightarrow> Inr bs)))"

section \<open>Responses\<close>

definition reason :: "nat \<Rightarrow> rstr" where
  "reason status =
     (if status = 200 then lit ''OK''
      else if status = 202 then lit ''Accepted''
      else if status = 204 then lit ''No Content''
      else if status = 400 then lit ''Bad Request''
      else if status = 401 then lit ''Unauthorized''
      else if status = 403 then lit ''Forbidden''
      else if status = 404 then lit ''Not Found''
      else if status = 405 then lit ''Method Not Allowed''
      else if status = 408 then lit ''Request Timeout''
      else if status = 410 then lit ''Gone''
      else if status = 413 then lit ''Payload Too Large''
      else if status = 422 then lit ''Unprocessable Content''
      else if status = 431 then lit ''Request Header Fields Too Large''
      else if status = 500 then lit ''Internal Server Error''
      else if status = 503 then lit ''Service Unavailable''
      else lit ''Status'')"

definition CRLF :: rstr where "CRLF = [13, 10]"

definition response_head :: "nat \<Rightarrow> rstr \<Rightarrow> nat \<Rightarrow> rstr" where
  "response_head status content_type len =
     lit ''HTTP/1.1 '' @ nat_to_str status @ lit '' '' @ reason status @ CRLF
     @ lit ''Content-Type: '' @ content_type @ CRLF
     @ lit ''Content-Length: '' @ nat_to_str len @ CRLF
     @ lit ''Connection: close'' @ CRLF @ CRLF"

text \<open>A writer: its state, what \<open>write_all\<close> of some bytes does to it, and \<open>flush\<close>.\<close>

record 'w writer =
  write_all :: "byte list \<Rightarrow> 'w \<Rightarrow> (rstr + unit) \<times> 'w"
  flush :: "'w \<Rightarrow> (rstr + unit) \<times> 'w"

definition write_response :: "'w writer \<Rightarrow> nat \<Rightarrow> rstr \<Rightarrow> byte list \<Rightarrow> 'w \<Rightarrow> (rstr + unit) \<times> 'w" where
  "write_response W status content_type body s =
     (case write_all W (utf8 (response_head status content_type (length body))) s of
        (Inl e, s1) \<Rightarrow> (Inl e, s1)
      | (Inr _, s1) \<Rightarrow> (case write_all W body s1 of
                          (Inl e, s2) \<Rightarrow> (Inl e, s2)
                        | (Inr _, s2) \<Rightarrow> flush W s2))"

record HttpRequest =
  hq_method :: rstr
  hq_url :: rstr
  hq_headers :: "(rstr \<times> rstr) list"
  hq_body :: "byte list"

record HttpResponse =
  hr_status :: nat
  hr_body :: "byte list"

definition response_text :: "HttpResponse \<Rightarrow> rstr" where
  "response_text r = from_utf8_lossy (hr_body r)"

definition is_success :: "HttpResponse \<Rightarrow> bool" where
  "is_success r \<longleftrightarrow> 200 \<le> hr_status r \<and> hr_status r < 300"

text \<open>The position of the first window equal to \<open>p\<close>.\<close>

fun window_position :: "'a list \<Rightarrow> 'a list \<Rightarrow> nat option" where
  "window_position p [] = None"
| "window_position p (x # xs) =
     (if take (length p) (x # xs) = p then Some 0 else map_option Suc (window_position p xs))"

lemma window_position_bound:
  "window_position p xs = Some i \<Longrightarrow> i + length p \<le> length xs"
proof (induction p xs arbitrary: i rule: window_position.induct)
  case (2 p x xs)
  show ?case
  proof (cases "take (length p) (x # xs) = p")
    case True
    then have "length p \<le> length (x # xs)" by (metis length_take min.cobounded1)
    with True 2 show ?thesis by simp
  next
    case False
    with 2 show ?thesis by auto
  qed
qed simp

text \<open>A chunk's size as its size line gives it; what cannot be read counts as the end.\<close>

definition chunk_size :: "byte list \<Rightarrow> nat" where
  "chunk_size size_line =
     (case from_str_radix 16 (2 ^ 64) (trim (hd (split_on (\<lambda>c. c = 59) (from_utf8_lossy size_line)))) of
        Some n \<Rightarrow> n | None \<Rightarrow> 0)"

text \<open>\<open>start + size\<close> is a \<open>usize\<close> sum: past \<open>2 ^ 64\<close> it panics where overflow is checked, and wraps
  to an end before the start, which the slice panics on, where it is not.  Both are \<open>None\<close>.\<close>

function dechunk_loop :: "byte list \<Rightarrow> nat \<Rightarrow> byte list \<Rightarrow> byte list option" where
  "dechunk_loop body index out =
     (if index < length body then
        (case window_position [13, 10] (drop index body) of
           None \<Rightarrow> Some out
         | Some line_end \<Rightarrow>
             let size = chunk_size (segment body index (index + line_end))
             in if size = 0 then Some out
                else let start = index + line_end + 2
                     in if 2 ^ 64 \<le> start + size then None
                        else let finish = min (start + size) (length body)
                             in dechunk_loop body (finish + 2) (out @ segment body start finish))
      else Some out)"
  by pat_completeness auto
termination
  by (relation "measure (\<lambda>(body, index, out). length body - index)") auto

declare dechunk_loop.simps [simp del]

definition dechunk :: "byte list \<Rightarrow> byte list option" where
  "dechunk body = dechunk_loop body 0 []"

definition is_chunked_line :: "rstr \<Rightarrow> bool" where
  "is_chunked_line line \<longleftrightarrow>
     starts_with (lit ''transfer-encoding:chunked'')
       (str_replace (lit '' '') [] (map to_ascii_lowercase line))"

definition head_status :: "rstr \<Rightarrow> nat option" where
  "head_status head =
     (case first_opt (str_lines head) of
        None \<Rightarrow> None
      | Some line \<Rightarrow> (case get_at (split_whitespace line) 1 of
                        None \<Rightarrow> None
                      | Some code \<Rightarrow> parse_u16 code))"

definition parse_response :: "byte list \<Rightarrow> (rstr + HttpResponse) option" where
  "parse_response raw =
     (case window_position [13, 10, 13, 10] raw of
        None \<Rightarrow> Some (Inl (lit ''the desk's answer had no headers''))
      | Some at \<Rightarrow>
          let head = from_utf8_lossy (take at raw)
          in (case head_status head of
                None \<Rightarrow> Some (Inl (lit ''the desk's answer had no status''))
              | Some status \<Rightarrow>
                  let body = drop (at + 4) raw
                  in if list_ex is_chunked_line (str_lines head)
                     then map_option (\<lambda>b. Inr \<lparr>hr_status = status, hr_body = b\<rparr>) (dechunk body)
                     else Some (Inr \<lparr>hr_status = status, hr_body = body\<rparr>)))"

section \<open>The client's round trip\<close>

text \<open>What the system answers a client: name resolution, a connection, the socket's timeouts, a
  write, and the bytes read to the end.\<close>

record network =
  to_socket_addrs :: "rstr \<Rightarrow> nat \<Rightarrow> rstr + rstr list"
  connect_timeout :: "rstr \<Rightarrow> nat \<Rightarrow> rstr + unit"
  set_timeouts :: "nat \<Rightarrow> rstr + unit"
  send_all :: "byte list \<Rightarrow> rstr + unit"
  read_to_end :: "byte list \<Rightarrow> rstr + byte list"

definition own_header :: "rstr \<Rightarrow> bool" where
  "own_header name \<longleftrightarrow>
     eq_ignore_ascii_case name (lit ''content-length'') \<or> eq_ignore_ascii_case name (lit ''host'')"

definition header_line :: "rstr \<times> rstr \<Rightarrow> rstr" where
  "header_line h = (case h of (name, v) \<Rightarrow> name @ lit '': '' @ v @ CRLF)"

definition request_head :: "HttpRequest \<Rightarrow> rstr \<Rightarrow> nat \<Rightarrow> rstr \<Rightarrow> rstr" where
  "request_head q host port target =
     hq_method q @ lit '' '' @ target @ lit '' HTTP/1.0'' @ CRLF
     @ lit ''Host: '' @ host @ lit '':'' @ nat_to_str port @ CRLF
     @ lit ''Connection: close'' @ CRLF
     @ concat (map header_line (filter (\<lambda>(name, v). \<not> own_header name) (hq_headers q)))
     @ lit ''Content-Length: '' @ nat_to_str (length (hq_body q)) @ CRLF @ CRLF"

definition request_bytes :: "HttpRequest \<Rightarrow> rstr \<Rightarrow> nat \<Rightarrow> rstr \<Rightarrow> byte list" where
  "request_bytes q host port target = utf8 (request_head q host port target) @ hq_body q"

definition parse_authority :: "rstr \<Rightarrow> rstr + rstr \<times> nat" where
  "parse_authority authority =
     (case rsplit_once [58] authority of
        None \<Rightarrow> Inr (authority, 80)
      | Some (host, port) \<Rightarrow>
          (case parse_u16 port of
             None \<Rightarrow> Inl (authority @ lit '' has no usable port'')
           | Some p \<Rightarrow> Inr (host, p)))"

definition host_port :: "rstr \<Rightarrow> nat \<Rightarrow> rstr" where
  "host_port host port = host @ lit '':'' @ nat_to_str port"

text \<open>The exchange once the address is read.\<close>

definition round_trip :: "network \<Rightarrow> HttpRequest \<Rightarrow> nat \<Rightarrow> rstr \<Rightarrow> nat \<Rightarrow> rstr \<Rightarrow>
    (rstr + HttpResponse) option" where
  "round_trip N q timeout host port target =
     (case to_socket_addrs N host port of
        Inl e \<Rightarrow> Some (Inl (host @ lit '' could not be resolved: '' @ e))
      | Inr [] \<Rightarrow> Some (Inl (host @ lit '' could not be resolved''))
      | Inr (address # _) \<Rightarrow>
     (case connect_timeout N address timeout of
        Inl e \<Rightarrow> Some (Inl (lit ''couldn't reach '' @ host_port host port @ lit '': '' @ e))
      | Inr _ \<Rightarrow>
     (case set_timeouts N timeout of
        Inl e \<Rightarrow> Some (Inl e)
      | Inr _ \<Rightarrow>
     (case send_all N (request_bytes q host port target) of
        Inl e \<Rightarrow> Some (Inl (lit ''couldn't send to '' @ host_port host port @ lit '': '' @ e))
      | Inr _ \<Rightarrow>
     (case read_to_end N (request_bytes q host port target) of
        Inl e \<Rightarrow> Some (Inl (lit ''no answer from '' @ host_port host port @ lit '': '' @ e))
      | Inr raw \<Rightarrow> parse_response raw)))))"

definition request :: "network \<Rightarrow> HttpRequest \<Rightarrow> nat \<Rightarrow> (rstr + HttpResponse) option" where
  "request N q timeout =
     (case strip_prefix (lit ''http://'') (hq_url q) of
        None \<Rightarrow> Some (Inl (hq_url q @ lit '' is not an http:// address''))
      | Some rest \<Rightarrow>
          let (authority, target) = (case str_find [47] rest of
                Some i \<Rightarrow> (take i rest, drop i rest) | None \<Rightarrow> (rest, lit ''/''))
          in (case parse_authority authority of
                Inl e \<Rightarrow> Some (Inl e)
              | Inr (host, port) \<Rightarrow> round_trip N q timeout host port target))"

text \<open>The target a client uploads a harness's file under (\<open>mirror_pass\<close> of \<open>main.rs\<close>): each segment
  of the path is percent coded.\<close>

definition encode_path :: "rstr \<Rightarrow> rstr" where
  "encode_path rel = join_with (lit ''/'') (map percent_encode (split_on (\<lambda>c. c = 47) rel))"

definition upload_target :: "rstr \<Rightarrow> rstr \<Rightarrow> rstr" where
  "upload_target name relative = lit ''/v1/agents/'' @ percent_encode name @ lit ''/'' @ encode_path relative"

end
