(* ===== verification/BTree.thy ===== *)
theory BTree
  imports Prelude "HOL-Library.List_Lexorder"
begin

text \<open>
  \<open>std::collections::BTreeMap\<close> as the bridge uses it: the entries in the order of their keys.  The
  order of strings is the lexicographic one on code points, which UTF-8 keeps, so it is the order of
  Rust's \<open>str\<close>.  What a client relies on is the locale \<open>key_map\<close>, extended by \<open>listed_map\<close> for clients
  that go through the entries.
\<close>

section \<open>The interface\<close>

locale key_map =
  fixes look :: "'m \<Rightarrow> 'k \<Rightarrow> 'v option" and put :: "'k \<Rightarrow> 'v \<Rightarrow> 'm \<Rightarrow> 'm" and del :: "'k \<Rightarrow> 'm \<Rightarrow> 'm"
  assumes look_put: "look (put k v m) k' = (if k' = k then Some v else look m k')"
    and look_del: "look (del k m) k' = (if k' = k then None else look m k')"
begin

lemma look_put_same: "look (put k v m) k = Some v"
  by (simp add: look_put)

lemma look_put_put: "look (put k v (put k w m)) = look (put k v m)"
  by (rule ext) (simp add: look_put)

lemma look_del_put: "look m k = None \<Longrightarrow> look (del k (put k v m)) = look m"
  by (rule ext) (simp add: look_put look_del)

lemma look_fold_put:
  "look (fold (\<lambda>(k, v). put k v) kvs m) k = (case map_of (rev kvs) k of Some v \<Rightarrow> Some v | None \<Rightarrow> look m k)"
  by (induction kvs arbitrary: m) (auto simp: look_put map_add_def split: option.splits)

end

locale listed_map = key_map look put del
  for look :: "'m \<Rightarrow> 'k :: linorder \<Rightarrow> 'v option" and put :: "'k \<Rightarrow> 'v \<Rightarrow> 'm \<Rightarrow> 'm" and del :: "'k \<Rightarrow> 'm \<Rightarrow> 'm" +
  fixes ok :: "'m \<Rightarrow> bool" and entries :: "'m \<Rightarrow> ('k \<times> 'v) list"
  assumes ok_put: "ok m \<Longrightarrow> ok (put k v m)"
    and ok_del: "ok m \<Longrightarrow> ok (del k m)"
    and in_entries: "ok m \<Longrightarrow> (k, v) \<in> set (entries m) \<longleftrightarrow> look m k = Some v"
    and entries_sorted: "ok m \<Longrightarrow> sorted_wrt (<) (map fst (entries m))"
begin

lemma ok_fold_put: "ok m \<Longrightarrow> ok (fold (\<lambda>(k, v). put k v) kvs m)"
  by (induction kvs arbitrary: m) (auto simp: ok_put)

lemma keys_distinct: "ok m \<Longrightarrow> distinct (map fst (entries m))"
  using entries_sorted strict_sorted_iff by blast

text \<open>Two maps with the same look-ups list the same entries.\<close>

lemma entries_determined:
  assumes "ok m" and "ok m'" and "look m = look m'"
  shows "entries m = entries m'"
proof -
  have s: "set (entries m) = set (entries m')" using assms in_entries by (auto simp: set_eq_iff)
  have "map fst (entries m) = map fst (entries m')"
    using assms s entries_sorted by (intro strict_sorted_equal) simp_all
  moreover have "inj_on fst (set (entries m) \<union> set (entries m'))"
    using assms keys_distinct [of m] s by (simp add: distinct_map)
  ultimately show ?thesis by (simp add: inj_on_map_eq_map)
qed

end

section \<open>The map\<close>

fun bt_insert :: "'k :: linorder \<Rightarrow> 'v \<Rightarrow> ('k \<times> 'v) list \<Rightarrow> ('k \<times> 'v) list" where
  "bt_insert k v [] = [(k, v)]"
| "bt_insert k v ((k', v') # m) =
     (if k < k' then (k, v) # (k', v') # m
      else if k = k' then (k', v) # m
      else (k', v') # bt_insert k v m)"

definition bt_remove :: "'k \<Rightarrow> ('k \<times> 'v) list \<Rightarrow> ('k \<times> 'v) list" where
  "bt_remove k m = filter (\<lambda>(k', v). k' \<noteq> k) m"

definition bt_get :: "('k \<times> 'v) list \<Rightarrow> 'k \<Rightarrow> 'v option" where
  "bt_get m k = map_of m k"

definition bt_ok :: "('k :: linorder \<times> 'v) list \<Rightarrow> bool" where
  "bt_ok m \<longleftrightarrow> sorted_wrt (<) (map fst m)"

text \<open>\<open>collect\<close> of pairs into a map.\<close>

definition bt_collect :: "('k :: linorder \<times> 'v) list \<Rightarrow> ('k \<times> 'v) list" where
  "bt_collect kvs = fold (\<lambda>(k, v). bt_insert k v) kvs []"

lemma bt_get_insert: "bt_get (bt_insert k v m) k' = (if k' = k then Some v else bt_get m k')"
  by (induction k v m rule: bt_insert.induct) (auto simp: bt_get_def)

lemma bt_get_remove: "bt_get (bt_remove k m) k' = (if k' = k then None else bt_get m k')"
  unfolding bt_get_def bt_remove_def by (induction m) auto

lemma keys_bt_insert: "fst ` set (bt_insert k v m) = insert k (fst ` set m)"
  by (induction k v m rule: bt_insert.induct) auto

lemma bt_ok_insert: "bt_ok m \<Longrightarrow> bt_ok (bt_insert k v m)"
proof (induction k v m rule: bt_insert.induct)
  case (2 k v k' v' m)
  have "\<forall>x \<in> fst ` set (bt_insert k v m). k' < x" if "k' < k"
    using 2(2) that by (auto simp: keys_bt_insert bt_ok_def)
  with 2 show ?case by (auto simp: bt_ok_def not_less_iff_gr_or_eq)
qed (simp add: bt_ok_def)

lemma bt_ok_remove: "bt_ok m \<Longrightarrow> bt_ok (bt_remove k m)"
  unfolding bt_ok_def bt_remove_def by (induction m) auto

interpretation bt: listed_map bt_get bt_insert bt_remove bt_ok "\<lambda>m. m"
proof unfold_locales
  fix m :: "('a \<times> 'b) list" and k v
  assume "bt_ok m"
  then have "distinct (map fst m)" by (simp add: bt_ok_def strict_sorted_iff)
  then show "(k, v) \<in> set m \<longleftrightarrow> bt_get m k = Some v" by (simp add: bt_get_def)
qed (simp_all add: bt_get_insert bt_get_remove bt_ok_insert bt_ok_remove, simp add: bt_ok_def)

lemma bt_get_Nil [simp]: "bt_get [] k = None"
  by (simp add: bt_get_def)

lemma bt_ok_Nil [simp]: "bt_ok []"
  by (simp add: bt_ok_def)

lemma bt_get_collect: "distinct (map fst kvs) \<Longrightarrow> bt_get (bt_collect kvs) k = map_of kvs k"
proof -
  assume "distinct (map fst kvs)"
  then have "map_of (rev kvs) k = map_of kvs k" 
    by (metis distinct_rev map_of_eqI map_of_inject_set rev_map set_rev)
  then show ?thesis unfolding bt_collect_def by (subst bt.look_fold_put) (simp split: option.splits)
qed

lemma bt_ok_collect: "bt_ok (bt_collect kvs)"
  unfolding bt_collect_def by (rule bt.ok_fold_put) simp

end
