(* ===== verification/Mirror.thy ===== *)
theory Mirror
  imports Bridge_Rules Bridge_Http BTree
begin

text \<open>
  Mirroring a harness's memory folder into the vault: the record of what went
  (\<open>crates/thock-bridge/mirror.rs\<close>) and the pass that uploads (\<open>mirror_pass\<close> of \<open>main.rs\<close>).  A folder
  is the tree of entries \<open>read_dir\<close> and \<open>metadata\<close> give, symbolic links followed, with names as bytes.
  The file contents, the desk and the file the state is saved in are the record \<open>pass_env\<close>.
\<close>

section \<open>The state\<close>

definition MIRROR_MAX_BYTES :: nat where "MIRROR_MAX_BYTES = 1024 * 1024"

definition MIRRORED_EXTENSIONS :: "rstr list" where
  "MIRRORED_EXTENSIONS = [lit ''md'', lit ''txt'', lit ''json'']"

record MirrorFile =
  mf_relative :: rstr
  mf_absolute :: "byte list list"
  mf_modified_secs :: nat
  mf_size :: nat

record RefusedFile =
  rf_modified_secs :: nat
  rf_size :: nat
  rf_reason :: rstr

record MirrorState =
  ms_uploaded :: "(rstr \<times> nat) list"
  ms_refused :: "(rstr \<times> RefusedFile) list"

definition state_default :: MirrorState where
  "state_default = \<lparr>ms_uploaded = [], ms_refused = []\<rparr>"

text \<open>\<open>load\<close>: what the file holds, if it can be read and parsed (\<open>from_slice\<close> is \<open>serde_json\<close>'s).\<close>

definition state_load :: "(byte list \<Rightarrow> MirrorState option) \<Rightarrow> byte list option \<Rightarrow> MirrorState" where
  "state_load from_slice file =
     (case file of None \<Rightarrow> state_default
      | Some raw \<Rightarrow> (case from_slice raw of None \<Rightarrow> state_default | Some st \<Rightarrow> st))"

definition state_record :: "rstr \<Rightarrow> nat \<Rightarrow> MirrorState \<Rightarrow> MirrorState" where
  "state_record relative secs st =
     \<lparr>ms_uploaded = bt_insert relative secs (ms_uploaded st),
      ms_refused = bt_remove relative (ms_refused st)\<rparr>"

definition record_refusal :: "rstr \<Rightarrow> nat \<Rightarrow> nat \<Rightarrow> rstr \<Rightarrow> MirrorState \<Rightarrow> MirrorState" where
  "record_refusal relative secs len why st =
     st\<lparr>ms_refused := bt_insert relative \<lparr>rf_modified_secs = secs, rf_size = len, rf_reason = why\<rparr> (ms_refused st)\<rparr>"

definition is_refused :: "MirrorState \<Rightarrow> rstr \<Rightarrow> nat \<Rightarrow> nat \<Rightarrow> bool" where
  "is_refused st relative secs len \<longleftrightarrow>
     is_some_and (bt_get (ms_refused st) relative) (\<lambda>r. rf_modified_secs r = secs \<and> rf_size r = len)"

definition is_mirrored_path :: "rstr \<Rightarrow> bool" where
  "is_mirrored_path relative \<longleftrightarrow>
     \<not> isl (validate_vault_path relative)
     \<and> list_ex (eq_ignore_ascii_case (last (split_on (\<lambda>c. c = 46) relative))) MIRRORED_EXTENSIONS"

section \<open>The plan\<close>

text \<open>An entry of a directory: one that could not be read, one without metadata, a directory (with
  its own entries when they can be listed), a file with its length and modification time in seconds,
  or something else.\<close>

datatype fs_entry =
    BadEntry
  | NoMetadata "byte list"
  | DirEntry "byte list" "fs_entry list option"
  | FileEntry "byte list" nat "int option"
  | OtherEntry "byte list"

definition modified_secs :: "int option \<Rightarrow> nat" where
  "modified_secs t = (case t of Some s \<Rightarrow> if 0 \<le> s then nat s else 0 | None \<Rightarrow> 0)"

definition relative_path :: "byte list list \<Rightarrow> rstr" where
  "relative_path comps = join_with [47] (map from_utf8_lossy comps)"

text \<open>What the walk does at a file.\<close>

definition file_due :: "MirrorState \<Rightarrow> rstr \<Rightarrow> nat \<Rightarrow> nat \<Rightarrow> bool" where
  "file_due st relative secs len \<longleftrightarrow>
     \<not> is_some_and (bt_get (ms_uploaded st) relative) (\<lambda>uploaded. secs \<le> uploaded)
     \<and> \<not> is_refused st relative secs len"

definition visit_file :: "byte list list \<Rightarrow> byte list list \<Rightarrow> MirrorState \<Rightarrow> nat \<Rightarrow> int option \<Rightarrow> MirrorFile list" where
  "visit_file root comps st len t =
     (if MIRROR_MAX_BYTES < len then []
      else if \<not> is_mirrored_path (relative_path comps) then []
      else if file_due st (relative_path comps) (modified_secs t) len
      then [\<lparr>mf_relative = relative_path comps, mf_absolute = root @ comps,
             mf_modified_secs = modified_secs t, mf_size = len\<rparr>]
      else [])"

definition dot_name :: "byte list \<Rightarrow> bool" where
  "dot_name name \<longleftrightarrow> (case from_utf8 name of Some s \<Rightarrow> starts_with [46] s | None \<Rightarrow> True)"

fun walk_entry :: "byte list list \<Rightarrow> byte list list \<Rightarrow> MirrorState \<Rightarrow> fs_entry \<Rightarrow> MirrorFile list" where
  "walk_entry root dir st BadEntry = []"
| "walk_entry root dir st (NoMetadata name) = []"
| "walk_entry root dir st (DirEntry name listing) =
     (if dot_name name then []
      else (case listing of None \<Rightarrow> []
            | Some es \<Rightarrow> concat (map (walk_entry root (dir @ [name]) st) es)))"
| "walk_entry root dir st (FileEntry name len t) = visit_file root (dir @ [name]) st len t"
| "walk_entry root dir st (OtherEntry name) = []"

definition plan_mirror :: "byte list list \<Rightarrow> MirrorState \<Rightarrow> fs_entry list option \<Rightarrow> MirrorFile list" where
  "plan_mirror root st listing =
     (case listing of None \<Rightarrow> []
      | Some es \<Rightarrow> sort_key mf_relative (concat (map (walk_entry root [] st) es)))"

section \<open>The pass\<close>

record MirrorReport =
  mr_uploaded :: nat
  mr_refused :: "(rstr \<times> rstr) list"

record pass_env =
  read_file :: "byte list list \<Rightarrow> rstr + byte list"
  put_file :: "rstr \<Rightarrow> byte list \<Rightarrow> rstr + HttpResponse"
  error_field :: "byte list \<Rightarrow> rstr option"
  save_state :: "MirrorState \<Rightarrow> rstr option"

definition scope_map :: "rstr \<Rightarrow> (rstr \<times> 'v) list \<Rightarrow> (rstr \<times> 'v) list" where
  "scope_map front m =
     bt_collect (List.map_filter (\<lambda>(key, v). map_option (\<lambda>rest. (rest, v)) (strip_prefix front key)) m)"

definition scoped :: "rstr \<Rightarrow> MirrorState \<Rightarrow> MirrorState" where
  "scoped name st =
     \<lparr>ms_uploaded = scope_map (name @ [47]) (ms_uploaded st),
      ms_refused = scope_map (name @ [47]) (ms_refused st)\<rparr>"

definition file_label :: "rstr \<Rightarrow> rstr \<Rightarrow> rstr" where
  "file_label name relative = name @ [47] @ relative"

definition refusal_reason :: "pass_env \<Rightarrow> HttpResponse \<Rightarrow> rstr" where
  "refusal_reason E resp =
     nat_to_str (hr_status resp) @ lit '': ''
     @ (case error_field E (hr_body resp) of Some e \<Rightarrow> e | None \<Rightarrow> trim (response_text resp))"

text \<open>The files of one harness.  The state is saved after every file; a file whose state cannot be
  saved stops the pass, and what was saved before it stays.\<close>

fun upload_files :: "pass_env \<Rightarrow> rstr \<Rightarrow> MirrorFile list \<Rightarrow> MirrorReport \<Rightarrow> MirrorState \<Rightarrow>
    (rstr + MirrorReport) \<times> MirrorState" where
  "upload_files E name [] rep st = (Inr rep, st)"
| "upload_files E name (f # files) rep st =
     (case read_file E (mf_absolute f) of
        Inl e \<Rightarrow> (Inl e, st)
      | Inr bytes \<Rightarrow>
     (case put_file E (upload_target name (mf_relative f)) bytes of
        Inl e \<Rightarrow> (Inl e, st)
      | Inr resp \<Rightarrow>
          let label = file_label name (mf_relative f)
          in if 500 \<le> hr_status resp then
               (Inl (lit ''the desk answered '' @ nat_to_str (hr_status resp) @ lit '' for '' @ label), st)
             else if \<not> is_success resp then
               let why = refusal_reason E resp;
                   st' = record_refusal label (mf_modified_secs f) (mf_size f) why st
               in (case save_state E st' of
                     Some e \<Rightarrow> (Inl e, st)
                   | None \<Rightarrow> upload_files E name files (rep\<lparr>mr_refused := mr_refused rep @ [(label, why)]\<rparr>) st')
             else
               let st' = state_record label (mf_modified_secs f) st
               in (case save_state E st' of
                     Some e \<Rightarrow> (Inl e, st)
                   | None \<Rightarrow> upload_files E name files (rep\<lparr>mr_uploaded := mr_uploaded rep + 1\<rparr>) st')))"

definition harness_name :: "fs_entry \<Rightarrow> (rstr \<times> byte list \<times> fs_entry list option) option" where
  "harness_name e =
     (case e of
        DirEntry name listing \<Rightarrow> map_option (\<lambda>s. (sanitize_harness s, name, listing)) (from_utf8 name)
      | _ \<Rightarrow> None)"

fun harness_loop_pass :: "pass_env \<Rightarrow> byte list list \<Rightarrow> fs_entry list \<Rightarrow> MirrorReport \<Rightarrow> MirrorState \<Rightarrow>
    (rstr + MirrorReport) \<times> MirrorState" where
  "harness_loop_pass E root [] rep st = (Inr rep, st)"
| "harness_loop_pass E root (h # hs) rep st =
     (case harness_name h of
        None \<Rightarrow> harness_loop_pass E root hs rep st
      | Some (name, dir, listing) \<Rightarrow>
          (case upload_files E name (plan_mirror (root @ [dir]) (scoped name st) listing) rep st of
             (Inl e, st') \<Rightarrow> (Inl e, st')
           | (Inr rep', st') \<Rightarrow> harness_loop_pass E root hs rep' st'))"

text \<open>The pass over the folder of all harnesses, from the state loaded; the state returned is the one
  on disk at the end.\<close>

definition mirror_pass :: "pass_env \<Rightarrow> byte list list \<Rightarrow> fs_entry list option \<Rightarrow> MirrorState \<Rightarrow>
    (rstr + MirrorReport) \<times> MirrorState" where
  "mirror_pass E root agents st =
     (case agents of
        None \<Rightarrow> (Inr \<lparr>mr_uploaded = 0, mr_refused = []\<rparr>, st)
      | Some hs \<Rightarrow> harness_loop_pass E root hs \<lparr>mr_uploaded = 0, mr_refused = []\<rparr> st)"

end
