(* ===== verification/Bridge_Http_Props.thy ===== *)
theory Bridge_Http_Props
  imports Bridge_Http Search Decimal
begin

text \<open>
  The HTTP of the bridge, end to end: percent coding and the upload route, the head the desk reads
  back from the bytes of the client and how much of a stream it may take, the response the client
  reads back from the bytes of the desk, and chunked bodies.
\<close>

section \<open>ASCII inside UTF-8\<close>

lemma utf8_char_ascii: "0 \<le> c \<Longrightarrow> c < 128 \<Longrightarrow> utf8_char c = [word_of_int c]"
  by (simp add: utf8_char_def)

lemma utf8_of_ascii: "(\<And>c. c \<in> set s \<Longrightarrow> 0 \<le> c \<and> c < 128) \<Longrightarrow> utf8 s = map word_of_int s"
  by (induction s) (simp_all add: utf8_char_ascii)

text \<open>A byte below 128 encodes the character of that number and nothing else.\<close>

lemma utf8_char_ascii_byte:
  assumes "scalar c" and "b \<in> set (utf8_char c)" and "uint b < 128"
  shows "c = uint b"
proof -
  from assms(2) have "uint b \<in> set (map uint (utf8_char c))" by simp
  then have "uint b \<in> set (utf8_ints c)" using assms(1) by (simp add: utf8_char_ints)
  moreover have "0 \<le> c" using assms(1) by (simp add: scalar_def)
  ultimately show ?thesis using assms(3)
    by (auto simp: utf8_ints_def pos_imp_zdiv_nonneg_iff split: if_splits)
qed

lemma utf8_ascii_byte:
  "list_all scalar s \<Longrightarrow> b \<in> set (utf8 s) \<Longrightarrow> uint b < 128 \<Longrightarrow> uint b \<in> set s"
  by (induction s) (auto dest: utf8_char_ascii_byte)

section \<open>Percent coding\<close>

lemma upper_hex_digit_ascii: "n < 16 \<Longrightarrow> 48 \<le> upper_hex_digit n \<and> upper_hex_digit n \<le> 70"
  by (simp add: upper_hex_digit_def)

lemma to_digit_upper: "n < 16 \<Longrightarrow> to_digit 16 (upper_hex_digit n) = Some n"
  by (auto simp: to_digit_def upper_hex_digit_def Let_def)

lemma byte_nibbles:
  "or (push_bit 4 (of_nat (unat b div 16))) (of_nat (unat b mod 16)) = (b :: byte)"
proof -
  have "(of_nat (unat b div 16) :: byte) = b div 16" "(of_nat (unat b mod 16) :: byte) = b mod 16"
    using word_arith_nat_div [of b 16] word_arith_nat_mod [of b 16] by simp_all
  then have "(of_nat (unat b div 16) :: byte) = drop_bit 4 b" "(of_nat (unat b mod 16) :: byte) = take_bit 4 b"
    by (simp_all add: drop_bit_eq_div take_bit_eq_mod)
  moreover have "or (push_bit 4 (drop_bit 4 b)) (take_bit 4 b) = b"
    by (rule bit_eqI) (auto simp: bit_simps)
  ultimately show ?thesis by simp
qed

definition url_char :: "rchar \<Rightarrow> bool" where
  "url_char c \<longleftrightarrow> is_ascii_alphanumeric c \<or> c \<in> {37, 45, 46, 95, 126}"

lemma url_char_ascii: "url_char c \<Longrightarrow> 0 \<le> c \<and> c < 128 \<and> c \<noteq> 47 \<and> c \<noteq> 63"
  by (auto simp: url_char_def is_ascii_alphanumeric_def is_ascii_digit_def is_ascii_uppercase_def
      is_ascii_lowercase_def)

lemma url_char_hex: "n < 16 \<Longrightarrow> url_char (upper_hex_digit n)"
  by (auto simp: upper_hex_digit_def url_char_def is_ascii_alphanumeric_def is_ascii_digit_def
      is_ascii_uppercase_def)

lemma nibble: "unat (b :: byte) div 16 < 16"
  using unsigned_less [of b, where 'a = nat] by (simp add: div_less_iff_less_mult)

lemma encode_byte_chars: "c \<in> set (encode_byte b) \<Longrightarrow> url_char c"
  by (auto simp: encode_byte_def url_char_hex nibble split: if_splits) (auto simp: unreserved_def url_char_def)

lemma decode_encode_byte: "decode_loop (map word_of_int (encode_byte b) @ rest) = b # decode_loop rest"
proof (cases "unreserved b")
  case True
  then have "b \<noteq> 37" by (auto simp: unreserved_def is_ascii_alphanumeric_def is_ascii_digit_def
      is_ascii_uppercase_def is_ascii_lowercase_def)
  with True show ?thesis by (simp add: encode_byte_def)
next
  case False
  have "uint (word_of_int (upper_hex_digit n) :: byte) = upper_hex_digit n" if "n < 16" for n
    using upper_hex_digit_ascii [OF that] by (simp add: uint_byte)
  with nibble [of b] have "hex_pair (word_of_int (upper_hex_digit (unat b div 16))) (word_of_int (upper_hex_digit (unat b mod 16))) = Some b"
    by (simp add: hex_pair_def to_digit_upper byte_nibbles)
  with False show ?thesis by (simp add: encode_byte_def)
qed

lemma decode_encode_bytes: "decode_loop (map word_of_int (concat (map encode_byte bs)) @ rest) = bs @ decode_loop rest"
  by (induction bs) (simp_all add: decode_encode_byte del: decode_loop.simps)

lemma percent_encode_chars: "c \<in> set (percent_encode s) \<Longrightarrow> url_char c"
  by (auto simp: percent_encode_def dest: encode_byte_chars)

lemma percent_encode_utf8: "utf8 (percent_encode s) = map word_of_int (percent_encode s)"
  by (rule utf8_of_ascii) (use percent_encode_chars url_char_ascii in blast)

lemma percent_decode_encode: "list_all scalar s \<Longrightarrow> percent_decode (percent_encode s) = s"
  using decode_encode_bytes [of "utf8 s" "[]"]
  by (simp add: percent_decode_def percent_encode_utf8) (simp add: percent_encode_def)

text \<open>A slash is kept as it is, so a path encoded segment by segment decodes as a whole.\<close>

lemma decode_slash: "decode_loop (47 # bs) = 47 # decode_loop bs"
  by simp

lemma join_with_Cons: "ws \<noteq> [] \<Longrightarrow> join_with sep (w # ws) = w @ sep @ join_with sep ws"
  by (cases ws) simp_all

lemma encode_path_simps:
  "encode_path [] = []"
  "encode_path (47 # s) = 47 # encode_path s"
  "c \<noteq> 47 \<Longrightarrow> encode_path (c # s) = percent_encode [c] @ encode_path s"
proof -
  show "encode_path [] = []" by (simp add: encode_path_def percent_encode_def)
  show "encode_path (47 # s) = 47 # encode_path s"
    by (simp add: encode_path_def join_with_Cons percent_encode_def)
  assume "c \<noteq> 47"
  then show "encode_path (c # s) = percent_encode [c] @ encode_path s"
    by (cases "tl (split_on (\<lambda>c. c = 47) s)"; cases "split_on (\<lambda>c. c = 47) s")
       (simp_all add: encode_path_def join_with_Cons percent_encode_def)
qed

lemma decode_encode_path:
  "decode_loop (map word_of_int (encode_path s) @ rest) = utf8 s @ decode_loop rest"
proof (induction s)
  case Nil
  show ?case by (simp add: encode_path_simps)
next
  case (Cons c s)
  then show ?case
    using decode_encode_bytes [of "utf8 [c]" "map word_of_int (encode_path s) @ rest"]
    by (cases "c = 47")
       (simp_all add: encode_path_simps decode_slash percent_encode_def utf8_char_def del: decode_loop.simps)
qed

lemma encode_path_chars:
  "c \<in> set (encode_path s) \<Longrightarrow> c = 47 \<or> url_char c"
proof (induction s)
  case (Cons d s)
  then show ?case
    using percent_encode_chars [of c "[d]"] by (cases "d = 47") (auto simp: encode_path_simps)
qed (simp add: encode_path_simps)

lemma percent_decode_path: "list_all scalar s \<Longrightarrow> percent_decode (encode_path s) = s"
proof -
  have "utf8 (encode_path s) = map word_of_int (encode_path s)"
    by (rule utf8_of_ascii) (use encode_path_chars url_char_ascii in fastforce)
  then show "list_all scalar s \<Longrightarrow> percent_decode (encode_path s) = s"
    using decode_encode_path [of s "[]"] by (simp add: percent_decode_def)
qed

section \<open>The upload route\<close>

lemma percent_encode_nonempty: "s \<noteq> [] \<Longrightarrow> percent_encode s \<noteq> []"
proof -
  assume "s \<noteq> []"
  then obtain b bs where "utf8 s = b # bs" by (cases s; cases "utf8 s") auto
  then show ?thesis by (simp add: percent_encode_def encode_byte_def)
qed

lemma encode_path_last: "s \<noteq> [] \<Longrightarrow> last s \<noteq> 47 \<Longrightarrow> encode_path s \<noteq> [] \<and> last (encode_path s) \<noteq> 47"
proof (induction s)
  case (Cons c s)
  have p: "percent_encode [c] \<noteq> []" by (simp add: percent_encode_nonempty)
  then have "last (percent_encode [c]) \<noteq> 47"
    using percent_encode_chars [OF last_in_set] url_char_ascii by blast
  note p = p this
  show ?case
  proof (cases "s = []")
    case True
    with Cons p show ?thesis by (simp add: encode_path_simps)
  next
    case False
    with Cons show ?thesis by (cases "c = 47") (simp_all add: encode_path_simps)
  qed
qed simp

text \<open>The target the client makes of a harness name and a path is parsed by the desk as the upload of
  that very path of that very harness, whatever characters they hold.\<close>

lemma upload_target_route:
  assumes "list_all scalar name" and "name \<noteq> []"
    and "list_all scalar relative" and "relative \<noteq> []" and "last relative \<noteq> 47"
  shows "parse_route (lit ''PUT'') (upload_target name relative) = AgentFile name relative"
proof -
  let ?t = "upload_target name relative"
  have "63 \<notin> set (percent_encode name)" "63 \<notin> set (encode_path relative)" and
    slash: "47 \<notin> set (percent_encode name)"
    using percent_encode_chars [of _ name] encode_path_chars [of 63 relative] url_char_ascii by force+
  then have no: "63 \<notin> set ?t" by (simp add: upload_target_def)
  have path: "trim_end_matches (\<lambda>c. c = 47) (hd (split_on (\<lambda>c. c = 63) ?t)) = ?t"
    using encode_path_last [OF assms(4,5)] no
    by (subst split_on_free) (auto simp: trim_end_matches_def upload_target_def intro!: drop_while_end_id)
  from slash have "split_once [47] (drop (length AGENTS_PREFIX) ?t) = Some (percent_encode name, encode_path relative)"
    using split_once_char [of 47 "percent_encode name" "encode_path relative"]
    by (simp add: AGENTS_PREFIX_def upload_target_def)
  moreover have "starts_with AGENTS_PREFIX ?t" by (simp add: AGENTS_PREFIX_def upload_target_def)
  moreover have "?t \<noteq> lit ''/mcp''" by (simp add: upload_target_def)
  ultimately show ?thesis
    using assms percent_encode_nonempty [of name] encode_path_last [of relative]
    by (simp only: parse_route_def path Let_def) (simp add: percent_decode_encode percent_decode_path)
qed

section \<open>One line of a head\<close>

lemma take_line_newline:
  "10 \<notin> set bs \<Longrightarrow> length bs < n \<Longrightarrow> take_line n (bs @ 10 # rest) = bs @ [10]"
  by (induction bs arbitrary: n) auto

lemma utf8_no_newline: "list_all scalar s \<Longrightarrow> 10 \<notin> set s \<Longrightarrow> 10 \<notin> set (utf8 s)"
  using utf8_ascii_byte [of s 10] by auto

lemma head_line_newline:
  assumes "list_all scalar line" and "10 \<notin> set line"
    and "consumed + byte_len (line @ [10]) \<le> MAX_HEAD_BYTES"
    and "r_bytes r = utf8 (line @ [10]) @ rest"
  shows "head_line consumed r =
    (Inr (line @ [10], byte_len (line @ [10]), consumed + byte_len (line @ [10])), r\<lparr>r_bytes := rest\<rparr>)"
proof -
  let ?n = "byte_len (line @ [10])"
  have nl: "utf8 [10] = [10]" by (simp add: utf8_char_def)
  have "take_line (MAX_HEAD_BYTES - consumed + 1) (r_bytes r) = utf8 (line @ [10])"
    using assms utf8_no_newline [OF assms(1,2)] take_line_newline [of "utf8 line"]
    by (simp add: byte_len_def utf8_char_def)
  moreover have "from_utf8 (utf8 (line @ [10])) = Some (line @ [10])"
    using assms(1) by (intro from_utf8_utf8) (simp add: scalar_def)
  moreover have "last (utf8 (line @ [10])) = 10" "utf8 (line @ [10]) \<noteq> []" by (simp_all add: nl del: utf8_Cons)
  ultimately show ?thesis
    using assms(3,4) by (simp add: head_line_def take_read_line_def Let_def byte_len_def del: utf8_append)
qed

text \<open>A head never takes more than the cap and one byte from the stream.\<close>

lemma head_line_takes:
  assumes "head_line consumed r = (res, r')" and "consumed \<le> MAX_HEAD_BYTES"
  shows "\<exists>k. r_bytes r' = drop k (r_bytes r) \<and> consumed + k \<le> MAX_HEAD_BYTES + of_bool (isl res)"
proof -
  define l where "l = take_line ((MAX_HEAD_BYTES - consumed) + 1) (r_bytes r)"
  have "r' = r\<lparr>r_bytes := drop (length l) (r_bytes r)\<rparr>"
    "\<not> isl res \<Longrightarrow> consumed + length l \<le> MAX_HEAD_BYTES"
    using assms(1) by (auto simp: head_line_def take_read_line_def Let_def l_def split: if_splits option.splits)
  moreover have "length l \<le> (MAX_HEAD_BYTES - consumed) + 1" by (simp add: l_def length_take_line)
  ultimately show ?thesis using assms(2) by (intro exI [of _ "length l"]) auto
qed

text \<open>The loop either stops after a line or goes on, with some bytes less, from where the line ended.\<close>

lemma header_loop_cases:
  assumes "header_loop consumed r headers len = (res, r')"
  obtains (stop) l where "head_line consumed r = (l, r')" and "isl l \<longrightarrow> isl res"
  | (more) line n c1 r1 hs len' where "head_line consumed r = (Inr (line, n, c1), r1)" and "0 < n"
      and "header_loop c1 r1 hs len' = (res, r')"
proof (cases "head_line consumed r")
  case (Pair l r1)
  then show ?thesis
    using assms stop more by (subst (asm) header_loop.simps)
      (auto simp: Let_def split: sum.splits if_splits option.splits)
qed

lemma header_loop_takes:
  "header_loop consumed r headers len = (res, r') \<Longrightarrow> consumed \<le> MAX_HEAD_BYTES \<Longrightarrow>
     \<exists>k. r_bytes r' = drop k (r_bytes r) \<and> consumed + k \<le> MAX_HEAD_BYTES + of_bool (isl res)"
proof (induction "length (r_bytes r)" arbitrary: consumed r headers len rule: less_induct)
  case less
  from less.prems(1) show ?case
  proof (cases rule: header_loop_cases)
    case (stop l)
    then show ?thesis using head_line_takes [OF stop(1) less.prems(2)] by (cases "isl l") force+
  next
    case (more line n c1 r1 hs len')
    note shr = head_line_shrinks [OF more(1)]
    have "length (r_bytes r1) < length (r_bytes r)" using shr(1,2) more(2) by simp
    from less.hyps [OF this more(3) shr(4)] obtain k
      where "r_bytes r' = drop k (r_bytes r1)" "c1 + k \<le> MAX_HEAD_BYTES + of_bool (isl res)" by blast
    then show ?thesis using shr(3,6) by (intro exI [of _ "n + k"]) (simp add: add.commute)
  qed
qed

lemma read_request_head_cases:
  obtains (stop) l r1 e where "head_line 0 r = (l, r1)" and "read_request_head r = (Inl e, r1)"
  | (headers) line n c1 r1 res r2 where "head_line 0 r = (Inr (line, n, c1), r1)"
      and "header_loop c1 r1 [] 0 = (res, r2)" and "snd (read_request_head r) = r2"
      and "isl (fst (read_request_head r)) = isl res"
proof -
  obtain l r1 where rl: "head_line 0 r = (l, r1)" by fastforce
  show thesis
  proof (cases "\<exists>line n c1. l = Inr (line, n, c1) \<and> n \<noteq> 0 \<and> 2 \<le> length (split_whitespace line)")
    case True
    then obtain line n c1 m u ws where l: "l = Inr (line, n, c1)" "n \<noteq> 0" "split_whitespace line = m # u # ws"
      by (auto simp: numeral_2_eq_2 Suc_le_length_iff)
    obtain res r2 where "header_loop c1 r1 [] 0 = (res, r2)" by fastforce
    with l rl show ?thesis
      by (intro headers [of line n c1 r1 res r2]) (simp_all add: read_request_head_def split: sum.splits)
  next
    case False
    with rl have "\<exists>e. read_request_head r = (Inl e, r1)"
      by (auto simp: read_request_head_def split: sum.splits list.splits)
    with rl show ?thesis using stop by blast
  qed
qed

section \<open>A head as the client writes it\<close>

definition plain_header :: "rstr \<times> rstr \<Rightarrow> bool" where
  "plain_header h \<longleftrightarrow> (case h of (name, v) \<Rightarrow>
     list_all scalar name \<and> list_all scalar v \<and> trim name = name \<and> trim v = v
     \<and> 58 \<notin> set name \<and> 10 \<notin> set name \<and> 10 \<notin> set v)"

lemma trimmed_last: "trim v = v \<Longrightarrow> v \<noteq> [] \<Longrightarrow> \<not> is_whitespace (last v)"
  by (metis drop_while_end_last trim_def trim_end_def)

lemma trim_space: "trim (32 # v) = trim v"
  by (simp add: trim_def trim_start_def is_whitespace_def)

lemma header_line_trimmed:
  assumes "plain_header (name, v)"
  shows "trim_end_matches is_line_end (name @ [58, 32] @ v @ [13, 10]) = name @ [58, 32] @ v"
proof -
  have "\<not> is_line_end (last (name @ [58, 32] @ v))"
    using assms trimmed_last [of v]
    by (auto simp: plain_header_def is_line_end_def is_whitespace_def split: if_splits)
  then have "trim_end_matches is_line_end (name @ [58, 32] @ v) = name @ [58, 32] @ v"
    unfolding trim_end_matches_def by (intro drop_while_end_id) simp
  moreover have "trim_end_matches is_line_end ((name @ [58, 32] @ v) @ [13, 10])
      = trim_end_matches is_line_end (name @ [58, 32] @ v)"
    unfolding trim_end_matches_def by (rule drop_while_end_append_all) (auto simp: is_line_end_def)
  ultimately show ?thesis by simp
qed

lemma header_step:
  assumes h: "plain_header (name, v)"
    and cap: "consumed + byte_len (header_line (name, v)) \<le> MAX_HEAD_BYTES"
    and r: "r_bytes r = utf8 (header_line (name, v)) @ rest"
    and len: "(if eq_ignore_ascii_case name (lit ''content-length'') then parse_usize v else Some len) = Some len'"
  shows "header_loop consumed r headers len =
    header_loop (consumed + byte_len (header_line (name, v))) (r\<lparr>r_bytes := rest\<rparr>) (headers @ [(name, v)]) len'"
proof -
  let ?line = "name @ [58, 32] @ v @ [13]"
  have hl: "header_line (name, v) = ?line @ [10]" by (simp add: header_line_def CRLF_def)
  have "list_all scalar ?line" "10 \<notin> set ?line" using h by (auto simp: plain_header_def scalar_def)
  with cap r have rl: "head_line consumed r = (Inr (?line @ [10], byte_len (?line @ [10]),
      consumed + byte_len (?line @ [10])), r\<lparr>r_bytes := rest\<rparr>)"
    unfolding hl by (intro head_line_newline)
  have "0 < byte_len (?line @ [10])" by (simp add: byte_len_def)
  moreover have "trim_end_matches is_line_end (?line @ [10]) = name @ [58] @ (32 # v)"
    using header_line_trimmed [OF h] by simp
  moreover have "split_once [58] (name @ [58] @ (32 # v)) = Some (name, 32 # v)"
    using h by (intro split_once_char) (simp add: plain_header_def)
  moreover have "trim (32 # v) = v" "trim name = name" using h by (simp_all add: plain_header_def trim_space)
  ultimately show ?thesis
    using len by (subst header_loop.simps) (auto simp: rl hl Let_def split: if_splits)
qed

lemma header_loop_end:
  assumes "consumed + 2 \<le> MAX_HEAD_BYTES" and "r_bytes r = utf8 CRLF @ rest"
  shows "header_loop consumed r headers len = (Inr (headers, len), r\<lparr>r_bytes := rest\<rparr>)"
proof -
  have b: "byte_len [13, 10] = 2" by (simp add: byte_len_def utf8_char_def)
  have "head_line consumed r = (Inr ([13] @ [10], byte_len ([13] @ [10]), consumed + byte_len ([13] @ [10])),
      r\<lparr>r_bytes := rest\<rparr>)"
    by (rule head_line_newline) (use assms b in \<open>simp_all add: scalar_def CRLF_def\<close>)
  moreover have "trim_end_matches is_line_end [13, 10] = []"
    by (simp add: trim_end_matches_def drop_while_end_def is_line_end_def)
  ultimately show ?thesis by (subst header_loop.simps) (simp add: b)
qed

lemma header_loop_plain:
  assumes "list_all plain_header hs" and "list_all (\<lambda>(name, v). \<not> eq_ignore_ascii_case name (lit ''content-length'')) hs"
    and "consumed + byte_len (concat (map header_line hs)) \<le> MAX_HEAD_BYTES"
    and "r_bytes r = utf8 (concat (map header_line hs)) @ rest"
  shows "header_loop consumed r headers len =
    header_loop (consumed + byte_len (concat (map header_line hs))) (r\<lparr>r_bytes := rest\<rparr>) (headers @ hs) len"
  using assms
proof (induction hs arbitrary: consumed r headers)
  case Nil
  then have "r\<lparr>r_bytes := rest\<rparr> = r" by simp
  then show ?case by (simp add: byte_len_def)
next
  case (Cons h hs)
  obtain name v where h: "h = (name, v)" by fastforce
  let ?more = "concat (map header_line hs)"
  have split: "byte_len (concat (map header_line (h # hs))) = byte_len (header_line h) + byte_len ?more"
    by (simp add: byte_len_def)
  have "header_loop consumed r headers len =
    header_loop (consumed + byte_len (header_line h)) (r\<lparr>r_bytes := utf8 ?more @ rest\<rparr>) (headers @ [h]) len"
    unfolding h by (rule header_step) (use Cons.prems h split in \<open>auto simp del: lit_simps\<close>)
  also have "\<dots> = header_loop (consumed + byte_len (header_line h) + byte_len ?more) (r\<lparr>r_bytes := rest\<rparr>)
      ((headers @ [h]) @ hs) len"
    using Cons.IH [of "consumed + byte_len (header_line h)" "r\<lparr>r_bytes := utf8 ?more @ rest\<rparr>" "headers @ [h]"]
      Cons.prems split by simp
  finally show ?case using split by (simp add: add.assoc)
qed

section \<open>Numbers read back\<close>

lemma radix_loop_snoc:
  "radix_loop radix limit k (s @ [c]) =
     (case radix_loop radix limit k s of None \<Rightarrow> None | Some m \<Rightarrow> radix_loop radix limit m [c])"
  by (induction s arbitrary: k) (auto split: option.splits)

lemma to_digit_decimal: "n < 10 \<Longrightarrow> to_digit 10 (48 + int n) = Some n"
  by (auto simp: to_digit_def)

lemma radix_loop_nat_to_str: "n < limit \<Longrightarrow> radix_loop 10 limit 0 (nat_to_str n) = Some n"
proof (induction n rule: nat_to_str.induct)
  case (1 n)
  show ?case
  proof (cases "n < 10")
    case True
    with 1(2) show ?thesis by (simp add: nat_to_str.simps [of n] to_digit_decimal)
  next
    case False
    then have "radix_loop 10 limit 0 (nat_to_str (n div 10)) = Some (n div 10)" using 1 by simp
    with False 1(2) show ?thesis
      by (subst nat_to_str.simps) (simp add: radix_loop_snoc to_digit_decimal)
  qed
qed

lemma nat_to_str_no: "\<not> is_ascii_digit c \<Longrightarrow> c \<notin> set (nat_to_str n)"
  using nat_to_str_digits [of n] by (auto simp: list_all_iff)

lemma parse_nat_to_str: "n < limit \<Longrightarrow> from_str_radix 10 limit (nat_to_str n) = Some n"
proof -
  have "nat_to_str n \<noteq> []" using length_nat_to_str_pos [of n] by auto
  moreover have "hd (nat_to_str n) \<noteq> 43"
    using nat_to_str_no [of 43 n] hd_in_set [OF calculation] by (auto simp: is_ascii_digit_def)
  ultimately show "n < limit \<Longrightarrow> from_str_radix 10 limit (nat_to_str n) = Some n"
    by (simp add: from_str_radix_def radix_loop_nat_to_str)
qed

section \<open>The request the desk reads\<close>

definition plain_word :: "rstr \<Rightarrow> bool" where
  "plain_word w \<longleftrightarrow> w \<noteq> [] \<and> list_all (\<lambda>c. scalar c \<and> \<not> is_whitespace c) w"

lemma plain_word_chars: "plain_word w \<Longrightarrow> list_all scalar w \<and> 10 \<notin> set w"
proof -
  have "is_whitespace 10" by (simp add: is_whitespace_def)
  then show "plain_word w \<Longrightarrow> list_all scalar w \<and> 10 \<notin> set w" by (auto simp: plain_word_def list_all_iff)
qed

lemma split_whitespace_three:
  assumes "plain_word a" and "plain_word b" and "plain_word c"
  shows "split_whitespace (a @ [32] @ b @ [32] @ c @ [13, 10]) = [a, b, c]"
proof -
  have free: "\<And>x. x \<in> set w \<Longrightarrow> \<not> is_whitespace x" "w \<noteq> []" if "plain_word w" for w
    using that by (auto simp: plain_word_def list_all_iff)
  have ws: "is_whitespace 32" "is_whitespace 13" "is_whitespace 10" by (simp_all add: is_whitespace_def)
  have "split_on is_whitespace (a @ 32 # b @ 32 # c @ 13 # 10 # []) = [a, b, c, [], []]"
    using ws by (simp add: split_on_at free(1) [OF assms(1)] free(1) [OF assms(2)] free(1) [OF assms(3)])
  then show ?thesis using free(2) assms by (simp add: split_whitespace_def)
qed

definition read_headers :: "HttpRequest \<Rightarrow> rstr \<Rightarrow> nat \<Rightarrow> (rstr \<times> rstr) list" where
  "read_headers q host port =
     (lit ''Host'', host_port host port) # (lit ''Connection'', lit ''close'')
     # filter (\<lambda>(name, v). \<not> own_header name) (hq_headers q)"

definition length_header :: "HttpRequest \<Rightarrow> rstr \<times> rstr" where
  "length_header q = (lit ''Content-Length'', nat_to_str (length (hq_body q)))"

lemma request_head_lines:
  "request_head q host port target =
     ((hq_method q @ [32] @ target @ [32] @ lit ''HTTP/1.0'' @ [13]) @ [10])
     @ concat (map header_line (read_headers q host port)) @ header_line (length_header q) @ CRLF"
  by (simp add: request_head_def read_headers_def length_header_def header_line_def host_port_def CRLF_def)

lemma plain_length_header: "plain_header (length_header q)"
proof -
  have d: "list_all is_ascii_digit (nat_to_str n)" for n by (rule nat_to_str_digits)
  then have "list_all scalar (nat_to_str n)" "\<And>c. c \<in> set (nat_to_str n) \<Longrightarrow> \<not> is_whitespace c"
      "10 \<notin> set (nat_to_str n)" for n
    by (auto simp: list_all_iff is_ascii_digit_def is_whitespace_def scalar_def) fastforce+
  moreover have "trim (lit ''Content-Length'') = lit ''Content-Length''"
    by (rule trim_no_ws) (auto simp: is_whitespace_def)
  ultimately show ?thesis by (simp add: plain_header_def length_header_def trim_no_ws scalar_def)
qed

lemma plain_read_headers:
  assumes "plain_header (lit ''Host'', host_port host port)" and "list_all plain_header (hq_headers q)"
  shows "list_all plain_header (read_headers q host port)"
    and "list_all (\<lambda>(name, v). \<not> eq_ignore_ascii_case name (lit ''content-length'')) (read_headers q host port)"
proof -
  have "plain_header (lit ''Connection'', lit ''close'')"
    by (simp add: plain_header_def scalar_def trim_def trim_start_def trim_end_def drop_while_end_def
        is_whitespace_def)
  with assms show "list_all plain_header (read_headers q host port)"
    by (auto simp: read_headers_def list_all_iff simp del: lit_simps)
  show "list_all (\<lambda>(name, v). \<not> eq_ignore_ascii_case name (lit ''content-length'')) (read_headers q host port)"
    by (auto simp: read_headers_def list_all_iff own_header_def eq_ignore_ascii_case_def
        to_ascii_lowercase_def is_ascii_uppercase_def)
qed

definition sample_request :: HttpRequest where
  "sample_request = \<lparr>hq_method = lit ''POST'', hq_url = lit ''http://desk:4417/mcp'',
     hq_headers = [(lit ''Authorization'', lit ''Bearer t''), (lit ''host'', lit ''x'')],
     hq_body = [123, 125]\<rparr>"

lemma sample_request_simps [simp]:
  "hq_method sample_request = lit ''POST''" "hq_body sample_request = [123, 125]"
  "hq_headers sample_request = [(lit ''Authorization'', lit ''Bearer t''), (lit ''host'', lit ''x'')]"
  by (simp_all add: sample_request_def)

lemma sample_headers:
  "list_all plain_header (hq_headers sample_request)"
  "plain_header (lit ''Host'', host_port (lit ''desk'') 4417)"
  by (simp_all add: plain_header_def scalar_def host_port_def nat_to_str.simps trim_def trim_start_def
      trim_end_def drop_while_end_def is_whitespace_def)

section \<open>Responses\<close>

lemma window_position_none_before:
  "13 \<notin> set l \<Longrightarrow> window_position (13 # p) (l @ rest) = map_option ((+) (length l)) (window_position (13 # p) rest)"
proof (induction l)
  case Nil
  show ?case by (simp add: map_option_case split: option.split)
next
  case (Cons b l)
  then show ?case by (auto simp: option.map_comp o_def)
qed

lemma window_position_blank:
  assumes "(13 :: byte) \<notin> set l"
  shows "window_position [13, 10, 13, 10] (l @ [13, 10, 13, 10] @ rest) = Some (length l)"
    and "x \<noteq> 13 \<Longrightarrow> window_position [13, 10, 13, 10] (l @ [13, 10] @ x # rest) =
      map_option ((+) (length l + 2)) (window_position [13, 10, 13, 10] (x # rest))"
  using window_position_none_before [OF assms]
  by (simp_all add: option.map_comp o_def)

lemma utf8_crlf: "utf8 (s @ [13, 10] @ t) = utf8 s @ [13, 10] @ utf8 t"
  by (simp add: utf8_char_def)

definition line_safe :: "rstr \<Rightarrow> bool" where
  "line_safe s \<longleftrightarrow> list_all scalar s \<and> 13 \<notin> set s \<and> 10 \<notin> set s"

lemma line_safe_append [simp]: "line_safe (s @ t) \<longleftrightarrow> line_safe s \<and> line_safe t"
  by (auto simp: line_safe_def)

lemma line_safe_nat_to_str [simp]: "line_safe (nat_to_str n)"
  using nat_to_str_digits [of n]
  by (auto simp: line_safe_def list_all_iff is_ascii_digit_def scalar_def)

lemma line_safe_reason [simp]: "line_safe (reason n)"
  by (simp add: reason_def line_safe_def scalar_def)

lemma line_safe_utf8: "line_safe s \<Longrightarrow> 13 \<notin> set (utf8 s) \<and> 10 \<notin> set (utf8 s)"
  using utf8_ascii_byte [of s 10] utf8_ascii_byte [of s 13] by (auto simp: line_safe_def)

definition response_lines :: "nat \<Rightarrow> rstr \<Rightarrow> nat \<Rightarrow> rstr list" where
  "response_lines status content_type len =
     [lit ''HTTP/1.1 '' @ nat_to_str status @ lit '' '' @ reason status,
      lit ''Content-Type: '' @ content_type, lit ''Content-Length: '' @ nat_to_str len,
      lit ''Connection: close'']"

lemma response_head_lines:
  "response_head status content_type len =
     join_with CRLF (response_lines status content_type len) @ CRLF @ CRLF"
  by (simp add: response_head_def response_lines_def CRLF_def)

lemma response_lines_safe:
  "line_safe content_type \<Longrightarrow> list_all line_safe (response_lines status content_type len)"
  by (simp add: response_lines_def del: lit_simps) (simp add: line_safe_def scalar_def)

text \<open>The blank line is found at the end of the head, and the lines before it are the ones written.\<close>

lemma join_with_front: "\<exists>t. join_with sep (w # ws) = w @ t"
  by (cases ws) simp_all

lemma safe_front:
  assumes "v \<noteq> []" and "line_safe v"
  obtains x rest where "utf8 (join_with CRLF (v # ws) @ t) @ body = x # rest" and "x \<noteq> 13"
proof -
  obtain y ys where y: "utf8 v = y # ys" using assms(1) by (cases v; cases "utf8 v") auto
  then have "y \<noteq> 13" using line_safe_utf8 [OF assms(2)] by auto
  moreover obtain u where "join_with CRLF (v # ws) = v @ u" using join_with_front by blast
  ultimately show thesis using that y by simp
qed

lemma head_split:
  assumes "list_all line_safe ws" and "\<And>w. w \<in> set ws \<Longrightarrow> w \<noteq> []" and "ws \<noteq> []"
  shows "window_position [13, 10, 13, 10] (utf8 (join_with CRLF ws @ CRLF @ CRLF) @ body) =
    Some (byte_len (join_with CRLF ws))"
  using assms
proof (induction CRLF ws rule: join_with.induct)
  case (2 w)
  then show ?case
    using window_position_blank(1) [of "utf8 w" body] line_safe_utf8 [of w]
    by (simp add: CRLF_def byte_len_def utf8_char_def)
next
  case (3 w v ws)
  let ?more = "utf8 (join_with CRLF (v # ws) @ CRLF @ CRLF) @ body"
  from 3 have "v \<noteq> []" "line_safe v" by simp_all
  then obtain x rest where x: "?more = x # rest" "x \<noteq> 13" by (rule safe_front)
  have "utf8 (join_with CRLF (w # v # ws) @ CRLF @ CRLF) @ body = utf8 w @ [13, 10] @ ?more"
    by (simp add: CRLF_def utf8_char_def)
  with 3 show ?case
    using window_position_blank(2) [of "utf8 w" x rest] line_safe_utf8 [of w] x
    by (simp add: byte_len_def CRLF_def utf8_char_def)
qed simp

lemma split_on_lines:
  assumes "list_all line_safe ws" and "ws \<noteq> []"
  shows "split_on (\<lambda>c. c = 10) (join_with CRLF ws) = map (\<lambda>w. w @ [13]) (butlast ws) @ [last ws]"
  using assms
proof (induction CRLF ws rule: join_with.induct)
  case (2 w)
  then show ?case by (simp, intro split_on_free) (auto simp: line_safe_def)
next
  case (3 w v ws)
  have "join_with CRLF (w # v # ws) = (w @ [13]) @ 10 # join_with CRLF (v # ws)" by (simp add: CRLF_def)
  moreover have "split_on (\<lambda>c. c = 10) ((w @ [13]) @ 10 # join_with CRLF (v # ws)) =
      (w @ [13]) # split_on (\<lambda>c. c = 10) (join_with CRLF (v # ws))"
    using 3 by (intro split_on_at) (auto simp: line_safe_def)
  ultimately have "split_on (\<lambda>c. c = 10) (join_with CRLF (w # v # ws)) =
      (w @ [13]) # split_on (\<lambda>c. c = 10) (join_with CRLF (v # ws))" by (simp only:)
  then show ?case using 3 by (simp del: join_with.simps)
qed simp

lemma str_lines_crlf:
  assumes "list_all line_safe ws" and "ws \<noteq> []" and "last ws \<noteq> []"
  shows "str_lines (join_with CRLF ws) = ws"
proof -
  have "str_lines (join_with CRLF ws) = butlast ws @ [last ws]"
    using assms split_on_lines [OF assms(1,2)] by (simp add: str_lines_def Let_def o_def)
  then show ?thesis using assms(2) by simp
qed

lemma str_replace_front:
  "c \<noteq> 32 \<Longrightarrow> str_replace [32] [] (c # s) = c # str_replace [32] [] s"
  by (subst str_replace.simps) simp

lemma not_chunked:
  "s \<noteq> [] \<Longrightarrow> to_ascii_lowercase (hd s) \<notin> {32, 116} \<Longrightarrow> \<not> is_chunked_line s"
  by (cases s) (auto simp: is_chunked_line_def str_replace_front)

lemma response_not_chunked: "\<not> list_ex is_chunked_line (response_lines status content_type len)"
  by (simp add: response_lines_def not_chunked to_ascii_lowercase_def is_ascii_uppercase_def)

lemma split_whitespace_second:
  assumes "plain_word a" and "plain_word b"
  shows "get_at (split_whitespace (a @ [32] @ b @ [32] @ t)) 1 = Some b"
proof -
  have free: "\<And>x. x \<in> set w \<Longrightarrow> \<not> is_whitespace x" "w \<noteq> []" if "plain_word w" for w
    using that by (auto simp: plain_word_def list_all_iff)
  have "is_whitespace 32" by (simp add: is_whitespace_def)
  then have "split_on is_whitespace (a @ 32 # b @ 32 # t) = a # b # split_on is_whitespace t"
    by (simp add: split_on_at free(1) [OF assms(1)] free(1) [OF assms(2)])
  then show ?thesis using free(2) assms by (simp add: split_whitespace_def)
qed

lemma plain_word_nat: "plain_word (nat_to_str n)"
proof -
  have "nat_to_str n \<noteq> []" using length_nat_to_str_pos [of n] by auto
  moreover have "is_ascii_digit c \<Longrightarrow> scalar c \<and> \<not> is_whitespace c" for c
    by (simp add: is_ascii_digit_def scalar_def is_whitespace_def)
  ultimately show ?thesis
    using nat_to_str_digits [of n] by (auto simp: plain_word_def list_all_iff)
qed

lemma response_status:
  assumes "status < 2 ^ 16" and "line_safe content_type"
  shows "head_status (join_with CRLF (response_lines status content_type len)) = Some status"
proof -
  have "plain_word (lit ''HTTP/1.1'')" by (simp add: plain_word_def scalar_def is_whitespace_def)
  from split_whitespace_second [OF this plain_word_nat [of status], of "reason status"]
  have "get_at (split_whitespace (hd (response_lines status content_type len))) 1 = Some (nat_to_str status)"
    by (simp add: response_lines_def del: get_at_Some)
  moreover have "str_lines (join_with CRLF (response_lines status content_type len)) = response_lines status content_type len"
    using response_lines_safe [OF assms(2)] by (intro str_lines_crlf) (simp_all add: response_lines_def)
  ultimately show ?thesis
    using parse_nat_to_str [OF assms(1)] by (simp add: head_status_def first_opt_def response_lines_def del: get_at_Some)
qed

text \<open>A \<open>Vec\<close> as a writer.\<close>

definition vec_writer :: "byte list writer" where
  "vec_writer = \<lparr>write_all = (\<lambda>bs out. (Inr (), out @ bs)), flush = (\<lambda>out. (Inr (), out))\<rparr>"

section \<open>Chunked bodies\<close>

lemma window_crlf:
  "(13 :: byte) \<notin> set l \<Longrightarrow> window_position [13, 10] (l @ 13 # 10 # rest) = Some (length l)"
  using window_position_none_before [of l "[10]" "13 # 10 # rest"] by simp

definition chunk :: "byte list \<times> byte list \<Rightarrow> byte list" where
  "chunk c = (case c of (size_line, data) \<Rightarrow> size_line @ [13, 10] @ data @ [13, 10])"

definition chunk_ok :: "byte list \<times> byte list \<Rightarrow> bool" where
  "chunk_ok c \<longleftrightarrow> (case c of (size_line, data) \<Rightarrow>
     13 \<notin> set size_line \<and> data \<noteq> [] \<and> chunk_size size_line = length data)"

lemma dechunk_step:
  assumes "chunk_ok (l, d)" and "length body < 2 ^ 64" and "body = pre @ chunk (l, d) @ rest"
  shows "dechunk_loop body (length pre) out = dechunk_loop body (length (pre @ chunk (l, d))) (out @ d)"
proof -
  let ?start = "length pre + length l + 2"
  have w: "window_position [13, 10] (drop (length pre) body) = Some (length l)"
    using assms by (simp add: chunk_def chunk_ok_def window_crlf)
  have size: "chunk_size (segment body (length pre) (length pre + length l)) = length d"
    using assms by (simp add: chunk_def chunk_ok_def segment_def)
  have b: "length pre < length body" "?start + length d + 2 \<le> length body"
    using assms(3) by (simp_all add: chunk_def)
  then have "min (?start + length d) (length body) = ?start + length d" by simp
  moreover have "segment body ?start (?start + length d) = d"
    using assms(3) by (simp add: chunk_def segment_def)
  ultimately show ?thesis
    using b assms(1,2) by (subst dechunk_loop.simps) (simp add: w size Let_def chunk_ok_def chunk_def add.assoc)
qed

lemma dechunk_end:
  assumes "13 \<notin> set l" and "chunk_size l = 0" and "body = pre @ l @ [13, 10] @ rest"
  shows "dechunk_loop body (length pre) out = Some out"
proof -
  have "window_position [13, 10] (drop (length pre) body) = Some (length l)"
    using assms by (simp add: window_crlf)
  moreover have "segment body (length pre) (length pre + length l) = l"
    using assms by (simp add: segment_def)
  ultimately show ?thesis using assms by (subst dechunk_loop.simps) simp
qed

lemma dechunk_chunks:
  assumes "list_all chunk_ok cs" and "13 \<notin> set l" and "chunk_size l = 0"
    and "length body < 2 ^ 64" and "body = pre @ concat (map chunk cs) @ l @ [13, 10] @ rest"
  shows "dechunk_loop body (length pre) out = Some (out @ concat (map snd cs))"
  using assms
proof (induction cs arbitrary: pre out)
  case Nil
  then show ?case by (simp add: dechunk_end)
next
  case (Cons c cs)
  obtain k d where c: "c = (k, d)" by fastforce
  have "dechunk_loop body (length pre) out = dechunk_loop body (length (pre @ chunk c)) (out @ d)"
    unfolding c by (rule dechunk_step) (use Cons.prems c in auto)
  also have "\<dots> = Some ((out @ d) @ concat (map snd cs))"
    by (rule Cons.IH) (use Cons.prems in auto)
  finally show ?case by (simp add: c)
qed

lemma chunk_size_ascii:
  "(\<And>c. c \<in> set s \<Longrightarrow> 0 \<le> c \<and> c < 128) \<Longrightarrow> chunk_size (map word_of_int s) =
     (case from_str_radix 16 (2 ^ 64) (trim (hd (split_on (\<lambda>c. c = 59) s))) of Some n \<Rightarrow> n | None \<Rightarrow> 0)"
proof -
  assume a: "\<And>c. c \<in> set s \<Longrightarrow> 0 \<le> c \<and> c < 128"
  have "list_all scalar s" using a by (fastforce simp: list_all_iff scalar_def)
  moreover have "utf8 s = map word_of_int s" using a by (rule utf8_of_ascii)
  ultimately have "from_utf8_lossy (map word_of_int s) = s" by (metis from_utf8_lossy_utf8)
  then show ?thesis by (simp add: chunk_size_def)
qed

lemmas chunk_eval = trim_def trim_start_def trim_end_def drop_while_end_def is_whitespace_def
  from_str_radix_def to_digit_def

section \<open>Properties\<close>

text \<open>C12: Whatever a peer sends, reading the head of its request takes at most \<open>MAX_HEAD_BYTES + 1\<close>
  bytes off the stream, and at most \<open>MAX_HEAD_BYTES\<close> when the head is accepted: an endless line or an
  endless list of headers cannot make the desk read on.\<close>

theorem head_read_bounded:
  "\<exists>k. r_bytes (snd (read_request_head r)) = drop k (r_bytes r)
     \<and> k \<le> (case fst (read_request_head r) of Inl status \<Rightarrow> MAX_HEAD_BYTES + 1 | Inr head \<Rightarrow> MAX_HEAD_BYTES)"
proof (cases r rule: read_request_head_cases)
  case (stop l r1 e)
  then show ?thesis using head_line_takes [OF stop(1)] by (cases "isl l") force+
next
  case (headers line n c1 r1 res r2)
  note shr = head_line_shrinks [OF headers(1)]
  obtain j where "r_bytes r2 = drop j (r_bytes r1)" "c1 + j \<le> MAX_HEAD_BYTES + of_bool (isl res)"
    using header_loop_takes [OF headers(2) shr(4)] by blast
  then show ?thesis using shr(3,6) headers(3,4)
    by (intro exI [of _ "n + j"]) (auto simp: add.commute split: sum.splits)
qed

text \<open>The desk reads the request the client wrote: when the method and the target are words, the
  host and the headers are single trimmed lines and the head fits the cap, \<open>read_request_head\<close> on the
  client's bytes gives that method, that target, the client's headers in their order and the length
  of the body, and \<open>read_body\<close> of that length then gives the body.\<close>

theorem request_read_back:
  assumes "plain_word (hq_method q)" and "plain_word target"
    and "plain_header (lit ''Host'', host_port host port)" and "list_all plain_header (hq_headers q)"
    and "length (hq_body q) < 2 ^ 64"
    and "byte_len (request_head q host port target) \<le> MAX_HEAD_BYTES"
  shows "read_request_head \<lparr>r_bytes = request_bytes q host port target, r_end = e\<rparr> =
      (Inr \<lparr>rh_method = hq_method q, rh_url = target,
            rh_headers = read_headers q host port @ [length_header q],
            rh_content_length = length (hq_body q)\<rparr>,
       \<lparr>r_bytes = hq_body q, r_end = e\<rparr>)
    \<and> read_body \<lparr>r_bytes = hq_body q, r_end = e\<rparr> (length (hq_body q)) =
      (Inr (hq_body q), \<lparr>r_bytes = [], r_end = e\<rparr>)"
proof -
  let ?first = "hq_method q @ [32] @ target @ [32] @ lit ''HTTP/1.0'' @ [13]"
  let ?hs = "read_headers q host port" and ?lh = "length_header q"
  let ?c1 = "byte_len (?first @ [10])" and ?c2 = "byte_len (concat (map header_line ?hs))"
  let ?c3 = "byte_len (header_line ?lh)"
  let ?r1 = "\<lparr>r_bytes = utf8 (concat (map header_line ?hs)) @ utf8 (header_line ?lh) @ utf8 CRLF @ hq_body q, r_end = e\<rparr>"
  have cap: "?c1 + ?c2 + ?c3 + 2 \<le> MAX_HEAD_BYTES"
    using assms(6) by (simp add: request_head_lines byte_len_def CRLF_def utf8_char_def)
  have pw: "plain_word (lit ''HTTP/1.0'')" by (simp add: plain_word_def scalar_def is_whitespace_def)
  have "list_all scalar ?first" "10 \<notin> set ?first"
    using plain_word_chars [OF assms(1)] plain_word_chars [OF assms(2)] by (simp_all add: scalar_def)
  then have rl: "head_line 0 \<lparr>r_bytes = request_bytes q host port target, r_end = e\<rparr> =
      (Inr (?first @ [10], ?c1, 0 + ?c1), ?r1)"
    using cap head_line_newline [where line = ?first and consumed = 0 and rest = "r_bytes ?r1" and
        r = "\<lparr>r_bytes = request_bytes q host port target, r_end = e\<rparr>"]
    by (simp add: request_bytes_def request_head_lines del: lit_simps utf8_Cons append_Cons)
  from plain_read_headers [OF assms(3,4)] have "header_loop ?c1 ?r1 [] 0 = header_loop (?c1 + ?c2)
      \<lparr>r_bytes = utf8 (header_line ?lh) @ utf8 CRLF @ hq_body q, r_end = e\<rparr> ?hs 0"
    using cap by (subst header_loop_plain [where hs = ?hs and rest = "utf8 (header_line ?lh) @ utf8 CRLF @ hq_body q"]) simp_all
  also have "\<dots> = header_loop (?c1 + ?c2 + ?c3) \<lparr>r_bytes = utf8 CRLF @ hq_body q, r_end = e\<rparr> (?hs @ [?lh]) (length (hq_body q))"
    using cap plain_length_header [of q] parse_nat_to_str [OF assms(5)]
    by (subst header_step [where rest = "utf8 CRLF @ hq_body q" and len' = "length (hq_body q)" and
          name = "fst ?lh" and v = "snd ?lh"])
       (simp_all add: length_header_def eq_ignore_ascii_case_def to_ascii_lowercase_def is_ascii_uppercase_def)
  also have "\<dots> = (Inr (?hs @ [?lh], length (hq_body q)), \<lparr>r_bytes = hq_body q, r_end = e\<rparr>)"
    using cap by (subst header_loop_end [where rest = "hq_body q"]) simp_all
  finally have "read_request_head \<lparr>r_bytes = request_bytes q host port target, r_end = e\<rparr> =
      (Inr \<lparr>rh_method = hq_method q, rh_url = target, rh_headers = ?hs @ [?lh],
            rh_content_length = length (hq_body q)\<rparr>, \<lparr>r_bytes = hq_body q, r_end = e\<rparr>)"
    using split_whitespace_three [OF assms(1,2) pw]
    by (simp add: read_request_head_def rl byte_len_def del: lit_simps)
  then show ?thesis by (simp add: read_body_def)
qed

theorem request_read_back_witness:
  "read_request_head \<lparr>r_bytes = request_bytes sample_request (lit ''desk'') 4417 (lit ''/mcp''), r_end = Closed\<rparr> =
      (Inr \<lparr>rh_method = lit ''POST'', rh_url = lit ''/mcp'',
            rh_headers = read_headers sample_request (lit ''desk'') 4417 @ [length_header sample_request],
            rh_content_length = Suc (Suc 0)\<rparr>,
       \<lparr>r_bytes = [123, 125], r_end = Closed\<rparr>)"
proof -
  have "byte_len (request_head sample_request (lit ''desk'') 4417 (lit ''/mcp'')) \<le> MAX_HEAD_BYTES"
    by (simp add: byte_len_def request_head_def CRLF_def utf8_char_def MAX_HEAD_BYTES_def nat_to_str.simps
        header_line_def own_header_def eq_ignore_ascii_case_def to_ascii_lowercase_def is_ascii_uppercase_def)
  then show ?thesis
    using request_read_back [of sample_request "lit ''/mcp''" "lit ''desk''" 4417 Closed] sample_headers
    by (simp add: plain_word_def scalar_def is_whitespace_def)
qed

text \<open>The client reads the response the desk wrote: for every status of sixteen bits, 5xx included,
  every single-line content type and every body, \<open>parse_response\<close> on the bytes of \<open>write_response\<close> is
  \<open>Ok\<close> with that status and that body.\<close>

theorem response_read_back:
  assumes "status < 2 ^ 16" and "line_safe content_type"
  shows "parse_response (snd (write_response vec_writer status content_type body [])) =
    Some (Inr \<lparr>hr_status = status, hr_body = body\<rparr>)"
proof -
  let ?ws = "response_lines status content_type (length body)"
  let ?head = "join_with CRLF ?ws"
  have safe: "list_all line_safe ?ws" by (rule response_lines_safe [OF assms(2)])
  have raw: "snd (write_response vec_writer status content_type body []) = utf8 (?head @ CRLF @ CRLF) @ body"
    by (simp add: write_response_def vec_writer_def response_head_lines del: utf8_append)
  have pos: "window_position [13, 10, 13, 10] (utf8 (?head @ CRLF @ CRLF) @ body) = Some (byte_len ?head)"
    by (rule head_split [OF safe]) (auto simp: response_lines_def)
  have "list_all scalar ?head"
    using assms(2) line_safe_nat_to_str [of status] line_safe_nat_to_str [of "length body"] line_safe_reason [of status]
    by (simp add: response_lines_def CRLF_def line_safe_def scalar_def)
  then have "from_utf8_lossy (take (byte_len ?head) (utf8 (?head @ CRLF @ CRLF) @ body)) = ?head"
    by (simp add: byte_len_def)
  moreover have "drop (byte_len ?head + 4) (utf8 (?head @ CRLF @ CRLF) @ body) = body"
    by (simp add: byte_len_def CRLF_def utf8_char_def)
  moreover have "str_lines ?head = ?ws"
    using safe by (intro str_lines_crlf) (simp_all add: response_lines_def)
  ultimately show ?thesis
    using response_status [OF assms] response_not_chunked
    by (simp add: parse_response_def raw pos Let_def del: utf8_append)
qed

theorem response_read_back_witness:
  "parse_response (snd (write_response vec_writer 503 (lit ''text/plain'') [13, 10] [])) =
    Some (Inr \<lparr>hr_status = 503, hr_body = [13, 10]\<rparr>)"
  by (rule response_read_back) (simp_all add: line_safe_def scalar_def)

text \<open>A chunked body is put together again: \<open>dechunk\<close> of chunks whose size lines (extensions after a
  semicolon included) give the lengths of their data, ended by a chunk of size zero, is the data, with
  whatever trailer follows ignored.\<close>

theorem dechunk_reads_chunks:
  assumes "list_all chunk_ok cs" and "13 \<notin> set l" and "chunk_size l = 0"
    and "length (concat (map chunk cs) @ l @ [13, 10] @ rest) < 2 ^ 64"
  shows "dechunk (concat (map chunk cs) @ l @ [13, 10] @ rest) = Some (concat (map snd cs))"
  using dechunk_chunks [OF assms(1-4), of "[]" _ "[]"] by (simp add: dechunk_def)

theorem dechunk_reads_chunks_witness:
  "dechunk (concat (map chunk [(map word_of_int (lit ''2;x=y''), [7, 13])]) @ [48] @ [13, 10] @ [1]) = Some [7, 13]"
proof -
  have s: "chunk_size (map word_of_int (lit ''2;x=y'')) = 2" "chunk_size (map word_of_int (lit ''0'')) = 0"
    by (subst chunk_size_ascii; auto simp: chunk_eval)+
  then show ?thesis
    using dechunk_reads_chunks [of "[(map word_of_int (lit ''2;x=y''), [7, 13])]" "[48]" "[1]"]
    by (simp add: chunk_ok_def chunk_def)
qed

text \<open>C13: A chunk size close to the largest \<open>usize\<close> makes the client panic: when the size and the place
  the data starts at sum to \<open>2 ^ 64\<close> or more, \<open>dechunk\<close> has no result.\<close>

theorem dechunk_panics:
  assumes "13 \<notin> set l" and "chunk_size l < 2 ^ 64" and "2 ^ 64 \<le> length l + 2 + chunk_size l"
    and "length l + 2 < 2 ^ 64"
  shows "dechunk (l @ [13, 10] @ rest) = None"
proof -
  have "window_position [13, 10] (l @ [13, 10] @ rest) = Some (length l)"
    using assms(1) by (simp add: window_crlf)
  moreover have "chunk_size l \<noteq> 0" using assms(3,4) by linarith
  ultimately show ?thesis
    using assms(3) by (simp add: dechunk_def dechunk_loop.simps [of _ 0] segment_def Let_def)
qed

theorem dechunk_panics_witness:
  "dechunk (map word_of_int (lit ''ffffffffffffffff'') @ [13, 10] @ [1]) = None"
proof -
  have s: "chunk_size (map word_of_int (lit ''ffffffffffffffff'')) = 2 ^ 64 - 1"
    by (subst chunk_size_ascii) (auto simp: chunk_eval)
  then show ?thesis
    using dechunk_panics [of "map word_of_int (lit ''ffffffffffffffff'')" "[1]"] by simp
qed

end
