(* ===== verification/Mirror_Props.thy ===== *)
theory Mirror_Props
  imports Mirror Bridge_Props Bridge_Http_Props
begin

text \<open>
  Mirroring: the plan is a filter of the folder by what is recorded, every planned file may go and
  reaches its route, and a pass settles every file it sees, so that the next one has nothing to do.
\<close>

section \<open>The plan is a filter of the folder\<close>

definition due :: "MirrorState \<Rightarrow> rstr \<Rightarrow> MirrorFile \<Rightarrow> bool" where
  "due st label f \<longleftrightarrow> file_due st label (mf_modified_secs f) (mf_size f)"

lemma file_due_default [simp]: "file_due state_default relative secs len"
  by (simp add: file_due_def state_default_def is_refused_def)

lemma walk_entry_filter:
  "walk_entry root dir st e = filter (\<lambda>f. due st (mf_relative f) f) (walk_entry root dir state_default e)"
proof (induction root dir st e rule: walk_entry.induct)
  case (3 root dir st name listing)
  then show ?case by (auto simp: filter_concat intro!: arg_cong [where f = concat] split: option.split)
qed (simp_all add: visit_file_def due_def)

lemma plan_filter:
  "plan_mirror root st listing =
     filter (\<lambda>f. due st (mf_relative f) f) (plan_mirror root state_default listing)"
proof (cases listing)
  case (Some es)
  have "concat (map (walk_entry root [] st) es) =
      filter (\<lambda>f. due st (mf_relative f) f) (concat (map (walk_entry root [] state_default) es))"
    by (simp add: filter_concat o_def flip: walk_entry_filter)
  then show ?thesis by (simp add: plan_mirror_def Some filter_sort)
qed (simp add: plan_mirror_def)

section \<open>Keys of one harness\<close>

definition state_ok :: "MirrorState \<Rightarrow> bool" where
  "state_ok st \<longleftrightarrow> bt_ok (ms_uploaded st) \<and> bt_ok (ms_refused st)"

lemma map_of_scope:
  "map_of (List.map_filter (\<lambda>(key, v). map_option (\<lambda>rest. (rest, v)) (strip_prefix front key)) m) k = map_of m (front @ k)"
  by (induction m) (auto simp: List.map_filter_simps strip_prefix_Some split: option.split)

lemma scope_keys:
  "distinct (map fst m) \<Longrightarrow>
   distinct (map fst (List.map_filter (\<lambda>(key, v). map_option (\<lambda>rest. (rest, v)) (strip_prefix front key)) m))"
proof (induction m)
  case (Cons kv m)
  have "front @ k \<in> fst ` set m" if "(k, v) \<in> set (List.map_filter (\<lambda>(key, v). map_option (\<lambda>rest. (rest, v)) (strip_prefix front key)) m)" for k v
    using that by (force simp: List.map_filter_def strip_prefix_Some)
  with Cons show ?case
    by (cases kv) (auto simp: List.map_filter_simps strip_prefix_Some split: option.split)
qed (simp add: List.map_filter_simps)

lemma bt_get_scope: "bt_ok m \<Longrightarrow> bt_get (scope_map front m) k = bt_get m (front @ k)"
  using scope_keys [of m front] bt.keys_distinct [of m]
  by (simp add: scope_map_def bt_get_collect map_of_scope) (simp add: bt_get_def)

lemma due_scoped: "state_ok st \<Longrightarrow> due (scoped name st) (mf_relative f) f = due st (file_label name (mf_relative f)) f"
  by (simp add: due_def file_due_def is_refused_def scoped_def bt_get_scope state_ok_def file_label_def)

section \<open>Recording\<close>

lemma record_settles:
  "due (state_record label secs st) label' f = (if label' = label then secs < mf_modified_secs f else due st label' f)"
  by (auto simp: due_def file_due_def is_refused_def state_record_def bt.look_put bt.look_del)

lemma refusal_settles:
  "label' \<noteq> label \<Longrightarrow> due (record_refusal label secs len why st) label' f = due st label' f"
  "\<not> due (record_refusal label (mf_modified_secs f) (mf_size f) why st) label f"
  by (auto simp: due_def file_due_def is_refused_def record_refusal_def bt.look_put)

lemma state_ok_record:
  "state_ok st \<Longrightarrow> state_ok (state_record label secs st)"
  "state_ok st \<Longrightarrow> state_ok (record_refusal label secs len why st)"
  by (simp_all add: state_ok_def state_record_def record_refusal_def bt.ok_put bt.ok_del)

text \<open>One file of a pass that goes on: its version is settled, and no other label is touched.\<close>

lemma upload_files_step:
  assumes "upload_files E name (f # files) rep st = (Inr rep', st')" and "state_ok st"
  obtains rep1 st1 where "upload_files E name files rep1 st1 = (Inr rep', st')" and "state_ok st1"
    and "\<not> due st1 (file_label name (mf_relative f)) f"
    and "\<And>label g. label \<noteq> file_label name (mf_relative f) \<Longrightarrow> due st1 label g = due st label g"
proof -
  obtain bytes resp where "read_file E (mf_absolute f) = Inr bytes"
    "put_file E (upload_target name (mf_relative f)) bytes = Inr resp" "hr_status resp < 500"
    using assms(1) by (auto simp: Let_def split: sum.splits if_splits)
  with assms show thesis
    by (cases "is_success resp")
       (auto simp: Let_def record_settles refusal_settles state_ok_record split: option.splits intro!: that)
qed

lemma upload_files_settle:
  "upload_files E name files rep st = (Inr rep', st') \<Longrightarrow> state_ok st \<Longrightarrow> distinct (map mf_relative files) \<Longrightarrow>
   state_ok st' \<and> (\<forall>f \<in> set files. \<not> due st' (file_label name (mf_relative f)) f) \<and>
   (\<forall>label g. label \<notin> file_label name ` mf_relative ` set files \<longrightarrow> due st' label g = due st label g)"
proof (induction files arbitrary: rep st)
  case Nil
  then show ?case by simp
next
  case (Cons f files)
  obtain rep1 st1
    where s: "upload_files E name files rep1 st1 = (Inr rep', st')" "state_ok st1"
      "\<not> due st1 (file_label name (mf_relative f)) f"
      "\<And>label g. label \<noteq> file_label name (mf_relative f) \<Longrightarrow> due st1 label g = due st label g"
    by (rule upload_files_step [OF Cons.prems(1,2)]) blast
  have inj: "file_label name a = file_label name b \<longleftrightarrow> a = b" for a b by (simp add: file_label_def)
  have new: "file_label name (mf_relative f) \<notin> file_label name ` mf_relative ` set files"
    using Cons.prems(3) by (auto simp: inj)
  show ?case using Cons.IH [OF s(1,2)] Cons.prems(3) s(3,4) new by auto
qed

section \<open>Passes\<close>

text \<open>The harness folders of a listing: the sanitised name, the folder and its entries.\<close>

definition harnesses :: "fs_entry list \<Rightarrow> (rstr \<times> byte list \<times> fs_entry list option) list" where
  "harnesses hs = List.map_filter harness_name hs"

definition folder_files :: "byte list list \<Rightarrow> rstr \<times> byte list \<times> fs_entry list option \<Rightarrow> MirrorFile list" where
  "folder_files root h = (case h of (name, dir, listing) \<Rightarrow> plan_mirror (root @ [dir]) state_default listing)"

text \<open>No two folders go by one name, and no two files of a folder by one path.\<close>

definition separate :: "byte list list \<Rightarrow> fs_entry list \<Rightarrow> bool" where
  "separate root hs \<longleftrightarrow> distinct (map fst (harnesses hs))
     \<and> list_all (\<lambda>h. distinct (map mf_relative (folder_files root h))) (harnesses hs)"

definition all_settled :: "byte list list \<Rightarrow> fs_entry list \<Rightarrow> MirrorState \<Rightarrow> bool" where
  "all_settled root hs st \<longleftrightarrow>
     (\<forall>h \<in> set (harnesses hs). \<forall>f \<in> set (folder_files root h).
        \<not> due st (file_label (fst h) (mf_relative f)) f)"

lemma harnesses_simps [simp]:
  "harnesses [] = []"
  "harnesses (h # hs) = (case harness_name h of None \<Rightarrow> harnesses hs | Some x \<Rightarrow> x # harnesses hs)"
  by (simp_all add: harnesses_def List.map_filter_simps split: option.split)

lemma no_slash_in_name: "h \<in> set (harnesses hs) \<Longrightarrow> 47 \<notin> set (fst h)"
proof -
  assume "h \<in> set (harnesses hs)"
  then obtain raw where "fst h = sanitize_harness raw"
    by (auto simp: harnesses_def List.map_filter_def harness_name_def split: fs_entry.splits)
  moreover have "\<not> harness_char 47"
    by (simp add: harness_char_def is_ascii_lowercase_def is_ascii_digit_def)
  ultimately show ?thesis using sanitize_chars [of raw] by (auto simp: list_all_iff)
qed

lemma file_label_inj:
  "47 \<notin> set n \<Longrightarrow> 47 \<notin> set n' \<Longrightarrow> file_label n r = file_label n' r' \<Longrightarrow> n = n' \<and> r = r'"
  using split_once_char [of 47 n r] split_once_char [of 47 n' r'] by (simp add: file_label_def)

lemma folder_plan:
  "state_ok st \<Longrightarrow> plan_mirror (root @ [dir]) (scoped name st) listing =
     filter (\<lambda>f. due st (file_label name (mf_relative f)) f) (folder_files root (name, dir, listing))"
  by (subst plan_filter) (simp add: folder_files_def due_scoped)

lemma folder_settles:
  assumes "upload_files E name (plan_mirror (root @ [dir]) (scoped name st) listing) rep st = (Inr rep', st')"
    and "state_ok st" and "distinct (map mf_relative (folder_files root (name, dir, listing)))"
  shows "state_ok st'"
    and "f \<in> set (folder_files root (name, dir, listing)) \<Longrightarrow> \<not> due st' (file_label name (mf_relative f)) f"
    and "47 \<notin> set name \<Longrightarrow> 47 \<notin> set n \<Longrightarrow> n \<noteq> name \<Longrightarrow> due st' (file_label n r) g = due st (file_label n r) g"
proof -
  let ?files = "folder_files root (name, dir, listing)"
  let ?plan = "filter (\<lambda>f. due st (file_label name (mf_relative f)) f) ?files"
  have s: "state_ok st'" "\<And>f. f \<in> set ?plan \<Longrightarrow> \<not> due st' (file_label name (mf_relative f)) f"
    "\<And>label g. label \<notin> file_label name ` mf_relative ` set ?plan \<Longrightarrow> due st' label g = due st label g"
    using upload_files_settle [of E name ?plan rep st rep' st'] assms by (simp_all add: folder_plan distinct_map_filter)
  show "state_ok st'" by (rule s(1))
  show "\<not> due st' (file_label name (mf_relative f)) f" if "f \<in> set ?files"
  proof (cases "f \<in> set ?plan")
    case False
    then have "file_label name (mf_relative f) \<notin> file_label name ` mf_relative ` set ?plan"
      using assms(3) that by (auto simp: file_label_def distinct_map inj_on_def)
    then show ?thesis using s(3) False that by simp
  qed (simp add: s(2))
  show "due st' (file_label n r) g = due st (file_label n r) g"
    if "47 \<notin> set name" "47 \<notin> set n" "n \<noteq> name"
    using that file_label_inj [of n name r] by (intro s(3)) blast
qed

lemma loop_settles:
  assumes "harness_loop_pass E root hs rep st = (Inr rep', st')" and "state_ok st" and "separate root hs"
  shows "state_ok st' \<and> all_settled root hs st' \<and>
    (\<forall>n r g. 47 \<notin> set n \<longrightarrow> n \<notin> fst ` set (harnesses hs) \<longrightarrow>
       due st' (file_label n r) g = due st (file_label n r) g)"
  using assms
proof (induction hs arbitrary: rep st)
  case Nil
  then show ?case by (simp add: all_settled_def)
next
  case (Cons h hs)
  show ?case
  proof (cases "harness_name h")
    case None
    with Cons show ?thesis by (simp add: separate_def all_settled_def)
  next
    case (Some x)
    obtain name dir listing where x: "x = (name, dir, listing)" by (cases x)
    from Some x Cons.prems(1) obtain rep1 st1
      where u: "upload_files E name (plan_mirror (root @ [dir]) (scoped name st) listing) rep st = (Inr rep1, st1)"
        and l: "harness_loop_pass E root hs rep1 st1 = (Inr rep', st')"
      by (auto split: prod.splits sum.splits)
    have sep: "separate root hs" "name \<notin> fst ` set (harnesses hs)" "distinct (map mf_relative (folder_files root x))"
      using Cons.prems(3) Some x by (auto simp: separate_def)
    have name: "47 \<notin> set name" using no_slash_in_name [of x "h # hs"] Some x by simp
    note f = folder_settles [OF u Cons.prems(2) sep(3) [unfolded x]]
    from Cons.IH [OF l f(1) sep(1)] show ?thesis
      using f(2,3) name sep(2) Some x by (auto simp: all_settled_def)
  qed
qed

lemma loop_idle:
  "state_ok st \<Longrightarrow> all_settled root hs st \<Longrightarrow> harness_loop_pass E root hs rep st = (Inr rep, st)"
proof (induction hs)
  case (Cons h hs)
  show ?case
  proof (cases "harness_name h")
    case None
    with Cons show ?thesis by (simp add: all_settled_def)
  next
    case (Some x)
    obtain name dir listing where x: "x = (name, dir, listing)" by (cases x)
    have "plan_mirror (root @ [dir]) (scoped name st) listing = []"
      using Cons.prems Some x by (simp add: folder_plan all_settled_def filter_empty_conv)
    then show ?thesis using Cons Some x by (simp add: all_settled_def)
  qed
qed simp

text \<open>An environment in which nothing stops a pass: files can be read and states saved, and the desk
  answers every upload, be it to refuse it.\<close>

definition answering :: "pass_env \<Rightarrow> bool" where
  "answering E \<longleftrightarrow> (\<forall>path. \<exists>bytes. read_file E path = Inr bytes)
     \<and> (\<forall>target bytes. \<exists>resp. put_file E target bytes = Inr resp \<and> hr_status resp < 500)
     \<and> (\<forall>st. save_state E st = None)"

lemma upload_files_answered: "answering E \<Longrightarrow> \<exists>rep' st'. upload_files E name files rep st = (Inr rep', st')"
proof (induction files arbitrary: rep st)
  case (Cons f files)
  then obtain bytes resp where "read_file E (mf_absolute f) = Inr bytes"
    "put_file E (upload_target name (mf_relative f)) bytes = Inr resp" "hr_status resp < 500"
    "\<And>st. save_state E st = None"
    by (metis answering_def)
  with Cons show ?case by (cases "is_success resp") (auto simp: Let_def)
qed simp

lemma loop_answered: "answering E \<Longrightarrow> \<exists>rep' st'. harness_loop_pass E root hs rep st = (Inr rep', st')"
proof (induction hs arbitrary: rep st)
  case (Cons h hs)
  show ?case
  proof (cases "harness_name h")
    case (Some x)
    obtain name dir listing where x: "x = (name, dir, listing)" by (cases x)
    obtain rep1 st1 where "upload_files E name (plan_mirror (root @ [dir]) (scoped name st) listing) rep st = (Inr rep1, st1)"
      using upload_files_answered [OF Cons.prems] by blast
    with Cons.IH [OF Cons.prems, of rep1 st1] show ?thesis by (simp add: Some x)
  qed (use Cons in simp)
qed simp

section \<open>What is planned\<close>







definition sample_env :: pass_env where
  "sample_env = \<lparr>read_file = (\<lambda>path. Inr []),
     put_file = (\<lambda>target bytes. Inr \<lparr>hr_status = if last target = 100 then 204 else 422, hr_body = []\<rparr>),
     error_field = (\<lambda>body. None), save_state = (\<lambda>st. None)\<rparr>"

definition sample_agents :: "fs_entry list" where
  "sample_agents = [DirEntry (utf8 (lit ''codex'')) (Some
     [FileEntry (utf8 (lit ''b.md'')) 7 (Some 5), FileEntry (utf8 (lit ''a.txt'')) 3 None])]"

lemma sample_paths: "is_mirrored_path (lit ''b.md'')" "is_mirrored_path (lit ''a.txt'')"
  by (simp_all add: is_mirrored_path_def MIRRORED_EXTENSIONS_def eq_ignore_ascii_case_def to_ascii_lowercase_def
      is_ascii_uppercase_def validate_vault_path_def is_slash_def rust_simps)

lemma sample_separate: "separate [] sample_agents"
proof -
  have "harnesses sample_agents = [(sanitize_harness (lit ''codex''), utf8 (lit ''codex''), Some
     [FileEntry (utf8 (lit ''b.md'')) 7 (Some 5), FileEntry (utf8 (lit ''a.txt'')) 3 None])]"
    by (simp add: sample_agents_def harness_name_def scalar_lit del: lit_simps)
  moreover have "relative_path [utf8 (lit ''b.md'')] = lit ''b.md''" "relative_path [utf8 (lit ''a.txt'')] = lit ''a.txt''"
    by (simp_all add: relative_path_def scalar_lit del: lit_simps)
  ultimately show ?thesis
    using sample_paths
    by (simp add: separate_def folder_files_def plan_mirror_def visit_file_def MIRROR_MAX_BYTES_def del: lit_simps) simp
qed

section \<open>Properties\<close>

text \<open>C10: Mirroring settles: with a desk that answers, a pass over a folder tree ends well, and a second
  pass over the same tree uploads nothing, reports no refusal again and leaves the saved state as it
  is, whichever files the desk accepted and whichever it refused.  No two harness folders share a
  sanitised name and no two files of one a path.\<close>

theorem mirror_settles:
  assumes "answering E" and "state_ok st" and "separate root hs"
  shows "\<exists>rep st'. mirror_pass E root (Some hs) st = (Inr rep, st')
    \<and> mirror_pass E root (Some hs) st' = (Inr \<lparr>mr_uploaded = 0, mr_refused = []\<rparr>, st')"
proof -
  obtain rep st' where p: "harness_loop_pass E root hs \<lparr>mr_uploaded = 0, mr_refused = []\<rparr> st = (Inr rep, st')"
    using loop_answered [OF assms(1)] by blast
  from loop_settles [OF p assms(2,3)] show ?thesis
    using p loop_idle [of st' root hs E] by (auto simp: mirror_pass_def)
qed

theorem mirror_settles_witness:
  "\<exists>rep st'. mirror_pass sample_env [] (Some sample_agents) state_default = (Inr rep, st')
    \<and> mirror_pass sample_env [] (Some sample_agents) st' = (Inr \<lparr>mr_uploaded = 0, mr_refused = []\<rparr>, st')"
proof (rule mirror_settles)
  show "answering sample_env" by (simp add: answering_def sample_env_def)
  show "state_ok state_default" by (simp add: state_ok_def state_default_def)
qed (rule sample_separate)


end
