(* ===== verification/Search_Index.thy ===== *)
theory Search_Index
  imports Bridge_Rules BTree
begin

text \<open>
  The keyword index behind \<open>search\<close>, \<open>recent\<close> and \<open>read\<close> by link
  (\<open>crates/thock-bridge/search.rs\<close>).  The index is a \<open>BTreeMap\<close> from paths to entries.  Days are a
  linearly ordered type; the difference of two days and a day some days back are chrono's, and the
  arithmetic of scores is that of \<open>f64\<close>: both are records of functions.  Sorting is stable, by
  insertion.
\<close>

section \<open>Sorting\<close>

fun insert_by :: "('a \<Rightarrow> 'a \<Rightarrow> bool) \<Rightarrow> 'a \<Rightarrow> 'a list \<Rightarrow> 'a list" where
  "insert_by lt x [] = [x]"
| "insert_by lt x (y # ys) = (if lt y x then y # insert_by lt x ys else x # y # ys)"

text \<open>\<open>sort_by\<close> with the comparison given as \<open>Less\<close>: equal elements keep their order.\<close>

definition sort_by :: "('a \<Rightarrow> 'a \<Rightarrow> bool) \<Rightarrow> 'a list \<Rightarrow> 'a list" where
  "sort_by lt xs = foldr (insert_by lt) xs []"

section \<open>Entries\<close>

definition SNIPPET_CHARS :: nat where "SNIPPET_CHARS = 240"

record 'd IndexEntry =
  ie_path :: rstr
  ie_title :: rstr
  ie_modified :: 'd
  ie_body :: rstr
  ie_title_words :: "rstr list"
  ie_body_words :: "rstr list"

definition stem :: "rstr \<Rightarrow> rstr" where
  "stem path =
     (let name = last (split_on (\<lambda>c. c = 47) path)
      in case strip_suffix (lit ''.md'') name of Some s \<Rightarrow> s | None \<Rightarrow> name)"

definition heading_title :: "rstr \<Rightarrow> rstr option" where
  "heading_title line =
     (case strip_prefix (lit ''# '') line of
        None \<Rightarrow> None
      | Some t \<Rightarrow> if trim t = [] then None else Some (trim t))"

definition note_title :: "rstr \<Rightarrow> rstr \<Rightarrow> rstr" where
  "note_title path body =
     (case find_map heading_title (map trim (str_lines body)) of Some t \<Rightarrow> t | None \<Rightarrow> stem path)"

definition word_list :: "env \<Rightarrow> rstr \<Rightarrow> rstr list" where
  "word_list E t =
     map (str_to_lowercase E) (filter (\<lambda>w. w \<noteq> []) (split_on (\<lambda>c. \<not> is_alphanumeric E c) t))"

type_synonym 'd search_index = "(rstr \<times> 'd IndexEntry) list"

definition index_entry :: "env \<Rightarrow> rstr \<Rightarrow> 'd \<Rightarrow> rstr \<Rightarrow> 'd IndexEntry" where
  "index_entry E path modified body =
     \<lparr>ie_path = path, ie_title = note_title path body, ie_modified = modified, ie_body = body,
      ie_title_words = word_list E (note_title path body), ie_body_words = word_list E body\<rparr>"

definition upsert :: "env \<Rightarrow> rstr \<Rightarrow> 'd \<Rightarrow> rstr \<Rightarrow> 'd search_index \<Rightarrow> 'd search_index" where
  "upsert E path modified body index = bt_insert path (index_entry E path modified body) index"

definition index_remove :: "rstr \<Rightarrow> 'd search_index \<Rightarrow> 'd search_index" where
  "index_remove path index = bt_remove path index"

definition index_get :: "'d search_index \<Rightarrow> rstr \<Rightarrow> 'd IndexEntry option" where
  "index_get index path = bt_get index path"

definition index_len :: "'d search_index \<Rightarrow> nat" where
  "index_len index = length index"

definition index_indexes :: "rstr \<Rightarrow> bool" where
  "index_indexes path \<longleftrightarrow> ends_with (lit ''.md'') path \<and> \<not> isl (validate_vault_path path)"

section \<open>Terms\<close>

record Term =
  t_text :: rstr
  t_prefix :: bool

definition term_parse :: "env \<Rightarrow> rstr \<Rightarrow> Term" where
  "term_parse E raw =
     (let lower = str_to_lowercase E raw
      in case strip_suffix [42] lower of
           Some t \<Rightarrow> \<lparr>t_text = t, t_prefix = True\<rparr>
         | None \<Rightarrow> \<lparr>t_text = lower, t_prefix = False\<rparr>)"

definition term_matches :: "Term \<Rightarrow> rstr \<Rightarrow> bool" where
  "term_matches t word = (if t_prefix t then starts_with (t_text t) word else word = t_text t)"

definition query_terms :: "env \<Rightarrow> rstr \<Rightarrow> Term list" where
  "query_terms E q = filter (\<lambda>t. t_text t \<noteq> []) (map (term_parse E) (split_whitespace q))"

section \<open>Snippets\<close>

fun snippet_loop :: "rstr list \<Rightarrow> rstr list \<Rightarrow> nat \<Rightarrow> rstr list" where
  "snippet_loop [] collected chars = collected"
| "snippet_loop (line0 # rest) collected chars =
     (let line = trim line0
      in if line = [] then (if collected = [] then snippet_loop rest collected chars else collected)
         else if SNIPPET_CHARS < chars + length line
         then (if collected = [] then collected @ [line] else collected)
         else snippet_loop rest (collected @ [line]) (chars + length line + 1))"

fun position_of :: "('a \<Rightarrow> bool) \<Rightarrow> 'a list \<Rightarrow> nat option" where
  "position_of p [] = None"
| "position_of p (x # xs) = (if p x then Some 0 else map_option Suc (position_of p xs))"

definition snippet :: "env \<Rightarrow> rstr \<Rightarrow> Term \<Rightarrow> rstr" where
  "snippet E body t =
     (let ls = str_lines body;
          hit = (case position_of (\<lambda>line. list_ex (term_matches t) (word_list E line)) ls of
                   Some i \<Rightarrow> i | None \<Rightarrow> 0);
          s = join_with [32] (snippet_loop (drop hit ls) [] 0)
      in if SNIPPET_CHARS < length s then take (SNIPPET_CHARS - 1) s @ [8230] else s)"

section \<open>Searching\<close>

record 'd SearchQuery =
  sq_query :: rstr
  sq_limit :: nat
  sq_since :: "'d option"
  sq_folder :: "rstr option"

record 'd SearchHit =
  sh_path :: rstr
  sh_title :: rstr
  sh_modified :: 'd
  sh_snippet :: rstr

record 'd RecentNote =
  rn_path :: rstr
  rn_title :: rstr
  rn_modified :: 'd

text \<open>chrono on days: the signed number of days between two, and a day some days back, which panics
  before the first day there is.\<close>

record 'd day_ops =
  num_days :: "'d \<Rightarrow> 'd \<Rightarrow> int"
  days_back :: "'d \<Rightarrow> nat \<Rightarrow> 'd option"

text \<open>The arithmetic of \<open>f64\<close>; \<open>f_less\<close> is \<open>partial_cmp\<close> answering \<open>Less\<close>.\<close>

record 'f float_ops =
  f_nat :: "nat \<Rightarrow> 'f"
  f_add :: "'f \<Rightarrow> 'f \<Rightarrow> 'f"
  f_mul :: "'f \<Rightarrow> 'f \<Rightarrow> 'f"
  f_div :: "'f \<Rightarrow> 'f \<Rightarrow> 'f"
  f_less :: "'f \<Rightarrow> 'f \<Rightarrow> bool"

definition in_folder :: "rstr \<Rightarrow> rstr \<Rightarrow> bool" where
  "in_folder path folder = is_some_and (strip_prefix folder path) (starts_with [47])"

definition clean_folder :: "rstr option \<Rightarrow> rstr option" where
  "clean_folder folder =
     (case folder of None \<Rightarrow> None
      | Some f \<Rightarrow> (let g = trim_matches (\<lambda>c. c = 47) f in if g = [] then None else Some g))"

text \<open>The loop over the terms: the score, or \<open>None\<close> at a term that is nowhere.\<close>

fun score_loop :: "'f float_ops \<Rightarrow> Term list \<Rightarrow> rstr list \<Rightarrow> rstr list \<Rightarrow> 'f \<Rightarrow> 'f option" where
  "score_loop F [] title_words body_words score = Some score"
| "score_loop F (t # ts) title_words body_words score =
     (let in_title = length (filter (term_matches t) title_words);
          in_body = length (filter (term_matches t) body_words)
      in if in_title + in_body = 0 then None
         else score_loop F ts title_words body_words
                (f_add F score (f_add F (f_mul F (f_nat F 3) (f_nat F in_title)) (f_nat F in_body))))"

definition aged_score :: "'f float_ops \<Rightarrow> 'd day_ops \<Rightarrow> 'd \<Rightarrow> 'd \<Rightarrow> 'f \<Rightarrow> 'f" where
  "aged_score F D today modified score =
     (let age_days = f_nat F (nat (max 0 (num_days D today modified)))
      in f_mul F score (f_add F (f_nat F 1)
           (f_div F (f_nat F 1) (f_add F (f_nat F 1) (f_div F age_days (f_nat F 30))))))"

definition entry_passes :: "'d :: linorder SearchQuery \<Rightarrow> 'd IndexEntry \<Rightarrow> bool" where
  "entry_passes q entry \<longleftrightarrow>
     (case sq_since q of Some since \<Rightarrow> \<not> ie_modified entry < since | None \<Rightarrow> True)
     \<and> (case clean_folder (sq_folder q) of Some folder \<Rightarrow> in_folder (ie_path entry) folder | None \<Rightarrow> True)"

definition hit_of :: "env \<Rightarrow> Term list \<Rightarrow> 'd IndexEntry \<Rightarrow> 'd SearchHit" where
  "hit_of E terms entry =
     \<lparr>sh_path = ie_path entry, sh_title = ie_title entry, sh_modified = ie_modified entry,
      sh_snippet = snippet E (ie_body entry) (hd terms)\<rparr>"

definition scored_hit :: "env \<Rightarrow> 'f float_ops \<Rightarrow> 'd :: linorder day_ops \<Rightarrow> 'd SearchQuery \<Rightarrow> 'd \<Rightarrow> Term list \<Rightarrow>
    'd IndexEntry \<Rightarrow> ('f \<times> 'd SearchHit) option" where
  "scored_hit E F D q today terms entry =
     (if \<not> entry_passes q entry then None
      else map_option (\<lambda>score. (aged_score F D today (ie_modified entry) score, hit_of E terms entry))
             (score_loop F terms (ie_title_words entry) (ie_body_words entry) (f_nat F 0)))"

text \<open>The comparison of two hits: the higher score first, then the later day, then the path.\<close>

definition hit_before :: "'f float_ops \<Rightarrow> 'f \<times> 'd :: linorder SearchHit \<Rightarrow> 'f \<times> 'd SearchHit \<Rightarrow> bool" where
  "hit_before F x y =
     (case (x, y) of ((a, h), (b, g)) \<Rightarrow>
        if f_less F b a then True
        else if f_less F a b then False
        else if sh_modified g < sh_modified h then True
        else if sh_modified h < sh_modified g then False
        else sh_path h < sh_path g)"

definition index_search :: "env \<Rightarrow> 'f float_ops \<Rightarrow> 'd :: linorder day_ops \<Rightarrow> 'd search_index \<Rightarrow> 'd SearchQuery \<Rightarrow> 'd \<Rightarrow>
    'd SearchHit list" where
  "index_search E F D index q today =
     (let terms = query_terms E (sq_query q)
      in if terms = [] then []
         else map snd (take (max 1 (sq_limit q))
                (sort_by (hit_before F)
                   (List.map_filter (scored_hit E F D q today terms) (map snd index)))))"

definition note_before :: "'d :: linorder RecentNote \<Rightarrow> 'd RecentNote \<Rightarrow> bool" where
  "note_before a b \<longleftrightarrow>
     (if rn_modified b < rn_modified a then True
      else if rn_modified a < rn_modified b then False
      else rn_path a < rn_path b)"

definition index_recent :: "'d :: linorder day_ops \<Rightarrow> 'd search_index \<Rightarrow> nat \<Rightarrow> rstr option \<Rightarrow> 'd \<Rightarrow>
    'd RecentNote list option" where
  "index_recent D index days folder today =
     (case days_back D today days of
        None \<Rightarrow> None
      | Some oldest \<Rightarrow>
          Some (sort_by note_before
            (map (\<lambda>e. \<lparr>rn_path = ie_path e, rn_title = ie_title e, rn_modified = ie_modified e\<rparr>)
              (filter (\<lambda>e. oldest \<le> ie_modified e
                  \<and> (case clean_folder folder of Some f \<Rightarrow> in_folder (ie_path e) f | None \<Rightarrow> True))
                (map snd index)))))"

section \<open>Links\<close>

datatype LinkResolution = Found rstr | Ambiguous "rstr list" | Missing

text \<open>\<open>trim_end_matches\<close> of a string: the whole pattern is taken off as often as it is there.\<close>

function trim_end_str :: "rstr \<Rightarrow> rstr \<Rightarrow> rstr" where
  "trim_end_str p s =
     (if p = [] then s else case strip_suffix p s of Some r \<Rightarrow> trim_end_str p r | None \<Rightarrow> s)"
  by pat_completeness auto
termination
  by (relation "measure (\<lambda>(p, s). length s)") (auto simp: strip_suffix_Some)

declare trim_end_str.simps [simp del]

definition wanted_link :: "env \<Rightarrow> rstr \<Rightarrow> rstr" where
  "wanted_link E link =
     str_to_lowercase E
       (trim (hd (split_on (\<lambda>c. c = 124)
          (trim_end_str (lit '']]'') (trim_start_str (lit ''[['') (trim link))))))"

definition resolve_link :: "env \<Rightarrow> 'd search_index \<Rightarrow> rstr \<Rightarrow> LinkResolution" where
  "resolve_link E index link =
     (let wanted = wanted_link E link
      in if wanted = [] then Missing
         else let by_title = map ie_path (filter (\<lambda>e. str_to_lowercase E (ie_title e) = wanted) (map snd index))
              in if length by_title = 1 then Found (by_title ! 0)
                 else if 1 < length by_title then Ambiguous by_title
                 else let by_name = filter (\<lambda>path. str_to_lowercase E (stem path) = wanted) (map fst index)
                      in if by_name = [] then Missing
                         else if length by_name = 1 then Found (by_name ! 0)
                         else Ambiguous by_name)"

end
