(* ===== verification/Search_Props.thy ===== *)
theory Search_Props
  imports Search_Index Samples
begin

text \<open>
  The search index: it follows the files through every sequence of events, a search returns matching
  notes and as many as the limit allows, links resolve to one note or to none, and which queries can
  never match.
\<close>

section \<open>The index as a map\<close>

definition index_ok :: "env \<Rightarrow> 'd search_index \<Rightarrow> bool" where
  "index_ok E index \<longleftrightarrow> bt_ok index
     \<and> list_all (\<lambda>(path, e). e = index_entry E path (ie_modified e) (ie_body e)) index"


lemma index_ok_Nil: "index_ok E []"
  by (simp add: index_ok_def)

lemma set_bt_insert: "x \<in> set (bt_insert k v m) \<Longrightarrow> x = (k, v) \<or> x \<in> set m"
  by (induction k v m rule: bt_insert.induct) (auto split: if_splits)

lemma index_ok_upsert: "index_ok E index \<Longrightarrow> index_ok E (upsert E path modified body index)"
  by (auto simp: index_ok_def upsert_def list_all_iff bt.ok_put index_entry_def dest!: set_bt_insert)










section \<open>Search\<close>

lemma mset_insert_by: "mset (insert_by lt x xs) = add_mset x (mset xs)"
  by (induction lt x xs rule: insert_by.induct) auto

lemma mset_sort_by [simp]: "mset (sort_by lt xs) = mset xs"
  unfolding sort_by_def by (induction xs) (simp_all add: mset_insert_by)

lemma length_sort_by [simp]: "length (sort_by lt xs) = length xs"
  by (metis mset_sort_by size_mset)

lemma set_sort_by [simp]: "set (sort_by lt xs) = set xs"
  by (metis mset_sort_by set_mset_mset)

definition entry_matches :: "'d :: linorder SearchQuery \<Rightarrow> Term list \<Rightarrow> 'd IndexEntry \<Rightarrow> bool" where
  "entry_matches q terms e \<longleftrightarrow> entry_passes q e
     \<and> list_all (\<lambda>t. list_ex (term_matches t) (ie_title_words e @ ie_body_words e)) terms"

lemma score_loop_some:
  "(score_loop F ts tw bw s \<noteq> None) = list_all (\<lambda>t. list_ex (term_matches t) (tw @ bw)) ts"
  by (induction ts arbitrary: s) (auto simp: Let_def filter_empty_conv list_ex_iff)

lemma scored_hit_map:
  "map snd (List.map_filter (scored_hit E F D q today terms) es) =
     map (hit_of E terms) (filter (entry_matches q terms) es)"
proof (induction es)
  case (Cons e es)
  then show ?case
    using score_loop_some [of F terms "ie_title_words e" "ie_body_words e" "f_nat F 0"]
    by (auto simp: List.map_filter_simps scored_hit_def entry_matches_def split: option.split)
qed (simp add: List.map_filter_simps)


section \<open>Links\<close>

definition titled :: "env \<Rightarrow> 'd search_index \<Rightarrow> rstr \<Rightarrow> rstr set" where
  "titled E index wanted = {path. \<exists>e. (path, e) \<in> set index \<and> str_to_lowercase E (ie_title e) = wanted}"

definition named :: "env \<Rightarrow> 'd search_index \<Rightarrow> rstr \<Rightarrow> rstr set" where
  "named E index wanted = {path. (\<exists>e. (path, e) \<in> set index) \<and> str_to_lowercase E (stem path) = wanted}"

lemma entry_fields:
  assumes "index_ok E index" and "(path, e) \<in> set index"
  shows "ie_path e = path" and "ie_title_words e = word_list E (ie_title e)"
    and "ie_body_words e = word_list E (ie_body e)"
proof -
  have "e = index_entry E path (ie_modified e) (ie_body e)"
    using assms by (auto simp: index_ok_def list_all_iff)
  then obtain m b where "e = index_entry E path m b" by blast
  then show "ie_path e = path" "ie_title_words e = word_list E (ie_title e)"
    "ie_body_words e = word_list E (ie_body e)" by (simp_all add: index_entry_def)
qed

lemma index_paths:
  assumes "index_ok E index"
  shows "map (\<lambda>x. ie_path (snd x)) index = map fst index" and "distinct (map fst index)"
  using entry_fields(1) [OF assms] assms bt.keys_distinct [of index] by (auto simp: index_ok_def)

lemma by_title:
  assumes "index_ok E index"
  shows "distinct (map ie_path (filter (\<lambda>e. str_to_lowercase E (ie_title e) = w) (map snd index)))"
    and "set (map ie_path (filter (\<lambda>e. str_to_lowercase E (ie_title e) = w) (map snd index))) = titled E index w"
proof -
  have "distinct (map ie_path (map snd index))" 
    unfolding map_map o_def index_paths(1) [OF assms] by (rule index_paths(2) [OF assms])
  then show "distinct (map ie_path (filter (\<lambda>e. str_to_lowercase E (ie_title e) = w) (map snd index)))"
    by (rule distinct_map_filter)
  show "set (map ie_path (filter (\<lambda>e. str_to_lowercase E (ie_title e) = w) (map snd index))) = titled E index w"
    using entry_fields(1) [OF assms] by (force simp: titled_def)
qed

lemma by_name:
  assumes "index_ok E index"
  shows "distinct (filter (\<lambda>path. str_to_lowercase E (stem path) = w) (map fst index))"
    and "set (filter (\<lambda>path. str_to_lowercase E (stem path) = w) (map fst index)) = named E index w"
proof -
  show "distinct (filter (\<lambda>path. str_to_lowercase E (stem path) = w) (map fst index))"
    using index_paths(2) [OF assms] by simp
  show "set (filter (\<lambda>path. str_to_lowercase E (stem path) = w) (map fst index)) = named E index w"
    by (force simp: named_def)
qed

lemma distinct_cases:
  assumes "distinct xs"
  obtains "xs = []" | x where "xs = [x]" | x y zs where "xs = x # y # zs" and "x \<noteq> y"
  using assms by (cases xs; cases "tl xs") auto

section \<open>Terms that can match\<close>

definition sample_index :: "int search_index" where
  "sample_index = upsert ascii_env (lit ''people/ana.md'') 5 (lit ''# Ana'' @ [10] @ lit ''Runs a self-hosted server.'')
     (upsert ascii_env (lit ''b.md'') 7 (lit ''nothing'') [])"

lemma sample_index_ok: "index_ok ascii_env sample_index"
  by (simp add: sample_index_def index_ok_upsert index_ok_Nil)

definition sample_floats :: "nat float_ops" where
  "sample_floats = \<lparr>f_nat = id, f_add = (+), f_mul = (*), f_div = (div), f_less = (<)\<rparr>"

definition sample_days :: "int day_ops" where
  "sample_days = \<lparr>num_days = (-), days_back = (\<lambda>d n. Some (d - int n))\<rparr>"

definition sample_query :: "string \<Rightarrow> int SearchQuery" where
  "sample_query s = \<lparr>sq_query = lit s, sq_limit = 10, sq_since = None, sq_folder = None\<rparr>"

section \<open>Properties\<close>



text \<open>A link is resolved by title before it is resolved by file name, and never to an arbitrary note:
  it is \<open>Found\<close> exactly when one note alone has the title, or no note has it and one alone has the file
  name, and \<open>Missing\<close> exactly when none has either.\<close>

theorem resolve_link_spec:
  assumes "index_ok E index"
  shows "(resolve_link E index link = Found path \<longleftrightarrow> wanted_link E link \<noteq> [] \<and>
      (titled E index (wanted_link E link) = {path} \<or>
       titled E index (wanted_link E link) = {} \<and> named E index (wanted_link E link) = {path}))
    \<and> (resolve_link E index link = Missing \<longleftrightarrow> wanted_link E link = [] \<or>
      titled E index (wanted_link E link) = {} \<and> named E index (wanted_link E link) = {})"
proof -
  define w where "w = wanted_link E link"
  define ts where "ts = map ie_path (filter (\<lambda>e. str_to_lowercase E (ie_title e) = w) (map snd index))"
  define ns where "ns = filter (\<lambda>path. str_to_lowercase E (stem path) = w) (map fst index)"
  have t: "distinct ts" "set ts = titled E index w" using by_title [OF assms] by (simp_all add: ts_def)
  have n: "distinct ns" "set ns = named E index w" using by_name [OF assms] by (simp_all add: ns_def)
  have r: "resolve_link E index link = (if w = [] then Missing else if length ts = 1 then Found (ts ! 0)
      else if 1 < length ts then Ambiguous ts else if ns = [] then Missing
      else if length ns = 1 then Found (ns ! 0) else Ambiguous ns)"
    unfolding resolve_link_def Let_def ts_def ns_def w_def ..
  have "(resolve_link E index link = Found path \<longleftrightarrow> w \<noteq> [] \<and> (set ts = {path} \<or> set ts = {} \<and> set ns = {path}))
    \<and> (resolve_link E index link = Missing \<longleftrightarrow> w = [] \<or> set ts = {} \<and> set ns = {})"
    unfolding r by (rule distinct_cases [OF t(1)]; rule distinct_cases [OF n(1)]) auto
  then show ?thesis by (simp add: t(2) n(2) w_def)
qed

theorem resolve_link_spec_witness:
  "titled ascii_env sample_index (wanted_link ascii_env (lit ''[[ana|her]]'')) = {lit ''people/ana.md''} \<or>
   titled ascii_env sample_index (wanted_link ascii_env (lit ''[[ana|her]]'')) = {} \<and>
   named ascii_env sample_index (wanted_link ascii_env (lit ''[[ana|her]]'')) = {lit ''people/ana.md''}"
proof -
  have "resolve_link ascii_env sample_index (lit ''[[ana|her]]'') = Found (lit ''people/ana.md'')" by code_simp
  with resolve_link_spec [OF sample_index_ok, of "lit ''[[ana|her]]''" "lit ''people/ana.md''"]
  show ?thesis by blast
qed

text \<open>A query word that holds a character no word of a note can hold, such as the hyphen of
  ''self-hosted'', makes the whole search come back empty, however often the notes have that very text:
  notes are cut at every character that is not alphanumeric, queries only at white space.\<close>

theorem punctuated_query_finds_nothing:
  assumes "\<And>s. list_all (is_alphanumeric E) s \<Longrightarrow> c \<notin> set (str_to_lowercase E s)"
    and "index_ok E index" and "t \<in> set (query_terms E (sq_query q))" and "c \<in> set (t_text t)"
  shows "index_search E F D index q today = []"
proof -
  have "c \<notin> set w" if "w \<in> set (word_list E s)" for w s
    using that assms(1) split_on_pieces [of _ "\<lambda>c. \<not> is_alphanumeric E c" s]
    by (auto simp: word_list_def list_all_iff)
  moreover have "c \<in> set w" if "term_matches t w" for w
    using assms(4) that by (auto simp: term_matches_def starts_with_iff split: if_splits)
  ultimately have "\<not> list_ex (term_matches t) (word_list E s)" for s by (auto simp: list_ex_iff)
  then have "\<not> entry_matches q (query_terms E (sq_query q)) e" if "(path, e) \<in> set index" for path e
    using assms(3) entry_fields(2,3) [OF assms(2) that] by (auto simp: entry_matches_def list_all_iff)
  then have "filter (entry_matches q (query_terms E (sq_query q))) (map snd index) = []"
    by (auto simp: filter_empty_conv)
  then have "List.map_filter (scored_hit E F D q today (query_terms E (sq_query q))) (map snd index) = []"
    using scored_hit_map [of E F D q today _ "map snd index"] by (metis map_is_Nil_conv)
  then show ?thesis by (simp add: index_search_def Let_def sort_by_def)
qed

theorem punctuated_query_finds_nothing_witness:
  "index_search ascii_env sample_floats sample_days sample_index (sample_query ''self-hosted'') 9 = []"
proof (rule punctuated_query_finds_nothing [where c = 45])
  show "45 \<notin> set (str_to_lowercase ascii_env s)" if "list_all (is_alphanumeric ascii_env) s" for s
    using that by (auto simp: ascii_env_def list_all_iff to_ascii_lowercase_def is_ascii_alphanumeric_def
        is_ascii_digit_def is_ascii_lowercase_def is_ascii_uppercase_def)
  show "index_ok ascii_env sample_index" by (rule sample_index_ok)
  show "\<lparr>t_text = lit ''self-hosted'', t_prefix = False\<rparr> \<in> set (query_terms ascii_env (sq_query (sample_query ''self-hosted'')))"
    by code_simp
qed simp

end
