(* ===== verification/Rpc.thy ===== *)
theory Rpc
  imports Search_Index Offline Apply
begin

text \<open>
  JSON-RPC and the MCP methods of the bridge (\<open>crates/thock-bridge/rpc.rs\<close>): requests and responses,
  the six tools and the two resources, and \<open>dispatch\<close> over a tool host.  A host is a record of
  functions on a state of its own, one per method of the trait \<open>ToolHost\<close>, each returning the new
  state beside its result.  \<open>serde_json\<close>'s reading of text and of a request, and the day format of
  chrono, are parameters; the values serde makes of a response are written out.
\<close>

section \<open>Constants\<close>

definition PROTOCOL_VERSION :: rstr where "PROTOCOL_VERSION = lit ''2025-11-25''"
definition SERVER_NAME :: rstr where "SERVER_NAME = lit ''thock''"
definition PARSE_ERROR :: int where "PARSE_ERROR = - 32700"
definition INVALID_REQUEST :: int where "INVALID_REQUEST = - 32600"
definition METHOD_NOT_FOUND :: int where "METHOD_NOT_FOUND = - 32601"
definition INVALID_PARAMS :: int where "INVALID_PARAMS = - 32602"
definition INDEX_RESOURCE_URI :: rstr where "INDEX_RESOURCE_URI = lit ''thock://memory/index''"
definition NOTE_RESOURCE_PREFIX :: rstr where "NOTE_RESOURCE_PREFIX = lit ''thock://note/''"
definition DEFAULT_SEARCH_LIMIT :: nat where "DEFAULT_SEARCH_LIMIT = 10"
definition MAX_SEARCH_LIMIT :: nat where "MAX_SEARCH_LIMIT = 50"
definition DEFAULT_RECENT_DAYS :: nat where "DEFAULT_RECENT_DAYS = 7"
definition MAX_RECENT_DAYS :: nat where "MAX_RECENT_DAYS = 366"
definition MAX_TODAY_LINES :: nat where "MAX_TODAY_LINES = 20"
definition CALL_DATE_WINDOW_DAYS :: nat where "CALL_DATE_WINDOW_DAYS = 7"

definition QUEUED_SENTENCE :: rstr where
  "QUEUED_SENTENCE = lit ''queued: the desk is unreachable; this will land when it is back''"

section \<open>JSON values\<close>

fun as_array :: "Value \<Rightarrow> Value list option" where
  "as_array (Array vs) = Some vs"
| "as_array _ = None"

fun as_bool :: "Value \<Rightarrow> bool option" where
  "as_bool (Bool b) = Some b"
| "as_bool _ = None"

fun is_object :: "Value \<Rightarrow> bool" where
  "is_object (Object kvs) = True"
| "is_object _ = False"

text \<open>\<open>Map::insert\<close>, which keeps the order of insertion.\<close>

fun map_insert :: "rstr \<Rightarrow> Value \<Rightarrow> (rstr \<times> Value) list \<Rightarrow> (rstr \<times> Value) list" where
  "map_insert k v [] = [(k, v)]"
| "map_insert k v ((k', v') # kvs) = (if k' = k then (k', v) # kvs else (k', v') # map_insert k v kvs)"

definition get_str :: "rstr \<Rightarrow> Value \<Rightarrow> rstr option" where
  "get_str key v = Option.bind (value_get key v) as_str"

abbreviation vstr :: "string \<Rightarrow> Value" where
  "vstr s \<equiv> String (lit s)"

abbreviation vnat :: "nat \<Rightarrow> Value" where
  "vnat n \<equiv> Number (PosInt (of_nat n))"

section \<open>Requests and responses\<close>

record JsonRpcRequest =
  jq_jsonrpc :: rstr
  jq_id :: "Value option"
  jq_method :: rstr
  jq_params :: "Value option"

record JsonRpcError =
  je_code :: int
  je_message :: rstr

record JsonRpcResponse =
  jr_jsonrpc :: rstr
  jr_id :: Value
  jr_result :: "Value option"
  jr_error :: "JsonRpcError option"

definition jsonrpc_version :: rstr where "jsonrpc_version = lit ''2.0''"

definition error_response :: "Value \<Rightarrow> int \<Rightarrow> rstr \<Rightarrow> JsonRpcResponse" where
  "error_response i code message =
     \<lparr>jr_jsonrpc = jsonrpc_version, jr_id = i, jr_result = None,
      jr_error = Some \<lparr>je_code = code, je_message = message\<rparr>\<rparr>"

definition result_response :: "Value \<Rightarrow> Value \<Rightarrow> JsonRpcResponse" where
  "result_response i result =
     \<lparr>jr_jsonrpc = jsonrpc_version, jr_id = i, jr_result = Some result, jr_error = None\<rparr>"

definition request_new :: "Value \<Rightarrow> rstr \<Rightarrow> Value \<Rightarrow> JsonRpcRequest" where
  "request_new i meth params =
     \<lparr>jq_jsonrpc = jsonrpc_version, jq_id = Some i, jq_method = meth, jq_params = Some params\<rparr>"

record rpc_serde =
  rpc_from_str :: "rstr \<Rightarrow> rstr + Value"
  request_from_value :: "Value \<Rightarrow> rstr + JsonRpcRequest"

definition request_parse :: "rpc_serde \<Rightarrow> rstr \<Rightarrow> JsonRpcResponse + JsonRpcRequest" where
  "request_parse S body =
     (case rpc_from_str S body of
        Inl e \<Rightarrow> Inl (error_response Null PARSE_ERROR (lit ''not JSON: '' @ e))
      | Inr v \<Rightarrow>
          if \<not> is_object v
          then Inl (error_response Null INVALID_REQUEST (lit ''one JSON-RPC request object per POST''))
          else (case request_from_value S v of
                  Inl e \<Rightarrow> Inl (error_response Null INVALID_REQUEST e)
                | Inr q \<Rightarrow> Inr q))"

definition is_notification :: "JsonRpcRequest \<Rightarrow> bool" where
  "is_notification q \<longleftrightarrow> jq_id q = None"

definition tool_name :: "JsonRpcRequest \<Rightarrow> rstr option" where
  "tool_name q = Option.bind (jq_params q) (get_str (lit ''name''))"

definition arguments :: "JsonRpcRequest \<Rightarrow> Value" where
  "arguments q =
     (case Option.bind (jq_params q) (value_get (lit ''arguments'')) of Some v \<Rightarrow> v | None \<Rightarrow> Object [])"

record 'd CallMeta =
  cm_call_id :: "rstr option"
  cm_date :: "'d option"

text \<open>chrono on the day format \<open>%Y-%m-%d\<close>.\<close>

record 'd day_format =
  day_parse :: "rstr \<Rightarrow> 'd option"
  day_str :: "'d \<Rightarrow> rstr"

definition call_meta :: "'d day_format \<Rightarrow> JsonRpcRequest \<Rightarrow> 'd CallMeta" where
  "call_meta K q =
     (let meta = Option.bind (jq_params q) (value_get (lit ''_meta''))
      in \<lparr>cm_call_id = Option.bind meta (get_str (lit ''call_id'')),
          cm_date = Option.bind (Option.bind meta (get_str (lit ''date''))) (day_parse K)\<rparr>)"

definition meta_entries :: "'d day_format \<Rightarrow> 'd CallMeta \<Rightarrow> (rstr \<times> Value) list" where
  "meta_entries K m =
     (let e0 = [];
          e1 = (case cm_call_id m of Some i \<Rightarrow> map_insert (lit ''call_id'') (String i) e0 | None \<Rightarrow> e0)
      in case cm_date m of Some d \<Rightarrow> map_insert (lit ''date'') (String (day_str K d)) e1 | None \<Rightarrow> e1)"

definition with_meta :: "'d day_format \<Rightarrow> 'd CallMeta \<Rightarrow> JsonRpcRequest \<Rightarrow> JsonRpcRequest" where
  "with_meta K m q =
     (let params = (case jq_params q of Some p \<Rightarrow> p | None \<Rightarrow> Object [])
      in q\<lparr>jq_params := Some (case params of
             Object kvs \<Rightarrow> Object (map_insert (lit ''_meta'') (Object (meta_entries K m)) kvs)
           | _ \<Rightarrow> params)\<rparr>)"

section \<open>Tool responses\<close>

record CallToolResponse =
  ct_content :: "rstr list"
  ct_is_error :: bool
  ct_meta :: "Value option"

definition REFUSED_META :: Value where
  "REFUSED_META = Object [(lit ''thock'', Object [(lit ''refused'', Bool True)])]"

definition tool_text :: "rstr \<Rightarrow> CallToolResponse" where
  "tool_text t = \<lparr>ct_content = [t], ct_is_error = False, ct_meta = None\<rparr>"

definition tool_error :: "rstr \<Rightarrow> CallToolResponse" where
  "tool_error t = \<lparr>ct_content = [t], ct_is_error = True, ct_meta = None\<rparr>"

definition tool_refused :: "rstr \<Rightarrow> CallToolResponse" where
  "tool_refused t = \<lparr>ct_content = [t], ct_is_error = True, ct_meta = Some REFUSED_META\<rparr>"

definition is_refusal :: "CallToolResponse \<Rightarrow> bool" where
  "is_refusal r \<longleftrightarrow> ct_is_error r \<and>
     (case Option.bind (ct_meta r) (\<lambda>m. Option.bind (value_get (lit ''thock'') m)
        (\<lambda>t. Option.bind (value_get (lit ''refused'') t) as_bool)) of Some b \<Rightarrow> b | None \<Rightarrow> False)"

definition first_text :: "CallToolResponse \<Rightarrow> rstr" where
  "first_text r = (case first_opt (ct_content r) of Some t \<Rightarrow> t | None \<Rightarrow> [])"

definition tool_response_value :: "CallToolResponse \<Rightarrow> Value" where
  "tool_response_value r =
     Object ([(lit ''content'', Array (map (\<lambda>t. Object [(lit ''type'', vstr ''text''), (lit ''text'', String t)])
                (ct_content r))),
              (lit ''isError'', Bool (ct_is_error r))]
             @ (case ct_meta r of Some m \<Rightarrow> [(lit ''_meta'', m)] | None \<Rightarrow> []))"

record Resource =
  rs_uri :: rstr
  rs_name :: rstr
  rs_description :: "rstr option"
  rs_mime_type :: "rstr option"

definition resource_value :: "Resource \<Rightarrow> Value" where
  "resource_value r =
     Object ([(lit ''uri'', String (rs_uri r)), (lit ''name'', String (rs_name r))]
             @ (case rs_description r of Some d \<Rightarrow> [(lit ''description'', String d)] | None \<Rightarrow> [])
             @ (case rs_mime_type r of Some m \<Rightarrow> [(lit ''mimeType'', String m)] | None \<Rightarrow> []))"

record ResourceContents =
  rc_uri :: rstr
  rc_mime_type :: "rstr option"
  rc_text :: rstr

definition contents_value :: "ResourceContents \<Rightarrow> Value" where
  "contents_value r =
     Object ([(lit ''uri'', String (rc_uri r))]
             @ (case rc_mime_type r of Some m \<Rightarrow> [(lit ''mimeType'', String m)] | None \<Rightarrow> [])
             @ [(lit ''text'', String (rc_text r))])"

record Tool =
  tl_name :: rstr
  tl_description :: rstr
  tl_input_schema :: Value

definition tool_value :: "Tool \<Rightarrow> Value" where
  "tool_value t =
     Object [(lit ''name'', String (tl_name t)), (lit ''description'', String (tl_description t)),
             (lit ''inputSchema'', tl_input_schema t)]"

section \<open>Hosts\<close>

datatype ReadTarget = ByPath rstr | ByLink rstr

datatype WriteOutcome = WCreated | WSectionAdded | WApplied | WNoop | WQueued

fun outcome_word :: "WriteOutcome \<Rightarrow> rstr" where
  "outcome_word WCreated = lit ''created''"
| "outcome_word WSectionAdded = lit ''section_added''"
| "outcome_word WApplied = lit ''applied''"
| "outcome_word WNoop = lit ''noop''"
| "outcome_word WQueued = lit ''queued''"

fun from_outcome :: "Outcome \<Rightarrow> WriteOutcome" where
  "from_outcome Created = WCreated"
| "from_outcome SectionAdded = WSectionAdded"
| "from_outcome OApplied = WApplied"
| "from_outcome KeptBoth = WApplied"
| "from_outcome Noop = WNoop"

datatype HostError = HRefused rstr | HTransient rstr

fun host_message :: "HostError \<Rightarrow> rstr" where
  "host_message (HRefused m) = m"
| "host_message (HTransient m) = m"

fun is_transient :: "HostError \<Rightarrow> bool" where
  "is_transient (HTransient m) = True"
| "is_transient (HRefused m) = False"

text \<open>The trait \<open>ToolHost\<close> over a host state.\<close>

record ('h, 'd) tool_host =
  host_context :: "'h \<Rightarrow> (HostError + rstr) \<times> 'h"
  host_memory_index :: "'h \<Rightarrow> (HostError + rstr) \<times> 'h"
  host_search :: "'d SearchQuery \<Rightarrow> 'h \<Rightarrow> (HostError + 'd SearchHit list) \<times> 'h"
  host_read :: "ReadTarget \<Rightarrow> 'h \<Rightarrow> (HostError + rstr) \<times> 'h"
  host_recent :: "nat \<Rightarrow> rstr option \<Rightarrow> 'h \<Rightarrow> (HostError + 'd RecentNote list) \<times> 'h"
  host_remember :: "rstr \<Rightarrow> 'd CallMeta \<Rightarrow> 'h \<Rightarrow> (HostError + WriteOutcome) \<times> 'h"
  host_note_today :: "rstr list \<Rightarrow> 'd CallMeta \<Rightarrow> 'h \<Rightarrow> (HostError + WriteOutcome) \<times> 'h"

section \<open>Arguments\<close>

definition clamp :: "nat \<Rightarrow> nat \<Rightarrow> nat \<Rightarrow> nat" where
  "clamp lo hi n = max lo (min hi n)"

definition nonempty :: "rstr \<Rightarrow> rstr option" where
  "nonempty s = (if s = [] then None else Some s)"

definition search_limit :: "Value \<Rightarrow> nat" where
  "search_limit args =
     clamp 1 MAX_SEARCH_LIMIT
       (case Option.bind (value_get (lit ''limit'') args) as_u64 of
          Some n \<Rightarrow> unat n | None \<Rightarrow> DEFAULT_SEARCH_LIMIT)"

definition parse_search_query :: "'d day_format \<Rightarrow> Value \<Rightarrow> HostError + 'd SearchQuery" where
  "parse_search_query K args =
     (case Option.bind (map_option trim (get_str (lit ''query'') args)) nonempty of
        None \<Rightarrow> Inl (HRefused (lit ''search needs a `query` string''))
      | Some query \<Rightarrow>
     (case (case get_str (lit ''since'') args of
              None \<Rightarrow> Inr None
            | Some since \<Rightarrow>
                (case day_parse K (trim since) of
                   Some d \<Rightarrow> Inr (Some d)
                 | None \<Rightarrow> Inl (HRefused (lit ''`since` must be a day, YYYY-MM-DD'')))) of
        Inl e \<Rightarrow> Inl e
      | Inr since \<Rightarrow>
          Inr \<lparr>sq_query = query, sq_limit = search_limit args, sq_since = since,
               sq_folder = Option.bind (map_option (\<lambda>f. trim_matches (\<lambda>c. c = 47) (trim f))
                             (get_str (lit ''folder'') args)) nonempty\<rparr>))"

definition parse_read_target :: "Value \<Rightarrow> HostError + ReadTarget" where
  "parse_read_target args =
     (let path = Option.bind (map_option trim (get_str (lit ''path'') args)) nonempty;
          link = Option.bind (map_option trim (get_str (lit ''link'') args)) nonempty
      in case (path, link) of
           (Some p, _) \<Rightarrow> Inr (ByPath p)
         | (None, Some l) \<Rightarrow> Inr (ByLink l)
         | (None, None) \<Rightarrow> Inl (HRefused (lit ''read needs a `path` or a `link`'')))"

fun push_lines :: "Value list \<Rightarrow> rstr list \<Rightarrow> HostError + rstr list" where
  "push_lines [] ls = Inr ls"
| "push_lines (v # vs) ls =
     (case as_str v of
        None \<Rightarrow> Inl (HRefused (lit ''`lines` must hold strings''))
      | Some l \<Rightarrow> push_lines vs (ls @ [l]))"

definition parse_lines :: "Value \<Rightarrow> HostError + rstr list" where
  "parse_lines args =
     (let first = (case get_str (lit ''line'') args of Some l \<Rightarrow> [l] | None \<Rightarrow> [])
      in case (case Option.bind (value_get (lit ''lines'') args) as_array of
                 Some vs \<Rightarrow> push_lines vs first | None \<Rightarrow> Inr first) of
           Inl e \<Rightarrow> Inl e
         | Inr ls \<Rightarrow>
             if ls = [] then Inl (HRefused (lit ''note_today needs a `line` or `lines`''))
             else if MAX_TODAY_LINES < length ls
             then Inl (HRefused (lit ''note_today takes at most '' @ nat_to_str MAX_TODAY_LINES @ lit '' lines per call''))
             else Inr ls)"

definition recent_days :: "Value \<Rightarrow> nat" where
  "recent_days args =
     clamp 1 MAX_RECENT_DAYS
       (case Option.bind (value_get (lit ''days'') args) as_u64 of
          Some n \<Rightarrow> (case u32_try_from n of Some m \<Rightarrow> unat m | None \<Rightarrow> MAX_RECENT_DAYS)
        | None \<Rightarrow> DEFAULT_RECENT_DAYS)"

fun check_lines :: "env \<Rightarrow> rstr list \<Rightarrow> HostError + unit" where
  "check_lines E [] = Inr ()"
| "check_lines E (l # ls) =
     (case check_fact E l [] of Inl r \<Rightarrow> Inl (HRefused (refusal_str r)) | Inr _ \<Rightarrow> check_lines E ls)"

definition validate_tool_arguments :: "env \<Rightarrow> 'd day_format \<Rightarrow> rstr \<Rightarrow> Value \<Rightarrow> HostError + unit" where
  "validate_tool_arguments E K name args =
     (if name = lit ''remember'' then
        (case get_str (lit ''fact'') args of
           None \<Rightarrow> Inl (HRefused (lit ''remember needs a `fact` string''))
         | Some fct \<Rightarrow> (case check_fact E fct [] of Inl r \<Rightarrow> Inl (HRefused (refusal_str r)) | Inr _ \<Rightarrow> Inr ()))
      else if name = lit ''note_today'' then
        (case parse_lines args of Inl e \<Rightarrow> Inl e | Inr ls \<Rightarrow> check_lines E ls)
      else if name = lit ''search'' then
        (case parse_search_query K args of Inl e \<Rightarrow> Inl e | Inr _ \<Rightarrow> Inr ())
      else if name = lit ''read'' then
        (case parse_read_target args of Inl e \<Rightarrow> Inl e | Inr _ \<Rightarrow> Inr ())
      else Inr ())"

text \<open>The subtraction is chrono's and panics before the first day there is.\<close>

definition accepted_call_date :: "'d :: linorder day_ops \<Rightarrow> 'd option \<Rightarrow> 'd \<Rightarrow> 'd option option" where
  "accepted_call_date D date today =
     (case date of
        None \<Rightarrow> Some None
      | Some d \<Rightarrow> (case days_back D today CALL_DATE_WINDOW_DAYS of
                     None \<Rightarrow> None
                   | Some oldest \<Rightarrow> Some (if oldest \<le> d \<and> d \<le> today then Some d else None)))"

definition cache_key :: "env \<Rightarrow> 'd day_format \<Rightarrow> 'd SearchQuery \<Rightarrow> rstr" where
  "cache_key E K q =
     sha256_hex E (str_to_lowercase E (trim (sq_query q)) @ [10] @ nat_to_str (sq_limit q) @ [10]
       @ (case sq_since q of Some d \<Rightarrow> day_str K d | None \<Rightarrow> []) @ [10]
       @ (case sq_folder q of Some f \<Rightarrow> f | None \<Rightarrow> []))"

section \<open>Rendering\<close>

definition DASH :: rstr where "DASH = [32, 8212, 32]"

definition render_hit :: "'d day_format \<Rightarrow> 'd SearchHit \<Rightarrow> rstr" where
  "render_hit K h =
     lit ''- `'' @ sh_path h @ lit ''`'' @ DASH @ sh_title h @ lit '' ('' @ day_str K (sh_modified h) @ lit '')''
     @ [10] @ lit ''  '' @ sh_snippet h @ [10]"

definition render_hits :: "'d day_format \<Rightarrow> 'd SearchQuery \<Rightarrow> 'd SearchHit list \<Rightarrow> rstr" where
  "render_hits K q hits =
     (if hits = [] then lit ''No notes match `'' @ sq_query q @ lit ''`.''
      else trim_end (concat (map (render_hit K) hits)))"

definition render_note :: "'d day_format \<Rightarrow> 'd RecentNote \<Rightarrow> rstr" where
  "render_note K n =
     lit ''- `'' @ rn_path n @ lit ''`'' @ DASH @ rn_title n @ lit '' ('' @ day_str K (rn_modified n) @ lit '')''"

definition render_recent :: "'d day_format \<Rightarrow> nat \<Rightarrow> 'd RecentNote list \<Rightarrow> rstr" where
  "render_recent K days notes =
     (if notes = [] then lit ''No notes changed in the last '' @ nat_to_str days @ lit '' days.''
      else join_with [10] (map (render_note K) notes))"

section \<open>The tools\<close>

definition context_tool :: Tool where
  "context_tool =
     \<lparr>tl_name = lit ''context'',
      tl_description =
        lit ''What this person's Thock vault knows: today's date and week, where today's and this ''
        @ lit ''week's notes live, what past sessions learned about them (memory/index.md), the ''
        @ lit ''Routines they run, their language, the topics they asked never to keep, and who you ''
        @ lit ''are to the vault. Call it when a task touches the person, their people, their ''
        @ lit ''threads or how they like things done, and at the start of a session about them.'',
      tl_input_schema = Object [
        (lit ''type'', vstr ''object''),
        (lit ''properties'', Object []),
        (lit ''additionalProperties'', Bool False)]\<rparr>"

definition search_tool :: Tool where
  "search_tool =
     \<lparr>tl_name = lit ''search'',
      tl_description =
        lit ''Keyword search over the vault's notes: every word must match (whole word, any case; ''
        @ lit ''`plan*` matches a prefix). Returns the path, title, last-modified date and a ''
        @ lit ''snippet of each hit. Search before assuming.'',
      tl_input_schema = Object [
        (lit ''type'', vstr ''object''),
        (lit ''properties'', Object [
          (lit ''query'', Object [
            (lit ''type'', vstr ''string''),
            (lit ''description'', vstr ''Words to find, space-separated.'')]),
          (lit ''limit'', Object [
            (lit ''type'', vstr ''integer''),
            (lit ''minimum'', vnat 1),
            (lit ''maximum'', vnat MAX_SEARCH_LIMIT),
            (lit ''default'', vnat DEFAULT_SEARCH_LIMIT)]),
          (lit ''since'', Object [
            (lit ''type'', vstr ''string''),
            (lit ''description'', vstr ''Only notes modified on or after this day, YYYY-MM-DD.'')]),
          (lit ''folder'', Object [
            (lit ''type'', vstr ''string''),
            (lit ''description'', vstr ''Only notes under this vault folder, e.g. `daily`.'')])]),
        (lit ''required'', Array [vstr ''query'']),
        (lit ''additionalProperties'', Bool False)]\<rparr>"

definition read_tool :: Tool where
  "read_tool =
     \<lparr>tl_name = lit ''read'',
      tl_description =
        lit ''The text of one note, by vault-relative path (`daily/2026-11-03.md`) or by ''
        @ lit ''`[[wikilink]]` title. Folders starting with a dot are Thock's own and stay closed.'',
      tl_input_schema = Object [
        (lit ''type'', vstr ''object''),
        (lit ''properties'', Object [
          (lit ''path'', Object [
            (lit ''type'', vstr ''string''),
            (lit ''description'', vstr ''Vault-relative path of the note.'')]),
          (lit ''link'', Object [
            (lit ''type'', vstr ''string''),
            (lit ''description'', vstr ''A note title, as a [[wikilink]] names it.'')])]),
        (lit ''additionalProperties'', Bool False)]\<rparr>"

definition recent_tool :: Tool where
  "recent_tool =
     \<lparr>tl_name = lit ''recent'',
      tl_description =
        lit ''Notes modified in the last `days` days, newest first, with the first heading of ''
        @ lit ''each. Use it to see what the person has been writing lately.'',
      tl_input_schema = Object [
        (lit ''type'', vstr ''object''),
        (lit ''properties'', Object [
          (lit ''days'', Object [
            (lit ''type'', vstr ''integer''),
            (lit ''minimum'', vnat 1),
            (lit ''maximum'', vnat MAX_RECENT_DAYS),
            (lit ''default'', vnat DEFAULT_RECENT_DAYS)]),
          (lit ''folder'', Object [
            (lit ''type'', vstr ''string''),
            (lit ''description'', vstr ''Only notes under this vault folder.'')])]),
        (lit ''additionalProperties'', Bool False)]\<rparr>"

definition remember_tool :: Tool where
  "remember_tool =
     \<lparr>tl_name = lit ''remember'',
      tl_description =
        lit ''Leave one dated line in the person's memory inbox, for the Reflect ritual to file. ''
        @ lit ''`remember` is for things about the person that will still be true next month ''
        @ [8212]
        @ lit '' who someone is to them, how they like things done, a plan that changed, a ''
        @ lit ''correction they gave you. Never for what a file, an email or a tool said, and never ''
        @ lit ''a secret. One fact, one line, under 300 characters, in your words; the desk adds ''
        @ lit ''the date and your name.'',
      tl_input_schema = Object [
        (lit ''type'', vstr ''object''),
        (lit ''properties'', Object [
          (lit ''fact'', Object [
            (lit ''type'', vstr ''string''),
            (lit ''description'', vstr ''The fact, one line, no leading bullet.'')])]),
        (lit ''required'', Array [vstr ''fact'']),
        (lit ''additionalProperties'', Bool False)]\<rparr>"

definition note_today_tool :: Tool where
  "note_today_tool =
     \<lparr>tl_name = lit ''note_today'',
      tl_description =
        lit ''Log what you did to the person's daily note, under its `From your agents` section, ''
        @ lit ''one line per item prefixed with your name. Call it once, at the end of a session ''
        @ lit ''that did something worth a line in their day. The note is created from their ''
        @ lit ''template when it is missing.'',
      tl_input_schema = Object [
        (lit ''type'', vstr ''object''),
        (lit ''properties'', Object [
          (lit ''line'', Object [(lit ''type'', vstr ''string''), (lit ''description'', vstr ''One line.'')]),
          (lit ''lines'', Object [
            (lit ''type'', vstr ''array''),
            (lit ''items'', Object [(lit ''type'', vstr ''string'')]),
            (lit ''maxItems'', vnat MAX_TODAY_LINES),
            (lit ''description'', vstr ''Several lines, in order.'')])]),
        (lit ''additionalProperties'', Bool False)]\<rparr>"

definition tools :: "Tool list" where
  "tools = [context_tool, search_tool, read_tool, recent_tool, remember_tool, note_today_tool]"

definition resources :: "Resource list" where
  "resources =
     [\<lparr>rs_uri = INDEX_RESOURCE_URI, rs_name = lit ''What Thock has learned'',
       rs_description = Some (lit ''memory/index.md, capped as the desk agent reads it.''),
       rs_mime_type = Some (lit ''text/markdown'')\<rparr>,
      \<lparr>rs_uri = NOTE_RESOURCE_PREFIX @ lit ''{path}'', rs_name = lit ''A note'',
       rs_description = Some (lit ''Any note by vault-relative path; the same rules as `read`.''),
       rs_mime_type = Some (lit ''text/markdown'')\<rparr>]"

definition initialize_result :: "rstr \<Rightarrow> Value" where
  "initialize_result version =
     Object [(lit ''protocolVersion'', String PROTOCOL_VERSION),
             (lit ''capabilities'', Object [(lit ''tools'', Object []), (lit ''resources'', Object [])]),
             (lit ''serverInfo'', Object [(lit ''name'', String SERVER_NAME), (lit ''version'', String version)]),
             (lit ''instructions'',
              vstr ''Read the thock-memory skill if it is installed; its rules apply to every tool here.'')]"

section \<open>Dispatch\<close>

definition map_ok :: "('a \<Rightarrow> 'b) \<Rightarrow> (HostError + 'a) \<times> 'h \<Rightarrow> (HostError + 'b) \<times> 'h" where
  "map_ok f x = (case x of (Inr v, h) \<Rightarrow> (Inr (f v), h) | (Inl e, h) \<Rightarrow> (Inl e, h))"

definition remember_sentence :: "WriteOutcome \<Rightarrow> rstr" where
  "remember_sentence out =
     (case out of
        WQueued \<Rightarrow> QUEUED_SENTENCE
      | WNoop \<Rightarrow> lit ''That line is already in memory/inbox.md (noop).''
      | _ \<Rightarrow> lit ''Noted in memory/inbox.md; the Reflect ritual files it ('' @ outcome_word out @ lit '').'')"

definition today_sentence :: "WriteOutcome \<Rightarrow> rstr" where
  "today_sentence out =
     (case out of WQueued \<Rightarrow> QUEUED_SENTENCE
      | _ \<Rightarrow> lit ''Added to today's note ('' @ outcome_word out @ lit '').'')"

definition tool_reply :: "(HostError + rstr) \<times> 'h \<Rightarrow> (HostError + CallToolResponse) \<times> 'h" where
  "tool_reply x =
     (case x of
        (Inr t, h) \<Rightarrow> (Inr (tool_text t), h)
      | (Inl (HTransient m), h) \<Rightarrow> (Inr (tool_error m), h)
      | (Inl (HRefused m), h) \<Rightarrow> (Inr (tool_refused m), h))"

definition call_tool :: "'d day_format \<Rightarrow> ('h, 'd) tool_host \<Rightarrow> JsonRpcRequest \<Rightarrow> 'h \<Rightarrow>
    (HostError + CallToolResponse) \<times> 'h" where
  "call_tool K H q h =
     (case tool_name q of
        None \<Rightarrow> (Inl (HRefused (lit ''tools/call needs a tool name'')), h)
      | Some name \<Rightarrow>
          let args = arguments q; meta = call_meta K q
          in if name = lit ''context'' then tool_reply (host_context H h)
             else if name = lit ''search'' then
               (case parse_search_query K args of
                  Inl e \<Rightarrow> (Inl e, h)
                | Inr query \<Rightarrow> tool_reply (map_ok (render_hits K query) (host_search H query h)))
             else if name = lit ''read'' then
               (case parse_read_target args of
                  Inl e \<Rightarrow> (Inl e, h)
                | Inr target \<Rightarrow> tool_reply (host_read H target h))
             else if name = lit ''recent'' then
               tool_reply (map_ok (render_recent K (recent_days args))
                 (host_recent H (recent_days args) (get_str (lit ''folder'') args) h))
             else if name = lit ''remember'' then
               (case get_str (lit ''fact'') args of
                  None \<Rightarrow> (Inl (HRefused (lit ''remember needs a `fact` string'')), h)
                | Some fct \<Rightarrow> tool_reply (map_ok remember_sentence (host_remember H fct meta h)))
             else if name = lit ''note_today'' then
               (case parse_lines args of
                  Inl e \<Rightarrow> (Inl e, h)
                | Inr ls \<Rightarrow> tool_reply (map_ok today_sentence (host_note_today H ls meta h)))
             else (Inl (HRefused (lit ''no tool named '' @ name)), h))"

definition read_resource :: "('h, 'd) tool_host \<Rightarrow> rstr \<Rightarrow> 'h \<Rightarrow> (HostError + ResourceContents) \<times> 'h" where
  "read_resource H uri h =
     (let contents = (\<lambda>t. \<lparr>rc_uri = uri, rc_mime_type = Some (lit ''text/markdown''), rc_text = t\<rparr>)
      in if uri = INDEX_RESOURCE_URI then map_ok contents (host_memory_index H h)
         else (case strip_prefix NOTE_RESOURCE_PREFIX uri of
                 Some path \<Rightarrow> map_ok contents (host_read H (ByPath path) h)
               | None \<Rightarrow> (Inl (HRefused (uri @ lit '' is not a resource here'')), h)))"

text \<open>The response to a result or an error of the host.\<close>

definition respond :: "Value \<Rightarrow> ('a \<Rightarrow> Value) \<Rightarrow> (HostError + 'a) \<times> 'h \<Rightarrow> JsonRpcResponse \<times> 'h" where
  "respond i f x =
     (case x of
        (Inr v, h) \<Rightarrow> (result_response i (f v), h)
      | (Inl e, h) \<Rightarrow> (error_response i INVALID_PARAMS (host_message e), h))"

definition dispatch_id :: "'d day_format \<Rightarrow> ('h, 'd) tool_host \<Rightarrow> JsonRpcRequest \<Rightarrow> rstr \<Rightarrow> Value \<Rightarrow> 'h \<Rightarrow>
    JsonRpcResponse \<times> 'h" where
  "dispatch_id K H q version i h =
     (if jq_method q = lit ''initialize'' then (result_response i (initialize_result version), h)
      else if jq_method q = lit ''ping'' then (result_response i (Object []), h)
      else if jq_method q = lit ''tools/list'' then
        (result_response i (Object [(lit ''tools'', Array (map tool_value tools))]), h)
      else if jq_method q = lit ''resources/list'' then
        (result_response i (Object [(lit ''resources'', Array (map resource_value resources))]), h)
      else if jq_method q = lit ''resources/read'' then
        respond i (\<lambda>c. Object [(lit ''contents'', Array [contents_value c])])
          (read_resource H (case Option.bind (jq_params q) (get_str (lit ''uri'')) of Some u \<Rightarrow> u | None \<Rightarrow> []) h)
      else if jq_method q = lit ''tools/call'' then respond i tool_response_value (call_tool K H q h)
      else (error_response i METHOD_NOT_FOUND (jq_method q @ lit '' is not served here''), h))"

definition dispatch :: "'d day_format \<Rightarrow> ('h, 'd) tool_host \<Rightarrow> JsonRpcRequest \<Rightarrow> rstr \<Rightarrow> 'h \<Rightarrow>
    JsonRpcResponse option \<times> 'h" where
  "dispatch K H q version h =
     (case jq_id q of
        None \<Rightarrow> (None, h)
      | Some i \<Rightarrow> map_prod Some id (dispatch_id K H q version i h))"

end
