(* ===== verification/Pairing.thy ===== *)
theory Pairing
  imports Offline Utf8
begin

text \<open>
  Pairing a machine with the desk (\<open>crates/thock-bridge/thock_bridge.rs\<close>): the configuration files
  as data, the pairing code with its expiry, and the comparison of hashes without an early exit.
  TOML reading and writing, chrono's instants and random bytes are parameters.
\<close>

section \<open>Constants\<close>

definition DEFAULT_PORT :: nat where "DEFAULT_PORT = 7557"
definition DEFAULT_BIND :: rstr where "DEFAULT_BIND = lit ''0.0.0.0''"
definition DEFAULT_TODAY_HEADING :: rstr where "DEFAULT_TODAY_HEADING = lit ''From your agents''"
definition PAIRING_CODE_MINUTES :: nat where "PAIRING_CODE_MINUTES = 10"
definition SEEN_CALL_HOURS :: nat where "SEEN_CALL_HOURS = 24"
definition HARNESS_HEADER :: rstr where "HARNESS_HEADER = lit ''X-Thock-Harness''"
definition PROTOCOL_HEADER :: rstr where "PROTOCOL_HEADER = lit ''MCP-Protocol-Version''"
definition SKILL_PATH :: rstr where "SKILL_PATH = lit ''routines/agents/skills/thock-memory/SKILL.md''"
definition AGENTS_DIR :: rstr where "AGENTS_DIR = lit ''memory/agents''"

section \<open>Files\<close>

record BridgeConfig =
  bc_port :: nat
  bc_bind :: rstr
  bc_today_heading :: rstr

definition config_default :: BridgeConfig where
  "config_default =
     \<lparr>bc_port = DEFAULT_PORT, bc_bind = DEFAULT_BIND, bc_today_heading = DEFAULT_TODAY_HEADING\<rparr>"

definition config_render :: "BridgeConfig \<Rightarrow> rstr" where
  "config_render c =
     lit ''# The Agents Routine's server (V55). The desk serves while this vault is open.'' @ [10]
     @ lit ''port = '' @ nat_to_str (bc_port c) @ [10]
     @ lit ''bind = '' @ [34] @ bc_bind c @ [34, 10]
     @ lit ''# The daily-note section `note_today` appends under.'' @ [10]
     @ lit ''today_heading = '' @ [34] @ bc_today_heading c @ [34, 10]"

record PairedClient =
  pc_name :: rstr
  pc_token_sha256 :: rstr
  pc_paired_at :: rstr
  pc_last_seen :: rstr
  pc_last_harness :: rstr
  pc_paired_via :: rstr

record PendingCode =
  pn_code_sha256 :: rstr
  pn_expires_at :: rstr

record ClientConfig =
  cc_desk :: rstr
  cc_token :: rstr
  cc_vault :: rstr
  cc_client_name :: rstr

record PairRequest =
  pq_code :: rstr
  pq_name :: rstr
  pq_version :: rstr

record PairResponse =
  pr_token :: rstr
  pr_vault :: rstr
  pr_desk :: rstr

record HealthResponse =
  hl_vault :: rstr
  hl_desk :: rstr
  hl_version :: rstr
  hl_serving_since :: rstr

text \<open>\<open>toml\<close> reading and writing a client list.\<close>

record clients_toml =
  toml_from_str :: "rstr \<Rightarrow> rstr + PairedClient list"
  toml_to_string :: "PairedClient list \<Rightarrow> rstr option"

definition parse_clients :: "clients_toml \<Rightarrow> rstr \<Rightarrow> rstr + PairedClient list" where
  "parse_clients T t = toml_from_str T t"

definition render_clients :: "clients_toml \<Rightarrow> PairedClient list \<Rightarrow> rstr" where
  "render_clients T clients = (case toml_to_string T clients of Some t \<Rightarrow> t | None \<Rightarrow> [])"

section \<open>Hashes and codes\<close>

definition constant_time_eq :: "rstr \<Rightarrow> rstr \<Rightarrow> bool" where
  "constant_time_eq left right \<longleftrightarrow>
     (let l = utf8 left; r = utf8 right
      in if length l \<noteq> length r then False
         else fold (\<lambda>(a, b) acc. or acc (xor a b)) (zip l r) (0 :: byte) = 0)"

text \<open>An instant that cannot be read counts as past.\<close>

definition is_expired :: "(rstr \<Rightarrow> 't :: linorder option) \<Rightarrow> PendingCode \<Rightarrow> 't \<Rightarrow> bool" where
  "is_expired parse_rfc3339 p now =
     (case parse_rfc3339 (pn_expires_at p) of Some expires \<Rightarrow> expires \<le> now | None \<Rightarrow> True)"

definition code_matches :: "env \<Rightarrow> PendingCode \<Rightarrow> rstr \<Rightarrow> bool" where
  "code_matches E p code = constant_time_eq (pn_code_sha256 p) (sha256_hex E (trim code))"

definition generate_token :: "env \<Rightarrow> byte list \<Rightarrow> rstr" where
  "generate_token E random = hex_encode E random"

definition CODE_WORDS :: "rstr list" where
  "CODE_WORDS = map lit [
    ''acorn'', ''amber'', ''anvil'', ''apple'', ''arrow'', ''aspen'', ''atlas'', ''badge'',
    ''bagel'', ''basil'', ''beach'', ''berry'', ''birch'', ''blaze'', ''bloom'', ''brick'',
    ''brook'', ''cabin'', ''candy'', ''canoe'', ''cedar'', ''chalk'', ''cider'', ''cliff'',
    ''cloud'', ''clover'', ''cobalt'', ''comet'', ''coral'', ''crane'', ''creek'', ''crisp'',
    ''daisy'', ''delta'', ''denim'', ''dune'', ''eagle'', ''ember'', ''fable'', ''falcon'',
    ''fern'', ''field'', ''flame'', ''flint'', ''forest'', ''fox'', ''frost'', ''garden'',
    ''glade'', ''globe'', ''goose'', ''grape'', ''grove'', ''harbor'', ''hazel'', ''heron'',
    ''hill'', ''honey'', ''iris'', ''island'', ''ivory'', ''jade'', ''juniper'', ''kettle'',
    ''lagoon'', ''lamp'', ''lantern'', ''laurel'', ''leaf'', ''lemon'', ''lilac'', ''linen'',
    ''lotus'', ''lunar'', ''maple'', ''marble'', ''meadow'', ''mint'', ''moss'', ''nectar'',
    ''north'', ''oak'', ''ocean'', ''olive'', ''onyx'', ''orbit'', ''orchid'', ''otter'',
    ''paper'', ''pearl'', ''pebble'', ''pepper'', ''petal'', ''pine'', ''plum'', ''pond'',
    ''poppy'', ''prairie'', ''quartz'', ''quill'', ''raven'', ''reed'', ''ridge'', ''river'',
    ''robin'', ''rose'', ''saffron'', ''sage'', ''sand'', ''shore'', ''silver'', ''sky'',
    ''slate'', ''snow'', ''sparrow'', ''spring'', ''spruce'', ''stone'', ''storm'', ''summit'',
    ''sun'', ''swan'', ''thyme'', ''tide'', ''timber'', ''topaz'', ''trail'', ''tulip'',
    ''valley'', ''velvet'', ''violet'', ''walnut'', ''wave'', ''wheat'', ''willow'', ''wind'',
    ''wren'', ''yarrow'', ''zephyr'', ''zinc'']"

text \<open>Six words at the random indices given.\<close>

definition generate_code :: "nat list \<Rightarrow> rstr" where
  "generate_code random =
     join_with (lit ''-'') (List.map_filter (\<lambda>i. get_at CODE_WORDS (i mod length CODE_WORDS)) (take 6 random))"

section \<open>Properties\<close>

lemma fold_xor_zero:
  "length l = length r \<Longrightarrow>
   fold (\<lambda>(a, b) acc. or acc (xor a b)) (zip l r) (acc :: byte) = 0 \<longleftrightarrow> acc = 0 \<and> l = r"
proof (induction l r arbitrary: acc rule: list_induct2)
  case (Cons a l b r)
  have "xor a b = 0 \<longleftrightarrow> a = b" by (metis xor.left_neutral xor.commute xor.assoc xor_self_eq)
  with Cons show ?case by (auto simp: or_eq_0_iff)
qed simp

text \<open>The comparison without an early exit is equality: two texts compare equal exactly when they are
  the same text.\<close>

theorem constant_time_eq_iff:
  assumes "list_all scalar left" and "list_all scalar right"
  shows "constant_time_eq left right \<longleftrightarrow> left = right"
  using assms utf8_inj [of left right] by (auto simp: constant_time_eq_def Let_def fold_xor_zero)

theorem constant_time_eq_iff_witness:
  "constant_time_eq (lit ''abc'') (lit ''abc'') \<and> \<not> constant_time_eq (lit ''abc'') (lit ''abd'')"
  using constant_time_eq_iff [of "lit ''abc''" "lit ''abc''"] constant_time_eq_iff [of "lit ''abc''" "lit ''abd''"]
  by (simp add: scalar_def)

end
