(* ===== verification/Client.thy ===== *)
theory Client
  imports Rpc Pairing Bridge_Http
begin

text \<open>
  The stdio proxy a harness talks to (\<open>Proxy\<close> in \<open>crates/thock-bridge/main.rs\<close>): requests go to the
  desk when it answers, reads come from the cache and writes go to the outbox when it does not.  The
  outside, that is the desk behind HTTP, the clock, random ids, cache faults, the mirror pass and
  \<open>serde_json\<close>, is the record \<open>client_env\<close> over a state of its own.  A drain of the outbox may go on for
  as long as others push, so what contains one is an option.
\<close>

section \<open>The outside\<close>

record ('w, 'd) client_env =
  ce_env :: env
  ce_days :: "'d day_format"
  ce_entry :: entry_serde
  ce_cached :: cached_serde
  ce_value_from_str :: "rstr \<Rightarrow> Value option"
  ce_value_str :: "Value \<Rightarrow> rstr"
  ce_request_to_vec :: "JsonRpcRequest \<Rightarrow> rstr + byte list"
  ce_response_from_str :: "rstr \<Rightarrow> rstr + JsonRpcResponse"
  ce_tool_result :: "Value \<Rightarrow> CallToolResponse option"
  ce_desk :: "HttpRequest \<Rightarrow> 'w \<Rightarrow> (rstr + HttpResponse) \<times> 'w"
  ce_uuid :: "'w \<Rightarrow> rstr \<times> 'w"
  ce_now :: "'w \<Rightarrow> rstr \<times> 'w"
  ce_instant :: "'w \<Rightarrow> nat \<times> 'w"
  ce_store_faults :: "'w \<Rightarrow> store_faults \<times> 'w"
  ce_entry_date :: "OutboxEntry \<Rightarrow> 'd option"
  ce_minute :: "rstr \<Rightarrow> rstr option"
  ce_run_mirror :: "ClientConfig \<Rightarrow> 'w \<Rightarrow> 'w"

section \<open>Requests to the desk\<close>

definition desk_url :: "rstr \<Rightarrow> rstr \<Rightarrow> rstr" where
  "desk_url desk0 path =
     (let desk1 = trim_end_matches (\<lambda>c. c = 47) (trim desk0);
          desk = (case strip_prefix (lit ''http://'') desk1 of Some d \<Rightarrow> d | None \<Rightarrow> desk1)
      in lit ''http://'' @ desk @ path)"

definition desk_request :: "ClientConfig \<Rightarrow> rstr \<Rightarrow> rstr \<Rightarrow> byte list \<Rightarrow> (rstr \<times> rstr) list \<Rightarrow> HttpRequest" where
  "desk_request config meth path body extra =
     \<lparr>hq_method = meth, hq_url = desk_url (cc_desk config) path,
      hq_headers = [(lit ''Authorization'', lit ''Bearer '' @ cc_token config),
                    (lit ''Content-Type'', lit ''application/json''),
                    (PROTOCOL_HEADER, PROTOCOL_VERSION)] @ extra,
      hq_body = body\<rparr>"

section \<open>The proxy\<close>

text \<open>\<open>px_refusals\<close> is the log of what the desk refused for good.\<close>

record 'w Proxy =
  px_config :: "ClientConfig option"
  px_cache :: Cache
  px_disk :: Disk
  px_harness :: rstr
  px_online :: "bool option"
  px_last_mirror :: "nat option"
  px_refusals :: "(rstr \<times> rstr) list"
  px_world :: 'w

definition MIRROR_INTERVAL :: nat where "MIRROR_INTERVAL = 60"

datatype ForwardFailure = FTransport rstr | FRefused nat rstr

definition desk_label :: "'w Proxy \<Rightarrow> rstr" where
  "desk_label p = (case px_config p of Some c \<Rightarrow> cc_desk c | None \<Rightarrow> lit ''(not paired)'')"

definition note_online :: "bool \<Rightarrow> 'w Proxy \<Rightarrow> 'w Proxy" where
  "note_online online p = (if px_online p \<noteq> Some online then p\<lparr>px_online := Some online\<rparr> else p)"

definition harness_header :: "rstr \<Rightarrow> rstr \<Rightarrow> (rstr \<times> rstr) list" where
  "harness_header self_name harness = [(HARNESS_HEADER, if harness = [] then self_name else harness)]"

definition request_id :: "JsonRpcRequest \<Rightarrow> Value" where
  "request_id q = (case jq_id q of Some i \<Rightarrow> i | None \<Rightarrow> Null)"

text \<open>What a response of the desk means for a forwarded request.\<close>

definition read_reply :: "('w, 'd) client_env \<Rightarrow> JsonRpcRequest \<Rightarrow> HttpResponse \<Rightarrow> ForwardFailure + JsonRpcResponse" where
  "read_reply C q resp =
     (let status = hr_status resp; t = response_text resp
      in if 500 \<le> status then Inl (FTransport (lit ''the desk answered '' @ nat_to_str status))
         else if status = 401 then
           Inr (error_response (request_id q) (- 32001)
             (lit ''the desk no longer knows this machine; pair again from the desk''))
         else if status = 202 then Inl (FTransport (lit ''the desk accepted a notification without a reply''))
         else if status = 408 \<or> status = 429 then
           Inl (FTransport (lit ''the desk answered '' @ nat_to_str status @ lit ''; try again''))
         else (case ce_response_from_str C t of
                 Inr parsed \<Rightarrow> Inr parsed
               | Inl e \<Rightarrow>
                   if 400 \<le> status then
                     Inl (FRefused status (case Option.bind (ce_value_from_str C t) (get_str (lit ''error'')) of
                            Some r \<Rightarrow> r | None \<Rightarrow> trim t))
                   else Inl (FTransport (lit ''the desk's answer wasn't readable: '' @ e))))"

definition forward :: "('w, 'd) client_env \<Rightarrow> ClientConfig option \<Rightarrow> rstr \<Rightarrow> JsonRpcRequest \<Rightarrow> rstr \<Rightarrow> 'w \<Rightarrow>
    (ForwardFailure + JsonRpcResponse) \<times> 'w" where
  "forward C config self_name q harness w =
     (case config of
        None \<Rightarrow> (Inl (FTransport (lit ''not paired with a desk yet; run `thock-bridge pair <host:port> <code>`'')), w)
      | Some cfg \<Rightarrow>
          (case ce_request_to_vec C q of
             Inl e \<Rightarrow> (Inl (FTransport e), w)
           | Inr body \<Rightarrow>
               (case ce_desk C (desk_request cfg (lit ''POST'') (lit ''/mcp'') body (harness_header self_name harness)) w of
                  (Inl e, w') \<Rightarrow> (Inl (FTransport e), w')
                | (Inr resp, w') \<Rightarrow> (read_reply C q resp, w'))))"

section \<open>Draining\<close>

definition outbox_request :: "('w, 'd) client_env \<Rightarrow> OutboxEntry \<Rightarrow> JsonRpcRequest" where
  "outbox_request C entry =
     with_meta (ce_days C) \<lparr>cm_call_id = Some (oe_id entry), cm_date = ce_entry_date C entry\<rparr>
       (request_new (String (lit ''outbox-'' @ oe_id entry)) (lit ''tools/call'')
          (Object [(lit ''name'', String (oe_tool entry)), (lit ''arguments'', oe_args entry)]))"

text \<open>How the reply to a queued call is judged.\<close>

definition judge_reply :: "('w, 'd) client_env \<Rightarrow> ForwardFailure + JsonRpcResponse \<Rightarrow> DrainFailure + unit" where
  "judge_reply C r =
     (case r of
        Inl (FTransport why) \<Rightarrow> Inl (Transport why)
      | Inl (FRefused status why) \<Rightarrow> Inl (Refused (nat_to_str status @ lit '': '' @ why))
      | Inr resp \<Rightarrow>
          (case jr_error resp of
             Some e \<Rightarrow> if je_code e = - 32602 \<or> je_code e = - 32601
                       then Inl (Refused (je_message e)) else Inl (Transport (je_message e))
           | None \<Rightarrow>
               (case Option.bind (jr_result resp) (ce_tool_result C) of
                  Some result \<Rightarrow>
                    if is_refusal result then Inl (Refused (first_text result))
                    else if ct_is_error result then Inl (Transport (first_text result))
                    else Inr ()
                | None \<Rightarrow> Inr ())))"

definition drain_sender :: "('w, 'd) client_env \<Rightarrow> ClientConfig option \<Rightarrow> rstr \<Rightarrow> 'w sender" where
  "drain_sender C config self_name d w entry =
     (case forward C config self_name (outbox_request C entry) (oe_harness entry) w of
        (r, w') \<Rightarrow> (judge_reply C r, d, w'))"

definition drain_outbox :: "('w, 'd) client_env \<Rightarrow> 'w Proxy \<Rightarrow> 'w Proxy option" where
  "drain_outbox C p =
     (case outbox_is_empty (ce_entry C) (px_disk p) of
        (none_left, d) \<Rightarrow>
          if none_left \<or> px_config p = None \<or> px_online p = Some False then Some (p\<lparr>px_disk := d\<rparr>)
          else (case outbox_drain (ce_entry C) (drain_sender C (px_config p) (px_harness p)) d (px_world p) of
                  None \<Rightarrow> None
                | Some st \<Rightarrow>
                    let p1 = p\<lparr>px_disk := ds_disk st, px_world := ds_send st\<rparr>;
                        p2 = (if 0 < dr_sent (ds_report st) then note_online True p1 else p1)
                    in Some (p2\<lparr>px_refusals := px_refusals p2 @
                         map (\<lambda>(entry, why). (oe_tool entry @ [32] @ ce_value_str C (oe_args entry), why))
                           (dr_refused (ds_report st))\<rparr>)))"

section \<open>Mirroring\<close>

definition proxy_mirror :: "('w, 'd) client_env \<Rightarrow> 'w Proxy \<Rightarrow> 'w Proxy" where
  "proxy_mirror C p =
     (case ce_instant C (px_world p) of
        (t, w) \<Rightarrow>
          let p1 = p\<lparr>px_last_mirror := Some t, px_world := w\<rparr>
          in (case px_config p1 of
                Some cfg \<Rightarrow> p1\<lparr>px_world := ce_run_mirror C cfg w\<rparr>
              | None \<Rightarrow> p1))"

definition mirror_if_due :: "('w, 'd) client_env \<Rightarrow> 'w Proxy \<Rightarrow> 'w Proxy" where
  "mirror_if_due C p =
     (case px_last_mirror p of
        None \<Rightarrow> proxy_mirror C p
      | Some previous \<Rightarrow>
          (case ce_instant C (px_world p) of
             (t, w) \<Rightarrow> if MIRROR_INTERVAL \<le> t - previous then proxy_mirror C (p\<lparr>px_world := w\<rparr>)
                       else p\<lparr>px_world := w\<rparr>))"

section \<open>The cache\<close>

definition search_key :: "('w, 'd) client_env \<Rightarrow> Value \<Rightarrow> rstr option" where
  "search_key C args =
     (case Option.bind (map_option trim (get_str (lit ''query'') args)) nonempty of
        None \<Rightarrow> None
      | Some query \<Rightarrow>
          Some (cache_key (ce_env C) (ce_days C)
            \<lparr>sq_query = query,
             sq_limit = clamp 1 50 (case Option.bind (value_get (lit ''limit'') args) as_u64 of
                                      Some n \<Rightarrow> unat n | None \<Rightarrow> 10),
             sq_since = Option.bind (get_str (lit ''since'') args) (\<lambda>s. day_parse (ce_days C) (trim s)),
             sq_folder = Option.bind (map_option (\<lambda>f. trim_matches (\<lambda>c. c = 47) (trim f))
                           (get_str (lit ''folder'') args)) nonempty\<rparr>))"

definition request_uri :: "JsonRpcRequest \<Rightarrow> rstr" where
  "request_uri q = (case Option.bind (jq_params q) (get_str (lit ''uri'')) of Some u \<Rightarrow> u | None \<Rightarrow> [])"

text \<open>\<open>Value::get(0)\<close>.\<close>

fun value_first :: "Value \<Rightarrow> Value option" where
  "value_first (Array (v # vs)) = Some v"
| "value_first _ = None"

definition contents_text :: "JsonRpcResponse \<Rightarrow> rstr option" where
  "contents_text resp =
     Option.bind (jr_result resp) (\<lambda>r. Option.bind (value_get (lit ''contents'') r)
       (\<lambda>c. Option.bind (value_first c) (get_str (lit ''text''))))"

text \<open>A store with the clock and the faults of the outside; a fault is only reported.\<close>

definition keep :: "('w, 'd) client_env \<Rightarrow> (store_faults \<Rightarrow> rstr \<Rightarrow> Cache \<Rightarrow> (rstr + unit) \<times> Cache) \<Rightarrow> 'w Proxy \<Rightarrow> 'w Proxy" where
  "keep C store p =
     (case ce_now C (px_world p) of
        (now, w1) \<Rightarrow> (case ce_store_faults C w1 of
                        (io, w2) \<Rightarrow> p\<lparr>px_cache := snd (store io now (px_cache p)), px_world := w2\<rparr>))"

definition remember_answer :: "('w, 'd) client_env \<Rightarrow> JsonRpcRequest \<Rightarrow> rstr option \<Rightarrow> Value \<Rightarrow> JsonRpcResponse \<Rightarrow>
    'w Proxy \<Rightarrow> 'w Proxy" where
  "remember_answer C q tool args resp p =
     (let S = ce_cached C; E = ce_env C
      in if jq_method q = lit ''resources/read'' then
           (case contents_text resp of
              None \<Rightarrow> p
            | Some t \<Rightarrow>
                if request_uri q = INDEX_RESOURCE_URI then keep C (\<lambda>io now. store_index S io now t) p
                else (case strip_prefix NOTE_RESOURCE_PREFIX (request_uri q) of
                        Some path \<Rightarrow> keep C (\<lambda>io now. store_note E S io now path t) p
                      | None \<Rightarrow> p))
         else (case Option.bind (jr_result resp) (ce_tool_result C) of
                 None \<Rightarrow> p
               | Some result \<Rightarrow>
                   if ct_is_error result then p
                   else if tool = Some (lit ''context'') then
                     keep C (\<lambda>io now. store_context S io now (first_text result)) p
                   else if tool = Some (lit ''read'') then
                     (case get_str (lit ''path'') args of
                        Some path \<Rightarrow> keep C (\<lambda>io now. store_note E S io now (trim path) (first_text result)) p
                      | None \<Rightarrow> p)
                   else if tool = Some (lit ''search'') then
                     (case search_key C args of
                        Some key \<Rightarrow> keep C (\<lambda>io now. store_search S io now key (first_text result)) p
                      | None \<Rightarrow> p)
                   else p))"

section \<open>The desk is away\<close>

definition cached_text :: "('w, 'd) client_env \<Rightarrow> rstr \<Rightarrow> CachedText \<Rightarrow> rstr" where
  "cached_text C desk c = ct_text c @ offline_suffix (ce_minute C) (ct_as_of c) desk"

definition from_cache :: "('w, 'd) client_env \<Rightarrow> rstr \<Rightarrow> rstr \<Rightarrow> CachedText option \<Rightarrow> rstr \<Rightarrow> CallToolResponse" where
  "from_cache C desk why c what =
     (case c of
        Some cached \<Rightarrow> tool_text (cached_text C desk cached)
      | None \<Rightarrow> tool_error (what @ lit '' isn't in the cache and the desk at '' @ desk
                  @ lit '' is unreachable ('' @ why @ lit '')''))"

definition offline_resource :: "('w, 'd) client_env \<Rightarrow> Value \<Rightarrow> JsonRpcRequest \<Rightarrow> 'w Proxy \<Rightarrow> JsonRpcResponse" where
  "offline_resource C i q p =
     (let uri = request_uri q; desk = desk_label p;
          c = (if uri = INDEX_RESOURCE_URI then cached_index (ce_cached C) (px_cache p)
               else Option.bind (strip_prefix NOTE_RESOURCE_PREFIX uri)
                      (\<lambda>path. cached_note (ce_env C) (ce_cached C) path (px_cache p)))
      in case c of
           Some cached \<Rightarrow>
             result_response i (Object [(lit ''contents'', Array [Object
               [(lit ''uri'', String uri), (lit ''mimeType'', vstr ''text/markdown''),
                (lit ''text'', String (cached_text C desk cached))]])])
         | None \<Rightarrow> error_response i INVALID_PARAMS
             (uri @ lit '' isn't in the cache and the desk at '' @ desk @ lit '' is unreachable''))"

text \<open>A write while the desk is away.\<close>

definition queue_write :: "('w, 'd) client_env \<Rightarrow> Value \<Rightarrow> rstr \<Rightarrow> Value \<Rightarrow> 'w Proxy \<Rightarrow> JsonRpcResponse \<times> 'w Proxy" where
  "queue_write C i name args p =
     (case validate_tool_arguments (ce_env C) (ce_days C) name args of
        Inl refusal \<Rightarrow> (result_response i (tool_response_value (tool_refused (host_message refusal))), p)
      | Inr _ \<Rightarrow>
     (case ce_uuid C (px_world p) of (uid, w1) \<Rightarrow>
     (case ce_now C w1 of (now, w2) \<Rightarrow>
     (case outbox_push (ce_entry C) (entry_new uid now name args (px_harness p)) (px_disk p) of
        (Inr _, d) \<Rightarrow>
          (result_response i (tool_response_value (tool_text QUEUED_SENTENCE)), p\<lparr>px_disk := d, px_world := w2\<rparr>)
      | (Inl e, d) \<Rightarrow>
          (result_response i (tool_response_value (tool_error (lit ''the desk at '' @ desk_label p
             @ lit '' is unreachable and the line couldn't be queued: '' @ e))),
           p\<lparr>px_disk := d, px_world := w2\<rparr>)))))"

definition offline_answer :: "('w, 'd) client_env \<Rightarrow> Value \<Rightarrow> JsonRpcRequest \<Rightarrow> rstr option \<Rightarrow> Value \<Rightarrow> rstr \<Rightarrow>
    'w Proxy \<Rightarrow> JsonRpcResponse \<times> 'w Proxy" where
  "offline_answer C i q tool args why p =
     (let desk = desk_label p; S = ce_cached C;
          reply = (\<lambda>r. (result_response i (tool_response_value r), p))
      in if jq_method q = lit ''resources/read'' then (offline_resource C i q p, p)
         else (case tool of
                 None \<Rightarrow> (error_response i INVALID_PARAMS (lit ''tools/call needs a tool name''), p)
               | Some name \<Rightarrow>
                   if name = lit ''context'' then
                     reply (from_cache C desk why (cached_context S (px_cache p)) (lit ''the vault's context''))
                   else if name = lit ''read'' then
                     (case get_str (lit ''path'') args of
                        Some path \<Rightarrow>
                          reply (from_cache C desk why (cached_note (ce_env C) S (trim path) (px_cache p)) (trim path))
                      | None \<Rightarrow>
                          reply (tool_error (lit ''a note can only be found by title when the desk at '' @ desk
                            @ lit '' is reachable'')))
                   else if name = lit ''search'' then
                     reply (from_cache C desk why
                       (Option.bind (search_key C args) (\<lambda>key. cached_search S key (px_cache p))) (lit ''that search''))
                   else if name = lit ''recent'' then
                     reply (tool_error (lit ''recent needs the desk, and the desk at '' @ desk
                       @ lit '' is unreachable ('' @ why @ lit '')''))
                   else if name = lit ''remember'' \<or> name = lit ''note_today'' then queue_write C i name args p
                   else reply (tool_error (lit ''no tool named '' @ name))))"

section \<open>One request\<close>

definition local_answer :: "JsonRpcRequest \<Rightarrow> rstr \<Rightarrow> JsonRpcResponse option" where
  "local_answer q version =
     (case jq_id q of
        None \<Rightarrow> None
      | Some i \<Rightarrow>
          Some (if jq_method q = lit ''initialize'' then result_response i (initialize_result version)
                else if jq_method q = lit ''ping'' then result_response i (Object [])
                else if jq_method q = lit ''tools/list'' then
                  result_response i (Object [(lit ''tools'', Array (map tool_value tools))])
                else if jq_method q = lit ''resources/list'' then
                  result_response i (Object [(lit ''resources'', Array (map resource_value resources))])
                else error_response i METHOD_NOT_FOUND (jq_method q @ lit '' is not served here'')))"

definition adopt_harness :: "JsonRpcRequest \<Rightarrow> 'w Proxy \<Rightarrow> 'w Proxy" where
  "adopt_harness q p =
     (if jq_method q = lit ''initialize'' \<and> px_harness p = lit ''agent'' then
        (case Option.bind (jq_params q) (\<lambda>params. Option.bind (value_get (lit ''clientInfo'') params)
                (get_str (lit ''name''))) of
           Some name \<Rightarrow> p\<lparr>px_harness := sanitize_harness name\<rparr>
         | None \<Rightarrow> p)
      else p)"

definition is_write_tool :: "rstr option \<Rightarrow> bool" where
  "is_write_tool tool \<longleftrightarrow> tool = Some (lit ''remember'') \<or> tool = Some (lit ''note_today'')"

text \<open>The request with its call id, when it is a write.\<close>

definition stamp_write :: "('w, 'd) client_env \<Rightarrow> JsonRpcRequest \<Rightarrow> 'w Proxy \<Rightarrow> JsonRpcRequest \<times> 'w Proxy" where
  "stamp_write C q p =
     (if is_write_tool (tool_name q) then
        (case ce_uuid C (px_world p) of
           (uid, w) \<Rightarrow> (with_meta (ce_days C) \<lparr>cm_call_id = Some uid, cm_date = None\<rparr> q, p\<lparr>px_world := w\<rparr>))
      else (q, p))"

definition online_answer :: "('w, 'd) client_env \<Rightarrow> JsonRpcRequest \<Rightarrow> rstr option \<Rightarrow> Value \<Rightarrow> JsonRpcResponse \<Rightarrow> 'w Proxy \<Rightarrow>
    (JsonRpcResponse \<times> 'w Proxy) option" where
  "online_answer C q tool args resp p =
     (let was_offline = (px_online p = Some False);
          p1 = note_online True p
      in case (if was_offline then drain_outbox C p1 else Some p1) of
           None \<Rightarrow> None
         | Some p2 \<Rightarrow>
             let p3 = remember_answer C q tool args resp p2
             in Some (resp, if is_write_tool tool then mirror_if_due C p3 else p3))"

definition call_desk :: "('w, 'd) client_env \<Rightarrow> Value \<Rightarrow> JsonRpcRequest \<Rightarrow> 'w Proxy \<Rightarrow> (JsonRpcResponse \<times> 'w Proxy) option" where
  "call_desk C i q0 p0 =
     (case drain_outbox C p0 of
        None \<Rightarrow> None
      | Some p1 \<Rightarrow>
          let tool = tool_name q0; args = arguments q0; (q, p2) = stamp_write C q0 p1
          in (case forward C (px_config p2) (px_harness p2) q (px_harness p2) (px_world p2) of
                (Inr resp, w) \<Rightarrow> online_answer C q tool args resp (p2\<lparr>px_world := w\<rparr>)
              | (Inl (FRefused status why), w) \<Rightarrow>
                  Some (result_response i (tool_response_value (tool_error
                          (lit ''the desk refused it ('' @ nat_to_str status @ lit ''): '' @ why))),
                        note_online True (p2\<lparr>px_world := w\<rparr>))
              | (Inl (FTransport why), w) \<Rightarrow>
                  Some (offline_answer C i q tool args why (note_online False (p2\<lparr>px_world := w\<rparr>)))))"

definition handle :: "('w, 'd) client_env \<Rightarrow> rstr \<Rightarrow> JsonRpcRequest \<Rightarrow> 'w Proxy \<Rightarrow>
    (JsonRpcResponse option \<times> 'w Proxy) option" where
  "handle C version q p0 =
     (let p = adopt_harness q p0
      in case jq_id q of
           None \<Rightarrow> Some (None, p)
         | Some i \<Rightarrow>
             if jq_method q \<in> set (map lit [''initialize'', ''ping'', ''tools/list'', ''resources/list''])
             then Some (local_answer q version, p)
             else if jq_method q = lit ''tools/call'' \<or> jq_method q = lit ''resources/read'' then
               map_option (map_prod Some id) (call_desk C i q p)
             else Some (Some (error_response i METHOD_NOT_FOUND (jq_method q @ lit '' is not served here'')), p))"

section \<open>Pairing\<close>

text \<open>What \<open>pair\<close> asks of the outside: the host's name, \<open>serde_json\<close>, one HTTP request and the write of
  the configuration file.\<close>

record 'w pair_env =
  pe_hostname :: rstr
  pe_to_vec :: "PairRequest \<Rightarrow> rstr + byte list"
  pe_from_slice :: "byte list \<Rightarrow> rstr + PairResponse"
  pe_request :: "HttpRequest \<Rightarrow> 'w \<Rightarrow> (rstr + HttpResponse) \<times> 'w"
  pe_save_config :: "ClientConfig \<Rightarrow> 'w \<Rightarrow> (rstr + unit) \<times> 'w"

definition pair_request :: "rstr \<Rightarrow> byte list \<Rightarrow> HttpRequest" where
  "pair_request desk body =
     \<lparr>hq_method = lit ''POST'', hq_url = desk_url desk (lit ''/v1/pair''),
      hq_headers = [(lit ''Content-Type'', lit ''application/json'')], hq_body = body\<rparr>"

definition pair_refusal :: "HttpResponse \<Rightarrow> rstr" where
  "pair_refusal resp =
     (if hr_status resp = 410 then
        lit ''that code was already used or has expired; run Connect an agent on the desk again''
      else if hr_status resp = 403 then lit ''the desk refused the code; check it and try again''
      else lit ''the desk answered '' @ nat_to_str (hr_status resp) @ lit '': '' @ trim (response_text resp))"

definition paired_config :: "rstr \<Rightarrow> rstr \<Rightarrow> PairResponse \<Rightarrow> ClientConfig" where
  "paired_config host desk paired =
     \<lparr>cc_desk = trim_start_str (lit ''http://'') (trim desk), cc_token = pr_token paired,
      cc_vault = pr_vault paired, cc_client_name = host\<rparr>"

definition pair :: "'w pair_env \<Rightarrow> rstr \<Rightarrow> rstr list \<Rightarrow> 'w \<Rightarrow> (rstr + unit) \<times> 'w" where
  "pair P version args w =
     (case args of
        [desk, code] \<Rightarrow>
          (case pe_to_vec P \<lparr>pq_code = trim code, pq_name = pe_hostname P, pq_version = version\<rparr> of
             Inl e \<Rightarrow> (Inl e, w)
           | Inr body \<Rightarrow>
               (case pe_request P (pair_request desk body) w of
                  (Inl e, w1) \<Rightarrow> (Inl e, w1)
                | (Inr resp, w1) \<Rightarrow>
                    if \<not> is_success resp then (Inl (pair_refusal resp), w1)
                    else (case pe_from_slice P (hr_body resp) of
                            Inl e \<Rightarrow> (Inl (lit ''the desk's answer wasn't readable: '' @ e), w1)
                          | Inr paired \<Rightarrow> pe_save_config P (paired_config (pe_hostname P) desk paired) w1)))
      | _ \<Rightarrow> (Inl (lit ''usage: thock-bridge pair <host:port> <code>''), w))"

section \<open>Serving\<close>

fun serve_options :: "rstr \<Rightarrow> rstr list \<Rightarrow> rstr \<Rightarrow> rstr + rstr" where
  "serve_options usage [] harness = Inr harness"
| "serve_options usage (a # rest) harness =
     (if a = lit ''--harness'' then
        (case rest of
           [] \<Rightarrow> serve_options usage [] (sanitize_harness [])
         | name # rest' \<Rightarrow> serve_options usage rest' (sanitize_harness name))
      else Inl (lit ''unknown option '' @ a @ [10] @ usage))"

text \<open>The lines written to standard output, and the faults of the writes to come.\<close>

record 'w Server =
  sv_proxy :: "'w Proxy"
  sv_out :: "JsonRpcResponse list"
  sv_faults :: "rstr option list"

definition put_response :: "JsonRpcResponse \<Rightarrow> 'w Server \<Rightarrow> (rstr + unit) \<times> 'w Server" where
  "put_response resp s =
     (case sv_faults s of
        Some e # fs \<Rightarrow> (Inl (lit ''stdout closed: '' @ e), s\<lparr>sv_faults := fs\<rparr>)
      | fs \<Rightarrow> (Inr (), s\<lparr>sv_out := sv_out s @ [resp], sv_faults := tl fs\<rparr>))"

definition serve_line :: "('w, 'd) client_env \<Rightarrow> rpc_serde \<Rightarrow> rstr \<Rightarrow> rstr \<Rightarrow> 'w Server \<Rightarrow> ((rstr + unit) \<times> 'w Server) option" where
  "serve_line C S version line s =
     (if trim line = [] then Some (Inr (), s)
      else case request_parse S (trim line) of
             Inl e \<Rightarrow> Some (put_response e s)
           | Inr q \<Rightarrow>
               (case handle C version q (sv_proxy s) of
                  None \<Rightarrow> None
                | Some (None, p) \<Rightarrow> Some (Inr (), s\<lparr>sv_proxy := p\<rparr>)
                | Some (Some resp, p) \<Rightarrow> Some (put_response resp (s\<lparr>sv_proxy := p\<rparr>))))"

text \<open>Each read of standard input is a line or a fault; the list ends where the input does.\<close>

fun serve_loop :: "('w, 'd) client_env \<Rightarrow> rpc_serde \<Rightarrow> rstr \<Rightarrow> (rstr + rstr) list \<Rightarrow> 'w Server \<Rightarrow>
    ((rstr + unit) \<times> 'w Server) option" where
  "serve_loop C S version [] s = Some (Inr (), s\<lparr>sv_proxy := proxy_mirror C (sv_proxy s)\<rparr>)"
| "serve_loop C S version (Inl e # reads) s = Some (Inl (lit ''stdin closed badly: '' @ e), s)"
| "serve_loop C S version (Inr line # reads) s =
     (case serve_line C S version line s of
        None \<Rightarrow> None
      | Some (Inl e, s') \<Rightarrow> Some (Inl e, s')
      | Some (Inr _, s') \<Rightarrow> serve_loop C S version reads s')"

definition proxy_start :: "ClientConfig option \<Rightarrow> rstr \<Rightarrow> Cache \<Rightarrow> Disk \<Rightarrow> 'w \<Rightarrow> 'w Proxy" where
  "proxy_start config harness cache disk w =
     \<lparr>px_config = config, px_cache = cache, px_disk = disk, px_harness = harness, px_online = None,
      px_last_mirror = None, px_refusals = [], px_world = w\<rparr>"

definition serve :: "('w, 'd) client_env \<Rightarrow> rpc_serde \<Rightarrow> rstr \<Rightarrow> rstr \<Rightarrow> rstr list \<Rightarrow> ClientConfig option \<Rightarrow> Cache \<Rightarrow> Disk \<Rightarrow>
    rstr option list \<Rightarrow> (rstr + rstr) list \<Rightarrow> 'w \<Rightarrow> ((rstr + unit) \<times> 'w Server option) option" where
  "serve C S version usage args config cache disk out_faults reads w =
     (case serve_options usage args (lit ''agent'') of
        Inl e \<Rightarrow> Some (Inl e, None)
      | Inr harness \<Rightarrow>
          (case drain_outbox C (proxy_start config harness cache disk w) of
             None \<Rightarrow> None
           | Some p \<Rightarrow>
               map_option (map_prod id Some) (serve_loop C S version reads
                 \<lparr>sv_proxy = proxy_mirror C p, sv_out = [], sv_faults = out_faults\<rparr>)))"

end
