(* ===== verification/Rpc_Props.thy ===== *)
theory Rpc_Props
  imports Rpc Bridge_Props
begin

text \<open>
  The dispatcher: every request with an id is answered once, only the two writing tools change the
  host, arguments stay within the limits of the contract, and the check made before queueing agrees
  with what the dispatcher accepts.
\<close>

section \<open>Every request is answered once\<close>

lemma respond_shape:
  "jr_id (fst (respond i f x)) = i"
  "jr_jsonrpc (fst (respond i f x)) = jsonrpc_version"
  "jr_result (fst (respond i f x)) = None \<longleftrightarrow> jr_error (fst (respond i f x)) \<noteq> None"
  "jr_error (fst (respond i f x)) = Some e \<Longrightarrow> je_code e = INVALID_PARAMS"
  "snd (respond i f x) = snd x"
  by (auto simp: respond_def result_response_def error_response_def split: prod.splits sum.splits)

lemma response_shape:
  "jr_id (result_response i v) = i" "jr_id (error_response i c m) = i"
  "jr_jsonrpc (result_response i v) = jsonrpc_version" "jr_jsonrpc (error_response i c m) = jsonrpc_version"
  "jr_result (result_response i v) = Some v" "jr_error (result_response i v) = None"
  "jr_result (error_response i c m) = None" "jr_error (error_response i c m) = Some \<lparr>je_code = c, je_message = m\<rparr>"
  by (simp_all add: result_response_def error_response_def)

lemma dispatch_id_shape:
  "jr_id (fst (dispatch_id K H q version i h)) = i \<and>
   jr_jsonrpc (fst (dispatch_id K H q version i h)) = jsonrpc_version \<and>
   (jr_result (fst (dispatch_id K H q version i h)) = None \<longleftrightarrow> jr_error (fst (dispatch_id K H q version i h)) \<noteq> None)"
  unfolding dispatch_id_def by (simp add: respond_shape response_shape del: lit_simps)

lemma dispatch_id_codes:
  "jr_error (fst (dispatch_id K H q version i h)) = Some e \<Longrightarrow> je_code e \<in> {INVALID_PARAMS, METHOD_NOT_FOUND}"
  unfolding dispatch_id_def by (auto simp: response_shape dest: respond_shape(4) split: if_splits)

section \<open>Reads write nothing\<close>

text \<open>A host whose reading operations leave its state alone.\<close>

definition reads_only :: "('h, 'd) tool_host \<Rightarrow> bool" where
  "reads_only H \<longleftrightarrow>
     (\<forall>h. snd (host_context H h) = h \<and> snd (host_memory_index H h) = h)
     \<and> (\<forall>q h. snd (host_search H q h) = h) \<and> (\<forall>t h. snd (host_read H t h) = h)
     \<and> (\<forall>n f h. snd (host_recent H n f h) = h)"

lemma snd_map_ok [simp]: "snd (map_ok f x) = snd x"
  by (auto simp: map_ok_def split: prod.splits sum.splits)

lemma snd_tool_reply [simp]: "snd (tool_reply x) = snd x"
  by (auto simp: tool_reply_def split: prod.splits sum.splits HostError.splits)

definition write_call :: "JsonRpcRequest \<Rightarrow> bool" where
  "write_call q \<longleftrightarrow> jq_method q = lit ''tools/call'' \<and> jq_id q \<noteq> None
     \<and> tool_name q \<in> {Some (lit ''remember''), Some (lit ''note_today'')}"

lemma call_tool_reads:
  "reads_only H \<Longrightarrow> tool_name q \<notin> {Some (lit ''remember''), Some (lit ''note_today'')} \<Longrightarrow> snd (call_tool K H q h) = h"
  by (auto simp: call_tool_def Let_def reads_only_def split: option.splits sum.splits simp del: lit_simps)

section \<open>Arguments\<close>

lemma clamp_bounds: "lo \<le> hi \<Longrightarrow> lo \<le> clamp lo hi n \<and> clamp lo hi n \<le> hi"
  by (simp add: clamp_def)

lemma push_lines_some: "push_lines vs ls = Inr ls' \<Longrightarrow> length ls' = length ls + length vs"
  by (induction vs ls rule: push_lines.induct) (auto split: option.splits)

section \<open>Checking before queueing\<close>

lemma check_fact_refusal_final: "check_fact E t [] = Inl r \<Longrightarrow> isl (check_fact E t forbidden)"
  by (auto simp: check_fact_def forbidden_in_def Let_def split: if_splits option.splits)

definition TOOL_NAMES :: "rstr list" where
  "TOOL_NAMES = map tl_name tools"

lemma tool_reply_ok: "\<not> isl (fst (tool_reply x))"
  by (auto simp: tool_reply_def split: prod.splits sum.splits HostError.splits)

lemma checked_search:
  "tool_name q = Some (lit ''search'') \<Longrightarrow> validate_tool_arguments E K (lit ''search'') (arguments q) = Inr () \<Longrightarrow>
     \<not> isl (fst (call_tool K H q h))"
  by (simp add: call_tool_def validate_tool_arguments_def tool_reply_ok split: sum.splits)

lemma checked_read:
  "tool_name q = Some (lit ''read'') \<Longrightarrow> validate_tool_arguments E K (lit ''read'') (arguments q) = Inr () \<Longrightarrow>
     \<not> isl (fst (call_tool K H q h))"
  by (simp add: call_tool_def validate_tool_arguments_def tool_reply_ok split: sum.splits)

lemma checked_remember:
  "tool_name q = Some (lit ''remember'') \<Longrightarrow> validate_tool_arguments E K (lit ''remember'') (arguments q) = Inr () \<Longrightarrow>
     \<not> isl (fst (call_tool K H q h))"
  by (simp add: call_tool_def validate_tool_arguments_def tool_reply_ok split: option.splits)

lemma checked_note_today:
  "tool_name q = Some (lit ''note_today'') \<Longrightarrow> validate_tool_arguments E K (lit ''note_today'') (arguments q) = Inr () \<Longrightarrow>
     \<not> isl (fst (call_tool K H q h))"
  by (simp add: call_tool_def validate_tool_arguments_def tool_reply_ok split: sum.splits)

lemma unchecked_tools:
  "tool_name q = Some (lit ''context'') \<Longrightarrow> \<not> isl (fst (call_tool K H q h))"
  "tool_name q = Some (lit ''recent'') \<Longrightarrow> \<not> isl (fst (call_tool K H q h))"
  by (simp_all add: call_tool_def tool_reply_ok Let_def)

lemma tool_names:
  "TOOL_NAMES = map lit [''context'', ''search'', ''read'', ''recent'', ''remember'', ''note_today'']"
  by (simp add: TOOL_NAMES_def tools_def context_tool_def search_tool_def read_tool_def
        recent_tool_def remember_tool_def note_today_tool_def)

section \<open>Evaluated instances\<close>

definition sample_host :: "(nat, int) tool_host" where
  "sample_host =
     \<lparr>host_context = (\<lambda>h. (Inr [], h)), host_memory_index = (\<lambda>h. (Inr [], h)),
      host_search = (\<lambda>q h. (Inr [], h)), host_read = (\<lambda>t h. (Inl (HRefused []), h)),
      host_recent = (\<lambda>n f h. (Inr [], h)), host_remember = (\<lambda>t m h. (Inr WApplied, h + 1)),
      host_note_today = (\<lambda>ls m h. (Inr WApplied, h + 1))\<rparr>"

definition sample_format :: "int day_format" where
  "sample_format = \<lparr>day_parse = (\<lambda>s. None), day_str = (\<lambda>d. [])\<rparr>"

definition sample_call :: "string \<Rightarrow> (rstr \<times> Value) list \<Rightarrow> JsonRpcRequest" where
  "sample_call name args = request_new (vnat 1) (lit ''tools/call'')
     (Object [(lit ''name'', vstr name), (lit ''arguments'', Object args)])"

lemma sample_call_parts:
  "tool_name (sample_call name args) = Some (lit name)" "arguments (sample_call name args) = Object args"
  by (simp_all add: sample_call_def request_new_def tool_name_def arguments_def get_str_def)

section \<open>Properties\<close>

text \<open>C16: A request is answered exactly once and a notification never: a request with an id gets a
  response that carries that id, speaks version 2.0 and holds either a result or an error, whose code is
  one of the two of the contract; a request without an id gets none and does not reach the host.\<close>

theorem dispatch_answers:
  "case dispatch K H q version h of
     (None, h') \<Rightarrow> jq_id q = None \<and> h' = h
   | (Some r, h') \<Rightarrow> jq_id q = Some (jr_id r) \<and> jr_jsonrpc r = lit ''2.0''
       \<and> (jr_result r = None \<longleftrightarrow> jr_error r \<noteq> None)
       \<and> (case jr_error r of None \<Rightarrow> True | Some e \<Rightarrow> je_code e \<in> {INVALID_PARAMS, METHOD_NOT_FOUND})"
proof (cases "jq_id q")
  case (Some i)
  then show ?thesis
    using dispatch_id_shape [of K H q version i h] dispatch_id_codes [of K H q version i h]
    by (auto simp: dispatch_def jsonrpc_version_def map_prod_def split: prod.splits option.splits)
qed (simp add: dispatch_def)

text \<open>Only the two writing tools write: with a host whose reads leave it as it is, every request but
  a call of \<open>remember\<close> or \<open>note_today\<close> leaves the host as it was, malformed and unknown ones included.\<close>

theorem only_writes_write:
  assumes "reads_only H" and "\<not> write_call q"
  shows "snd (dispatch K H q version h) = h"
proof -
  have "snd (read_resource H uri h) = h" for uri
    using assms(1) by (auto simp: read_resource_def Let_def reads_only_def split: option.split)
  moreover have "jq_id q \<noteq> None \<Longrightarrow> jq_method q = lit ''tools/call'' \<Longrightarrow> snd (call_tool K H q h) = h"
    using assms by (intro call_tool_reads) (auto simp: write_call_def simp del: lit_simps)
  ultimately have "jq_id q = Some i \<Longrightarrow> snd (dispatch_id K H q version i h) = h" for i
    unfolding dispatch_id_def by (simp add: respond_shape(5) del: lit_simps)
  then show ?thesis by (cases "jq_id q") (simp_all add: dispatch_def)
qed

theorem only_writes_write_witness:
  "snd (dispatch sample_format sample_host (sample_call ''recent'' []) [] 3) = 3"
  by (rule only_writes_write) (simp_all add: reads_only_def sample_host_def write_call_def sample_call_parts)

text \<open>What reaches the host is within the limits of the contract, whatever numbers the arguments
  hold: a search asks for 1 to 50 hits of a query that is not blank, \<open>recent\<close> for 1 to 366 days, and
  \<open>note_today\<close> brings 1 to 20 lines.\<close>

theorem arguments_bounded:
  "(case parse_search_query K args of Inl e \<Rightarrow> True
    | Inr q \<Rightarrow> 1 \<le> sq_limit q \<and> sq_limit q \<le> 50 \<and> trim (sq_query q) \<noteq> [])
   \<and> 1 \<le> recent_days args \<and> recent_days args \<le> 366
   \<and> (case parse_lines args of Inl e \<Rightarrow> True | Inr ls \<Rightarrow> 1 \<le> length ls \<and> length ls \<le> 20)"
proof -
  have "1 \<le> search_limit args \<and> search_limit args \<le> 50"
    using clamp_bounds [of 1 MAX_SEARCH_LIMIT] by (simp add: search_limit_def MAX_SEARCH_LIMIT_def)
  moreover have "trim (trim s) = trim s" for s by (simp add: trim_idem)
  moreover have "1 \<le> recent_days args \<and> recent_days args \<le> 366"
    using clamp_bounds [of 1 MAX_RECENT_DAYS] by (simp add: recent_days_def MAX_RECENT_DAYS_def)
  ultimately show ?thesis
    by (auto simp: parse_search_query_def nonempty_def parse_lines_def MAX_TODAY_LINES_def Let_def Suc_le_eq
        split: sum.splits option.splits if_splits bind_splits)
qed

text \<open>A call that passes the check made before queueing is one the desk can take: the dispatcher never
  answers it with a protocol error, so it is not dropped from the queue for its arguments.\<close>

theorem checked_calls_reach_the_host:
  assumes "tool_name q = Some name" and "name \<in> set TOOL_NAMES"
    and "validate_tool_arguments E K name (arguments q) = Inr ()"
  shows "\<exists>response h'. call_tool K H q h = (Inr response, h')"
proof -
  have "\<not> isl (fst (call_tool K H q h))"
    using assms(2) unfolding tool_names list.map set_simps insert_iff empty_iff
    by (elim disjE FalseE)
       (use assms(1,3) checked_search checked_read checked_remember checked_note_today unchecked_tools in metis)+
  then show ?thesis by (cases "call_tool K H q h"; cases "fst (call_tool K H q h)") auto
qed

theorem checked_calls_reach_the_host_witness:
  "\<exists>response h'. call_tool sample_format sample_host (sample_call ''remember'' [(lit ''fact'', vstr ''Likes tea'')]) 3 =
     (Inr response, h')"
proof (rule checked_calls_reach_the_host [OF sample_call_parts(1)])
  show "lit ''remember'' \<in> set TOOL_NAMES" by (simp add: tool_names)
  show "validate_tool_arguments ascii_env sample_format (lit ''remember'')
      (arguments (sample_call ''remember'' [(lit ''fact'', vstr ''Likes tea'')])) = Inr ()"
    unfolding sample_call_parts by code_simp
qed

text \<open>A line the check before queueing refuses is one the desk's own filter refuses too, whatever is on
  the person's do-not-keep list: nothing that could land is turned away.\<close>

theorem early_refusal_is_final:
  assumes "check_fact E t [] = Inl r"
  shows "\<exists>r'. check_fact E t forbidden = Inl r'"
  using check_fact_refusal_final [OF assms, of forbidden] by (auto simp: isl_def)

theorem early_refusal_is_final_witness:
  "\<exists>r'. check_fact ascii_env (lit ''- x'') [lit ''salary''] = Inl r'"
proof (rule early_refusal_is_final)
  show "check_fact ascii_env (lit ''- x'') [] = Inl LeadingBullet" by code_simp
qed

end
