(* ===== verification/Client_Props.thy ===== *)
theory Client_Props
  imports Client Offline_Props Rpc_Props
begin

text \<open>
  The proxy of the client: what happens to writes and reads while the desk is away, and to the queue when
  it is back.  The drain made through the proxy refines the queue of \<open>Offline_Props\<close>; the four places of the
  cache share the contract \<open>text_place\<close>.
\<close>

section \<open>Draining through the proxy\<close>

definition drain_call :: "('w, 'd) client_env \<Rightarrow> ClientConfig option \<Rightarrow> rstr \<Rightarrow> 'w \<Rightarrow> OutboxEntry \<Rightarrow>
    (DrainFailure + unit) \<times> 'w" where
  "drain_call C config name w e =
     map_prod (judge_reply C) id (forward C config name (outbox_request C e) (oe_harness e) w)"

lemma drain_sender_quiet: "drain_sender C config name = quiet (drain_call C config name)"
  by (rule ext)+ (simp add: drain_sender_def quiet_def drain_call_def map_prod_def split: prod.split)

abbreviation queued :: "('w, 'd) client_env \<Rightarrow> 'w Proxy \<Rightarrow> OutboxEntry list" where
  "queued C p \<equiv> outbox_abs (ce_entry C) (px_disk p)"

abbreviation sound_queue :: "('w, 'd) client_env \<Rightarrow> 'w Proxy \<Rightarrow> bool" where
  "sound_queue C p \<equiv> sound_outbox (ce_entry C) (px_disk p)"

lemma is_empty_sound [simp]: "sound_disk d \<Longrightarrow> outbox_is_empty S d = (outbox_abs S d = [], d)"
  by (simp add: outbox_is_empty_def outbox_len_def)

lemma note_online_keeps [simp]:
  "px_disk (note_online b p) = px_disk p" "px_world (note_online b p) = px_world p"
  "px_config (note_online b p) = px_config p" "px_harness (note_online b p) = px_harness p"
  "px_cache (note_online b p) = px_cache p" "px_online (note_online b p) = Some b"
  by (simp_all add: note_online_def)

text \<open>A drain the proxy does make.\<close>

definition drains :: "'w Proxy \<Rightarrow> bool" where
  "drains p \<longleftrightarrow> px_config p \<noteq> None \<and> px_online p \<noteq> Some False"

lemma drain_outbox_refines:
  assumes "sound_queue C p" and "distinct (map oe_id (queued C p))" and "drains p"
    and "drain_queue (drain_call C (px_config p) (px_harness p)) (px_world p) report_default (queued C p) = (r, w, rest)"
  shows "\<exists>p'. drain_outbox C p = Some p' \<and> sound_queue C p' \<and> queued C p' = rest \<and> px_world p' = w \<and>
     px_config p' = px_config p \<and> px_harness p' = px_harness p \<and> px_cache p' = px_cache p \<and>
     px_online p' = (if 0 < dr_sent r then Some True else px_online p)"
proof (cases "queued C p = []")
  case True
  then show ?thesis
    using assms(1,4) by (auto simp: drain_outbox_def sound_outbox_def report_default_def)
next
  case False
  obtain st where st: "outbox_drain (ce_entry C) (drain_sender C (px_config p) (px_harness p)) (px_disk p) (px_world p) = Some st"
      "sound_outbox (ce_entry C) (ds_disk st)" "drain_view (ce_entry C) st = (r, w, rest)"
    using drain_loop_refines [of "ce_entry C" "drain_start (px_disk p) (px_world p)" "queued C p"
        "drain_call C (px_config p) (px_harness p)"] assms(1,2,4)
    by (auto simp: drain_sender_quiet outbox_drain_def drain_start_def)
  then show ?thesis
    using False assms(1,3) by (auto simp: drain_outbox_def sound_outbox_def drains_def drain_view_def Let_def)
qed

lemma drain_outbox_idle:
  "sound_queue C p \<Longrightarrow> \<not> drains p \<Longrightarrow> drain_outbox C p = Some p"
  by (auto simp: drain_outbox_def sound_outbox_def drains_def)

section \<open>The desk is away\<close>

definition away :: "('w, 'd) client_env \<Rightarrow> bool" where
  "away C \<longleftrightarrow> (\<forall>req w. isl (fst (ce_desk C req w)))"

lemma forward_away:
  assumes "away C" shows "\<exists>why w'. forward C config name q harness w = (Inl (FTransport why), w')"
proof -
  have "\<exists>e w'. ce_desk C req w = (Inl e, w')" for req
    using assms by (cases "ce_desk C req w") (auto simp: away_def isl_def, metis fst_conv)
  then show ?thesis by (auto simp: forward_def split: option.split sum.split prod.split) (metis Pair_inject sum.distinct(1))+
qed

lemma drain_queue_away:
  assumes "away C"
  shows "\<exists>r' w'. drain_queue (drain_call C config name) w r q = (r', w', q) \<and> dr_sent r' = dr_sent r"
proof (cases q)
  case (Cons e es)
  obtain why w' where "forward C config name (outbox_request C e) (oe_harness e) w = (Inl (FTransport why), w')"
    using forward_away [OF assms] by blast
  then show ?thesis using Cons by (simp add: drain_call_def judge_reply_def)
qed simp

lemma drain_outbox_away:
  assumes "away C" and "sound_queue C p" and "distinct (map oe_id (queued C p))"
  shows "\<exists>p'. drain_outbox C p = Some p' \<and> sound_queue C p' \<and> queued C p' = queued C p \<and>
     px_config p' = px_config p \<and> px_harness p' = px_harness p \<and> px_cache p' = px_cache p \<and> px_online p' = px_online p"
proof (cases "drains p")
  case True
  obtain r w where "drain_queue (drain_call C (px_config p) (px_harness p)) (px_world p) report_default (queued C p)
      = (r, w, queued C p)" "dr_sent r = 0"
    using drain_queue_away [OF assms(1)] by (fastforce simp: report_default_def)
  from drain_outbox_refines [OF assms(2,3) True this(1)] this(2) show ?thesis by auto
qed (simp add: drain_outbox_idle assms(2))

lemma queue_write_valid:
  assumes "sound_queue C p" and "validate_tool_arguments (ce_env C) (ce_days C) name args = Inr ()"
    and "\<And>w w'. entry_ok (ce_entry C) (entry_new (fst (ce_uuid C w)) (fst (ce_now C w')) name args (px_harness p))"
  shows "\<exists>uid now p'. queue_write C i name args p =
       (result_response i (tool_response_value (tool_text QUEUED_SENTENCE)), p') \<and> sound_queue C p' \<and>
     queued C p' = queued C p @ [entry_new uid now name args (px_harness p)] \<and>
     uid = fst (ce_uuid C (px_world p)) \<and> px_online p' = px_online p"
proof -
  obtain uid w1 now w2 where w: "ce_uuid C (px_world p) = (uid, w1)" "ce_now C w1 = (now, w2)"
    by (cases "ce_uuid C (px_world p)", cases "ce_now C (snd (ce_uuid C (px_world p)))") auto
  then have new: "entry_ok (ce_entry C) (entry_new uid now name args (px_harness p))"
    using assms(3) [of "px_world p" w1] by simp
  let ?e = "entry_new uid now name args (px_harness p)"
  obtain d where "outbox_push (ce_entry C) ?e (px_disk p) = (Inr (), d)" "sound_disk d"
      "outbox_abs (ce_entry C) d = queued C p @ [?e]"
    using push_sound [OF new, of "px_disk p"] assms(1) by (auto simp: sound_outbox_def)
  then show ?thesis
    using assms(1,2) new w by (auto simp: queue_write_def sound_outbox_def)
qed

lemma offline_answer_write:
  "jq_method q = lit ''tools/call'' \<Longrightarrow> is_write_tool (Some name) \<Longrightarrow>
     offline_answer C i q (Some name) args why p = queue_write C i name args p"
  by (auto simp: offline_answer_def is_write_tool_def)

lemma with_meta_method [simp]: "jq_method (with_meta K m q) = jq_method q"
  by (simp add: with_meta_def split: option.split)

lemma handle_call:
  "jq_id q = Some i \<Longrightarrow> jq_method q = lit ''tools/call'' \<Longrightarrow>
     handle C version q p = map_option (map_prod Some id) (call_desk C i q p)"
  by (simp add: handle_def adopt_harness_def Let_def)

lemma stamp_write_keeps:
  "stamp_write C q p = (q', p') \<Longrightarrow> jq_method q' = jq_method q \<and> px_disk p' = px_disk p \<and> px_harness p' = px_harness p \<and>
     px_cache p' = px_cache p \<and> px_config p' = px_config p \<and> px_online p' = px_online p"
  by (auto simp: stamp_write_def split: if_splits prod.splits)

lemma call_desk_away:
  assumes "away C" and "sound_queue C p" and "distinct (map oe_id (queued C p))"
  shows "\<exists>q' why p'. call_desk C i q p = Some (offline_answer C i q' (tool_name q) (arguments q) why p') \<and>
     jq_method q' = jq_method q \<and> sound_queue C p' \<and> queued C p' = queued C p \<and> px_harness p' = px_harness p \<and>
     px_cache p' = px_cache p \<and> px_config p' = px_config p \<and> px_online p' = Some False"
proof -
  obtain p1 where p1: "drain_outbox C p = Some p1" "sound_queue C p1" "queued C p1 = queued C p" "px_config p1 = px_config p"
      "px_harness p1 = px_harness p" "px_cache p1 = px_cache p"
    using drain_outbox_away [OF assms] by blast
  obtain q' p2 where p2: "stamp_write C q p1 = (q', p2)" by (cases "stamp_write C q p1")
  obtain why w where w: "forward C (px_config p2) (px_harness p2) q' (px_harness p2) (px_world p2) = (Inl (FTransport why), w)"
    using forward_away [OF assms(1)] by blast
  let ?p = "note_online False (p2\<lparr>px_world := w\<rparr>)"
  have "call_desk C i q p = Some (offline_answer C i q' (tool_name q) (arguments q) why ?p)"
    by (simp add: call_desk_def p1(1) p2 w)
  moreover have "sound_queue C ?p" "queued C ?p = queued C p" "px_harness ?p = px_harness p" "px_cache ?p = px_cache p"
      "px_config ?p = px_config p" "px_online ?p = Some False" "jq_method q' = jq_method q"
    using stamp_write_keeps [OF p2] p1 by simp_all
  ultimately show ?thesis by blast
qed

section \<open>What is cached\<close>

definition cached_ok :: "cached_serde \<Rightarrow> CachedText \<Rightarrow> bool" where
  "cached_ok S c \<longleftrightarrow> (case cached_to_vec S c of Inl e \<Rightarrow> False | Inr json \<Rightarrow> cached_from_slice S json = Some c)"

text \<open>A place of the cache: what was stored last without a fault is what is found, and a fault changes nothing.\<close>

locale text_place =
  fixes store :: "store_faults \<Rightarrow> rstr \<Rightarrow> rstr \<Rightarrow> Cache \<Rightarrow> (rstr + unit) \<times> Cache"
    and lookup :: "Cache \<Rightarrow> CachedText option"
    and printable :: "CachedText \<Rightarrow> bool"
  assumes lookup_store: "printable \<lparr>ct_as_of = now, ct_text = t\<rparr> \<Longrightarrow>
      lookup (snd (store (None, None) now t c)) = Some \<lparr>ct_as_of = now, ct_text = t\<rparr>"
    and store_fault: "io \<noteq> (None, None) \<Longrightarrow> snd (store io now t c) = c"
begin

lemma lookup_keep:
  assumes "\<And>w. fst (ce_store_faults C w) = (None, None)" and "\<And>c. printable c"
  shows "lookup (px_cache (keep C (\<lambda>io now. store io now t) p)) =
     Some \<lparr>ct_as_of = fst (ce_now C (px_world p)), ct_text = t\<rparr>"
proof -
  obtain now w w' where w: "ce_now C (px_world p) = (now, w)" "ce_store_faults C w = ((None, None), w')"
    using assms(1) by (metis prod.collapse)
  then show ?thesis by (simp add: keep_def lookup_store assms(2))
qed

text \<open>With a fault the answer of an earlier store stays.\<close>

lemma lookup_after_fault: "io \<noteq> (None, None) \<Longrightarrow> printable \<lparr>ct_as_of = now, ct_text = t\<rparr> \<Longrightarrow>
    lookup (snd (store io now' t' (snd (store (None, None) now t c)))) = Some \<lparr>ct_as_of = now, ct_text = t\<rparr>"
  by (simp add: store_fault lookup_store)

end

lemma write_json_laws:
  "cached_ok S c \<Longrightarrow> read_json S k (snd (write_json S (None, None) k c cache)) = Some c"
  "io \<noteq> (None, None) \<Longrightarrow> snd (write_json S io k c cache) = cache"
  by (cases io; auto simp: write_json_def read_json_def cached_ok_def split: sum.splits option.splits)+

interpretation cctx: text_place "store_context S" "cached_context S" "cached_ok S" for S
  by unfold_locales (simp_all add: store_context_def cached_context_def write_json_laws)

interpretation cidx: text_place "store_index S" "cached_index S" "cached_ok S" for S
  by unfold_locales (simp_all add: store_index_def cached_index_def write_json_laws)

interpretation cnote: text_place "\<lambda>io now t. store_note E S io now path t" "cached_note E S path" "cached_ok S" for E S path
  by unfold_locales (simp_all add: store_note_def cached_note_def write_json_laws)

interpretation csearch: text_place "\<lambda>io now t. store_search S io now key t" "cached_search S key" "cached_ok S" for S key
  by unfold_locales (simp_all add: store_search_def cached_search_def write_json_laws)

lemma keep_keeps [simp]:
  "px_config (keep C f p) = px_config p" "px_disk (keep C f p) = px_disk p" "px_harness (keep C f p) = px_harness p"
  by (simp_all add: keep_def split: prod.split)

lemma desk_label_keep [simp]: "desk_label (keep C f p) = desk_label p"
  by (simp add: desk_label_def)

text \<open>The reads an outage can answer.\<close>

definition cacheable :: "('w, 'd) client_env \<Rightarrow> rstr \<Rightarrow> Value \<Rightarrow> bool" where
  "cacheable C name args \<longleftrightarrow> name = lit ''context''
     \<or> name = lit ''read'' \<and> get_str (lit ''path'') args \<noteq> None
     \<or> name = lit ''search'' \<and> search_key C args \<noteq> None"

lemma search_key_agrees_lemma:
  "parse_search_query (ce_days C) args = Inr q \<Longrightarrow> search_key C args = Some (cache_key (ce_env C) (ce_days C) q)"
  by (auto simp: parse_search_query_def search_key_def search_limit_def Let_def
        DEFAULT_SEARCH_LIMIT_def MAX_SEARCH_LIMIT_def
      split: option.splits sum.splits if_splits bind_splits)

lemma cacheable_cases [consumes 1, case_names vault path search]:
  assumes "cacheable C name args"
  obtains "name = lit ''context''"
    | path where "name = lit ''read''" "get_str (lit ''path'') args = Some path"
    | key where "name = lit ''search''" "search_key C args = Some key"
  using assms by (auto simp: cacheable_def)

lemma remember_answer_call:
  assumes "jq_method q = lit ''tools/call''" "jr_result resp = Some v" "ce_tool_result C v = Some result" "\<not> ct_is_error result"
  shows "remember_answer C q (Some (lit ''context'')) args resp p =
      keep C (\<lambda>io now. store_context (ce_cached C) io now (first_text result)) p"
    and "get_str (lit ''path'') args = Some path \<Longrightarrow> remember_answer C q (Some (lit ''read'')) args resp p =
      keep C (\<lambda>io now. store_note (ce_env C) (ce_cached C) io now (trim path) (first_text result)) p"
    and "search_key C args = Some key \<Longrightarrow> remember_answer C q (Some (lit ''search'')) args resp p =
      keep C (\<lambda>io now. store_search (ce_cached C) io now key (first_text result)) p"
  using assms by (simp_all add: remember_answer_def Let_def)

lemma offline_reads:
  assumes "jq_method q = lit ''tools/call''"
  shows "offline_answer C i q (Some (lit ''context'')) args why p =
      (result_response i (tool_response_value (from_cache C (desk_label p) why (cached_context (ce_cached C) (px_cache p))
         (lit ''the vault's context''))), p)"
    and "get_str (lit ''path'') args = Some path \<Longrightarrow> offline_answer C i q (Some (lit ''read'')) args why p =
      (result_response i (tool_response_value (from_cache C (desk_label p) why
         (cached_note (ce_env C) (ce_cached C) (trim path) (px_cache p)) (trim path))), p)"
    and "search_key C args = Some key \<Longrightarrow> offline_answer C i q (Some (lit ''search'')) args why p =
      (result_response i (tool_response_value (from_cache C (desk_label p) why
         (cached_search (ce_cached C) key (px_cache p)) (lit ''that search''))), p)"
  using assms by (simp_all add: offline_answer_def Let_def)

lemma map_of_insert [simp]: "map_of (map_insert k v kvs) k = Some v"
  by (induction k v kvs rule: map_insert.induct) auto


lemma drain_queue_answered:
  assumes "\<And>e w why. e \<in> set q \<Longrightarrow> fst (f w e) \<noteq> Inl (Transport why)"
  shows "\<exists>r'. drain_queue f w r q = (r', fold (\<lambda>e w. snd (f w e)) q w, [])"
  using assms
proof (induction q arbitrary: w r)
  case (Cons e q)
  obtain result w' where f: "f w e = (result, w')" by (cases "f w e")
  have IH: "\<exists>r''. drain_queue f w' r' q = (r'', fold (\<lambda>e w. snd (f w e)) q w', [])" for r'
    using Cons by auto
  from Cons.prems [of e w] f IH show ?case
    by (auto split: sum.split DrainFailure.split)
qed simp


text \<open>A read by link with a blank path beside the link is cached under the blank path, so an outage answers
  such a read with the note of whatever link was read that way last.\<close>

theorem blank_path_repeats_another_note:
  assumes "jq_method q = lit ''tools/call''" and "jq_method q' = lit ''tools/call''"
    and "get_str (lit ''path'') args = Some path" and "trim path = []" and "parse_read_target args = Inr (ByLink link)"
    and "get_str (lit ''path'') args' = Some path'" and "trim path' = []" and "parse_read_target args' = Inr (ByLink link')"
    and "jr_result resp = Some v" and "ce_tool_result C v = Some result" and "\<not> ct_is_error result"
    and "\<And>w. fst (ce_store_faults C w) = (None, None)" and "\<And>c. cached_ok (ce_cached C) c"
  shows "fst (offline_answer C i q' (Some (lit ''read'')) args' why (remember_answer C q (Some (lit ''read'')) args resp p)) =
     result_response i (tool_response_value (tool_text
       (first_text result @ offline_suffix (ce_minute C) (fst (ce_now C (px_world p))) (desk_label p))))"
  using assms(4,7)
  by (simp add: remember_answer_call(2) [OF assms(1,9-11,3)] offline_reads(2) [OF assms(2,6)] from_cache_def
      cached_text_def cnote.lookup_keep [OF assms(12,13)] del: lit_simps)

section \<open>Evaluated instances\<close>

text \<open>A client with ids that alternate, a clock that stands still and a desk that is away unless \<open>up\<close>.\<close>

definition client_serde :: entry_serde where
  "client_serde =
     \<lparr>entry_to_string = (\<lambda>e. Inr (oe_id e @ [44] @ (case get_str (lit ''fact'') (oe_args e) of Some t \<Rightarrow> t | None \<Rightarrow> []))),
      entry_from_str = (\<lambda>t. map_option (\<lambda>(i, fct). entry_new i [] (lit ''remember'') (Object [(lit ''fact'', String fct)]) (lit ''agent''))
         (split_once [44] t))\<rparr>"

definition sample_cached :: cached_serde where
  "sample_cached =
     \<lparr>cached_to_vec = (\<lambda>c. Inr (int (length (ct_as_of c)) # ct_as_of c @ ct_text c)),
      cached_from_slice = (\<lambda>j. case j of [] \<Rightarrow> None
         | n # r \<Rightarrow> Some \<lparr>ct_as_of = take (nat n) r, ct_text = drop (nat n) r\<rparr>)\<rparr>"

definition sample_client :: "bool \<Rightarrow> (nat, int) client_env" where
  "sample_client up =
     \<lparr>ce_env = ascii_env, ce_days = sample_format, ce_entry = client_serde, ce_cached = sample_cached,
      ce_value_from_str = (\<lambda>_. None), ce_value_str = (\<lambda>_. []), ce_request_to_vec = (\<lambda>_. Inr []),
      ce_response_from_str = (\<lambda>_. Inr (result_response Null Null)),
      ce_tool_result = (\<lambda>_. Some (tool_text (lit ''Tea''))),
      ce_desk = (\<lambda>req w. if up then (Inr \<lparr>hr_status = 200, hr_body = []\<rparr>, w + 1) else (Inl (lit ''away''), w)),
      ce_uuid = (\<lambda>w. (if even w then lit ''a'' else lit ''b'', w + 1)), ce_now = (\<lambda>w. ([], w)),
      ce_instant = (\<lambda>w. (w, w)), ce_store_faults = (\<lambda>w. ((None, None), w)), ce_entry_date = (\<lambda>_. None),
      ce_minute = (\<lambda>_. None), ce_run_mirror = (\<lambda>_ w. w)\<rparr>"

definition sample_proxy :: "nat Proxy" where
  "sample_proxy = proxy_start (Some \<lparr>cc_desk = lit ''desk:7557'', cc_token = [], cc_vault = [], cc_client_name = []\<rparr>)
     (lit ''agent'') (\<lambda>_. None) \<lparr>d_file = None, d_faults = []\<rparr> 0"

definition tea :: Value where "tea = Object [(lit ''fact'', vstr ''Likes tea'')]"

definition tea_call :: JsonRpcRequest where "tea_call = sample_call ''remember'' [(lit ''fact'', vstr ''Likes tea'')]"

lemma cached_ok_sample: "cached_ok sample_cached c"
  by (simp add: cached_ok_def sample_cached_def)

lemma tea_parts:
  "jq_id tea_call = Some (vnat 1)" "jq_method tea_call = lit ''tools/call''"
  "tool_name tea_call = Some (lit ''remember'')" "arguments tea_call = tea" "is_write_tool (Some (lit ''remember''))"
  "jq_params tea_call = Some (Object [(lit ''name'', vstr ''remember''), (lit ''arguments'', tea)])"
  by (simp_all add: tea_call_def tea_def sample_call_parts del: lit_simps)
    (simp_all add: is_write_tool_def sample_call_def request_new_def del: lit_simps)

lemma away_sample: "away (sample_client False)"
  by (simp add: away_def sample_client_def)

lemma queue_sample: "queued (sample_client up) sample_proxy = []" "sound_queue (sample_client up) sample_proxy"
  by (simp_all add: sample_proxy_def proxy_start_def outbox_abs_def sound_outbox_def sound_disk_def)

lemma tea_entry_ok:
  "entry_ok (ce_entry (sample_client up)) (entry_new (fst (ce_uuid (sample_client up) w)) (fst (ce_now (sample_client up) w'))
     (lit ''remember'') tea (px_harness sample_proxy))"
proof -
  have "entry_ok client_serde (entry_new (lit ''a'') [] (lit ''remember'') tea (lit ''agent''))"
    "entry_ok client_serde (entry_new (lit ''b'') [] (lit ''remember'') tea (lit ''agent''))" by code_simp+
  then show ?thesis by (simp add: sample_client_def sample_proxy_def proxy_start_def del: lit_simps)
qed

lemma tea_valid: "validate_tool_arguments (ce_env (sample_client up)) (ce_days (sample_client up)) (lit ''remember'') tea = Inr ()"
  by code_simp

definition two_queued :: "nat Proxy" where
  "two_queued = sample_proxy\<lparr>px_disk := \<lparr>d_file = Some (lit ''a,Likes tea'' @ [10] @ lit ''b,Likes tea'' @ [10]), d_faults = []\<rparr>\<rparr>"

lemma two_queued_entries:
  "queued (sample_client up) two_queued = [entry_new (lit ''a'') [] (lit ''remember'') tea (lit ''agent''),
     entry_new (lit ''b'') [] (lit ''remember'') tea (lit ''agent'')]"
  "sound_queue (sample_client up) two_queued"
proof -
  show q: "queued (sample_client up) two_queued = [entry_new (lit ''a'') [] (lit ''remember'') tea (lit ''agent''),
     entry_new (lit ''b'') [] (lit ''remember'') tea (lit ''agent'')]" by code_simp
  have "entry_ok client_serde (entry_new (lit ''a'') [] (lit ''remember'') tea (lit ''agent''))"
    "entry_ok client_serde (entry_new (lit ''b'') [] (lit ''remember'') tea (lit ''agent''))" by code_simp+
  moreover have "sound_disk (px_disk two_queued)" by (simp add: sound_disk_def two_queued_def)
  moreover have "ce_entry (sample_client up) = client_serde" by (simp add: sample_client_def)
  ultimately show "sound_queue (sample_client up) two_queued" unfolding sound_outbox_def q by simp
qed

lemma sample_desk_up: "fst (forward (sample_client True) (Some config) h q h' w) = Inr (result_response Null Null)"
  "snd (forward (sample_client True) (Some config) h q h' w) = w + 1"
  by (simp_all add: forward_def sample_client_def read_reply_def Let_def)

section \<open>Properties\<close>

text \<open>What the desk last said is what an outage answers: after an answer to \<open>context\<close>, a \<open>read\<close> by path
  or a \<open>search\<close> was kept, the same question asked while the desk is away gets that text, with the note
  that says when it is from and which desk is unreachable.\<close>

theorem outage_repeats_last_answer:
  assumes "jq_method q = lit ''tools/call''" and "jq_method q' = lit ''tools/call''" and "cacheable C name args"
    and "jr_result resp = Some v" and "ce_tool_result C v = Some result" and "\<not> ct_is_error result"
    and "\<And>w. fst (ce_store_faults C w) = (None, None)" and "\<And>c. cached_ok (ce_cached C) c"
  shows "fst (offline_answer C i q' (Some name) args why (remember_answer C q (Some name) args resp p)) =
     result_response i (tool_response_value (tool_text
       (first_text result @ offline_suffix (ce_minute C) (fst (ce_now C (px_world p))) (desk_label p))))"
proof -
  note places = cctx.lookup_keep cnote.lookup_keep csearch.lookup_keep
  note store = remember_answer_call [OF assms(1,4,5,6)]
  show ?thesis
  using assms(3)
  proof (cases rule: cacheable_cases)
    case vault
    then show ?thesis by (simp add: store offline_reads [OF assms(2)] from_cache_def cached_text_def places [OF assms(7,8)] del: lit_simps)
  next
    case (path path)
    then show ?thesis by (simp add: store offline_reads [OF assms(2)] from_cache_def cached_text_def places [OF assms(7,8)] del: lit_simps)
  next
    case (search key)
    then show ?thesis by (simp add: store offline_reads [OF assms(2)] from_cache_def cached_text_def places [OF assms(7,8)] del: lit_simps)
  qed
qed

theorem outage_repeats_last_answer_witness:
  "fst (offline_answer (sample_client True) Null (sample_call ''context'' []) (Some (lit ''context'')) Null []
      (remember_answer (sample_client True) (sample_call ''context'' []) (Some (lit ''context'')) Null
        (result_response Null Null) sample_proxy)) =
   result_response Null (tool_response_value (tool_text (lit ''Tea'' @ [10, 10] @
     lit ''(from cache, as of ; the desk at desk:7557 is unreachable)'')))"
proof -
  have "jq_method (sample_call ''context'' []) = lit ''tools/call''" by (simp add: sample_call_def request_new_def)
  moreover have "cacheable (sample_client True) (lit ''context'') Null" by (simp add: cacheable_def)
  moreover have "offline_suffix (ce_minute (sample_client True)) [] (desk_label sample_proxy) =
      [10, 10] @ lit ''(from cache, as of ; the desk at desk:7557 is unreachable)''"
    by code_simp
  ultimately show ?thesis
    using outage_repeats_last_answer [of "sample_call ''context'' []" "sample_call ''context'' []" "sample_client True"
        "lit ''context''" Null "result_response Null Null" Null "tool_text (lit ''Tea'')" Null "[]" sample_proxy]
    by (simp add: sample_client_def cached_ok_sample result_response_def tool_text_def first_text_def first_opt_def del: lit_simps)
qed

text \<open>C17: A write made while the desk is away is never lost: the request returns, is answered with the
  sentence that it was queued, and the outbox holds everything it held, in order, and behind it the call
  with its tool, arguments and harness.\<close>

theorem offline_write_queued:
  assumes "jq_id q = Some i" and "jq_method q = lit ''tools/call''" and "tool_name q = Some name" and "is_write_tool (Some name)"
    and "away C" and "sound_queue C p" and "distinct (map oe_id (queued C p))"
    and "validate_tool_arguments (ce_env C) (ce_days C) name (arguments q) = Inr ()"
    and "\<And>w w'. entry_ok (ce_entry C) (entry_new (fst (ce_uuid C w)) (fst (ce_now C w')) name (arguments q) (px_harness p))"
  shows "\<exists>uid now p'. handle C version q p =
       Some (Some (result_response i (tool_response_value (tool_text QUEUED_SENTENCE))), p') \<and> sound_queue C p' \<and>
     queued C p' = queued C p @ [entry_new uid now name (arguments q) (px_harness p)] \<and> px_online p' = Some False"
proof -
  obtain q' why p1 where c: "call_desk C i q p = Some (offline_answer C i q' (Some name) (arguments q) why p1)"
      "jq_method q' = lit ''tools/call''" "sound_queue C p1" "queued C p1 = queued C p" "px_harness p1 = px_harness p"
      "px_online p1 = Some False"
    using call_desk_away [OF assms(5-7), of i q] assms(2,3) by auto
  have ok: "entry_ok (ce_entry C) (entry_new (fst (ce_uuid C w)) (fst (ce_now C w')) name (arguments q) (px_harness p1))" for w w'
    using assms(9) c(5) by simp
  from queue_write_valid [OF c(3) assms(8) ok, of i] show ?thesis
    using c by (fastforce simp: handle_call [OF assms(1,2)] offline_answer_write [OF c(2) assms(4)])
qed

theorem offline_write_queued_witness:
  "\<exists>uid now p'. handle (sample_client False) [] tea_call sample_proxy =
       Some (Some (result_response (vnat 1) (tool_response_value (tool_text QUEUED_SENTENCE))), p') \<and>
     queued (sample_client False) p' = [entry_new uid now (lit ''remember'') tea (lit ''agent'')]"
proof -
  have h: "px_harness sample_proxy = lit ''agent''" by (simp add: sample_proxy_def proxy_start_def)
  have d: "distinct (map oe_id (queued (sample_client False) sample_proxy))" by (simp add: queue_sample)
  from offline_write_queued [OF tea_parts(1-3,5) away_sample queue_sample(2) d tea_valid [folded tea_parts(4)]
      tea_entry_ok [folded tea_parts(4)], of "[]"]
  show ?thesis unfolding tea_parts(4) h queue_sample append_Nil by blast
qed

text \<open>A write the desk would refuse for its arguments is refused at once while the desk is away, with the
  reason the desk would give, and the outbox stays as it was: one bad call cannot hold the rest back.\<close>

theorem bad_write_never_queued:
  assumes "jq_id q = Some i" and "jq_method q = lit ''tools/call''" and "tool_name q = Some name" and "is_write_tool (Some name)"
    and "away C" and "sound_queue C p" and "distinct (map oe_id (queued C p))"
    and "validate_tool_arguments (ce_env C) (ce_days C) name (arguments q) = Inl e"
  shows "\<exists>p'. handle C version q p = Some (Some (result_response i (tool_response_value (tool_refused (host_message e)))), p') \<and>
     queued C p' = queued C p"
proof -
  obtain q' why p1 where c: "call_desk C i q p = Some (offline_answer C i q' (Some name) (arguments q) why p1)"
      "jq_method q' = lit ''tools/call''" "queued C p1 = queued C p"
    using call_desk_away [OF assms(5-7), of i q] assms(2,3) by auto
  then show ?thesis
    using assms(8) by (auto simp: handle_call [OF assms(1,2)] offline_answer_write [OF c(2) assms(4)] queue_write_def)
qed

theorem bad_write_never_queued_witness:
  "\<exists>p'. handle (sample_client False) [] (sample_call ''remember'' []) sample_proxy =
       Some (Some (result_response (vnat 1) (tool_response_value (tool_refused (lit ''remember needs a `fact` string'')))), p') \<and>
     queued (sample_client False) p' = []"
proof -
  have q: "jq_id (sample_call ''remember'' []) = Some (vnat 1)" "jq_method (sample_call ''remember'' []) = lit ''tools/call''"
    by (simp_all add: sample_call_def request_new_def)
  have v: "validate_tool_arguments (ce_env (sample_client False)) (ce_days (sample_client False)) (lit ''remember'') (Object []) =
      Inl (HRefused (lit ''remember needs a `fact` string''))" by code_simp
  show ?thesis
    using bad_write_never_queued [OF q sample_call_parts(1) tea_parts(5) away_sample queue_sample(2), of _ "[]"] v
    by (simp add: queue_sample sample_call_parts del: lit_simps)
qed

text \<open>C18: Once the desk answers, one drain sends every queued call, in the order they were queued and each
  once, and ends with an empty outbox; a refused call leaves it too.\<close>

theorem desk_back_empties_outbox:
  assumes "sound_queue C p" and "distinct (map oe_id (queued C p))" and "px_config p = Some config" and "px_online p \<noteq> Some False"
    and "\<And>e w why. e \<in> set (queued C p) \<Longrightarrow>
      judge_reply C (fst (forward C (Some config) (px_harness p) (outbox_request C e) (oe_harness e) w)) \<noteq> Inl (Transport why)"
  shows "\<exists>p'. drain_outbox C p = Some p' \<and> queued C p' = [] \<and>
     px_world p' = fold (\<lambda>e w. snd (forward C (Some config) (px_harness p) (outbox_request C e) (oe_harness e) w))
       (queued C p) (px_world p)"
proof -
  have "fst (drain_call C (px_config p) (px_harness p) w e) \<noteq> Inl (Transport why)" if "e \<in> set (queued C p)" for e w why
    using assms(3,5) that by (simp add: drain_call_def)
  from drain_queue_answered [of "queued C p" "drain_call C (px_config p) (px_harness p)" "px_world p" report_default, OF this]
  obtain r where
    "drain_queue (drain_call C (px_config p) (px_harness p)) (px_world p) report_default (queued C p) =
       (r, fold (\<lambda>e w. snd (drain_call C (px_config p) (px_harness p) w e)) (queued C p) (px_world p), [])" by blast
  from drain_outbox_refines [OF assms(1,2) _ this] show ?thesis
    using assms(3,4) by (auto simp: drains_def drain_call_def)
qed

theorem desk_back_empties_outbox_witness:
  "\<exists>p'. drain_outbox (sample_client True) two_queued = Some p' \<and> queued (sample_client True) p' = [] \<and> px_world p' = 2"
proof -
  obtain config where c: "px_config two_queued = Some config" "px_online two_queued \<noteq> Some False" "px_world two_queued = 0"
    by (simp add: two_queued_def sample_proxy_def proxy_start_def)
  have ok: "judge_reply (sample_client True) (Inr (result_response Null Null)) = Inr ()" by code_simp
  have "distinct (map oe_id (queued (sample_client True) two_queued))"
    by (simp add: two_queued_entries entry_new_def)
  from desk_back_empties_outbox [OF two_queued_entries(2) this c(1,2)]
  have "\<exists>p'. drain_outbox (sample_client True) two_queued = Some p' \<and> queued (sample_client True) p' = [] \<and>
     px_world p' = fold (\<lambda>e w. w + 1) (queued (sample_client True) two_queued) (px_world two_queued)"
    by (simp add: sample_desk_up ok)
  then show ?thesis by (simp add: two_queued_entries c(3) numeral_2_eq_2)
qed



end
