(* ===== verification/Desk_Inline.thy ===== *)
theory Desk_Inline
  imports Inline
begin

text \<open>
  The inline constructs the desk's Markdown scanner reads on one line
  (\<open>crates/thock/src/markdown_syntax.rs\<close>): code spans, comments, links, struck and emphasised runs.
  The scanner is a second implementation beside the sync core's, so its functions carry the prefix
  \<open>desk_\<close> where both have the name.  Ranges are pairs of character offsets into the line.
\<close>

section \<open>Code spans\<close>

record InlineCode =
  cs_range :: range
  cs_text :: range

text \<open>The runs of backticks with their starts and lengths.\<close>

function code_runs :: "rstr \<Rightarrow> nat \<Rightarrow> (nat \<times> nat) list" where
  "code_runs [] cursor = []"
| "code_runs (c # s) cursor =
     (if c = 96 then
        let n = run_length 96 (c # s) in (cursor, n) # code_runs (drop n (c # s)) (cursor + n)
      else code_runs s (cursor + 1))"
  by pat_completeness auto
termination by (relation "measure (\<lambda>(s, cursor). length s)") (auto simp: run_length_def)

declare code_runs.simps [simp del]

text \<open>A run pairs with the next one of its length.\<close>

function pair_runs :: "(nat \<times> nat) list \<Rightarrow> InlineCode list" where
  "pair_runs [] = []"
| "pair_runs ((start, len) # rest) =
     (case dropWhile (\<lambda>r. snd r \<noteq> len) rest of
        (close, close_len) # rest' \<Rightarrow>
          \<lparr>cs_range = (start, close + close_len), cs_text = (start + len, close)\<rparr> # pair_runs rest'
      | [] \<Rightarrow> pair_runs rest)"
  by pat_completeness auto
termination
proof (relation "measure length")
  fix len :: nat and rest :: "(nat \<times> nat) list" and start x rest' y z
  assume "dropWhile (\<lambda>r. snd r \<noteq> len) rest = x # rest'"
  then have "length (x # rest') \<le> length rest" by (metis length_dropWhile_le)
  then show "(rest', (start, len) # rest) \<in> measure length" by simp
qed simp_all

declare pair_runs.simps [simp del]

definition desk_code_spans :: "rstr \<Rightarrow> InlineCode list" where
  "desk_code_spans line = pair_runs (code_runs line 0)"

definition code_span_ranges :: "rstr \<Rightarrow> range list" where
  "code_span_ranges line = map cs_range (desk_code_spans line)"

section \<open>Comments\<close>

definition overlaps_excluded :: "range list \<Rightarrow> range \<Rightarrow> bool" where
  "overlaps_excluded excluded r \<longleftrightarrow> list_ex (\<lambda>other. overlaps other r) excluded"

function comments_from :: "rstr \<Rightarrow> range list \<Rightarrow> nat \<Rightarrow> range list" where
  "comments_from line code cursor =
     (case str_find COMMENT_OPEN (drop cursor line) of
        None \<Rightarrow> []
      | Some i \<Rightarrow>
          let start = i + cursor; body = start + 4
          in case str_find COMMENT_CLOSE (drop body line) of
               None \<Rightarrow> []
             | Some j \<Rightarrow>
                 let close = j + body + 3
                 in (if overlaps_excluded code (start, close) then [] else [(start, close)])
                    @ comments_from line code close)"
  by pat_completeness auto
termination
  by (relation "measure (\<lambda>(line, code, cursor). length line - cursor)")
     (auto dest!: str_find_bound simp: COMMENT_OPEN_def)

declare comments_from.simps [simp del]

definition html_comment_ranges :: "rstr \<Rightarrow> range list \<Rightarrow> range list" where
  "html_comment_ranges line code = comments_from line code 0"

definition desk_inline_exclusions :: "rstr \<Rightarrow> range list" where
  "desk_inline_exclusions line =
     (let code = code_span_ranges line in code @ html_comment_ranges line code)"

section \<open>Links\<close>

record InlineLink =
  il_range :: range
  il_label :: range
  il_wikilink_target :: "range option"
  il_destination :: "range option"

definition desk_parse_wikilink :: "rstr \<Rightarrow> nat \<Rightarrow> InlineLink option" where
  "desk_parse_wikilink line start =
     (let inner_start = start + 2
      in case str_find (lit '']]'') (drop inner_start line) of
           None \<Rightarrow> None
         | Some i \<Rightarrow>
             let close = i + inner_start; inner = segment line inner_start close; finish = close + 2
             in if inner = [] \<or> 91 \<in> set inner \<or> 93 \<in> set inner then None
                else case split_once [124] inner of
                       Some (target, alias) \<Rightarrow>
                         if target = [] \<or> alias = [] then None
                         else Some \<lparr>il_range = (start, finish),
                                    il_label = (inner_start + length target + 1, close),
                                    il_wikilink_target = Some (inner_start, inner_start + length target),
                                    il_destination = None\<rparr>
                     | None \<Rightarrow>
                         Some \<lparr>il_range = (start, finish), il_label = (inner_start, close),
                               il_wikilink_target = Some (inner_start, close), il_destination = None\<rparr>)"

text \<open>The destination between balanced parentheses.\<close>

definition balanced_destination :: "rstr \<Rightarrow> nat \<Rightarrow> range option" where
  "balanced_destination line text_end =
     (if \<not> starts_with [40] (drop (text_end + 1) line) then None
      else let dest_start = text_end + 2
           in map_option (\<lambda>off. (dest_start, dest_start + off)) (close_paren (drop dest_start line) 1 0))"

definition desk_parse_inline_link :: "rstr \<Rightarrow> nat \<Rightarrow> InlineLink option" where
  "desk_parse_inline_link line start =
     (let text_start = start + 1
      in case str_find [93] (drop text_start line) of
           None \<Rightarrow> None
         | Some i \<Rightarrow>
             let text_end = i + text_start; label = segment line text_start text_end
             in if label = [] \<or> 91 \<in> set label then None
                else case balanced_destination line text_end of
                       None \<Rightarrow> None
                     | Some (dest_start, close) \<Rightarrow>
                         Some \<lparr>il_range = (start, close + 1), il_label = (text_start, text_end),
                               il_wikilink_target = None, il_destination = Some (dest_start, close)\<rparr>)"

definition link_at :: "rstr \<Rightarrow> nat \<Rightarrow> InlineLink option" where
  "link_at line start =
     (if starts_with (lit ''[['') (drop start line) then desk_parse_wikilink line start
      else desk_parse_inline_link line start)"

lemma link_at_range: "link_at line start = Some l \<Longrightarrow> fst (il_range l) = start \<and> start < snd (il_range l)"
  by (auto simp: link_at_def desk_parse_wikilink_def desk_parse_inline_link_def balanced_destination_def Let_def
      split: if_splits option.splits prod.splits)

text \<open>The links from a position on, in order: a caller that stops early looks at a prefix of the list.\<close>

function each_inline_link :: "rstr \<Rightarrow> nat \<Rightarrow> range list \<Rightarrow> InlineLink list" where
  "each_inline_link line cursor excluded =
     (case str_find [91] (drop cursor line) of
        None \<Rightarrow> []
      | Some relative \<Rightarrow>
          let start = cursor + relative
          in if 0 < start \<and> (line ! (start - 1) = 33 \<or> line ! (start - 1) = 92) then
               each_inline_link line (start + 1) excluded
             else case find (in_range start) excluded of
               Some r \<Rightarrow> each_inline_link line (snd r) excluded
             | None \<Rightarrow>
                 (case link_at line start of
                    Some l \<Rightarrow>
                      if overlaps_excluded excluded (il_range l) then each_inline_link line (start + 1) excluded
                      else l # each_inline_link line (snd (il_range l)) excluded
                  | None \<Rightarrow> each_inline_link line (start + 1) excluded))"
  by pat_completeness auto
termination
  by (relation "measure (\<lambda>(line, cursor, excluded). length line - cursor)")
     (auto dest!: find_char_progress find_SomeD link_at_range simp: in_range_def)

declare each_inline_link.simps [simp del]

definition inline_links :: "rstr \<Rightarrow> InlineLink list" where
  "inline_links line = each_inline_link line 0 (desk_inline_exclusions line)"

section \<open>Struck runs\<close>

record InlineStrikethrough =
  st_range :: range
  st_text :: range

definition parse_strikethrough :: "rstr \<Rightarrow> nat \<Rightarrow> InlineStrikethrough option" where
  "parse_strikethrough line start =
     (let text_start = start + 2
      in case str_find (lit ''~~'') (drop text_start line) of
           None \<Rightarrow> None
         | Some i \<Rightarrow>
             let close = i + text_start; t = segment line text_start close
             in if t = [] \<or> is_whitespace (hd t) \<or> is_whitespace (last t) \<or> get_at line (close + 2) = Some 126
                then None
                else Some \<lparr>st_range = (start, close + 2), st_text = (text_start, close)\<rparr>)"

lemma parse_strikethrough_range:
  "parse_strikethrough line start = Some r \<Longrightarrow> fst (st_range r) = start \<and> start + 2 < snd (st_range r)"
  by (auto simp: parse_strikethrough_def Let_def split: option.splits if_splits)

function each_strikethrough :: "rstr \<Rightarrow> nat \<Rightarrow> range list \<Rightarrow> InlineStrikethrough list" where
  "each_strikethrough line cursor excluded =
     (case str_find (lit ''~~'') (drop cursor line) of
        None \<Rightarrow> []
      | Some relative \<Rightarrow>
          let start = cursor + relative; next = start + 2
          in if get_at line (start + 2) = Some 126 \<or> 0 < start \<and> (line ! (start - 1) = 126 \<or> line ! (start - 1) = 92)
             then each_strikethrough line next excluded
             else case parse_strikethrough line start of
                    None \<Rightarrow> each_strikethrough line next excluded
                  | Some r \<Rightarrow>
                      if overlaps_excluded excluded (fst (st_range r), fst (st_text r))
                         \<or> overlaps_excluded excluded (snd (st_text r), snd (st_range r))
                      then each_strikethrough line next excluded
                      else r # each_strikethrough line (snd (st_range r)) excluded)"
  by pat_completeness auto
termination
  by (relation "measure (\<lambda>(line, cursor, excluded). length line - cursor)")
     (auto dest!: str_find_bound parse_strikethrough_range)

declare each_strikethrough.simps [simp del]

definition strikethrough_exclusions :: "rstr \<Rightarrow> range list" where
  "strikethrough_exclusions line =
     (let inline = desk_inline_exclusions line
      in inline @ map il_range (each_inline_link line 0 inline))"

definition inline_strikethroughs :: "rstr \<Rightarrow> InlineStrikethrough list" where
  "inline_strikethroughs line = each_strikethrough line 0 (strikethrough_exclusions line)"

section \<open>Emphasis\<close>

record InlineEmphasis =
  em_range :: range
  em_text :: range
  em_length :: nat

definition is_bold :: "InlineEmphasis \<Rightarrow> bool" where "is_bold e \<longleftrightarrow> 2 \<le> em_length e"

definition is_italic :: "InlineEmphasis \<Rightarrow> bool" where "is_italic e \<longleftrightarrow> em_length e \<noteq> 2"

definition MAX_EMPHASIS_DEPTH :: nat where "MAX_EMPHASIS_DEPTH = 3"

text \<open>The bytes of a character that is not ASCII all count as part of a word.\<close>

definition is_word_byte :: "rchar \<Rightarrow> bool" where
  "is_word_byte c \<longleftrightarrow> is_ascii_alphanumeric c \<or> 128 \<le> c"

definition is_ascii_whitespace :: "rchar \<Rightarrow> bool" where
  "is_ascii_whitespace c \<longleftrightarrow> c = 32 \<or> c = 9 \<or> c = 10 \<or> c = 12 \<or> c = 13"

text \<open>The loop that looks for the closing run.\<close>

function emphasis_close :: "rstr \<Rightarrow> rchar \<Rightarrow> nat \<Rightarrow> nat \<Rightarrow> nat option" where
  "emphasis_close line marker len cursor =
     (case str_find [marker] (drop cursor line) of
        None \<Rightarrow> None
      | Some relative \<Rightarrow>
          let candidate = cursor + relative; run = run_length marker (drop candidate line); next = candidate + run
          in if run = len \<and> \<not> is_ascii_whitespace (line ! (candidate - 1))
                \<and> \<not> is_some_and (get_at line next) is_word_byte
             then Some candidate
             else emphasis_close line marker len next)"
  by pat_completeness auto
termination
  by (relation "measure (\<lambda>(line, marker, len, cursor). length line - cursor)")
     (auto dest!: find_char_progress)

declare emphasis_close.simps [simp del]

definition parse_emphasis :: "rstr \<Rightarrow> nat \<Rightarrow> rchar \<Rightarrow> range list \<Rightarrow> InlineEmphasis option" where
  "parse_emphasis line start marker excluded =
     (let len = run_length marker (drop start line); text_start = start + len
      in if 3 < len then None
         else case get_at line text_start of
           None \<Rightarrow> None
         | Some c \<Rightarrow>
             if is_ascii_whitespace c then None
             else if 0 < start \<and> (line ! (start - 1) = 92 \<or> is_word_byte (line ! (start - 1))) then None
             else case emphasis_close line marker len text_start of
                    None \<Rightarrow> None
                  | Some close \<Rightarrow>
                      if overlaps_excluded excluded (start, text_start) \<or> overlaps_excluded excluded (close, close + len)
                      then None
                      else Some \<lparr>em_range = (start, close + len), em_text = (text_start, close), em_length = len\<rparr>)"

definition find_marker :: "rstr \<Rightarrow> nat option" where
  "find_marker s =
     (case dropWhile (\<lambda>c. c \<noteq> 42 \<and> c \<noteq> 95) s of [] \<Rightarrow> None | r \<Rightarrow> Some (length s - length r))"

lemma find_marker_at:
  assumes "find_marker (drop cursor line) = Some relative"
  shows "cursor + relative < length line" and "line ! (cursor + relative) = 42 \<or> line ! (cursor + relative) = 95"
    and "1 \<le> run_length (line ! (cursor + relative)) (drop (cursor + relative) line)"
proof -
  let ?p = "\<lambda>c :: rchar. c \<noteq> 42 \<and> c \<noteq> 95" and ?s = "drop cursor line"
  obtain c r where r: "dropWhile ?p ?s = c # r" "relative = length ?s - length (c # r)"
    using assms by (auto simp: find_marker_def split: list.splits)
  have "?s = takeWhile ?p ?s @ c # r" using takeWhile_dropWhile_id [of ?p ?s] r(1) by simp
  moreover from arg_cong [OF this, of length] have "relative = length (takeWhile ?p ?s)" using r(2) by simp
  ultimately have d: "drop relative ?s = c # r" by (metis append_eq_conv_conj)
  then have d': "drop (cursor + relative) line = c # r" by (simp add: add.commute)
  then show len: "cursor + relative < length line" by (metis drop_eq_Nil list.distinct(1) not_le_imp_less)
  have c: "line ! (cursor + relative) = c" using d' len by (metis hd_drop_conv_nth list.sel(1))
  have "\<not> ?p (hd (dropWhile ?p ?s))" by (rule hd_dropWhile) (simp add: r(1))
  then have "\<not> ?p c" by (simp add: r(1))
  then show "line ! (cursor + relative) = 42 \<or> line ! (cursor + relative) = 95" using c by simp
  show "1 \<le> run_length (line ! (cursor + relative)) (drop (cursor + relative) line)"
    by (simp add: c d' run_length_def)
qed

lemma emphasis_close_ge: "emphasis_close line marker len cursor = Some close \<Longrightarrow> cursor \<le> close"
proof (induction line marker len cursor rule: emphasis_close.induct)
  case (1 line marker len cursor)
  show ?case
  proof (cases "str_find [marker] (drop cursor line)")
    case None
    then show ?thesis using "1.prems" by (simp add: emphasis_close.simps [of line marker len cursor])
  next
    case (Some relative)
    note step = emphasis_close.simps [of line marker len cursor] Let_def Some
    let ?ok = "run_length marker (drop (cursor + relative) line) = len \<and> \<not> is_ascii_whitespace (line ! (cursor + relative - 1))
        \<and> \<not> is_some_and (get_at line (cursor + relative + run_length marker (drop (cursor + relative) line))) is_word_byte"
    show ?thesis
    proof (cases ?ok)
      case True
      then have "emphasis_close line marker len cursor = Some (cursor + relative)" by (auto simp: step)
      then show ?thesis using "1.prems" by simp
    next
      case False
      then have "emphasis_close line marker len (cursor + relative + run_length marker (drop (cursor + relative) line)) = Some close"
        using "1.prems" by (auto simp: step split: if_splits)
      from "1.IH" [OF Some refl refl refl False this] show ?thesis by simp
    qed
  qed
qed

lemma parse_emphasis_range:
  "parse_emphasis line start marker excluded = Some e \<Longrightarrow>
     fst (em_range e) = start \<and> start + run_length marker (drop start line) \<le> snd (em_range e)"
  by (auto simp: parse_emphasis_def Let_def split: if_splits option.splits dest!: emphasis_close_ge)

function each_emphasis :: "rstr \<Rightarrow> nat \<Rightarrow> range list \<Rightarrow> nat \<Rightarrow> InlineEmphasis list" where
  "each_emphasis line cursor excluded depth =
     (case find_marker (drop cursor line) of
        None \<Rightarrow> []
      | Some relative \<Rightarrow>
          let start = cursor + relative; marker = line ! start
          in case parse_emphasis line start marker excluded of
               None \<Rightarrow> each_emphasis line (start + run_length marker (drop start line)) excluded depth
             | Some e \<Rightarrow>
                 (e # (if depth < MAX_EMPHASIS_DEPTH
                       then each_emphasis (take (snd (em_text e)) line) (fst (em_text e)) excluded (depth + 1)
                       else []))
                 @ each_emphasis line (snd (em_range e)) excluded depth)"
  by pat_completeness auto
termination
proof (relation "measures [\<lambda>(line, cursor, excluded, depth). MAX_EMPHASIS_DEPTH - depth, \<lambda>(line, cursor, excluded, depth). length line - cursor]",
    goal_cases)
  case (2 line cursor excluded depth relative start marker)
  then show ?case using find_marker_at [of cursor line relative] by auto
next
  case (4 line cursor excluded depth relative start marker e)
  then show ?case using find_marker_at [of cursor line relative] parse_emphasis_range [of line start marker excluded e] by auto
qed auto

declare each_emphasis.simps [simp del]

definition inline_emphases :: "rstr \<Rightarrow> InlineEmphasis list" where
  "inline_emphases line = each_emphasis line 0 (strikethrough_exclusions line) 0"

end
