(* ===== verification/Calendar_Marker.thy ===== *)
theory Calendar_Marker
  imports Reminder_Edit Bridge_Rules
begin

text \<open>
  The marker a synced calendar line ends with, and the kind of event it records
  (\<open>crates/thock/src/calendar.rs\<close>).
\<close>

definition GCAL_PREFIX :: rstr where "GCAL_PREFIX = lit ''<!--gcal:''"
definition GCAL_SUFFIX :: rstr where "GCAL_SUFFIX = lit ''-->''"

datatype EventKind = EDefault | FocusTime | OutOfOffice

definition from_google :: "rstr \<Rightarrow> EventKind" where
  "from_google event_type =
     (if event_type = lit ''focusTime'' then FocusTime
      else if event_type = lit ''outOfOffice'' then OutOfOffice
      else EDefault)"

fun marker_suffix :: "EventKind \<Rightarrow> rstr option" where
  "marker_suffix EDefault = None"
| "marker_suffix FocusTime = Some (lit ''focus'')"
| "marker_suffix OutOfOffice = Some (lit ''ooo'')"

definition from_marker_suffix :: "rstr \<Rightarrow> EventKind option" where
  "from_marker_suffix sfx =
     (if sfx = lit ''focus'' then Some FocusTime
      else if sfx = lit ''ooo'' then Some OutOfOffice
      else None)"

definition is_status :: "EventKind \<Rightarrow> bool" where "is_status k \<longleftrightarrow> k \<noteq> EDefault"

definition event_marker_id :: "env \<Rightarrow> rstr \<Rightarrow> rstr \<Rightarrow> rstr" where
  "event_marker_id E calendar_id event_id =
     concat (map byte_to_hex (take 6 (sha256 E (utf8 calendar_id @ [0] @ utf8 event_id))))"

definition render_marker :: "rstr \<Rightarrow> EventKind \<Rightarrow> rstr" where
  "render_marker i k =
     GCAL_PREFIX @ i @ (case marker_suffix k of Some s \<Rightarrow> 58 # s | None \<Rightarrow> []) @ GCAL_SUFFIX"

definition parse_marker_payload :: "rstr \<Rightarrow> (rstr \<times> rstr option) option" where
  "parse_marker_payload payload =
     (let (i, sfx) = (case split_once [58] payload of Some (i, s) \<Rightarrow> (i, Some s) | None \<Rightarrow> (payload, None))
      in if i = [] \<or> \<not> list_all is_ascii_hexdigit i then None
         else if is_some_and sfx (\<lambda>s. s = [] \<or> \<not> list_all is_ascii_lowercase s) then None
         else Some (i, sfx))"

definition line_event_kind :: "rstr \<Rightarrow> EventKind" where
  "line_event_kind line =
     (let trimmed = trim_end line
      in case str_rfind GCAL_PREFIX trimmed of
           None \<Rightarrow> EDefault
         | Some marker_start \<Rightarrow>
             (case Option.bind (Option.bind (strip_suffix GCAL_SUFFIX (drop (marker_start + length GCAL_PREFIX) trimmed))
                      parse_marker_payload)
                    (\<lambda>(_, sfx). Option.bind sfx from_marker_suffix) of
                Some k \<Rightarrow> k | None \<Rightarrow> EDefault))"

end
