(* ===== verification/Day_Plan.thy ===== *)
theory Day_Plan
  imports Desk_Inline Calendar_Marker "HOL-Library.Product_Lexorder"
begin

text \<open>
  The Day Planner (\<open>crates/thock/src/day_plan.rs\<close>): how a daily note's checklist becomes a plan of
  timed and unscheduled items, how a configured heading is found, and how the timed items are laid
  out in columns.  chrono's hour and minute of a time are a parameter.  Minutes are natural numbers;
  the one sum whose bound comes from the user's configuration wraps at the width of \<open>u32\<close>.
\<close>

section \<open>Headings\<close>

definition heading_level_and_text :: "rstr \<Rightarrow> (nat \<times> rstr) option" where
  "heading_level_and_text line =
     (let trimmed = trim_start line;
          after_hashes = trim_start_matches (\<lambda>c. c = 35) trimmed;
          level = length trimmed - length after_hashes
      in if level = 0 \<or> 6 < level then None
         else if after_hashes \<noteq> [] \<and> hd after_hashes \<noteq> 32 \<and> hd after_hashes \<noteq> 9 then None
         else Some (level, trim after_hashes))"

text \<open>The text with its links reduced to their labels.\<close>

fun plain_loop :: "rstr \<Rightarrow> InlineLink list \<Rightarrow> nat \<Rightarrow> rstr" where
  "plain_loop t [] cursor = drop cursor t"
| "plain_loop t (l # ls) cursor =
     (if fst (il_range l) < cursor then plain_loop t ls cursor
      else segment t cursor (fst (il_range l)) @ segment t (fst (il_label l)) (snd (il_label l))
           @ plain_loop t ls (snd (il_range l)))"

definition desk_heading_key :: "env \<Rightarrow> rstr \<Rightarrow> rstr" where
  "desk_heading_key E t = trim_end (fold (key_step E) (plain_loop t (inline_links t) 0) [])"

record HeadingNames =
  hn_lowercased :: "rstr list"
  hn_keys :: "rstr list"

fun names_loop :: "env \<Rightarrow> rstr list \<Rightarrow> HeadingNames \<Rightarrow> HeadingNames" where
  "names_loop E [] hn = hn"
| "names_loop E (raw # names) hn =
     (let name = trim raw
      in if name = [] then names_loop E names hn
         else let key = desk_heading_key E name
              in names_loop E names
                   \<lparr>hn_lowercased = hn_lowercased hn @ [str_to_lowercase E name],
                    hn_keys = (if key \<noteq> [] \<and> key \<notin> set (hn_keys hn) then hn_keys hn @ [key] else hn_keys hn)\<rparr>)"

definition heading_names_new :: "env \<Rightarrow> rstr list \<Rightarrow> HeadingNames" where
  "heading_names_new E names = names_loop E names \<lparr>hn_lowercased = [], hn_keys = []\<rparr>"

definition names_empty :: "HeadingNames \<Rightarrow> bool" where
  "names_empty hn \<longleftrightarrow> hn_lowercased hn = []"

fun index_of :: "'a \<Rightarrow> 'a list \<Rightarrow> nat option" where
  "index_of x [] = None"
| "index_of x (y # ys) = (if y = x then Some 0 else map_option Suc (index_of x ys))"

definition names_rank :: "env \<Rightarrow> HeadingNames \<Rightarrow> rstr \<Rightarrow> nat option" where
  "names_rank E hn t =
     (case index_of (str_to_lowercase E (trim t)) (hn_lowercased hn) of
        Some index \<Rightarrow> Some index
      | None \<Rightarrow>
          let key = desk_heading_key E t
          in if key = [] then None
             else map_option (\<lambda>index. length (hn_lowercased hn) + index) (index_of key (hn_keys hn)))"

fun best_loop :: "env \<Rightarrow> HeadingNames \<Rightarrow> nat option \<Rightarrow> (nat \<times> rstr) list \<Rightarrow> (nat \<times> nat \<times> nat) option \<Rightarrow>
    (nat \<times> nat) option" where
  "best_loop E hn level [] best = map_option snd best"
| "best_loop E hn level ((row, line) # rest) best =
     (case heading_level_and_text line of
        None \<Rightarrow> best_loop E hn level rest best
      | Some (heading_level, t) \<Rightarrow>
          if is_some_and level (\<lambda>wanted. wanted \<noteq> heading_level) then best_loop E hn level rest best
          else (case names_rank E hn t of
                  None \<Rightarrow> best_loop E hn level rest best
                | Some rank \<Rightarrow>
                    if rank = 0 then Some (row, heading_level)
                    else best_loop E hn level rest
                           (if \<not> is_some_and best (\<lambda>b. \<not> rank < fst b) then Some (rank, row, heading_level) else best)))"

definition best_heading :: "env \<Rightarrow> (nat \<times> rstr) list \<Rightarrow> HeadingNames \<Rightarrow> nat option \<Rightarrow> (nat \<times> nat) option" where
  "best_heading E rows hn level = (if names_empty hn then None else best_loop E hn level rows None)"

text \<open>The rows under the best heading, up to the next one of its level or above.\<close>

definition section_end :: "rstr list \<Rightarrow> nat \<Rightarrow> nat \<Rightarrow> nat" where
  "section_end lines start level =
     (let p = (\<lambda>line. is_some_and (heading_level_and_text line) (\<lambda>(l, _). l \<le> level));
          below = takeWhile (\<lambda>line. \<not> p line) (drop (start + 1) lines)
      in start + 1 + length below)"

definition planner_section :: "env \<Rightarrow> rstr list \<Rightarrow> HeadingNames \<Rightarrow> ((nat \<times> nat) \<times> nat) option" where
  "planner_section E lines hn =
     map_option (\<lambda>(start, level). ((start + 1, section_end lines start level), level))
       (best_heading E (enumerate 0 lines) hn None)"

definition section_heading_level :: "rstr \<Rightarrow> nat" where
  "section_heading_level t =
     (let levels = map fst (List.map_filter heading_level_and_text (str_lines t))
      in case levels of
           [] \<Rightarrow> 2
         | title_level # rest \<Rightarrow>
             (case fold (\<lambda>level best. if count_list rest level = 0 then best
                           else case best of None \<Rightarrow> Some level
                             | Some b \<Rightarrow> if count_list rest b < count_list rest level then Some level else Some b)
                     [1..<7] None of
                Some level \<Rightarrow> min level 5
              | None \<Rightarrow> max 2 (min 5 (title_level + 1))))"

section \<open>Configuration and items\<close>

record DayPlannerConfig =
  pc_heading :: rstr
  pc_heading_aliases :: "rstr list"
  pc_day_start :: nat
  pc_day_end :: nat
  pc_default_duration :: nat
  pc_show_now_indicator :: bool
  pc_sections :: "rstr \<Rightarrow> nat option"

definition planner_default :: DayPlannerConfig where
  "planner_default =
     \<lparr>pc_heading = lit ''Day planner'', pc_heading_aliases = [], pc_day_start = 6 * 60, pc_day_end = 24 * 60,
      pc_default_duration = 30, pc_show_now_indicator = True, pc_sections = (\<lambda>_. None)\<rparr>"

definition heading_names :: "env \<Rightarrow> DayPlannerConfig \<Rightarrow> HeadingNames" where
  "heading_names E config = heading_names_new E (pc_heading config # pc_heading_aliases config)"

definition MINUTES_PER_DAY :: nat where "MINUTES_PER_DAY = 24 * 60"

datatype ItemTiming = Timed nat nat | Unscheduled | Point nat

datatype ItemWeight = Normal | Status

record 'd PlanItem =
  pi_row :: nat
  pi_done :: bool
  pi_weight :: ItemWeight
  pi_struck :: bool
  pi_label :: rstr
  pi_timing :: ItemTiming
  pi_section :: "rstr option"
  pi_reminder_min :: "nat option"
  pi_carried_from :: "'d option"

type_synonym 'd DayPlan = "'d PlanItem list"

definition plan_sections :: "'d DayPlan \<Rightarrow> rstr list" where
  "plan_sections plan =
     fold (\<lambda>item acc. case pi_section item of
             Some s \<Rightarrow> if s \<in> set acc then acc else acc @ [s] | None \<Rightarrow> acc) plan []"

definition unscheduled_indices :: "'d DayPlan \<Rightarrow> nat list" where
  "unscheduled_indices plan = map fst (filter (\<lambda>(_, item). pi_timing item = Unscheduled) (enumerate 0 plan))"

fun is_timed :: "ItemTiming \<Rightarrow> bool" where
  "is_timed (Timed _ _) = True"
| "is_timed _ = False"

definition has_timed_items :: "'d DayPlan \<Rightarrow> bool" where
  "has_timed_items plan \<longleftrightarrow> list_ex (\<lambda>item. is_timed (pi_timing item)) plan"

definition plan_points :: "'d DayPlan \<Rightarrow> (nat \<times> nat) list" where
  "plan_points plan =
     sort_key (\<lambda>(index, at_min). (at_min, index))
       (List.map_filter (\<lambda>(index, item). case pi_timing item of
            Point at_min \<Rightarrow> Some (index, at_min)
          | _ \<Rightarrow> map_option (\<lambda>at_min. (index, at_min)) (pi_reminder_min item)) (enumerate 0 plan))"

section \<open>Reading a task line\<close>

definition task_bullet :: "rchar \<Rightarrow> bool" where
  "task_bullet c \<longleftrightarrow> c = 45 \<or> c = 42 \<or> c = 43"

text \<open>A box after the space that follows a bullet: its state and what comes after it.\<close>

definition task_box :: "rstr \<Rightarrow> (bool \<times> rstr) option" where
  "task_box s =
     (case s of
        o0 # c # o1 # after_checkbox \<Rightarrow>
          if o0 \<noteq> 91 \<or> o1 \<noteq> 93 then None
          else if c = 32 then Some (False, after_checkbox)
          else if c = 120 \<or> c = 88 then Some (True, after_checkbox)
          else None
      | _ \<Rightarrow> None)"

definition parse_task_line :: "rstr \<Rightarrow> (bool \<times> rstr) option" where
  "parse_task_line line =
     (case trim_start line of
        [] \<Rightarrow> None
      | b # after_bullet \<Rightarrow>
          if \<not> task_bullet b then None
          else let after_space = trim_start after_bullet
               in if length after_space = length after_bullet then None
                  else case task_box after_space of
                         None \<Rightarrow> None
                       | Some (done, after_checkbox) \<Rightarrow>
                           let t = trim_start after_checkbox
                           in if length t = length after_checkbox \<and> t \<noteq> [] then None else Some (done, t))"

section \<open>Times\<close>

definition parse_time_prefix :: "rstr \<Rightarrow> (nat \<times> rstr) option" where
  "parse_time_prefix t =
     (let hour_digits = length (takeWhile is_ascii_digit (take 2 t))
      in if hour_digits = 0 \<or> get_at t hour_digits \<noteq> Some 58 then None
         else if length t < hour_digits + 3 then None
         else let minutes_text = segment t (hour_digits + 1) (hour_digits + 3)
              in if \<not> list_all is_ascii_digit minutes_text then None
                 else let hours = digits_value (take hour_digits t); minutes = digits_value minutes_text
                      in if 23 < hours \<or> 59 < minutes then None
                         else Some (hours * 60 + minutes, drop (hour_digits + 3) t))"

definition plan_range_end :: "rstr \<Rightarrow> (nat \<times> rstr) option" where
  "plan_range_end t =
     (let trimmed = trim_start t
      in case or_else (strip_prefix [8211] trimmed)
                (or_else (strip_prefix [8212] trimmed)
                  (or_else (strip_prefix [45] trimmed) (strip_prefix (lit ''to'') trimmed))) of
           None \<Rightarrow> None
         | Some s \<Rightarrow>
             let after_separator = trim_start s
             in case strip_prefix (lit ''24:00'') after_separator of
                  Some rest \<Rightarrow> Some (MINUTES_PER_DAY, rest)
                | None \<Rightarrow> parse_time_prefix after_separator)"

definition plan_label_after :: "rstr \<Rightarrow> rstr option" where
  "plan_label_after after_token =
     (if after_token = [] then Some []
      else let rest = trim_start after_token
           in if length rest < length after_token then Some rest else None)"

text \<open>\<open>u32\<close> addition as the release build does it.\<close>

definition add_u32 :: "nat \<Rightarrow> nat \<Rightarrow> nat" where
  "add_u32 a b = nat ((int a + int b) mod 4294967296)"

definition parse_leading_time :: "rstr \<Rightarrow> nat \<Rightarrow> (nat \<times> nat \<times> rstr) option" where
  "parse_leading_time t default_duration =
     (case parse_time_prefix t of
        None \<Rightarrow> None
      | Some (start_min, after_start) \<Rightarrow>
          let default_end = min (add_u32 start_min default_duration) MINUTES_PER_DAY
          in (case Option.bind (plan_range_end after_start)
                     (\<lambda>(range_end, after_end). map_option (\<lambda>rest. (range_end, rest)) (plan_label_after after_end)) of
                Some (range_end, rest) \<Rightarrow>
                  Some (start_min, if start_min < range_end then range_end else default_end, rest)
              | None \<Rightarrow> map_option (\<lambda>rest. (start_min, default_end, rest)) (plan_label_after after_start)))"

definition parse_grid_bound :: "rstr \<Rightarrow> nat option" where
  "parse_grid_bound t =
     (let trimmed = trim t
      in if trimmed = lit ''24:00'' then Some MINUTES_PER_DAY
         else case parse_time_prefix trimmed of
                None \<Rightarrow> None
              | Some (minutes, rest) \<Rightarrow> if rest = [] then Some minutes else None)"

section \<open>The plan of a note\<close>

text \<open>chrono with the hour and minute of a time.\<close>

record ('d, 't) plan_clock =
  pk_chrono :: "('d, 't) chrono"
  pk_hour_minute :: "'t \<Rightarrow> nat \<times> nat"

record 'd PlanReminders =
  pr_day :: "'d option"
  pr_day_headings :: "rstr list"

definition reminders_default :: "'d PlanReminders" where
  "reminders_default = \<lparr>pr_day = None, pr_day_headings = [DEFAULT_DAY_HEADING]\<rparr>"

definition minute_of_day :: "('d, 't) plan_clock \<Rightarrow> 't \<Rightarrow> nat" where
  "minute_of_day K time = (let (h, m) = pk_hour_minute K time in h * 60 + m)"

definition token_minute :: "('d, 't) plan_clock \<Rightarrow> rstr \<Rightarrow> 'd option \<Rightarrow> nat option" where
  "token_minute K line day =
     (case Option.bind (parse_line (pk_chrono K) line day) lr_token of
        None \<Rightarrow> None
      | Some token \<Rightarrow>
          (case tok_when token of
             WTime time \<Rightarrow> Some (minute_of_day K time)
           | WDateTime date time \<Rightarrow> if Some date = day then Some (minute_of_day K time) else None
           | WDate date \<Rightarrow> None))"

definition unwrap_strikethrough :: "rstr \<Rightarrow> rstr \<times> bool" where
  "unwrap_strikethrough t =
     (let trimmed = trim t
      in case inline_strikethroughs trimmed of
           [r] \<Rightarrow> if st_range r = (0, length trimmed)
                  then (trim (segment trimmed (fst (st_text r)) (snd (st_text r))), True)
                  else (trimmed, False)
         | _ \<Rightarrow> (trimmed, False))"

definition strip_trailing_metadata :: "('d, 't) plan_clock \<Rightarrow> rstr \<Rightarrow> rstr" where
  "strip_trailing_metadata K label = trim_end (take (trailing_metadata_start (pk_chrono K) label) label)"

definition mirror_item :: "('d, 't) plan_clock \<Rightarrow> nat \<Rightarrow> ('d, 't) MirrorLine \<Rightarrow> rstr option \<Rightarrow> 'd PlanItem" where
  "mirror_item K row mirror sec =
     \<lparr>pi_row = row, pi_done = ml_checked mirror, pi_weight = Normal, pi_struck = ml_mark mirror \<noteq> None,
      pi_label = ml_text mirror,
      pi_timing = (case ml_time mirror of Some time \<Rightarrow> Point (minute_of_day K time) | None \<Rightarrow> Unscheduled),
      pi_section = sec, pi_reminder_min = None, pi_carried_from = map_option due_date (ml_carried mirror)\<rparr>"

definition task_item :: "('d, 't) plan_clock \<Rightarrow> DayPlannerConfig \<Rightarrow> 'd option \<Rightarrow> nat \<Rightarrow> rstr \<Rightarrow> bool \<Rightarrow> rstr \<Rightarrow>
    rstr option \<Rightarrow> 'd PlanItem" where
  "task_item K config day row line done task_text0 sec =
     (let weight = (if is_status (line_event_kind line) then Status else Normal);
          (task_text, struck_line) = unwrap_strikethrough (strip_trailing_metadata K task_text0);
          (timing, label0) = (case parse_leading_time task_text (pc_default_duration config) of
             Some (start_min, end_min, rest) \<Rightarrow> (Timed start_min end_min, rest)
           | None \<Rightarrow> (Unscheduled, task_text));
          (label, struck_label) = unwrap_strikethrough (strip_reminder (pk_chrono K) label0)
      in \<lparr>pi_row = row, pi_done = done, pi_weight = weight, pi_struck = (struck_line \<or> struck_label),
          pi_label = label, pi_timing = timing, pi_section = sec,
          pi_reminder_min = token_minute K line day, pi_carried_from = None\<rparr>)"

fun plan_loop :: "env \<Rightarrow> ('d, 't) plan_clock \<Rightarrow> DayPlannerConfig \<Rightarrow> 'd PlanReminders \<Rightarrow> nat option \<Rightarrow>
    (nat \<times> rstr) list \<Rightarrow> rstr option \<Rightarrow> 'd PlanItem list" where
  "plan_loop E K config reminders planner_level [] current = []"
| "plan_loop E K config reminders planner_level ((row, line) # rest) current =
     (case Option.bind planner_level (\<lambda>pl. Option.bind (heading_level_and_text line)
              (\<lambda>(level, t). if level = pl + 1 then Some t else None)) of
        Some t \<Rightarrow> plan_loop E K config reminders planner_level rest (Some t)
      | None \<Rightarrow>
          let in_day_section = is_some_and current (\<lambda>sec. list_ex (heading_matches E sec) (pr_day_headings reminders))
          in (case (if in_day_section then mirror_parse (pk_chrono K) line else None) of
                Some mirror \<Rightarrow>
                  mirror_item K row mirror current # plan_loop E K config reminders planner_level rest current
              | None \<Rightarrow>
                  (case parse_task_line line of
                     None \<Rightarrow> plan_loop E K config reminders planner_level rest current
                   | Some (done, task_text) \<Rightarrow>
                       task_item K config (pr_day reminders) row line done task_text current
                       # plan_loop E K config reminders planner_level rest current)))"

definition parse_day_plan_for :: "env \<Rightarrow> ('d, 't) plan_clock \<Rightarrow> rstr \<Rightarrow> DayPlannerConfig \<Rightarrow> 'd PlanReminders \<Rightarrow> 'd DayPlan" where
  "parse_day_plan_for E K t config reminders =
     (let lines = str_lines t;
          (rows, planner_level) = (case planner_section E lines (heading_names E config) of
             Some (rows, level) \<Rightarrow> (rows, Some level)
           | None \<Rightarrow> ((0, length lines), None))
      in plan_loop E K config reminders planner_level
           (enumerate (fst rows) (segment lines (fst rows) (snd rows))) None)"

definition parse_day_plan :: "env \<Rightarrow> ('d, 't) plan_clock \<Rightarrow> rstr \<Rightarrow> DayPlannerConfig \<Rightarrow> 'd DayPlan" where
  "parse_day_plan E K t config = parse_day_plan_for E K t config reminders_default"

section \<open>Colours\<close>

definition fnv_step :: "byte \<Rightarrow> 64 word \<Rightarrow> 64 word" where
  "fnv_step b hash = xor hash (ucast b) * 0x100000001b3"

definition section_palette_index :: "env \<Rightarrow> rstr \<Rightarrow> nat \<Rightarrow> nat" where
  "section_palette_index E name palette_len =
     (if palette_len = 0 then 0
      else unat (fold fnv_step (utf8 (str_to_lowercase E (trim name))) 0xcbf29ce484222325) mod palette_len)"

definition section_palette_slot :: "env \<Rightarrow> rstr \<Rightarrow> DayPlannerConfig \<Rightarrow> nat \<Rightarrow> nat" where
  "section_palette_slot E name config palette_len =
     (case pc_sections config (str_to_lowercase E (trim name)) of
        Some pinned \<Rightarrow> if pinned < palette_len then pinned else section_palette_index E name palette_len
      | None \<Rightarrow> section_palette_index E name palette_len)"

section \<open>Layout\<close>

definition grid_bounds :: "'d DayPlan \<Rightarrow> DayPlannerConfig \<Rightarrow> nat \<times> nat" where
  "grid_bounds plan config =
     (let (s1, e1) = fold (\<lambda>item (s, e). case pi_timing item of
                         Timed start_min end_min \<Rightarrow> (min s start_min, max e end_min) | _ \<Rightarrow> (s, e))
                       plan (min (pc_day_start config) (pc_day_end config - 60), pc_day_end config);
          (s2, e2) = fold (\<lambda>(_, at_min) (s, e). (min s at_min, max e (at_min + 1))) (plan_points plan) (s1, e1)
      in (s2 div 60 * 60, (e2 + 59) div 60 * 60))"

record PlacedBlock =
  pb_item_index :: nat
  pb_start_min :: nat
  pb_end_min :: nat
  pb_column :: nat
  pb_column_count :: nat

definition visual_end :: "nat \<Rightarrow> PlacedBlock \<Rightarrow> nat" where
  "visual_end min_visual b = max (pb_end_min b) (pb_start_min b + min_visual)"

text \<open>Greedy colouring: the ends of the columns, and the blocks with their columns.\<close>

fun columns_loop :: "nat \<Rightarrow> PlacedBlock list \<Rightarrow> nat list \<Rightarrow> PlacedBlock list \<times> nat list" where
  "columns_loop mv [] ends = ([], ends)"
| "columns_loop mv (b # bs) ends =
     (let (column, ends') = (case find (\<lambda>i. ends ! i \<le> pb_start_min b) [0..<length ends] of
             Some column \<Rightarrow> (column, ends[column := visual_end mv b])
           | None \<Rightarrow> (length ends, ends @ [visual_end mv b]));
          (rest, final) = columns_loop mv bs ends'
      in (b\<lparr>pb_column := column\<rparr> # rest, final))"

definition assign_columns :: "PlacedBlock list \<Rightarrow> nat \<Rightarrow> PlacedBlock list" where
  "assign_columns cluster mv =
     (let (placed, ends) = columns_loop mv cluster []
      in map (\<lambda>b. b\<lparr>pb_column_count := max (length ends) 1\<rparr>) placed)"

fun lane_loop :: "nat \<Rightarrow> nat list \<Rightarrow> PlacedBlock list \<Rightarrow> nat \<Rightarrow> nat \<Rightarrow> PlacedBlock list" where
  "lane_loop mv [] blocks cluster_start cluster_max_end = blocks"
| "lane_loop mv (index # rest) blocks cluster_start cluster_max_end =
     (let cluster_ended = (case get_at blocks index of
             Some b \<Rightarrow> cluster_start < index \<and> cluster_max_end \<le> pb_start_min b
           | None \<Rightarrow> cluster_start < index);
          blocks' = (if cluster_ended
                     then take cluster_start blocks @ assign_columns (segment blocks cluster_start index) mv @ drop index blocks
                     else blocks);
          start' = (if cluster_ended then index else cluster_start);
          end' = (if cluster_ended then 0 else cluster_max_end)
      in lane_loop mv rest blocks' start'
           (case get_at blocks' index of Some b \<Rightarrow> max end' (visual_end mv b) | None \<Rightarrow> end'))"

definition lane_blocks :: "'d DayPlan \<Rightarrow> ItemWeight \<Rightarrow> PlacedBlock list" where
  "lane_blocks plan weight =
     sort_key (\<lambda>b. (pb_start_min b, pb_end_min b))
       (List.map_filter (\<lambda>(index, item). case pi_timing item of
            Timed s e \<Rightarrow> Some \<lparr>pb_item_index = index, pb_start_min = s, pb_end_min = e, pb_column = 0, pb_column_count = 1\<rparr>
          | _ \<Rightarrow> None) (filter (\<lambda>(_, item). pi_weight item = weight) (enumerate 0 plan)))"

definition layout_lane :: "'d DayPlan \<Rightarrow> ItemWeight \<Rightarrow> nat \<Rightarrow> PlacedBlock list" where
  "layout_lane plan weight mv =
     (let blocks = lane_blocks plan weight in lane_loop mv [0..<length blocks + 1] blocks 0 0)"

definition layout_blocks :: "'d DayPlan \<Rightarrow> nat \<Rightarrow> PlacedBlock list" where
  "layout_blocks plan mv = layout_lane plan Normal mv @ layout_lane plan Status mv"

definition has_status_blocks :: "'d DayPlan \<Rightarrow> bool" where
  "has_status_blocks plan \<longleftrightarrow> list_ex (\<lambda>item. pi_weight item = Status \<and> is_timed (pi_timing item)) plan"

end
