(* ===== verification/Day_Plan_Props.thy ===== *)
theory Day_Plan_Props
  imports Day_Plan Reminder_Props
begin

text \<open>
  The Day Planner's properties: the layout of timed blocks keeps them apart and places each once, every
  timed item lies within the day, and the desk's heading key is the sync core's.  The lemmas on the
  layout state what one cluster's columns are; those on the scanners relate the desk's code spans,
  comments and links, which it collects in lists, to the core's accumulating loops.
\<close>

section \<open>Columns\<close>

text \<open>A block without its place.\<close>

definition unplaced :: "PlacedBlock \<Rightarrow> PlacedBlock" where
  "unplaced b = b\<lparr>pb_column := 0, pb_column_count := 1\<rparr>"

lemma unplaced_fields [simp]:
  "pb_start_min (unplaced b) = pb_start_min b" "pb_end_min (unplaced b) = pb_end_min b"
  "pb_item_index (unplaced b) = pb_item_index b" "visual_end mv (unplaced b) = visual_end mv b"
  "unplaced (b\<lparr>pb_column := c\<rparr>) = unplaced b" "unplaced (b\<lparr>pb_column_count := c\<rparr>) = unplaced b"
  by (simp_all add: unplaced_def visual_end_def)

lemma visual_end_place [simp]:
  "visual_end mv (b\<lparr>pb_column := c\<rparr>) = visual_end mv b" "visual_end mv (b\<lparr>pb_column_count := c\<rparr>) = visual_end mv b"
  by (simp_all add: visual_end_def)

lemma start_le_visual_end: "pb_start_min b \<le> visual_end mv b"
  by (simp add: visual_end_def)

text \<open>Two blocks side by side in one lane: in one column the first ends, as drawn, before the second starts,
  and blocks that overlap belong to one cluster.\<close>

definition apart :: "nat \<Rightarrow> PlacedBlock \<Rightarrow> PlacedBlock \<Rightarrow> bool" where
  "apart mv a b \<longleftrightarrow> (pb_column a = pb_column b \<longrightarrow> visual_end mv a \<le> pb_start_min b) \<and>
     (pb_start_min b < visual_end mv a \<longrightarrow> pb_column_count a = pb_column_count b)"

lemma columns_loop_spec:
  assumes "columns_loop mv bs ends = (placed, final)"
  shows "length ends \<le> length final \<and> (\<forall>b \<in> set placed. pb_column b < length final) \<and>
    (\<forall>b \<in> set placed. pb_column b < length ends \<longrightarrow> ends ! pb_column b \<le> pb_start_min b) \<and>
    sorted_wrt (\<lambda>a b. pb_column a = pb_column b \<longrightarrow> visual_end mv a \<le> pb_start_min b) placed \<and>
    map unplaced placed = map unplaced bs"
  using assms
proof (induction mv bs ends arbitrary: placed final rule: columns_loop.induct)
  case (2 mv b bs ends)
  obtain column ends' where c: "(case find (\<lambda>i. ends ! i \<le> pb_start_min b) [0..<length ends] of
      Some column \<Rightarrow> (column, ends[column := visual_end mv b]) | None \<Rightarrow> (length ends, ends @ [visual_end mv b])) = (column, ends')"
    by (metis surj_pair)
  obtain rest where r: "columns_loop mv bs ends' = (rest, final)" "placed = b\<lparr>pb_column := column\<rparr> # rest"
    using "2.prems" c by (auto split: prod.splits)
  note IH = "2.IH" [OF c [symmetric] refl r(1)]
  have col: "length ends \<le> length ends'" "column < length ends'" "ends' ! column = visual_end mv b"
      "column < length ends \<Longrightarrow> ends ! column \<le> pb_start_min b"
      "\<And>i. i < length ends \<Longrightarrow> i \<noteq> column \<Longrightarrow> ends' ! i = ends ! i"
    using c by (auto split: option.splits simp: find_Some_iff nth_append)
  have older: "ends ! pb_column x \<le> pb_start_min x" if x: "x \<in> set rest" "pb_column x < length ends" for x
  proof (cases "pb_column x = column")
    case True
    then have "visual_end mv b \<le> pb_start_min x" using IH x col(1,3) by fastforce
    then show ?thesis using True x(2) col(4) start_le_visual_end [of b mv] by simp
  next
    case False
    then show ?thesis using IH x col(1,5) by fastforce
  qed
  have "visual_end mv b \<le> pb_start_min x" if "x \<in> set rest" "pb_column x = column" for x
    using IH that col(2,3) by fastforce
  then show ?case using IH col older by (auto simp: r(2))
qed simp

lemma assign_columns_spec:
  "sorted_wrt (apart mv) (assign_columns bs mv)" "map unplaced (assign_columns bs mv) = map unplaced bs"
  "b \<in> set (assign_columns bs mv) \<Longrightarrow> pb_column b < pb_column_count b"
proof -
  obtain placed final where c: "columns_loop mv bs [] = (placed, final)" by force
  note spec = columns_loop_spec [OF c]
  show "sorted_wrt (apart mv) (assign_columns bs mv)"
    using spec by (auto simp: assign_columns_def c sorted_wrt_map apart_def elim: sorted_wrt_mono_rel [rotated])
  show "map unplaced (assign_columns bs mv) = map unplaced bs"
    using spec by (simp add: assign_columns_def c comp_def)
  show "b \<in> set (assign_columns bs mv) \<Longrightarrow> pb_column b < pb_column_count b"
    using spec by (auto simp: assign_columns_def c)
qed

section \<open>Lanes\<close>

definition lane_ok :: "nat \<Rightarrow> PlacedBlock list \<Rightarrow> bool" where
  "lane_ok mv bs \<longleftrightarrow> sorted_wrt (apart mv) bs \<and> (\<forall>b \<in> set bs. pb_column b < pb_column_count b)"

definition precedes :: "nat \<Rightarrow> PlacedBlock list \<Rightarrow> PlacedBlock list \<Rightarrow> bool" where
  "precedes mv as bs \<longleftrightarrow> (\<forall>a \<in> set as. \<forall>b \<in> set bs. visual_end mv a \<le> pb_start_min b)"

lemma set_unplaced: "map unplaced as = map unplaced bs \<Longrightarrow> a \<in> set as \<Longrightarrow>
    \<exists>b \<in> set bs. unplaced b = unplaced a"
  by (metis (no_types, lifting) image_iff list.set_map)

lemma precedes_unplaced:
  assumes "map unplaced as = map unplaced as'" "map unplaced bs = map unplaced bs'"
  shows "precedes mv as bs \<longleftrightarrow> precedes mv as' bs'"
proof -
  have "precedes mv xs ys \<longleftrightarrow> precedes mv (map unplaced xs) (map unplaced ys)" for xs ys
    by (simp add: precedes_def)
  then show ?thesis using assms by metis
qed

lemma lane_ok_append:
  assumes "lane_ok mv settled" "lane_ok mv bs" "precedes mv settled bs"
  shows "lane_ok mv (settled @ bs)"
  using assms by (auto simp: lane_ok_def sorted_wrt_append precedes_def apart_def) (metis leD)

lemma lane_ok_assign: "lane_ok mv (assign_columns bs mv)"
  using assign_columns_spec by (simp add: lane_ok_def)

lemma lane_loop_open:
  assumes "get_at blocks n = Some b" and "\<not> (start < n \<and> peak \<le> pb_start_min b)"
  shows "lane_loop mv (n # rest) blocks start peak = lane_loop mv rest blocks start (max peak (visual_end mv b))"
proof -
  have "(start < n \<and> peak \<le> pb_start_min b) = False" using assms(2) by simp
  then show ?thesis by (simp only: lane_loop.simps Let_def assms(1) option.case if_False)
qed

lemma lane_loop_close:
  assumes "get_at blocks n = Some b" and "start < n" and "peak \<le> pb_start_min b"
    and "blocks' = take start blocks @ assign_columns (segment blocks start n) mv @ drop n blocks"
    and "get_at blocks' n = Some b"
  shows "lane_loop mv (n # rest) blocks start peak = lane_loop mv rest blocks' n (visual_end mv b)"
proof -
  have "(start < n \<and> peak \<le> pb_start_min b) = True" using assms(2,3) by simp
  then show ?thesis
    by (simp only: lane_loop.simps Let_def assms(1) option.case if_True assms(4) [symmetric] assms(5) max_0L)
qed

lemma lane_loop_spec:
  assumes "sorted_wrt (\<lambda>a b. pb_start_min a \<le> pb_start_min b) (P @ F)" and "lane_ok mv settled" and "precedes mv settled (P @ F)"
    and "\<And>p. p \<in> set P \<Longrightarrow> visual_end mv p \<le> peak"
    and "result = lane_loop mv [length (settled @ P)..<length (settled @ P @ F) + 1] (settled @ P @ F) (length settled) peak"
  shows "lane_ok mv result \<and> map unplaced result = map unplaced (settled @ P @ F)"
  using assms
proof (induction F arbitrary: settled P peak)
  case Nil
  have "result = settled @ assign_columns P mv"
    using Nil(5) by (cases P) (simp_all add: Let_def get_at_def segment_def assign_columns_def)
  moreover have "precedes mv settled (assign_columns P mv)"
    using Nil(3) precedes_unplaced [of settled settled "assign_columns P mv" P mv] assign_columns_spec(2) by simp
  ultimately show ?case using lane_ok_append Nil(2) lane_ok_assign assign_columns_spec(2) by simp
next
  case (Cons b F)
  let ?n = "length (settled @ P)"
  have range: "[?n..<length (settled @ P @ b # F) + 1] = ?n # [?n + 1..<length (settled @ P @ b # F) + 1]"
    by (subst upt_rec) simp
  have at: "get_at (settled @ P @ b # F) ?n = Some b" by (simp add: nth_append)
  show ?case
  proof (cases "P \<noteq> [] \<and> peak \<le> pb_start_min b")
    case True
    let ?d = "settled @ assign_columns P mv"
    have len: "length (assign_columns P mv) = length P" using assign_columns_spec(2) [of P mv] by (metis length_map)
    have "get_at (?d @ [b] @ F) ?n = Some b" using len by (simp add: nth_append)
    then have "lane_loop mv (?n # [?n + 1..<length (settled @ P @ b # F) + 1]) (settled @ P @ b # F) (length settled) peak =
        lane_loop mv [?n + 1..<length (settled @ P @ b # F) + 1] (?d @ [b] @ F) ?n (visual_end mv b)"
      using True by (intro lane_loop_close [OF at]) (simp_all add: segment_def)
    then have res: "result = lane_loop mv [length (?d @ [b])..<length (?d @ [b] @ F) + 1] (?d @ [b] @ F) (length ?d) (visual_end mv b)"
      using Cons.prems(5) len unfolding range by simp
    have "precedes mv P (b # F)"
      unfolding precedes_def
    proof (intro ballI)
      fix p x assume "p \<in> set P" "x \<in> set (b # F)"
      then have "visual_end mv p \<le> pb_start_min b" "pb_start_min b \<le> pb_start_min x"
        using Cons.prems(1,4) True by (fastforce simp: sorted_wrt_append)+
      then show "visual_end mv p \<le> pb_start_min x" by simp
    qed
    then have "precedes mv (assign_columns P mv) (b # F)"
      using precedes_unplaced [of "assign_columns P mv" P "b # F" "b # F" mv] assign_columns_spec(2) by simp
    then have "precedes mv ?d ([b] @ F)" using Cons.prems(3) by (auto simp: precedes_def)
    moreover have "lane_ok mv ?d"
      using lane_ok_append [OF Cons.prems(2) lane_ok_assign] Cons.prems(3) assign_columns_spec(2)
        precedes_unplaced [of settled settled "assign_columns P mv" P mv] by (auto simp: precedes_def)
    moreover have "sorted_wrt (\<lambda>a b. pb_start_min a \<le> pb_start_min b) ([b] @ F)"
      using Cons.prems(1) by (simp add: sorted_wrt_append)
    ultimately have "lane_ok mv result \<and> map unplaced result = map unplaced (?d @ [b] @ F)"
      using Cons.IH [of "[b]" ?d "visual_end mv b"] res by simp
    then show ?thesis using assign_columns_spec(2) by simp
  next
    case False
    have "result = lane_loop mv [length (settled @ P @ [b])..<length (settled @ (P @ [b]) @ F) + 1] (settled @ (P @ [b]) @ F)
        (length settled) (max peak (visual_end mv b))"
      using Cons.prems(5) False lane_loop_open [OF at, of "length settled" peak] unfolding range by simp
    moreover have "visual_end mv p \<le> max peak (visual_end mv b)" if "p \<in> set (P @ [b])" for p
      using that Cons.prems(4) by (auto simp: le_max_iff_disj)
    ultimately show ?thesis using Cons.IH [of "P @ [b]" settled "max peak (visual_end mv b)"] Cons.prems(1-3) by simp
  qed
qed

lemma layout_lane_spec:
  "lane_ok mv (layout_lane plan weight mv)" "map unplaced (layout_lane plan weight mv) = map unplaced (lane_blocks plan weight)"
proof -
  let ?bs = "lane_blocks plan weight"
  have "sorted (map (\<lambda>b. (pb_start_min b, pb_end_min b)) ?bs)" by (simp add: lane_blocks_def)
  then have "sorted_wrt (\<lambda>a b. pb_start_min a \<le> pb_start_min b) ([] @ ?bs)"
    by (simp add: sorted_map) (erule sorted_wrt_mono_rel [rotated], auto simp: less_eq_prod_def)
  from lane_loop_spec [OF this, of mv "[]" 0 "layout_lane plan weight mv"]
  show "lane_ok mv (layout_lane plan weight mv)" "map unplaced (layout_lane plan weight mv) = map unplaced (lane_blocks plan weight)"
    by (simp_all add: layout_lane_def Let_def lane_ok_def precedes_def)
qed

section \<open>Every timed item once\<close>

definition placed_timing :: "PlacedBlock \<Rightarrow> nat \<times> ItemTiming" where
  "placed_timing b = (pb_item_index b, Timed (pb_start_min b) (pb_end_min b))"

lemma placed_timing_unplaced [simp]: "placed_timing (unplaced b) = placed_timing b"
  by (simp add: placed_timing_def)

lemma lane_blocks_timings:
  "mset (map placed_timing (lane_blocks plan weight)) =
     mset (map (\<lambda>(i, item). (i, pi_timing item))
       (filter (\<lambda>(i, item). pi_weight item = weight \<and> is_timed (pi_timing item)) (enumerate 0 plan)))"
proof -
  let ?f = "\<lambda>(index, item). case pi_timing item of
      Timed s e \<Rightarrow> Some \<lparr>pb_item_index = index, pb_start_min = s, pb_end_min = e, pb_column = 0, pb_column_count = 1\<rparr> | _ \<Rightarrow> None"
  have 1: "map placed_timing (List.map_filter ?f xs) = map (\<lambda>(i, item). (i, pi_timing item)) (filter (\<lambda>(i, item). is_timed (pi_timing item)) xs)"
    for xs :: "(nat \<times> 'a PlanItem) list"
    by (induction xs) (auto simp: map_filter_simps placed_timing_def split: ItemTiming.split)
  have 2: "filter (\<lambda>(i, item). is_timed (pi_timing item)) (filter (\<lambda>(i, item). pi_weight item = weight) xs) =
      filter (\<lambda>(i, item). pi_weight item = weight \<and> is_timed (pi_timing item)) xs" for xs :: "(nat \<times> 'a PlanItem) list"
    by (simp add: case_prod_unfold conj_commute)
  have 3: "mset (map placed_timing (sort_key key bs)) = mset (map placed_timing bs)" for bs and key :: "PlacedBlock \<Rightarrow> nat \<times> nat"
    by simp
  show ?thesis unfolding lane_blocks_def 3 1 2 ..
qed

section \<open>Bounds of times\<close>

lemma time_prefix_bound: "parse_time_prefix t = Some (m, rest) \<Longrightarrow> m < MINUTES_PER_DAY"
  by (auto simp: parse_time_prefix_def MINUTES_PER_DAY_def Let_def split: if_splits)

lemma range_end_bound: "plan_range_end t = Some (m, rest) \<Longrightarrow> m \<le> MINUTES_PER_DAY"
  by (auto simp: plan_range_end_def Let_def split: option.splits dest!: time_prefix_bound)

lemma leading_time_bound:
  assumes "parse_leading_time t d = Some (s, e, rest)" and "1 \<le> d" and "d + MINUTES_PER_DAY \<le> 2 ^ 32"
  shows "s < e \<and> e \<le> MINUTES_PER_DAY"
proof -
  from assms(1) obtain after where s: "parse_time_prefix t = Some (s, after)"
    by (auto simp: parse_leading_time_def Let_def split: option.splits)
  then have s_le: "s < MINUTES_PER_DAY" by (rule time_prefix_bound)
  then have "add_u32 s d = s + d" using assms(3) by (simp add: add_u32_def nat_add_distrib)
  then have d: "s < min (add_u32 s d) MINUTES_PER_DAY" using s_le assms(2) by simp
  have "e = min (add_u32 s d) MINUTES_PER_DAY \<or> s < e \<and> (\<exists>r. plan_range_end after = Some (e, r))"
    using assms(1) s by (auto simp: parse_leading_time_def Let_def split: option.splits if_splits bind_splits)
  then show ?thesis using d range_end_bound by auto
qed

definition timing_ok :: "ItemTiming \<Rightarrow> bool" where
  "timing_ok timing = (case timing of Timed s e \<Rightarrow> s < e \<and> e \<le> MINUTES_PER_DAY | _ \<Rightarrow> True)"

lemma item_timing:
  "timing_ok (pi_timing (mirror_item K row m sec))"
  "1 \<le> pc_default_duration config \<Longrightarrow> pc_default_duration config + MINUTES_PER_DAY \<le> 2 ^ 32 \<Longrightarrow>
     timing_ok (pi_timing (task_item K config day row line ticked t sec))"
  using leading_time_bound [of _ "pc_default_duration config"]
  by (fastforce simp: mirror_item_def task_item_def timing_ok_def Let_def split: prod.splits option.splits)+

lemma plan_loop_timing:
  assumes "1 \<le> pc_default_duration config" and "pc_default_duration config + MINUTES_PER_DAY \<le> 2 ^ 32"
  shows "item \<in> set (plan_loop E K config reminders pl rows current) \<Longrightarrow> timing_ok (pi_timing item)"
proof (induction rows arbitrary: current)
  case (Cons row rows)
  obtain r line where "row = (r, line)" by (cases row)
  then show ?case
    using Cons item_timing(1) item_timing(2) [OF assms]
    by (auto simp: Let_def split: option.splits if_splits prod.splits)
qed simp

section \<open>Two scanners, one key\<close>

lemma code_runs_find:
  "code_runs s cursor =
     (case str_find [96] s of
        None \<Rightarrow> []
      | Some r \<Rightarrow> let n = run_length 96 (drop r s) in (cursor + r, n) # code_runs (drop (r + n) s) (cursor + r + n))"
proof (induction s arbitrary: cursor)
  case (Cons c s)
  show ?case
  proof (cases "c = 96")
    case True
    then show ?thesis by (simp add: code_runs.simps(2) Let_def)
  next
    case False
    then have "code_runs (c # s) cursor = code_runs s (cursor + 1)" by (simp add: code_runs.simps(2))
    then show ?thesis using False Cons.IH [of "cursor + 1"] by (simp add: Let_def split: option.split)
  qed
qed (simp add: code_runs.simps)

text \<open>The closing run the sync core searches for is the next run of that length.\<close>

lemma code_span_close_runs:
  "(case dropWhile (\<lambda>r. snd r \<noteq> len) (code_runs (drop search t) search) of
      [] \<Rightarrow> code_span_close t len search = None
    | (c, l) # rest \<Rightarrow> code_span_close t len search = Some (c + l) \<and> rest = code_runs (drop (c + l) t) (c + l))"
proof (induction t len search rule: code_span_close.induct)
  case (1 t len search)
  show ?case
  proof (cases "str_find [96] (drop search t)")
    case None
    then show ?thesis by (simp add: code_runs_find [of "drop search t"] code_span_close.simps [of t len search])
  next
    case (Some r)
    let ?c = "search + r"
    let ?n = "run_length 96 (drop ?c t)"
    have runs: "code_runs (drop search t) search = (?c, ?n) # code_runs (drop (?c + ?n) t) (?c + ?n)"
      by (subst code_runs_find) (simp add: Some Let_def add.commute add.left_commute)
    show ?thesis
    proof (cases "?n = len")
      case True
      then show ?thesis using Some by (simp add: runs code_span_close.simps [of t len search] Let_def)
    next
      case False
      then have "code_span_close t len search = code_span_close t len (?c + ?n)"
        by (simp add: code_span_close.simps [of t len search] Some Let_def)
      moreover have "dropWhile (\<lambda>r. snd r \<noteq> len) (code_runs (drop search t) search) =
          dropWhile (\<lambda>r. snd r \<noteq> len) (code_runs (drop (?c + ?n) t) (?c + ?n))" using False by (simp add: runs)
      ultimately show ?thesis using "1.IH" [OF Some refl refl False] by (simp only:)
    qed
  qed
qed

lemma code_spans_loop_runs:
  "code_spans_loop t cursor spans = spans @ map cs_range (pair_runs (code_runs (drop cursor t) cursor))"
proof (induction t cursor spans rule: code_spans_loop.induct)
  case (1 t cursor spans)
  show ?case
  proof (cases "str_find [96] (drop cursor t)")
    case None
    then show ?thesis
      by (simp add: code_runs_find [of "drop cursor t"] code_spans_loop.simps [of t cursor spans] pair_runs.simps)
  next
    case (Some r)
    let ?o = "cursor + r"
    let ?n = "run_length 96 (drop ?o t)"
    let ?rest = "code_runs (drop (?o + ?n) t) (?o + ?n)"
    have runs: "code_runs (drop cursor t) cursor = (?o, ?n) # ?rest"
      by (subst code_runs_find) (simp add: Some Let_def add.commute add.left_commute)
    have loop: "code_spans_loop t cursor spans = (case code_span_close t ?n (?o + ?n) of
        Some close \<Rightarrow> code_spans_loop t close (spans @ [(?o, close)]) | None \<Rightarrow> code_spans_loop t (?o + ?n) spans)"
      by (simp add: code_spans_loop.simps [of t cursor spans] Some Let_def)
    show ?thesis
    proof (cases "dropWhile (\<lambda>r. snd r \<noteq> ?n) ?rest")
      case Nil
      then have "code_span_close t ?n (?o + ?n) = None"
        using code_span_close_runs [where len = ?n and search = "?o + ?n" and t = t] by (simp del: dropWhile_eq_Nil_conv)
      then show ?thesis using "1.IH"(1) [OF Some refl refl] Nil by (simp add: loop runs pair_runs.simps(2) del: dropWhile_eq_Nil_conv)
    next
      case (Cons x rest')
      obtain c l where x: "x = (c, l)" by (cases x)
      then have close: "code_span_close t ?n (?o + ?n) = Some (c + l)" "rest' = code_runs (drop (c + l) t) (c + l)"
        using code_span_close_runs [where len = ?n and search = "?o + ?n" and t = t] Cons by simp_all
      then show ?thesis using "1.IH"(2) [OF Some refl refl close(1)] close(2) Cons x by (simp add: loop runs pair_runs.simps(2))
    qed
  qed
qed

lemma code_spans_agree: "code_spans t = code_span_ranges t"
  by (simp add: code_spans_def code_span_ranges_def desk_code_spans_def code_spans_loop_runs)

lemma comment_ranges_agree:
  assumes "\<And>r. r \<in> set done \<Longrightarrow> snd r \<le> cursor"
  shows "comment_ranges t cursor (code @ done) = code @ done @ comments_from t code cursor"
  using assms
proof (induction t code cursor arbitrary: "done" rule: comments_from.induct)
  case (1 line code cursor)
  show ?case
  proof (cases "str_find COMMENT_OPEN (drop cursor line)")
    case None
    then show ?thesis by (simp add: comment_ranges.simps [of line cursor] comments_from.simps [of line code cursor])
  next
    case (Some i)
    let ?s = "i + cursor"
    show ?thesis
    proof (cases "str_find COMMENT_CLOSE (drop (?s + 4) line)")
      case None
      then show ?thesis using Some
        by (simp add: comment_ranges.simps [of line cursor] comments_from.simps [of line code cursor] Let_def add.commute)
    next
      case (Some j)
      let ?r = "(?s, j + (?s + 4) + 3)"
      have "\<not> list_ex (\<lambda>other. overlaps other ?r) done" using "1.prems" by (fastforce simp: list_ex_iff overlaps_def)
      then have ex: "list_ex (\<lambda>other. overlaps other ?r) (code @ done) = overlaps_excluded code ?r"
        by (simp add: overlaps_excluded_def)
      let ?done = "done @ (if overlaps_excluded code ?r then [] else [?r])"
      have prem: "snd r \<le> snd ?r" if "r \<in> set ?done" for r
        using that "1.prems" [of r] by (cases "overlaps_excluded code ?r") auto
      have "comment_ranges line (snd ?r) (code @ ?done) = code @ ?done @ comments_from line code (snd ?r)"
        using "1.IH" [OF \<open>str_find COMMENT_OPEN (drop cursor line) = Some i\<close> refl refl Some refl, of ?done] prem by simp
      moreover have "comment_ranges line cursor (code @ done) = comment_ranges line (snd ?r) (code @ ?done)"
        using \<open>str_find COMMENT_OPEN (drop cursor line) = Some i\<close> Some ex
        by (simp add: comment_ranges.simps [of line cursor "code @ done"] Let_def add.commute add.left_commute)
      moreover have "comments_from line code cursor = (if overlaps_excluded code ?r then [] else [?r]) @ comments_from line code (snd ?r)"
        using \<open>str_find COMMENT_OPEN (drop cursor line) = Some i\<close> Some by (simp add: comments_from.simps [of line code cursor] Let_def)
      ultimately show ?thesis by simp
    qed
  qed
qed

lemma exclusions_agree: "inline_exclusions t = desk_inline_exclusions t"
  using comment_ranges_agree [of "[]" 0 t "code_span_ranges t"]
  by (simp add: inline_exclusions_def desk_inline_exclusions_def html_comment_ranges_def code_spans_agree Let_def)

lemma parse_link_agrees: "parse_link t start = map_option (\<lambda>l. (il_range l, il_label l)) (link_at t start)"
  by (simp add: parse_link_def link_at_def parse_wikilink_def desk_parse_wikilink_def parse_inline_link_def
      desk_parse_inline_link_def balanced_destination_def Let_def split: option.split prod.split)

lemma reduce_loop_agrees:
  "cursor \<le> scan \<Longrightarrow> reduce_loop t excluded out cursor scan = out @ plain_loop t (each_inline_link t scan excluded) cursor"
proof (induction t excluded out cursor scan rule: reduce_loop.induct)
  case (1 t excluded out cursor scan)
  note reduce = reduce_loop.simps [of t excluded out cursor scan] and each = each_inline_link.simps [of t scan excluded]
  show ?case
  proof (cases "str_find [91] (drop scan t)")
    case None
    then show ?thesis by (simp add: reduce each)
  next
    case (Some rel)
    let ?o = "scan + rel"
    have le: "cursor \<le> ?o + 1" using "1.prems" by simp
    consider (escaped) "0 < ?o \<and> (t ! (?o - 1) = 33 \<or> t ! (?o - 1) = 92)"
      | (excluded) r where "\<not> (0 < ?o \<and> (t ! (?o - 1) = 33 \<or> t ! (?o - 1) = 92))" "find (in_range ?o) excluded = Some r"
      | (free) "\<not> (0 < ?o \<and> (t ! (?o - 1) = 33 \<or> t ! (?o - 1) = 92))" "find (in_range ?o) excluded = None" by blast
    then show ?thesis
    proof cases
      case escaped
      then show ?thesis using "1.IH"(1) [OF Some refl escaped le] by (simp add: reduce each Some Let_def)
    next
      case (excluded r)
      then have "cursor \<le> snd r" using find_SomeD [OF excluded(2)] "1.prems" by (simp add: in_range_def)
      then show ?thesis using "1.IH"(5) [OF Some refl excluded] excluded by (auto simp: reduce each Some Let_def)
    next
      case free
      show ?thesis
      proof (cases "link_at t ?o")
        case None
        then show ?thesis using "1.IH"(2) [OF Some refl free _ le] free
          by (simp add: reduce each Some Let_def parse_link_agrees)
      next
        case (Some l)
        have p: "parse_link t ?o = Some (il_range l, il_label l)" by (simp add: parse_link_agrees Some)
        have start: "fst (il_range l) = ?o" using link_at_range [OF Some] by simp
        show ?thesis
        proof (cases "overlaps_excluded excluded (il_range l)")
          case True
          then show ?thesis
            using "1.IH"(3) [OF \<open>str_find [91] (drop scan t) = Some rel\<close> refl free p refl _ le] free Some
            by (simp add: reduce each \<open>str_find [91] (drop scan t) = Some rel\<close> Let_def p overlaps_excluded_def)
        next
          case False
          then show ?thesis
            using "1.IH"(4) [OF \<open>str_find [91] (drop scan t) = Some rel\<close> refl free p refl] free Some start "1.prems"
            by (auto simp: reduce each \<open>str_find [91] (drop scan t) = Some rel\<close> Let_def p overlaps_excluded_def)
        qed
      qed
    qed
  qed
qed

section \<open>Evaluated instances\<close>

definition sample_plan :: "nat DayPlan" where
  "sample_plan = map (\<lambda>(row, s, e). \<lparr>pi_row = row, pi_done = False, pi_weight = Normal, pi_struck = False, pi_label = lit ''x'',
      pi_timing = Timed s e, pi_section = None, pi_reminder_min = None, pi_carried_from = None\<rparr>) [(0, 6, 9), (1, 7, 8), (2, 9, 11)]"

lemma sample_lane: "length (layout_lane sample_plan Normal 2) = 3"
  by code_simp

definition sample_plan_clock :: "(int \<times> nat \<times> nat, nat \<times> nat \<times> nat \<times> nat) plan_clock" where
  "sample_plan_clock = \<lparr>pk_chrono = sample_chrono, pk_hour_minute = (\<lambda>(h, m, s, n). (h, m))\<rparr>"

definition sample_day :: rstr where
  "sample_day = from_lines [''## Day planner'', ''- [ ] 00:05 - 00:09 tea'']"

definition sample_planner :: DayPlannerConfig where
  "sample_planner = planner_default\<lparr>pc_day_start := 0, pc_day_end := 9, pc_default_duration := 3\<rparr>"

lemma sample_day_plan:
  "parse_day_plan_for ascii_env sample_plan_clock sample_day sample_planner reminders_default \<noteq> []"
proof -
  have "planner_section ascii_env (str_lines sample_day) (heading_names ascii_env sample_planner) = Some ((1, 2), 2)"
    "segment (str_lines sample_day) 1 2 = [lit ''- [ ] 00:05 - 00:09 tea'']"
    "heading_level_and_text (lit ''- [ ] 00:05 - 00:09 tea'') = None"
    "parse_task_line (lit ''- [ ] 00:05 - 00:09 tea'') = Some (False, lit ''00:05 - 00:09 tea'')" by code_simp+
  then show ?thesis by (simp add: parse_day_plan_for_def del: lit_simps)
qed

section \<open>Properties\<close>

text \<open>C27: No two blocks of a lane are drawn over each other: in one column the earlier block ends, as drawn,
  before the later one starts; every column is within the width its cluster is divided into; and
  blocks that overlap agree on that width.\<close>

theorem layout_apart:
  assumes "i < j" and "j < length (layout_lane plan weight mv)"
  shows "let a = layout_lane plan weight mv ! i; b = layout_lane plan weight mv ! j
     in pb_column a < pb_column_count a \<and> pb_column b < pb_column_count b \<and>
        (pb_column a = pb_column b \<longrightarrow> visual_end mv a \<le> pb_start_min b) \<and>
        (pb_start_min b < visual_end mv a \<longrightarrow> pb_column_count a = pb_column_count b)"
proof -
  have ok: "lane_ok mv (layout_lane plan weight mv)" by (rule layout_lane_spec)
  then have "apart mv (layout_lane plan weight mv ! i) (layout_lane plan weight mv ! j)"
    using assms by (auto simp: lane_ok_def intro: sorted_wrt_nth_less)
  moreover have "layout_lane plan weight mv ! k \<in> set (layout_lane plan weight mv)" if "k \<le> j" for k
    using assms(2) that by simp
  ultimately show ?thesis using ok assms(1) by (simp add: Let_def lane_ok_def apart_def)
qed

theorem layout_apart_witness:
  "let a = layout_lane sample_plan Normal 2 ! 0; b = layout_lane sample_plan Normal 2 ! 1
   in pb_column a < pb_column_count a \<and> pb_column b < pb_column_count b \<and> (pb_column a \<noteq> pb_column b \<or> visual_end 2 a \<le> pb_start_min b) \<and>
      (visual_end 2 a \<le> pb_start_min b \<or> pb_column_count a = pb_column_count b)"
  using layout_apart [of 0 1 sample_plan Normal 2] by (auto simp: sample_lane Let_def)

text \<open>Every timed item of a lane is laid out exactly once, at its own times.\<close>

theorem layout_places_each_item:
  "mset (map (\<lambda>b. (pb_item_index b, Timed (pb_start_min b) (pb_end_min b))) (layout_lane plan weight mv)) =
     mset (map (\<lambda>(i, item). (i, pi_timing item))
       (filter (\<lambda>(i, item). pi_weight item = weight \<and> is_timed (pi_timing item)) (enumerate 0 plan)))"
proof -
  have "map placed_timing (layout_lane plan weight mv) = map placed_timing (map unplaced (layout_lane plan weight mv))"
    by (simp add: comp_def)
  also have "\<dots> = map placed_timing (lane_blocks plan weight)" unfolding layout_lane_spec(2) by (simp add: comp_def)
  finally show ?thesis using lane_blocks_timings [of plan weight] by (simp add: placed_timing_def [abs_def])
qed

text \<open>Every timed item of a plan lies within the day and ends after it starts, whatever the note says, when
  the configured duration is at least one minute and a day short of the width of \<open>u32\<close>.\<close>

theorem timed_items_bounded:
  assumes "1 \<le> pc_default_duration config" and "pc_default_duration config + 1440 \<le> 2 ^ 32"
    and "item \<in> set (parse_day_plan_for E K t config reminders)"
  shows "case pi_timing item of Timed s e \<Rightarrow> s < e \<and> e \<le> 1440 | _ \<Rightarrow> True"
proof -
  have "pc_default_duration config + MINUTES_PER_DAY \<le> 2 ^ 32" using assms(2) by (simp add: MINUTES_PER_DAY_def)
  from plan_loop_timing [OF assms(1) this] assms(3) have "timing_ok (pi_timing item)"
    by (auto simp: parse_day_plan_for_def Let_def split: option.splits)
  then show ?thesis by (simp add: timing_ok_def MINUTES_PER_DAY_def split: ItemTiming.splits)
qed

theorem timed_items_bounded_witness:
  "case pi_timing (hd (parse_day_plan_for ascii_env sample_plan_clock sample_day sample_planner reminders_default)) of
     Timed s e \<Rightarrow> s < e \<and> e \<le> 1440 | _ \<Rightarrow> True"
proof -
  have "1 \<le> pc_default_duration sample_planner" "pc_default_duration sample_planner + 1440 \<le> 2 ^ 32"
    by (simp_all add: sample_planner_def)
  then show ?thesis by (rule timed_items_bounded) (rule hd_in_set [OF sample_day_plan])
qed

text \<open>The desk and the sync core agree on the key of every heading, though each has its own scanner of
  code spans, comments and links: a heading one of them finds by its key the other finds too.\<close>

theorem heading_keys_agree: "desk_heading_key E t = heading_key E t"
  by (simp add: desk_heading_key_def heading_key_def reduce_links_def inline_links_def reduce_loop_agrees exclusions_agree)

end
