(* ===== verification/Backlog.thy ===== *)
theory Backlog
  imports Day_Plan
begin

text \<open>
  The backlog file (\<open>crates/thock/src/backlog.rs\<close>): its sections, categories and tasks with the
  spans they occupy, and the edits a gesture becomes.  Byte offsets of the source are character
  offsets here, so a range is cut at a character boundary by construction; a line number keeps the
  width \<open>u32\<close> it is stored at.  \<open>apply_edits\<close> is modelled as a release build runs it, with \<open>None\<close>
  for the panic of \<open>replace_range\<close> on a text that earlier edits made too short.  chrono's
  formatting and parsing of a date and the marker of a landed email are parameters.
\<close>

section \<open>Sections, tasks and categories\<close>

datatype SectionKind = Soon | Someday | Completed

record BacklogHeadings =
  bh_soon :: rstr
  bh_someday :: rstr
  bh_completed :: rstr

definition ALL_KINDS :: "SectionKind list" where
  "ALL_KINDS = [Soon, Someday, Completed]"

fun section_id :: "SectionKind \<Rightarrow> rstr" where
  "section_id Soon = lit ''soon''"
| "section_id Someday = lit ''someday''"
| "section_id Completed = lit ''completed''"

fun default_heading :: "SectionKind \<Rightarrow> rstr" where
  "default_heading Soon = lit ''Soon''"
| "default_heading Someday = lit ''Someday''"
| "default_heading Completed = lit ''Completed''"

fun section_heading :: "SectionKind \<Rightarrow> BacklogHeadings \<Rightarrow> rstr" where
  "section_heading Soon hs = bh_soon hs"
| "section_heading Someday hs = bh_someday hs"
| "section_heading Completed hs = bh_completed hs"

definition headings_default :: BacklogHeadings where
  "headings_default =
     \<lparr>bh_soon = default_heading Soon, bh_someday = default_heading Someday, bh_completed = default_heading Completed\<rparr>"

definition section_from_id :: "rstr \<Rightarrow> SectionKind option" where
  "section_from_id i = find (\<lambda>k. eq_ignore_ascii_case (section_id k) i) ALL_KINDS"

fun section_index :: "SectionKind \<Rightarrow> nat" where
  "section_index Soon = 0"
| "section_index Someday = 1"
| "section_index Completed = 2"

record BacklogTask =
  bt_line :: nat
  bt_span :: "nat \<times> nat"
  bt_text_span :: "nat \<times> nat"
  bt_text :: rstr
  bt_checked :: bool
  bt_category :: "rstr option"

record Category =
  cat_name :: rstr
  cat_line :: nat

record Backlog =
  bk_soon :: "BacklogTask list"
  bk_someday :: "BacklogTask list"
  bk_completed :: "BacklogTask list"
  bk_categories :: "Category list list"

definition backlog_default :: Backlog where
  "backlog_default = \<lparr>bk_soon = [], bk_someday = [], bk_completed = [], bk_categories = [[], [], []]\<rparr>"

definition categories :: "Backlog \<Rightarrow> SectionKind \<Rightarrow> Category list" where
  "categories b k = bk_categories b ! section_index k"

fun backlog_section :: "Backlog \<Rightarrow> SectionKind \<Rightarrow> BacklogTask list" where
  "backlog_section b Soon = bk_soon b"
| "backlog_section b Someday = bk_someday b"
| "backlog_section b Completed = bk_completed b"

definition backlog_is_empty :: "Backlog \<Rightarrow> bool" where
  "backlog_is_empty b \<longleftrightarrow> list_all bt_checked (bk_soon b) \<and> list_all bt_checked (bk_someday b)"

definition locate_task :: "Backlog \<Rightarrow> SectionKind \<Rightarrow> nat \<Rightarrow> rstr \<Rightarrow> BacklogTask option" where
  "locate_task b k line t =
     (let tasks = backlog_section b k
      in case find (\<lambda>task. bt_line task = line \<and> bt_text task = t) tasks of
           Some task \<Rightarrow> Some task
         | None \<Rightarrow> (case filter (\<lambda>task. bt_text task = t) tasks of [task] \<Rightarrow> Some task | _ \<Rightarrow> None))"

section \<open>Edits\<close>

record Edit =
  ed_range :: "nat \<times> nat"
  ed_new_text :: rstr

definition in_text :: "rstr \<Rightarrow> nat \<times> nat \<Rightarrow> bool" where
  "in_text t r \<longleftrightarrow> fst r \<le> snd r \<and> snd r \<le> length t"

definition splice_range :: "nat \<times> nat \<Rightarrow> rstr \<Rightarrow> rstr \<Rightarrow> rstr option" where
  "splice_range r new t = (if in_text t r then Some (take (fst r) t @ new @ drop (snd r) t) else None)"

fun apply_loop :: "rstr \<Rightarrow> Edit list \<Rightarrow> rstr \<Rightarrow> rstr option" where
  "apply_loop t [] result = Some result"
| "apply_loop t (e # es) result =
     (if in_text t (ed_range e)
      then (case splice_range (ed_range e) (ed_new_text e) result of
              None \<Rightarrow> None
            | Some result' \<Rightarrow> apply_loop t es result')
      else apply_loop t es result)"

definition apply_edits :: "rstr \<Rightarrow> Edit list \<Rightarrow> rstr option" where
  "apply_edits t edits = apply_loop t (sort_key (\<lambda>e. - int (fst (ed_range e))) edits) t"

section \<open>Lines and sections of a text\<close>

record NoteLine =
  ln_content :: rstr
  ln_start :: nat
  ln_end :: nat

definition line_content :: "rstr \<Rightarrow> rstr" where
  "line_content w = (case strip_suffix [10] w of Some c \<Rightarrow> c | None \<Rightarrow> w)"

fun line_loop :: "rstr list \<Rightarrow> nat \<Rightarrow> NoteLine list" where
  "line_loop [] start = []"
| "line_loop (w # ws) start =
     \<lparr>ln_content = line_content w, ln_start = start,
      ln_end = start + length w\<rparr> # line_loop ws (start + length w)"

definition line_table :: "rstr \<Rightarrow> NoteLine list" where
  "line_table t = line_loop (split_inclusive t) 0"

definition section_line_range :: "env \<Rightarrow> NoteLine list \<Rightarrow> HeadingNames \<Rightarrow> ((nat \<times> nat) \<times> nat) option" where
  "section_line_range E lines names =
     (case best_heading E (map (\<lambda>(i, l). (i, ln_content l)) (enumerate 0 lines)) names None of
        None \<Rightarrow> None
      | Some (start, level) \<Rightarrow> Some ((start + 1, section_end (map ln_content lines) start level), level))"

definition resolve_section :: "env \<Rightarrow> NoteLine list \<Rightarrow> SectionKind \<Rightarrow> BacklogHeadings \<Rightarrow> ((nat \<times> nat) \<times> nat) option" where
  "resolve_section E lines k hs =
     section_line_range E lines (heading_names_new E [section_heading k hs, default_heading k])"

definition find_row :: "nat \<times> nat \<Rightarrow> (nat \<Rightarrow> bool) \<Rightarrow> nat option" where
  "find_row rows p = find p [fst rows..<snd rows]"

definition row_or :: "nat \<Rightarrow> nat option \<Rightarrow> nat" where
  "row_or d found = (case found of Some row \<Rightarrow> row | None \<Rightarrow> d)"

definition heading_at :: "NoteLine list \<Rightarrow> nat \<Rightarrow> (nat \<times> rstr) option" where
  "heading_at lines row = heading_level_and_text (ln_content (lines ! row))"

definition category_line_range :: "NoteLine list \<Rightarrow> nat \<times> nat \<Rightarrow> nat \<Rightarrow> rstr option \<Rightarrow> (nat \<times> nat) option" where
  "category_line_range lines rows level category =
     (case category of
        None \<Rightarrow>
          Some (fst rows, row_or (snd rows)
            (find_row rows (\<lambda>row. is_some_and (heading_at lines row) (\<lambda>(other, _). level < other))))
      | Some name \<Rightarrow>
          (case find_row rows (\<lambda>row. is_some_and (heading_at lines row) (\<lambda>(other, t). level < other \<and> t = name)) of
             None \<Rightarrow> None
           | Some start \<Rightarrow>
               Some (start + 1, row_or (snd rows)
                 (find_row (start + 1, snd rows) (\<lambda>row. heading_at lines row \<noteq> None)))))"

section \<open>Parsing\<close>

definition blank_or_tab :: "rchar \<Rightarrow> bool" where
  "blank_or_tab c \<longleftrightarrow> c = 32 \<or> c = 9"

definition checkbox_state :: "rchar \<Rightarrow> bool option" where
  "checkbox_state c = (if c = 32 then Some False else if c = 120 \<or> c = 88 then Some True else None)"

definition parse_top_level_task :: "rstr \<Rightarrow> (bool \<times> nat) option" where
  "parse_top_level_task line =
     (case line of
        [] \<Rightarrow> None
      | c # after_bullet \<Rightarrow>
          if c \<noteq> 45 \<and> c \<noteq> 42 \<and> c \<noteq> 43 then None
          else let after_space = trim_start_matches blank_or_tab after_bullet
               in if length after_space = length after_bullet then None
                  else (case after_space of
                          b # x # e # after_checkbox \<Rightarrow>
                            if b \<noteq> 91 \<or> e \<noteq> 93 then None
                            else (case checkbox_state x of
                                    None \<Rightarrow> None
                                  | Some checked \<Rightarrow>
                                      let t = trim_start after_checkbox
                                      in if length t = length after_checkbox \<and> t \<noteq> [] then None
                                         else Some (checked, length line - length t))
                        | _ \<Rightarrow> None))"

definition is_child_line :: "rstr \<Rightarrow> bool" where
  "is_child_line line \<longleftrightarrow> line \<noteq> [] \<and> blank_or_tab (hd line) \<and> trim line \<noteq> []"

text \<open>The last row of a task's block: the last child line before the next line that is neither a child nor blank.\<close>

function last_child :: "NoteLine list \<Rightarrow> nat \<Rightarrow> nat \<Rightarrow> nat \<Rightarrow> nat" where
  "last_child lines stop probe last_row =
     (if probe < stop \<and> probe < length lines
      then let content = ln_content (lines ! probe)
           in if is_child_line content then last_child lines stop (probe + 1) probe
              else if trim content \<noteq> [] then last_row
              else last_child lines stop (probe + 1) last_row
      else last_row)"
  by pat_completeness auto
termination
  by (relation "measure (\<lambda>(lines, stop, probe, _). stop - probe)") auto

declare last_child.simps [simp del]

lemma last_child_ge: "last_row < probe \<Longrightarrow> last_row \<le> last_child lines stop probe last_row"
proof (induction lines stop probe last_row rule: last_child.induct)
  case (1 lines stop probe last_row)
  then show ?case by (subst last_child.simps) (fastforce simp: Let_def)
qed

definition as_u32 :: "nat \<Rightarrow> nat" where
  "as_u32 n = nat (int n mod 4294967296)"

definition add_category :: "Category list \<Rightarrow> rstr \<Rightarrow> nat \<Rightarrow> Category list" where
  "add_category cats name row =
     (if list_ex (\<lambda>other. cat_name other = name) cats then cats
      else cats @ [\<lparr>cat_name = name, cat_line = as_u32 row\<rparr>])"

definition task_at :: "NoteLine list \<Rightarrow> nat \<Rightarrow> nat \<Rightarrow> bool \<Rightarrow> nat \<Rightarrow> rstr option \<Rightarrow> BacklogTask" where
  "task_at lines row last_row checked column category =
     (let line = lines ! row
      in \<lparr>bt_line = as_u32 row, bt_span = (ln_start line, ln_end (lines ! last_row)),
          bt_text_span = (ln_start line + column, ln_start line + length (ln_content line)),
          bt_text = drop column (ln_content line), bt_checked = checked, bt_category = category\<rparr>)"

function section_loop :: "NoteLine list \<Rightarrow> nat \<Rightarrow> nat \<Rightarrow> nat \<Rightarrow> rstr option \<Rightarrow> BacklogTask list \<Rightarrow> Category list \<Rightarrow>
    BacklogTask list \<times> Category list" where
  "section_loop lines level stop row category tasks cats =
     (if row < stop \<and> row < length lines
      then case heading_level_and_text (ln_content (lines ! row)) of
          Some (heading_level, name) \<Rightarrow>
            if level < heading_level
            then section_loop lines level stop (row + 1) (if name = [] then None else Some name) tasks
                   (if name = [] then cats else add_category cats name row)
            else section_loop lines level stop (row + 1) category tasks cats
        | None \<Rightarrow>
            (case parse_top_level_task (ln_content (lines ! row)) of
               None \<Rightarrow> section_loop lines level stop (row + 1) category tasks cats
             | Some (checked, column) \<Rightarrow>
                 let last_row = last_child lines stop (row + 1) row
                 in section_loop lines level stop (last_row + 1) category
                      (tasks @ [task_at lines row last_row checked column category]) cats)
      else (tasks, cats))"
  by pat_completeness auto
termination
  using last_child_ge [of _ "Suc _"]
  by (relation "measure (\<lambda>(lines, level, stop, row, _). stop - row)")
     (auto intro!: diff_less_mono2 simp: less_Suc_eq_le)

declare section_loop.simps [simp del]

fun set_section :: "SectionKind \<Rightarrow> BacklogTask list \<Rightarrow> Category list \<Rightarrow> Backlog \<Rightarrow> Backlog" where
  "set_section Soon tasks cats b = b\<lparr>bk_soon := tasks, bk_categories := (bk_categories b)[0 := cats]\<rparr>"
| "set_section Someday tasks cats b = b\<lparr>bk_someday := tasks, bk_categories := (bk_categories b)[1 := cats]\<rparr>"
| "set_section Completed tasks cats b = b\<lparr>bk_completed := tasks, bk_categories := (bk_categories b)[2 := cats]\<rparr>"

definition parse_backlog :: "env \<Rightarrow> rstr \<Rightarrow> BacklogHeadings \<Rightarrow> Backlog" where
  "parse_backlog E t hs =
     (let lines = line_table t
      in fold (\<lambda>k b. case resolve_section E lines k hs of
                 None \<Rightarrow> b
               | Some (rows, level) \<Rightarrow>
                   (let (tasks, cats) = section_loop lines level (snd rows) (fst rows) None [] []
                    in set_section k tasks cats b))
           ALL_KINDS backlog_default)"

end
