(* ===== verification/Backlog_Edit.thy ===== *)
theory Backlog_Edit
  imports Backlog
begin

text \<open>
  The edits of the backlog file and of a daily note (\<open>crates/thock/src/backlog.rs\<close>): renaming,
  completing and moving a task, appending to a section, and the keys that find duplicates.  An edit
  addresses the text the model was parsed from.
\<close>

section \<open>Appending\<close>

definition insert_after_line :: "NoteLine list \<Rightarrow> nat \<Rightarrow> rstr \<Rightarrow> Edit" where
  "insert_after_line lines row new =
     (let line = lines ! row;
          has_newline = (ln_start line + length (ln_content line) < ln_end line)
      in \<lparr>ed_range = (ln_end line, ln_end line), ed_new_text = (if has_newline then new else [10] @ new)\<rparr>)"

definition last_non_blank :: "NoteLine list \<Rightarrow> nat \<times> nat \<Rightarrow> nat option" where
  "last_non_blank lines rows = find (\<lambda>row. trim (ln_content (lines ! row)) \<noteq> []) (rev [fst rows..<snd rows])"

definition missing_section_edit :: "rstr \<Rightarrow> rstr \<Rightarrow> rstr option \<Rightarrow> rstr \<Rightarrow> Edit" where
  "missing_section_edit t heading category block =
     (let lead = (if t = [] then [] else if ends_with [10] t then [10] else [10, 10]);
          body = (case category of Some name \<Rightarrow> lit ''### '' @ name @ [10, 10] @ block | None \<Rightarrow> block)
      in \<lparr>ed_range = (length t, length t), ed_new_text = lead @ lit ''## '' @ heading @ [10, 10] @ body\<rparr>)"

definition append_to_section_edit :: "env \<Rightarrow> rstr \<Rightarrow> SectionKind \<Rightarrow> rstr option \<Rightarrow> rstr \<Rightarrow> BacklogHeadings \<Rightarrow> Edit" where
  "append_to_section_edit E t k category block hs =
     (let lines = line_table t
      in case resolve_section E lines k hs of
           None \<Rightarrow> missing_section_edit t (section_heading k hs) category block
         | Some (rows, level) \<Rightarrow>
             (case category_line_range lines rows level category of
                Some grp \<Rightarrow>
                  (case last_non_blank lines grp of
                     Some row \<Rightarrow> insert_after_line lines row block
                   | None \<Rightarrow> insert_after_line lines (fst grp - 1) ([10] @ block))
              | None \<Rightarrow>
                  (let name = (case category of Some n \<Rightarrow> n | None \<Rightarrow> []);
                       anchor = row_or (fst rows - 1) (last_non_blank lines rows)
                   in insert_after_line lines anchor ([10] @ lit ''### '' @ name @ [10, 10] @ block))))"

definition append_block_to_note_edit :: "env \<Rightarrow> rstr \<Rightarrow> HeadingNames \<Rightarrow> rstr \<Rightarrow> Edit" where
  "append_block_to_note_edit E note_text names block =
     (let lines = line_table note_text
      in case section_line_range E lines names of
           Some (rows, _) \<Rightarrow>
             (let body_end = row_or (snd rows) (find_row rows (\<lambda>row. heading_at lines row \<noteq> None));
                  anchor = row_or (fst rows - 1) (last_non_blank lines (fst rows, body_end))
              in insert_after_line lines anchor block)
         | None \<Rightarrow>
             \<lparr>ed_range = (length note_text, length note_text),
              ed_new_text = (if note_text = [] \<or> ends_with [10] note_text then [] else [10]) @ block\<rparr>)"

definition append_done_to_note_edit :: "env \<Rightarrow> rstr \<Rightarrow> HeadingNames \<Rightarrow> rstr \<Rightarrow> Edit" where
  "append_done_to_note_edit E note_text names task_text =
     append_block_to_note_edit E note_text names (lit ''- [x] '' @ task_text @ [10])"

section \<open>Renaming, completing, moving\<close>

definition rename_task_edit :: "BacklogTask \<Rightarrow> rstr \<Rightarrow> Edit" where
  "rename_task_edit task new = \<lparr>ed_range = bt_text_span task, ed_new_text = new\<rparr>"

definition task_block :: "rstr \<Rightarrow> BacklogTask \<Rightarrow> rstr" where
  "task_block t task =
     (let raw = (if in_text t (bt_span task) then segment t (fst (bt_span task)) (snd (bt_span task)) else [])
      in if ends_with [10] raw then raw else raw @ [10])"

definition new_task_block :: "rstr \<Rightarrow> rstr" where
  "new_task_block t = lit ''- [ ] '' @ trim t @ [10]"

text \<open>\<open>str::replacen\<close> with a count of one.\<close>

definition replace_first :: "rstr \<Rightarrow> rstr \<Rightarrow> rstr \<Rightarrow> rstr" where
  "replace_first p r s = (case str_find p s of None \<Rightarrow> s | Some i \<Rightarrow> take i s @ r @ drop (i + length p) s)"

definition STAMP :: rchar where "STAMP = 9989"

definition stamp_line :: "rstr \<Rightarrow> rstr \<Rightarrow> rstr" where
  "stamp_line first_line date =
     (let split = trailing_comments_start first_line
      in trim_end (take split first_line) @ [32, STAMP, 32] @ date @ drop split first_line)"

definition completed_block :: "rstr \<Rightarrow> bool \<Rightarrow> rstr \<Rightarrow> rstr" where
  "completed_block block checked date =
     (let (first_line, children) = (case split_once [10] block of Some p \<Rightarrow> p | None \<Rightarrow> (block, []));
          ticked = (if checked then trim_end first_line
                    else replace_first (lit ''[ ]'') (lit ''[x]'') (trim_end first_line))
      in stamp_line ticked date @ [10] @ children @ (if children \<noteq> [] \<and> \<not> ends_with [10] children then [10] else []))"

definition complete_task_edits :: "env \<Rightarrow> 'd calendar \<Rightarrow> rstr \<Rightarrow> BacklogTask \<Rightarrow> 'd \<Rightarrow> BacklogHeadings \<Rightarrow> Edit list" where
  "complete_task_edits E K t task date hs =
     [\<lparr>ed_range = bt_span task, ed_new_text = []\<rparr>,
      append_to_section_edit E t Completed None
        (completed_block (task_block t task) (bt_checked task) (format_Ymd K date)) hs]"

definition move_task_edits :: "env \<Rightarrow> rstr \<Rightarrow> BacklogTask \<Rightarrow> SectionKind \<Rightarrow> BacklogHeadings \<Rightarrow> Edit list" where
  "move_task_edits E t task to hs =
     [\<lparr>ed_range = bt_span task, ed_new_text = []\<rparr>,
      append_to_section_edit E t to (bt_category task) (task_block t task) hs]"

section \<open>Completion dates and duplicates\<close>

definition looks_like_date :: "rstr \<Rightarrow> bool" where
  "looks_like_date s \<longleftrightarrow> s \<noteq> [] \<and> list_all (\<lambda>c. is_ascii_digit c \<or> c = 45) s"

definition split_completion :: "rstr \<Rightarrow> rstr \<times> rstr option" where
  "split_completion t =
     (let stamped = take (trailing_comments_start t) t
      in case str_rfind [STAMP] stamped of
           None \<Rightarrow> (t, None)
         | Some index \<Rightarrow>
             (let after = trim (drop (index + 1) stamped)
              in if looks_like_date after then (trim_end (take index t), Some after) else (t, None)))"

definition completion_date :: "(rstr \<Rightarrow> 'd option) \<Rightarrow> rstr \<Rightarrow> 'd option" where
  "completion_date parse_Ymd t = Option.bind (snd (split_completion t)) parse_Ymd"

function strip_ids_loop :: "rstr \<Rightarrow> rstr \<Rightarrow> rstr" where
  "strip_ids_loop kept rest =
     (case str_find ID_OPEN rest of
        None \<Rightarrow> kept @ rest
      | Some start \<Rightarrow>
          let after = drop (start + length ID_OPEN) rest
          in (case str_find COMMENT_CLOSE after of
                Some e \<Rightarrow>
                  if is_id (take e after) then strip_ids_loop (kept @ take start rest @ [32]) (drop (e + length COMMENT_CLOSE) after)
                  else strip_ids_loop (kept @ take (start + length ID_OPEN) rest) after
              | None \<Rightarrow> strip_ids_loop (kept @ take (start + length ID_OPEN) rest) after))"
  by pat_completeness auto
termination
  by (relation "measure (\<lambda>(kept, rest). length rest)") (auto simp: ID_OPEN_def dest!: str_find_bound)

declare strip_ids_loop.simps [simp del]

definition remove_reminder_ids :: "rstr \<Rightarrow> rstr" where
  "remove_reminder_ids t = strip_ids_loop [] t"

definition normalize_task_text :: "('d, 't) chrono \<Rightarrow> rstr \<Rightarrow> rstr" where
  "normalize_task_text C t =
     (let without_ids = remove_reminder_ids t;
          without_token =
            (case Option.bind (parse_line C without_ids None) lr_token of
               Some token \<Rightarrow> take (fst (tok_range token)) without_ids @ [32] @ drop (snd (tok_range token)) without_ids
             | None \<Rightarrow> without_ids)
      in join_with [32] (split_whitespace (fst (split_completion (trim_end without_token)))))"

definition contains_task :: "('d, 't) chrono \<Rightarrow> Backlog \<Rightarrow> rstr \<Rightarrow> bool" where
  "contains_task C b t =
     (let wanted = normalize_task_text C t
      in list_ex (\<lambda>k. list_ex (\<lambda>task. normalize_task_text C (bt_text task) = wanted) (backlog_section b k)) ALL_KINDS)"

definition GMAIL_MARKER_PREFIX :: rstr where "GMAIL_MARKER_PREFIX = lit ''<!--gmail:''"
definition GMAIL_MARKER_SUFFIX :: rstr where "GMAIL_MARKER_SUFFIX = lit ''-->''"

definition email_capture_line :: "rstr \<Rightarrow> rstr \<Rightarrow> rstr \<Rightarrow> rstr" where
  "email_capture_line title stem digest =
     lit ''- [ ] '' @ title @ lit '' [['' @ stem @ lit '']] '' @ GMAIL_MARKER_PREFIX @ digest @ GMAIL_MARKER_SUFFIX"

end
