(* ===== verification/Backlog_Props.thy ===== *)
theory Backlog_Props
  imports Backlog_Edit Bridge_Props
begin

text \<open>
  The backlog's properties.  The line table says where every line stands, \<open>task_rows\<close> which rows a
  parsed task spans, \<open>anchor_ok\<close> behind which row a block is appended; from these follow that a
  gesture loses nothing, that renaming rewrites one line, and that a completion stamp is read back.
\<close>

section \<open>The line table\<close>

lemma length_line_loop [simp]: "length (line_loop ws s) = length ws"
  by (induction ws arbitrary: s) auto

lemma line_loop_nth:
  "i < length ws \<Longrightarrow>
     line_loop ws s ! i = \<lparr>ln_content = line_content (ws ! i),
       ln_start = s + length (concat (take i ws)), ln_end = s + length (concat (take (Suc i) ws))\<rparr>"
proof (induction ws arbitrary: s i)
  case (Cons w ws)
  then show ?case by (cases i) (auto simp: add.assoc)
qed simp

lemma content_segment:
  "\<exists>e. w = line_content w @ e"
  by (auto simp: line_content_def strip_suffix_Some split: option.split)

lemma concat_take_nth: "i < length ws \<Longrightarrow> concat ws = concat (take i ws) @ ws ! i @ concat (drop (Suc i) ws)"
  by (metis concat.simps(2) concat_append id_take_nth_drop)

text \<open>A row of the table: where its line stands in the text.\<close>

lemma line_table_nth:
  assumes "i < length (line_table t)"
  defines "l \<equiv> line_table t ! i"
  shows "ln_start l + length (ln_content l) \<le> ln_end l" and "ln_start l < ln_end l" and "ln_end l \<le> length t"
    and "segment t (ln_start l) (ln_start l + length (ln_content l)) = ln_content l"
    and "Suc i < length (line_table t) \<Longrightarrow> ln_start (line_table t ! Suc i) = ln_end l"
proof -
  let ?ws = "split_inclusive t"
  have i: "i < length ?ws" using assms(1) by (simp add: line_table_def)
  define pre post where "pre = concat (take i ?ws)" and "post = concat (drop (Suc i) ?ws)"
  obtain e where e: "?ws ! i = ln_content l @ e"
    using content_segment [of "?ws ! i"] i by (auto simp: l_def line_table_def line_loop_nth)
  have t: "t = pre @ ln_content l @ e @ post"
    using concat_take_nth [OF i] e by (simp add: pre_def post_def)
  have bounds: "ln_start l = length pre" "ln_end l = length pre + length (ln_content l) + length e"
    using i arg_cong [OF e, of length] by (simp_all add: l_def line_table_def line_loop_nth pre_def take_Suc_conv_app_nth)
  have "?ws ! i \<noteq> []" using split_inclusive_nonempty [of "?ws ! i" t] i by simp
  then have "0 < length (ln_content l) + length e" unfolding e by (cases "ln_content l") auto
  then show "ln_start l + length (ln_content l) \<le> ln_end l" "ln_start l < ln_end l" by (simp_all add: bounds)
  show "ln_end l \<le> length t" by (subst t) (simp add: bounds)
  show "segment t (ln_start l) (ln_start l + length (ln_content l)) = ln_content l"
    by (subst t) (simp add: segment_def bounds)
  show "ln_start (line_table t ! Suc i) = ln_end l" if "Suc i < length (line_table t)"
    using that i by (simp add: l_def line_table_def line_loop_nth)
qed

lemma line_table_order:
  "i < j \<Longrightarrow> j < length (line_table t) \<Longrightarrow> ln_end (line_table t ! i) \<le> ln_start (line_table t ! j)"
proof (induction j)
  case (Suc j)
  show ?case
  proof (cases "i = j")
    case True
    then show ?thesis using Suc.prems line_table_nth(5) [of j t] by simp
  next
    case False
    then have "ln_end (line_table t ! i) \<le> ln_start (line_table t ! j)" using Suc by simp
    also have "\<dots> \<le> ln_end (line_table t ! j)" using Suc.prems line_table_nth(2) [of j t] by simp
    also have "\<dots> = ln_start (line_table t ! Suc j)" using Suc.prems line_table_nth(5) [of j t] by simp
    finally show ?thesis .
  qed
qed simp

lemma line_end_mono: "i \<le> j \<Longrightarrow> j < length (line_table t) \<Longrightarrow> ln_end (line_table t ! i) \<le> ln_end (line_table t ! j)"
  using line_table_order [of i j t] line_table_nth(2) [of j t] by (cases "i = j") auto

section \<open>What a section's tasks are\<close>

definition task_rows :: "NoteLine list \<Rightarrow> nat \<Rightarrow> nat \<Rightarrow> BacklogTask \<Rightarrow> bool" where
  "task_rows lines r l task \<longleftrightarrow>
     r \<le> l \<and> l < length lines \<and> heading_at lines r = None \<and> (l = r \<or> is_child_line (ln_content (lines ! l))) \<and>
     (\<exists>checked column category. parse_top_level_task (ln_content (lines ! r)) = Some (checked, column) \<and>
        task = task_at lines r l checked column category)"

definition tasks_ok :: "NoteLine list \<Rightarrow> nat \<Rightarrow> BacklogTask list \<Rightarrow> bool" where
  "tasks_ok lines bound tasks \<longleftrightarrow>
     sorted_wrt (\<lambda>a b. snd (bt_span a) \<le> fst (bt_span b)) tasks \<and>
     (\<forall>task \<in> set tasks. \<exists>r l. l < bound \<and> task_rows lines r l task)"

lemma last_child_spec:
  assumes "last_row < length lines" and "P last_row" and "\<And>i. is_child_line (ln_content (lines ! i)) \<Longrightarrow> P i"
  shows "last_child lines stop probe last_row < length lines \<and> P (last_child lines stop probe last_row)"
  using assms
proof (induction lines stop probe last_row rule: last_child.induct)
  case (1 lines stop probe last_row)
  note step = last_child.simps [of lines stop probe last_row]
  show ?case
  proof (cases "probe < stop \<and> probe < length lines")
    case True
    show ?thesis
    proof (cases "is_child_line (ln_content (lines ! probe))")
      case child: True
      then show ?thesis using "1.IH"(1) [OF True refl child] True "1.prems" by (simp add: step)
    next
      case False
      then show ?thesis using "1.IH"(2) [OF True refl False] True "1.prems" by (simp add: step)
    qed
  next
    case False
    then have "last_child lines stop probe last_row = last_row" by (subst step) (rule if_not_P)
    then show ?thesis using "1.prems" by simp
  qed
qed

lemma tasks_ok_mono: "tasks_ok lines b tasks \<Longrightarrow> b \<le> b' \<Longrightarrow> tasks_ok lines b' tasks"
  unfolding tasks_ok_def by (meson less_le_trans)

lemma tasks_ok_snoc:
  assumes "tasks_ok (line_table t) row tasks" and "task_rows (line_table t) row l task"
  shows "tasks_ok (line_table t) (l + 1) (tasks @ [task])"
proof -
  have "snd (bt_span a) \<le> fst (bt_span task)" if a: "a \<in> set tasks" for a
  proof -
    from assms(1) a obtain r' l' where "l' < row" "task_rows (line_table t) r' l' a" by (auto simp: tasks_ok_def)
    with assms(2) show ?thesis using line_table_order [of l' row t] by (auto simp: task_rows_def task_at_def Let_def)
  qed
  moreover have "row \<le> l" using assms(2) by (simp add: task_rows_def)
  moreover have "\<exists>r l'. l' < l + 1 \<and> task_rows (line_table t) r l' a" if "a \<in> set (tasks @ [task])" for a
  proof (cases "a = task")
    case True
    then show ?thesis using assms(2) by (intro exI [of _ row] exI [of _ l]) simp
  next
    case False
    with that assms(1) obtain r l' where "l' < row" "task_rows (line_table t) r l' a" by (auto simp: tasks_ok_def)
    with \<open>row \<le> l\<close> show ?thesis by (intro exI [of _ r] exI [of _ l']) simp
  qed
  ultimately show ?thesis using assms(1) by (simp add: tasks_ok_def sorted_wrt_append)
qed

lemma tasks_ok_all: "tasks_ok lines b tasks \<Longrightarrow> tasks_ok lines (length lines) tasks"
  by (fastforce simp: tasks_ok_def task_rows_def)

lemma block_rows:
  assumes "row < length lines" and "heading_at lines row = None" and "parse_top_level_task (ln_content (lines ! row)) = Some (c, col)"
  shows "task_rows lines row (last_child lines stop (row + 1) row) (task_at lines row (last_child lines stop (row + 1) row) c col cat)"
  using last_child_spec [of row lines "\<lambda>l. l = row \<or> is_child_line (ln_content (lines ! l))" stop "row + 1"]
    last_child_ge [of row "row + 1" lines stop] assms
  by (auto simp: task_rows_def)

lemma section_loop_ok:
  "lines = line_table t \<Longrightarrow> tasks_ok lines row tasks \<Longrightarrow>
   tasks_ok lines (length lines) (fst (section_loop lines level stop row category tasks cats))"
proof (induction lines level stop row category tasks cats rule: section_loop.induct)
  case (1 lines level stop row category tasks cats)
  note step = section_loop.simps [of lines level stop row category tasks cats]
  have later: "tasks_ok lines (row + 1) tasks" using "1.prems"(2) by (rule tasks_ok_mono) simp
  show ?case
  proof (cases "row < stop \<and> row < length lines")
    case True
    show ?thesis
    proof (cases "heading_level_and_text (ln_content (lines ! row))")
      case None
      show ?thesis
      proof (cases "parse_top_level_task (ln_content (lines ! row))")
        case none: None
        then show ?thesis using "1.IH"(1) [OF True None none "1.prems"(1) later] True None by (simp add: step)
      next
        case (Some p)
        obtain c col where p: "p = (c, col)" by (cases p)
        let ?l = "last_child lines stop (row + 1) row"
        have "task_rows lines row ?l (task_at lines row ?l c col category)"
          using True None Some p by (intro block_rows) (auto simp: heading_at_def)
        then have "tasks_ok lines (?l + 1) (tasks @ [task_at lines row ?l c col category])"
          using tasks_ok_snoc "1.prems" by simp
        then show ?thesis using "1.IH"(2) [OF True None Some p [symmetric] refl "1.prems"(1)] True None Some p
          by (simp add: step Let_def)
      qed
    next
      case (Some h)
      obtain lv name where h: "h = (lv, name)" by (cases h)
      then show ?thesis
        using "1.IH"(3) [OF True Some h [symmetric] _ "1.prems"(1) later] "1.IH"(4) [OF True Some h [symmetric] _ "1.prems"(1) later] True Some
        by (cases "level < lv") (simp_all add: step)
    qed
  next
    case False
    then show ?thesis using "1.prems" tasks_ok_all by (subst step) auto
  qed
qed

lemma section_tasks_ok: "tasks_ok (line_table t) (length (line_table t)) (backlog_section (parse_backlog E t hs) k)"
proof -
  have nil: "tasks_ok lines b []" for lines b by (simp add: tasks_ok_def)
  have loop: "tasks_ok (line_table t) (length (line_table t)) tasks"
    if "section_loop (line_table t) level stop row None [] [] = (tasks, cats)" for level stop row tasks cats
    using section_loop_ok [OF refl nil, of t level stop row None "[]"] that by simp
  show ?thesis
    by (cases k) (auto simp: parse_backlog_def ALL_KINDS_def backlog_default_def nil Let_def loop split: option.split prod.split)
qed

section \<open>Where a block is appended\<close>

text \<open>The rows under a heading, up to a heading or the end of the text.\<close>

definition bounded_rows :: "NoteLine list \<Rightarrow> nat \<times> nat \<Rightarrow> bool" where
  "bounded_rows lines rows \<longleftrightarrow>
     1 \<le> fst rows \<and> fst rows \<le> snd rows \<and> snd rows \<le> length lines \<and> heading_at lines (fst rows - 1) \<noteq> None \<and>
     (snd rows = length lines \<or> heading_at lines (snd rows) \<noteq> None)"




lemma find_row_SomeD: "find_row rows p = Some i \<Longrightarrow> fst rows \<le> i \<and> i < snd rows \<and> p i"
  by (auto simp: find_row_def find_Some_iff)


lemma body_rows:
  assumes "bounded_rows lines rows"
  shows "bounded_rows lines (fst rows, row_or (snd rows) (find_row rows (\<lambda>row. heading_at lines row \<noteq> None)))"
  using assms by (auto simp: bounded_rows_def row_or_def split: option.splits dest!: find_row_SomeD)


lemma last_non_blank_None:
  "last_non_blank lines rows = None \<Longrightarrow> fst rows \<le> j \<Longrightarrow> j < snd rows \<Longrightarrow> trim (ln_content (lines ! j)) = []"
  by (auto simp: last_non_blank_def find_None_iff)






section \<open>Cutting and inserting\<close>

definition no_heading_inside :: "rstr \<Rightarrow> nat \<times> nat \<Rightarrow> bool" where
  "no_heading_inside t span \<longleftrightarrow>
     list_all (\<lambda>l. fst span < ln_start l \<and> ln_start l < snd span \<longrightarrow> heading_level_and_text (ln_content l) = None) (line_table t)"


lemma top_level_task_parts:
  assumes "parse_top_level_task line = Some (checked, column)"
  obtains c w x v s where "line = (c # w @ [91, x, 93] @ v) @ s" "column = length (c # w @ [91, x, 93] @ v)"
    "c = 45 \<or> c = 42 \<or> c = 43" "w \<noteq> []" "list_all blank_or_tab w" "checkbox_state x = Some checked"
    "list_all is_whitespace v" "v = [] \<Longrightarrow> s = []"
proof -
  from assms obtain c after_bullet where line: "line = c # after_bullet" and c: "c = 45 \<or> c = 42 \<or> c = 43"
    by (auto simp: parse_top_level_task_def Let_def split: list.splits if_splits)
  define w where "w = takeWhile blank_or_tab after_bullet"
  from assms line c obtain x after_checkbox where sp: "dropWhile blank_or_tab after_bullet = 91 # x # 93 # after_checkbox"
    and x: "checkbox_state x = Some checked" and w: "length (dropWhile blank_or_tab after_bullet) \<noteq> length after_bullet"
    and s: "\<not> (length (trim_start after_checkbox) = length after_checkbox \<and> trim_start after_checkbox \<noteq> [])"
    and col: "column = length line - length (trim_start after_checkbox)"
    by (auto simp: parse_top_level_task_def Let_def trim_start_matches_def split: list.splits if_splits option.splits)
  define v where "v = takeWhile is_whitespace after_checkbox"
  have ab: "after_bullet = w @ [91, x, 93] @ after_checkbox" using sp takeWhile_dropWhile_id [of blank_or_tab after_bullet] by (simp add: w_def)
  have ac: "after_checkbox = v @ trim_start after_checkbox" by (simp add: v_def trim_start_def)
  have len: "length after_checkbox = length v + length (trim_start after_checkbox)" using arg_cong [OF ac, of length] by simp
  show thesis
  proof (rule that [of c w x v "trim_start after_checkbox"])
    show "line = (c # w @ [91, x, 93] @ v) @ trim_start after_checkbox" using line ab ac by simp
    then show "column = length (c # w @ [91, x, 93] @ v)" using col by simp
    show "w \<noteq> []" using w ab sp by auto
    show "list_all blank_or_tab w" "list_all is_whitespace v" unfolding w_def v_def list_all_iff by (auto dest: set_takeWhileD)
    show "v = [] \<Longrightarrow> trim_start after_checkbox = []" using s len by simp
  qed (use c x in auto)
qed

lemma top_level_task_column: "parse_top_level_task line = Some (checked, column) \<Longrightarrow> 1 \<le> column \<and> column \<le> length line"
  by (erule top_level_task_parts) simp

lemma task_rows_spans:
  assumes "task_rows (line_table t) r l task"
  shows "fst (bt_span task) < fst (bt_text_span task) \<and> fst (bt_text_span task) \<le> snd (bt_text_span task) \<and>
     snd (bt_text_span task) \<le> snd (bt_span task) \<and> snd (bt_span task) \<le> length t \<and>
     segment t (fst (bt_text_span task)) (snd (bt_text_span task)) = bt_text task"
proof -
  let ?ls = "line_table t"
  from assms obtain checked column category where rl: "r \<le> l" "l < length ?ls"
    and p: "parse_top_level_task (ln_content (?ls ! r)) = Some (checked, column)"
    and task: "task = task_at ?ls r l checked column category" by (auto simp: task_rows_def)
  have col: "1 \<le> column" "column \<le> length (ln_content (?ls ! r))" using top_level_task_column [OF p] by auto
  have "segment t (ln_start (?ls ! r) + column) (ln_start (?ls ! r) + length (ln_content (?ls ! r))) =
      drop column (segment t (ln_start (?ls ! r)) (ln_start (?ls ! r) + length (ln_content (?ls ! r))))"
    by (simp add: segment_def drop_take add.commute)
  then have "segment t (ln_start (?ls ! r) + column) (ln_start (?ls ! r) + length (ln_content (?ls ! r))) = drop column (ln_content (?ls ! r))"
    using rl by (simp add: line_table_nth(4))
  moreover have "ln_start (?ls ! r) + length (ln_content (?ls ! r)) \<le> ln_end (?ls ! l)"
    using rl line_table_nth(1) [of r t] line_end_mono [of r l t] by simp
  moreover have "ln_end (?ls ! l) \<le> length t" using rl by (simp add: line_table_nth(3))
  ultimately show ?thesis using col by (simp add: task task_at_def Let_def)
qed

lemma parsed_task_rows:
  assumes "task \<in> set (backlog_section (parse_backlog E t hs) k)"
  obtains r l where "task_rows (line_table t) r l task"
  using assms section_tasks_ok [of t E hs k] by (auto simp: tasks_ok_def)




section \<open>Renaming one line\<close>

definition ended :: "rstr \<Rightarrow> rstr" where
  "ended w = (if ends_with [10] w then [10] else [])"

definition pieces_ok :: "rstr list \<Rightarrow> bool" where
  "pieces_ok ws \<longleftrightarrow> (\<forall>w \<in> set ws. w \<noteq> [] \<and> 10 \<notin> set (line_content w)) \<and> (\<forall>w \<in> set (butlast ws). ends_with [10] w)"

lemma piece_parts: "w = line_content w @ ended w"
  by (auto simp: line_content_def ended_def strip_suffix_def ends_with_iff)

lemma piece_content [simp]:
  "10 \<notin> set v \<Longrightarrow> line_content (v @ [10]) = v" "10 \<notin> set v \<Longrightarrow> line_content v = v"
  by (auto simp: line_content_def strip_suffix_def ends_with_iff)

lemma split_inclusive_piece:
  "10 \<notin> set v \<Longrightarrow> split_inclusive (v @ 10 # s) = (v @ [10]) # split_inclusive s"
  "10 \<notin> set v \<Longrightarrow> v \<noteq> [] \<Longrightarrow> split_inclusive v = [v]"
proof (induction v)
  case (Cons c v)
  { case 2 then show ?case using Cons.IH(2) by (cases v) auto }
qed auto

lemma split_inclusive_ok: "pieces_ok (split_inclusive t)"
proof (induction "length t" arbitrary: t rule: less_induct)
  case less
  show ?case
  proof (cases "10 \<in> set t")
    case True
    then obtain v s where t: "t = v @ [10] @ s" and v: "10 \<notin> set v" by (auto dest: split_list_first)
    then have "pieces_ok (split_inclusive s)" using less by simp
    then show ?thesis using v by (auto simp: t split_inclusive_piece pieces_ok_def ends_with_iff split: if_splits)
  next
    case False
    then show ?thesis by (cases "t = []") (auto simp: split_inclusive_piece pieces_ok_def)
  qed
qed

lemma split_inclusive_pieces: "pieces_ok ws \<Longrightarrow> split_inclusive (concat ws) = ws"
proof (induction ws)
  case (Cons w ws)
  have w: "10 \<notin> set (line_content w)" "w \<noteq> []" using Cons.prems by (simp_all add: pieces_ok_def)
  have ws: "split_inclusive (concat ws) = ws" using Cons by (cases ws) (auto simp: pieces_ok_def)
  show ?case
  proof (cases "ends_with [10] w")
    case True
    then have "w = line_content w @ [10]" using piece_parts [of w] by (simp add: ended_def)
    then show ?thesis using split_inclusive_piece(1) [OF w(1), of "concat ws"] ws
      by (metis append.assoc append_Cons append_Nil concat.simps(2))
  next
    case False
    then have "ws = []" "w = line_content w" using Cons.prems piece_parts [of w] by (auto simp: pieces_ok_def ended_def split: if_splits)
    then show ?thesis using w split_inclusive_piece(2) [of w] by simp
  qed
qed simp

lemma pieces_ok_update:
  assumes "pieces_ok ws" and "i < length ws" and "10 \<notin> set v" and "v \<noteq> []"
  shows "pieces_ok (ws[i := v @ ended (ws ! i)])"
proof -
  have "line_content (v @ ended (ws ! i)) = v" using assms(3) by (simp add: ended_def)
  moreover have "ends_with [10] (v @ ended (ws ! i))" if "i < length (butlast ws)"
  proof -
    have "butlast ws ! i \<in> set (butlast ws)" using that by (rule nth_mem)
    then have "ends_with [10] (ws ! i)" using assms(1) that by (simp add: pieces_ok_def nth_butlast)
    then show ?thesis by (simp add: ended_def ends_with_iff)
  qed
  ultimately show ?thesis using assms
    by (cases "i < length (butlast ws)")
       (auto simp: pieces_ok_def butlast_list_update list_update_beyond dest!: set_update_subset_insert [THEN subsetD])
qed

lemma line_table_contents: "map ln_content (line_table t) = map line_content (split_inclusive t)"
proof -
  have "map ln_content (line_loop ws s) = map line_content ws" for ws s by (induction ws arbitrary: s) auto
  then show ?thesis by (simp add: line_table_def)
qed

text \<open>Replacing the tail of one line by a text without a line feed changes that line alone.\<close>

lemma replace_in_line:
  assumes "i < length (line_table t)" and "1 \<le> column" and "column \<le> length (ln_content (line_table t ! i))" and "10 \<notin> set new"
  defines "l \<equiv> line_table t ! i"
  shows "map ln_content (line_table (take (ln_start l + column) t @ new @ drop (ln_start l + length (ln_content l)) t)) =
     (map ln_content (line_table t))[i := take column (ln_content l) @ new]"
proof -
  let ?ws = "split_inclusive t" and ?c = "ln_content l" and ?v = "take column (ln_content l) @ new"
  have replace: "take (length pre + n) (pre @ (c @ e) @ post) @ new @ drop (length pre + length c) (pre @ (c @ e) @ post) =
      pre @ ((take n c @ new) @ e) @ post" if "n \<le> length c" for n and c pre e post :: rstr
    using that by simp
  have i: "i < length ?ws" using assms(1) by (simp add: line_table_def)
  have c: "?c = line_content (?ws ! i)" and s: "ln_start l = length (concat (take i ?ws))"
    using i by (simp_all add: l_def line_table_def line_loop_nth)
  have "?ws ! i \<in> set ?ws" using i by simp
  then have nl: "10 \<notin> set ?c" using split_inclusive_ok [of t] unfolding c by (auto simp: pieces_ok_def)
  have t: "t = concat (take i ?ws) @ (?c @ ended (?ws ! i)) @ concat (drop (Suc i) ?ws)"
    using concat_take_nth [OF i] piece_parts [of "?ws ! i"] c by simp
  have "take (ln_start l + column) t @ new @ drop (ln_start l + length ?c) t =
      concat (take i ?ws) @ (?v @ ended (?ws ! i)) @ concat (drop (Suc i) ?ws)"
    using replace [OF assms(3), of "concat (take i ?ws)" "ended (?ws ! i)" "concat (drop (Suc i) ?ws)"]
    unfolding l_def [symmetric] t [symmetric] s [symmetric] .
  also have "\<dots> = concat (?ws[i := ?v @ ended (?ws ! i)])" using i by (simp add: upd_conv_take_nth_drop)
  finally have eq: "take (ln_start l + column) t @ new @ drop (ln_start l + length ?c) t = concat (?ws[i := ?v @ ended (?ws ! i)])" .
  have v: "10 \<notin> set ?v" "?v \<noteq> []" using nl assms(2-4) by (auto simp: l_def dest: in_set_takeD)
  have "split_inclusive (concat (?ws[i := ?v @ ended (?ws ! i)])) = ?ws[i := ?v @ ended (?ws ! i)]"
    by (rule split_inclusive_pieces) (rule pieces_ok_update [OF split_inclusive_ok i v])
  moreover have "line_content (?v @ ended (?ws ! i)) = ?v"
    using piece_content [OF v(1)] by (simp add: ended_def del: append_assoc)
  ultimately show ?thesis by (simp only: line_table_contents eq map_update)
qed

lemma rename_parses:
  assumes "parse_top_level_task line = Some (checked, column)" and "drop column line \<noteq> []"
    and "new \<noteq> []" and "\<not> is_whitespace (hd new)"
  shows "parse_top_level_task (take column line @ new) = Some (checked, column)"
  using assms(1)
proof (rule top_level_task_parts)
  fix c w x v s
  assume line: "line = (c # w @ [91, x, 93] @ v) @ s" and col: "column = length (c # w @ [91, x, 93] @ v)"
    and c: "c = 45 \<or> c = 42 \<or> c = 43" and w: "w \<noteq> []" "list_all blank_or_tab w" and x: "checkbox_state x = Some checked"
    and v: "list_all is_whitespace v" "v = [] \<Longrightarrow> s = []"
  have "v \<noteq> []" using assms(2) line col v(2) by auto
  have "dropWhile blank_or_tab (w @ 91 # rest) = 91 # rest" for rest
    using w(2) by (subst dropWhile_append2) (auto simp: list_all_iff blank_or_tab_def)
  moreover have "dropWhile is_whitespace (v @ new) = new"
    using v(1) assms(3,4) by (subst dropWhile_append2) (auto simp: list_all_iff neq_Nil_conv)
  moreover have "take column line = c # w @ [91, x, 93] @ v" unfolding line col by (metis append_eq_conv_conj)
  then have "take column line @ new = c # w @ [91, x, 93] @ v @ new" by simp
  ultimately show ?thesis using c w(1) x \<open>v \<noteq> []\<close> col
    by (auto simp: parse_top_level_task_def trim_start_matches_def trim_start_def Let_def)
qed

text \<open>A task without text has no space after its box to keep: renamed, its line is no task any more.\<close>

theorem rename_empty_task_lost:
  "map bt_text (bk_soon (parse_backlog ascii_env (from_lines [''## Soon'', ''- [ ]'']) headings_default)) = [[]] \<and>
   Option.bind (apply_edits (from_lines [''## Soon'', ''- [ ]''])
        (map (\<lambda>task. rename_task_edit task (lit ''call'')) (bk_soon (parse_backlog ascii_env (from_lines [''## Soon'', ''- [ ]'']) headings_default))))
      (\<lambda>t'. Some (bk_soon (parse_backlog ascii_env t' headings_default))) = Some []"
  by code_simp

section \<open>The stamp of a completed task\<close>

lemma trim_end_prefix: "\<exists>w. s = trim_end s @ w \<and> (\<forall>c \<in> set w. is_whitespace c)"
  using drop_while_end_split [of s is_whitespace] by (simp add: trim_end_def)

lemma trim_end_append_word: "\<not> (\<forall>c \<in> set w. is_whitespace c) \<Longrightarrow> trim_end (s @ w) = s @ trim_end w"
  using drop_while_end_append_some [of is_whitespace w s] by (simp add: trim_end_def drop_while_end_eq_Nil)

lemma length_trim_end: "length (trim_end s) \<le> length s"
  using trim_end_prefix [of s] by (metis le_add1 length_append)

lemma str_rfind_append:
  "str_rfind p s = Some i \<Longrightarrow> str_rfind p (h @ s) = Some (length h + i)"
  by (induction h) auto

lemma str_rfind_in_tail:
  "str_rfind p (h @ s) = Some i \<Longrightarrow> length h \<le> i \<Longrightarrow> str_rfind p s = Some (i - length h)"
proof (induction h arbitrary: i)
  case (Cons c h)
  then show ?case by (cases i) (auto split: option.splits if_splits)
qed simp

text \<open>The text ends in a comment that starts at \<open>i\<close>.\<close>

definition comment_at :: "rstr \<Rightarrow> nat \<Rightarrow> bool" where
  "comment_at tail i \<longleftrightarrow>
     ends_with COMMENT_CLOSE tail \<and> str_rfind COMMENT_OPEN tail = Some i \<and> i + 7 \<le> length tail \<and>
     \<not> str_contains COMMENT_CLOSE (segment tail (i + 4) (length tail - 3))"

lemma comment_lengths [simp]: "length COMMENT_OPEN = 4" "length COMMENT_CLOSE = 3"
  by (simp_all add: COMMENT_OPEN_def COMMENT_CLOSE_def)

lemma COMMENT_CLOSE_last: "last COMMENT_CLOSE = 62" "COMMENT_CLOSE \<noteq> []"
  by (simp_all add: COMMENT_CLOSE_def)

lemma trailing_loop_cases:
  obtains (whole) "trailing_loop tail = tail" "\<And>i. \<not> comment_at tail i"
  | (cut) i where "comment_at tail i" "trailing_loop tail = trailing_loop (trim_end (take i tail))"
proof -
  show thesis
  proof (cases "\<exists>i. comment_at tail i")
    case True
    then obtain i where i: "comment_at tail i" ..
    then have "trailing_loop tail = trailing_loop (trim_end (take i tail))"
      by (subst trailing_loop.simps) (auto simp: comment_at_def Let_def)
    with i show thesis by (rule cut)
  next
    case False
    then have "trailing_loop tail = tail"
      by (subst trailing_loop.simps) (auto simp: comment_at_def Let_def split: option.split)
    with False show thesis using whole by blast
  qed
qed

lemma length_trailing_loop: "length (trailing_loop tail) \<le> length tail"
proof (induction "length tail" arbitrary: tail rule: less_induct)
  case less
  show ?case
  proof (cases tail rule: trailing_loop_cases)
    case (cut i)
    have "length (trim_end (take i tail)) \<le> length (take i tail)" by (rule length_trim_end)
    moreover have "length (take i tail) < length tail" using cut(1) by (simp add: comment_at_def)
    ultimately show ?thesis using less [of "trim_end (take i tail)"] cut(2) by (metis le_trans less_imp_le le_less_trans)
  qed simp
qed

lemma comment_at_tail:
  assumes "comment_at (h @ c) i" and "length h \<le> i"
  shows "comment_at (g @ c) (length g + (i - length h))"
proof -
  have r: "str_rfind COMMENT_OPEN c = Some (i - length h)" using assms str_rfind_in_tail by (auto simp: comment_at_def)
  have c: "7 \<le> length c" using assms by (simp add: comment_at_def)
  have seg: "segment (x @ c) (length x + j + 4) (length (x @ c) - 3) = segment c (j + 4) (length c - 3)" for x j
    by (simp add: segment_def add.commute add.left_commute)
  have e: "ends_with COMMENT_CLOSE (x @ c) \<longleftrightarrow> ends_with COMMENT_CLOSE c" for x
    using c by (simp add: ends_with_def)
  have "i = length h + (i - length h)" using assms(2) by simp
  then have "\<not> str_contains COMMENT_CLOSE (segment c (i - length h + 4) (length c - 3))"
    using assms(1) seg [of h "i - length h"] by (simp add: comment_at_def)
  then show ?thesis using assms str_rfind_append [OF r, of g] seg [of g "i - length h"] e [of g] e [of h]
    by (auto simp: comment_at_def)
qed

text \<open>The run of trailing comments of a text stays a run of trailing comments behind another head.\<close>

lemma trailing_loop_swap:
  assumes "trailing_loop (h @ c) = h" and "trim_end g = g" and "\<not> ends_with COMMENT_CLOSE g"
  shows "trailing_loop (g @ c) = g"
  using assms(1)
proof (induction "length c" arbitrary: c rule: less_induct)
  case less
  have g: "trailing_loop g = g" using assms(3) by (subst trailing_loop.simps) simp
  show ?case
  proof (cases "h @ c" rule: trailing_loop_cases)
    case whole
    then show ?thesis using less.prems g by simp
  next
    case (cut i)
    let ?w = "take (i - length h) c"
    have "length h \<le> length (trim_end (take i (h @ c)))" using length_trailing_loop cut(2) less.prems by metis
    also have "\<dots> \<le> i" using length_trim_end [of "take i (h @ c)"] by simp
    finally have hi: "length h \<le> i" .
    have c': "comment_at (g @ c) (length g + (i - length h))" using cut(1) hi by (rule comment_at_tail)
    have step: "trailing_loop (g @ c) = trailing_loop (trim_end (g @ ?w))"
      using c' by (subst trailing_loop.simps) (auto simp: comment_at_def Let_def)
    have th: "trailing_loop (trim_end (h @ ?w)) = h" using cut(2) less.prems hi by simp
    show ?thesis
    proof (cases "\<forall>x \<in> set ?w. is_whitespace x")
      case True
      then show ?thesis using step g assms(2) by (simp add: trim_end_append_ws)
    next
      case False
      have "length (trim_end ?w) < length c"
        using length_trim_end [of ?w] cut(1) hi by (auto simp: comment_at_def)
      then show ?thesis using less.hyps [of "trim_end ?w"] th step False by (simp add: trim_end_append_word)
    qed
  qed
qed

lemma trailing_loop_prefix: "\<exists>c. tail = trailing_loop tail @ c"
proof (induction "length tail" arbitrary: tail rule: less_induct)
  case less
  show ?case
  proof (cases tail rule: trailing_loop_cases)
    case (cut i)
    have "length (trim_end (take i tail)) < length tail"
      using length_trim_end [of "take i tail"] cut(1) by (auto simp: comment_at_def)
    then obtain c where "trim_end (take i tail) = trailing_loop tail @ c" using less cut(2) by metis
    moreover obtain w where "take i tail = trim_end (take i tail) @ w" using trim_end_prefix by blast
    ultimately have "tail = trailing_loop tail @ c @ w @ drop i tail" by (metis append.assoc append_take_drop_id)
    then show ?thesis ..
  qed simp
qed

lemma task_date_text:
  assumes "looks_like_date date"
  shows "date \<noteq> []" and "x \<in> set date \<Longrightarrow> \<not> is_whitespace x \<and> x \<noteq> STAMP \<and> x \<noteq> 62"
    and "trim (32 # date) = date" and "str_rfind [STAMP] (STAMP # 32 # date) = Some 0"
proof -
  show ne: "date \<noteq> []" using assms by (simp add: looks_like_date_def)
  show char: "\<not> is_whitespace x \<and> x \<noteq> STAMP \<and> x \<noteq> 62" if "x \<in> set date" for x
    using assms that by (auto simp: looks_like_date_def list_all_iff is_ascii_digit_def is_whitespace_def STAMP_def)
  have "trim_end date = date" "trim_start (32 # date) = date"
    using ne char [of "last date"] char [of "hd date"]
    by (simp_all add: trim_end_def drop_while_end_id trim_start_def is_whitespace_def [of 32] dropWhile_eq_self_iff)
  then show "trim (32 # date) = date" by (simp add: trim_def)
  have "STAMP \<notin> set (32 # date)" using char by (auto simp: STAMP_def)
  then have "\<not> str_contains [STAMP] (32 # date)" by (simp only: str_contains_single not_False_eq_True)
  then have "str_rfind [STAMP] (32 # date) = None" by (simp only: str_rfind_None str_contains_def not_not)
  then show "str_rfind [STAMP] (STAMP # 32 # date) = Some 0" by simp
qed

section \<open>Evaluated instances\<close>

definition sample_backlog :: rstr where
  "sample_backlog = from_lines [''## Soon'', ''- [ ] call <!--x-->'', ''  - number'', [], ''## Someday'', ''- [ ] read'']"

definition sample_task :: BacklogTask where
  "sample_task =
     \<lparr>bt_line = 1, bt_span = (8, 39), bt_text_span = (14, 27), bt_text = lit ''call <!--x-->'', bt_checked = False, bt_category = None\<rparr>"


lemma sample_task_parsed:
  "sample_task \<in> set (backlog_section (parse_backlog ascii_env sample_backlog headings_default) Soon)"
  "no_heading_inside sample_backlog (bt_span sample_task)"
  by code_simp+

lemma sample_task_text: "bt_text sample_task \<noteq> []" "lit ''ring'' \<noteq> []" "\<not> is_whitespace (hd (lit ''ring''))" "10 \<notin> set (lit ''ring'')"
  by code_simp+

lemma sample_stamp: "trim_end (lit ''- [x] call <!--x-->'') = lit ''- [x] call <!--x-->''" "looks_like_date (lit ''2026-07-20'')"
  by code_simp+

section \<open>Properties\<close>






text \<open>Renaming a task that has a text rewrites that text and nothing else: one line of the file changes, and
  it reads as the same task, ticked or not as before, with the new text.\<close>

theorem rename_task_roundtrip:
  assumes "task \<in> set (backlog_section (parse_backlog E t hs) k)" and "bt_text task \<noteq> []"
    and "new \<noteq> []" and "\<not> is_whitespace (hd new)" and "10 \<notin> set new"
  shows "\<exists>t' row line column. apply_edits t [rename_task_edit task new] = Some t' \<and> bt_line task = as_u32 row \<and>
     row < length (line_table t) \<and> map ln_content (line_table t') = (map ln_content (line_table t))[row := line] \<and>
     parse_top_level_task line = Some (bt_checked task, column) \<and> drop column line = new"
proof -
  from assms(1) obtain r l where rows: "task_rows (line_table t) r l task" by (rule parsed_task_rows)
  let ?l = "line_table t ! r"
  from rows obtain checked column category where r: "r < length (line_table t)"
    and p: "parse_top_level_task (ln_content ?l) = Some (checked, column)"
    and task: "task = task_at (line_table t) r l checked column category" by (auto simp: task_rows_def)
  have col: "1 \<le> column" "column \<le> length (ln_content ?l)" using top_level_task_column [OF p] by auto
  let ?t' = "take (ln_start ?l + column) t @ new @ drop (ln_start ?l + length (ln_content ?l)) t"
  have "apply_edits t [rename_task_edit task new] = Some ?t'"
    using task_rows_spans [OF rows]
    by (auto simp: rename_task_edit_def apply_edits_def splice_range_def in_text_def task task_at_def Let_def)
  moreover have "map ln_content (line_table ?t') = (map ln_content (line_table t))[r := take column (ln_content ?l) @ new]"
    by (rule replace_in_line [OF r col assms(5)])
  moreover have "parse_top_level_task (take column (ln_content ?l) @ new) = Some (checked, column)"
    using rename_parses [OF p _ assms(3,4)] assms(2) by (simp add: task task_at_def Let_def)
  moreover have "drop column (take column (ln_content ?l) @ new) = new" using col by simp
  moreover have "bt_line task = as_u32 r" "bt_checked task = checked" by (simp_all add: task task_at_def Let_def)
  ultimately show ?thesis using r by blast
qed

theorem rename_task_roundtrip_witness:
  "\<exists>t' row line column. apply_edits sample_backlog [rename_task_edit sample_task (lit ''ring'')] = Some t' \<and> 1 = as_u32 row \<and>
     row < length (line_table sample_backlog) \<and> map ln_content (line_table t') = (map ln_content (line_table sample_backlog))[row := line] \<and>
     parse_top_level_task line = Some (False, column) \<and> drop column line = lit ''ring''"
  using rename_task_roundtrip [OF sample_task_parsed(1) sample_task_text] by (simp add: sample_task_def del: lit_simps)

text \<open>The date a completed task is stamped with is read back, and so is the task's label, whatever comments
  end its line: the stamp goes before them, where it is looked for.\<close>

theorem completion_roundtrip:
  assumes "trim_end line = line" and "looks_like_date date"
  shows "split_completion (stamp_line line date) =
     (trim_end (take (trailing_comments_start line) line), Some date)"
proof -
  define h where "h = trailing_loop line"
  obtain c where line: "line = h @ c" using trailing_loop_prefix [of line] by (auto simp: h_def)
  have start: "trailing_comments_start line = length h" by (simp add: trailing_comments_start_def assms(1) h_def)
  let ?g = "trim_end h @ [32, STAMP, 32] @ date"
  note date = task_date_text(1) [OF assms(2)] and char = task_date_text(2) [OF assms(2)]
  have g: "trim_end ?g = ?g" using date char [of "last date"] by (simp add: trim_end_def drop_while_end_id)
  have "last ?g \<noteq> 62" using date char [of "last date"] by simp
  then have close: "\<not> ends_with COMMENT_CLOSE ?g"
    unfolding ends_with_iff by (metis COMMENT_CLOSE_last append_is_Nil_conv last_appendR)
  have "trailing_loop (h @ c) = h" using line h_def by simp
  then have tail: "trailing_loop (?g @ c) = ?g" using g close by (rule trailing_loop_swap)
  have end': "trim_end (?g @ c) = ?g @ c"
  proof (cases "c = []")
    case False
    then have "\<not> is_whitespace (last c)" using drop_while_end_last [of is_whitespace line] assms(1) line by (auto simp: trim_end_def)
    then show ?thesis using False by (simp add: trim_end_def drop_while_end_id)
  qed (use g in simp)
  have found: "str_rfind [STAMP] ?g = Some (length (trim_end h) + 1)"
    using str_rfind_append [OF task_date_text(4) [OF assms(2)], of "trim_end h @ [32]"] by simp
  have after: "trim (drop (length (trim_end h) + 2) ?g) = date" by (simp add: task_date_text(3) [OF assms(2)])
  have "stamp_line line date = ?g @ c" unfolding stamp_line_def start Let_def by (simp add: line)
  moreover have "trailing_comments_start (?g @ c) = length ?g" by (simp only: trailing_comments_start_def end' tail)
  moreover have "take (length ?g) (?g @ c) = ?g" by (metis append_eq_conv_conj)
  moreover have "trim_end (take (length (trim_end h) + 1) (?g @ c)) = trim_end h"
    using trim_end_append_ws [of "[32]" "trim_end h"] by (simp add: is_whitespace_def [of 32])
  moreover have "take (trailing_comments_start line) line = h" unfolding start by (simp add: line)
  ultimately show ?thesis using found after assms(2) by (simp only: split_completion_def Let_def option.case if_True add.assoc one_add_one)
qed

theorem completion_roundtrip_witness:
  "split_completion (stamp_line (lit ''- [x] call <!--x-->'') (lit ''2026-07-20'')) =
     (trim_end (take (trailing_comments_start (lit ''- [x] call <!--x-->'')) (lit ''- [x] call <!--x-->'')), Some (lit ''2026-07-20''))"
  by (rule completion_roundtrip [OF sample_stamp])

end
