(* ===== verification/Calendar.thy ===== *)
theory Calendar
  imports Day_Plan "HOL-Library.List_Lexorder" "HOL-Library.Option_ord"
begin

text \<open>
  Calendar synchronisation into the daily note (\<open>crates/thock/src/calendar.rs\<close>): the configuration,
  the grammar of a synced line, and the reconciler that keeps the calendar section of a note in line
  with the fetched events.  Byte spans are character spans; the hash maps of the source are read off
  the lists they are built from; the TOML parser is a parameter.
\<close>

section \<open>Events and configuration\<close>

definition CANCELLED_SUFFIX :: rstr where "CANCELLED_SUFFIX = lit ''~~ (cancelled)''"

record CalendarEvent =
  ev_id :: rstr
  ev_title :: rstr
  ev_time :: "(nat \<times> nat) option"
  ev_kind :: EventKind

record EventFilters =
  ef_accepted_only :: bool
  ef_include_solo :: bool
  ef_all_day :: bool
  ef_private_busy :: bool

definition filters_default :: EventFilters where
  "filters_default =
     \<lparr>ef_accepted_only = True, ef_include_solo = True, ef_all_day = False, ef_private_busy = False\<rparr>"

record GoogleClientOverride =
  gc_client_id :: "rstr option"
  gc_client_secret :: "rstr option"

record CalendarConfig =
  cc_account :: "rstr option"
  cc_calendars :: "rstr list"
  cc_section :: rstr
  cc_poll_seconds :: nat
  cc_filters :: EventFilters
  cc_google :: GoogleClientOverride
  cc_planner_heading :: "rstr list"

definition with_planner_heading :: "rstr \<Rightarrow> CalendarConfig" where
  "with_planner_heading heading =
     \<lparr>cc_account = None, cc_calendars = [], cc_section = lit ''Calendar'', cc_poll_seconds = 300,
      cc_filters = filters_default, cc_google = \<lparr>gc_client_id = None, gc_client_secret = None\<rparr>,
      cc_planner_heading = [heading]\<rparr>"

definition planner_heading_names :: "env \<Rightarrow> CalendarConfig \<Rightarrow> HeadingNames" where
  "planner_heading_names E config = heading_names_new E (cc_planner_heading config)"

definition canonical_planner_heading :: "CalendarConfig \<Rightarrow> rstr" where
  "canonical_planner_heading config = (case cc_planner_heading config of [] \<Rightarrow> [] | h # _ \<Rightarrow> h)"

record FiltersContent =
  fc_accepted_only :: "bool option"
  fc_include_solo :: "bool option"
  fc_all_day :: "bool option"
  fc_private_busy :: "bool option"

record CalendarConfigContent =
  ct_schema :: "nat option"
  ct_account :: "rstr option"
  ct_calendars :: "rstr list option"
  ct_section :: "rstr option"
  ct_poll_seconds :: "nat option"
  ct_filters :: FiltersContent
  ct_google :: GoogleClientOverride

definition opt_or :: "'a \<Rightarrow> 'a option \<Rightarrow> 'a" where
  "opt_or d x = (case x of Some y \<Rightarrow> y | None \<Rightarrow> d)"

definition not_blank :: "rstr option \<Rightarrow> rstr option" where
  "not_blank x = Option.bind x (\<lambda>s. if trim s \<noteq> [] then Some s else None)"

definition parse_calendar_config ::
  "(rstr \<Rightarrow> CalendarConfigContent option) \<Rightarrow> rstr \<Rightarrow> DayPlannerConfig \<Rightarrow> CalendarConfig option" where
  "parse_calendar_config toml t day_planner =
     map_option (\<lambda>content.
       \<lparr>cc_account = not_blank (ct_account content),
        cc_calendars = opt_or [] (ct_calendars content),
        cc_section = opt_or (lit ''Calendar'') (not_blank (ct_section content)),
        cc_poll_seconds = max 60 (min 3600 (opt_or 300 (ct_poll_seconds content))),
        cc_filters =
          \<lparr>ef_accepted_only = opt_or (ef_accepted_only filters_default) (fc_accepted_only (ct_filters content)),
           ef_include_solo = opt_or (ef_include_solo filters_default) (fc_include_solo (ct_filters content)),
           ef_all_day = opt_or (ef_all_day filters_default) (fc_all_day (ct_filters content)),
           ef_private_busy = opt_or (ef_private_busy filters_default) (fc_private_busy (ct_filters content))\<rparr>,
        cc_google = ct_google content,
        cc_planner_heading = pc_heading day_planner # pc_heading_aliases day_planner\<rparr>) (toml t)"

section \<open>Titles, times and rendered lines\<close>

definition sort_start :: "(nat \<times> nat) option \<Rightarrow> nat option" where
  "sort_start time = map_option fst time"

definition event_sort_key :: "CalendarEvent \<Rightarrow> nat option \<times> nat option \<times> rstr \<times> rstr" where
  "event_sort_key e = (sort_start (ev_time e), map_option snd (ev_time e), ev_title e, ev_id e)"

definition sanitize_title :: "rstr \<Rightarrow> rstr" where
  "sanitize_title title =
     trim (join_with [32] (filter (\<lambda>part. part \<noteq> []) (map trim
       (split_on (\<lambda>c. c = 10 \<or> c = 13) (str_replace (lit ''<!--'') [] title)))))"

definition format_time_token :: "nat \<Rightarrow> nat \<Rightarrow> rstr" where
  "format_time_token s e =
     pad_zeros 2 (s div 60) @ [58] @ pad_zeros 2 (s mod 60) @ lit '' - '' @
     pad_zeros 2 (e div 60) @ [58] @ pad_zeros 2 (e mod 60)"

definition render_synced_line :: "CalendarEvent \<Rightarrow> rstr" where
  "render_synced_line event =
     lit ''- [ ] '' @
     (case ev_time event of Some (s, e) \<Rightarrow> format_time_token s e @ [32] | None \<Rightarrow> []) @
     (if ev_title event \<noteq> [] then ev_title event @ [32] else []) @
     render_marker (ev_id event) (ev_kind event)"

section \<open>Synced lines\<close>

record SyncedLine =
  sl_row :: nat
  sl_line :: rstr
  sl_id :: rstr
  sl_sort_start :: "nat option"
  sl_token_span :: "(nat \<times> nat) option"
  sl_text_span :: "nat \<times> nat"
  sl_marker_span :: "nat \<times> nat"
  sl_marker_suffix :: "rstr option"

definition checkbox_text_offset :: "rstr \<Rightarrow> nat option" where
  "checkbox_text_offset line =
     (case trim_start line of
        [] \<Rightarrow> None
      | b # after_bullet \<Rightarrow>
          if \<not> task_bullet b then None
          else let after_space = trim_start after_bullet
               in if length after_space = length after_bullet then None
                  else case task_box after_space of
                         None \<Rightarrow> None
                       | Some (_, after_checkbox) \<Rightarrow>
                           let t = trim_start after_checkbox
                           in if length t = length after_checkbox \<and> t \<noteq> [] then None
                              else Some (length line - length t))"

definition at_break :: "rstr \<Rightarrow> bool" where
  "at_break s \<longleftrightarrow> s = [] \<or> is_whitespace (hd s)"

definition leading_time_token :: "rstr \<Rightarrow> (nat \<times> nat) option" where
  "leading_time_token t =
     (case parse_time_prefix t of
        None \<Rightarrow> None
      | Some (start, after_start) \<Rightarrow>
          (case plan_range_end after_start of
             Some (_, after_end) \<Rightarrow>
               if at_break after_end then Some (start, length t - length after_end)
               else if at_break after_start then Some (start, length t - length after_start) else None
           | None \<Rightarrow> if at_break after_start then Some (start, length t - length after_start) else None))"

definition parse_synced :: "nat \<Rightarrow> rstr \<Rightarrow> SyncedLine option" where
  "parse_synced row line =
     (let trimmed = trim_end line
      in case str_rfind GCAL_PREFIX trimmed of
           None \<Rightarrow> None
         | Some marker_start \<Rightarrow>
             (case Option.bind (strip_suffix GCAL_SUFFIX (drop (marker_start + length GCAL_PREFIX) trimmed)) parse_marker_payload of
                None \<Rightarrow> None
              | Some (i, sfx) \<Rightarrow>
                  (case checkbox_text_offset line of
                     None \<Rightarrow> None
                   | Some text_offset \<Rightarrow>
                       let prior = segment line text_offset marker_start;
                           token = leading_time_token prior;
                           token_len = (case token of Some (_, n) \<Rightarrow> n | None \<Rightarrow> 0);
                           after_token = segment line (text_offset + token_len) marker_start;
                           text_start = text_offset + token_len + (length after_token - length (trim_start after_token))
                       in Some \<lparr>sl_row = row, sl_line = line, sl_id = i, sl_sort_start = map_option fst token,
                            sl_token_span = (if 0 < token_len then Some (text_offset, text_offset + token_len) else None),
                            sl_text_span = (text_start, text_start + length (trim after_token)),
                            sl_marker_span = (marker_start, length trimmed), sl_marker_suffix = sfx\<rparr>)))"

definition marker_update_for :: "SyncedLine \<Rightarrow> EventKind \<Rightarrow> rstr option" where
  "marker_update_for l k =
     (let current = sl_marker_suffix l
      in if current = marker_suffix k then None
         else if is_some_and current (\<lambda>s. from_marker_suffix s = None) then None
         else Some (render_marker (sl_id l) k))"

definition sl_text :: "SyncedLine \<Rightarrow> rstr" where
  "sl_text l = segment (sl_line l) (fst (sl_text_span l)) (snd (sl_text_span l))"

definition sl_token :: "SyncedLine \<Rightarrow> rstr option" where
  "sl_token l = map_option (\<lambda>(a, b). segment (sl_line l) a b) (sl_token_span l)"

definition cancelled_parts :: "SyncedLine \<Rightarrow> (rstr \<times> rstr) option" where
  "cancelled_parts l =
     Option.bind (strip_prefix (lit ''~~'') (sl_text l)) (\<lambda>t.
       map_option (\<lambda>e. (take e t, drop (e + length CANCELLED_SUFFIX) t)) (str_find CANCELLED_SUFFIX t))"

definition is_cancelled :: "SyncedLine \<Rightarrow> bool" where
  "is_cancelled l \<longleftrightarrow> cancelled_parts l \<noteq> None"

definition rebuilt :: "SyncedLine \<Rightarrow> rstr option \<Rightarrow> rstr \<Rightarrow> rstr option \<Rightarrow> rstr" where
  "rebuilt l token t marker =
     (let content_start = (case sl_token_span l of Some s \<Rightarrow> fst s | None \<Rightarrow> fst (sl_text_span l));
          content = (case token of Some k \<Rightarrow> k @ (if t \<noteq> [] then [32] else []) | None \<Rightarrow> []) @ t
      in take content_start (sl_line l) @ content @
         segment (sl_line l) (snd (sl_text_span l)) (fst (sl_marker_span l)) @
         opt_or (segment (sl_line l) (fst (sl_marker_span l)) (snd (sl_marker_span l))) marker @
         drop (snd (sl_marker_span l)) (sl_line l))"

definition with_text_region :: "SyncedLine \<Rightarrow> rstr option \<Rightarrow> rstr \<Rightarrow> rstr" where
  "with_text_region l token t = rebuilt l token t None"

definition cancelled_form :: "SyncedLine \<Rightarrow> rstr" where
  "cancelled_form l = with_text_region l (sl_token l) (lit ''~~'' @ sl_text l @ CANCELLED_SUFFIX)"

definition title_trailing :: "rstr \<Rightarrow> rstr \<Rightarrow> rstr option" where
  "title_trailing t event_title =
     (if event_title = [] then Some t
      else Option.bind (strip_prefix event_title t) (\<lambda>rest. if at_break rest then Some rest else None))"

definition updated_for :: "SyncedLine \<Rightarrow> CalendarEvent \<Rightarrow> rstr option" where
  "updated_for l event =
     (let expected_token = map_option (\<lambda>(s, e). format_time_token s e) (ev_time event);
          marker = marker_update_for l (ev_kind event)
      in case cancelled_parts l of
           Some (_, trailing) \<Rightarrow> Some (rebuilt l expected_token (trim_end (ev_title event @ trailing)) marker)
         | None \<Rightarrow>
             (case title_trailing (sl_text l) (ev_title event) of
                None \<Rightarrow> None
              | Some trailing \<Rightarrow>
                  if sl_token l = expected_token
                  then Some (case marker of Some m \<Rightarrow> rebuilt l (sl_token l) (sl_text l) (Some m) | None \<Rightarrow> sl_line l)
                  else Some (rebuilt l expected_token (trim_end (ev_title event @ trailing)) marker)))"

section \<open>Line edits\<close>

datatype LineEditKind = Insert rstr | Replace rstr

record LineEdit =
  le_row :: nat
  le_kind :: LineEditKind

definition inserts_at :: "LineEdit list \<Rightarrow> nat \<Rightarrow> rstr list" where
  "inserts_at edits row =
     List.map_filter (\<lambda>e. case le_kind e of Insert t \<Rightarrow> if le_row e = row then Some t else None | Replace _ \<Rightarrow> None) edits"

definition replacement_at :: "LineEdit list \<Rightarrow> nat \<Rightarrow> rstr option" where
  "replacement_at edits row =
     last_opt (List.map_filter (\<lambda>e. case le_kind e of Replace t \<Rightarrow> if le_row e = row then Some t else None | Insert _ \<Rightarrow> None) edits)"

definition edited_lines :: "rstr list \<Rightarrow> LineEdit list \<Rightarrow> rstr list" where
  "edited_lines lines edits =
     concat (map (\<lambda>(row, line). inserts_at edits row @ [opt_or line (replacement_at edits row)]) (enumerate 0 lines)) @
     concat (map (inserts_at edits)
       (sort (remdups (filter (\<lambda>row. length lines \<le> row) (map le_row edits)))))"

definition apply_line_edits :: "rstr \<Rightarrow> LineEdit list \<Rightarrow> rstr" where
  "apply_line_edits note_text edits =
     (let t = join_with [10] (edited_lines (str_lines note_text) edits)
      in if ends_with [10] note_text \<or> note_text = [] \<and> t \<noteq> [] then t @ [10] else t)"

section \<open>The reconciler\<close>

record Divergence =
  dv_id :: rstr
  dv_line :: rstr
  dv_event_title :: rstr

datatype Reconciled = NoPlannerSection | NoSectionRoom | Edits "LineEdit list" "Divergence list"

definition find_child_section :: "env \<Rightarrow> rstr list \<Rightarrow> nat \<times> nat \<Rightarrow> nat \<Rightarrow> rstr \<Rightarrow> (nat \<times> nat) option" where
  "find_child_section E lines rows planner_level sec =
     (let child_level = planner_level + 1
      in case best_heading E (enumerate (fst rows) (segment lines (fst rows) (snd rows))) (heading_names_new E [sec]) (Some child_level) of
           None \<Rightarrow> None
         | Some (start, _) \<Rightarrow>
             Some (start + 1,
               case find (\<lambda>row. is_some_and (heading_level_and_text (lines ! row)) (\<lambda>(level, _). level \<le> child_level))
                      [start + 1..<snd rows] of
                 Some row \<Rightarrow> row | None \<Rightarrow> snd rows))"

definition after_last_content_row :: "rstr list \<Rightarrow> nat \<times> nat \<Rightarrow> nat" where
  "after_last_content_row lines rows =
     (case find (\<lambda>row. trim (lines ! row) \<noteq> []) (rev [fst rows..<snd rows]) of
        Some row \<Rightarrow> row + 1 | None \<Rightarrow> fst rows)"

definition section_creation_edits :: "rstr list \<Rightarrow> nat \<times> nat \<Rightarrow> nat \<Rightarrow> rstr \<Rightarrow> CalendarEvent list \<Rightarrow> LineEdit list" where
  "section_creation_edits lines rows planner_level sec events =
     (let row = snd rows;
          block = (if 0 < row \<and> trim (lines ! (row - 1)) \<noteq> [] then [[]] else []) @
            [replicate (planner_level + 1) 35 @ [32] @ sec, []] @
            map render_synced_line (sort_key event_sort_key events) @
            (if is_some_and (get_at lines row) (\<lambda>next. trim next \<noteq> []) then [[]] else [])
      in map (\<lambda>t. \<lparr>le_row = row, le_kind = Insert t\<rparr>) block)"

text \<open>Two calendars can carry the same id: the first occurrence wins.\<close>

fun first_events :: "rstr list \<Rightarrow> CalendarEvent list \<Rightarrow> CalendarEvent list" where
  "first_events seen [] = []"
| "first_events seen (e # es) =
     (if ev_id e \<in> set seen then first_events seen es
      else e\<lparr>ev_title := sanitize_title (ev_title e)\<rparr> # first_events (ev_id e # seen) es)"

definition synced_lines :: "rstr list \<Rightarrow> nat \<times> nat \<Rightarrow> SyncedLine list" where
  "synced_lines lines rows =
     List.map_filter (\<lambda>row. Option.bind (get_at lines row) (parse_synced row)) [fst rows..<snd rows]"

definition line_of :: "SyncedLine list \<Rightarrow> CalendarEvent \<Rightarrow> SyncedLine option" where
  "line_of synced event = find (\<lambda>l. sl_id l = ev_id event) synced"

definition update_edits :: "SyncedLine list \<Rightarrow> CalendarEvent list \<Rightarrow> LineEdit list" where
  "update_edits synced events =
     List.map_filter (\<lambda>event. Option.bind (line_of synced event) (\<lambda>l.
       Option.bind (updated_for l event) (\<lambda>replacement.
         if replacement \<noteq> sl_line l then Some \<lparr>le_row = sl_row l, le_kind = Replace replacement\<rparr> else None))) events"

definition divergences :: "SyncedLine list \<Rightarrow> CalendarEvent list \<Rightarrow> Divergence list" where
  "divergences synced events =
     List.map_filter (\<lambda>event. Option.bind (line_of synced event) (\<lambda>l.
       if updated_for l event = None
       then Some \<lparr>dv_id = ev_id event, dv_line = sl_line l, dv_event_title = ev_title event\<rparr> else None)) events"

definition cancel_edits :: "SyncedLine list \<Rightarrow> CalendarEvent list \<Rightarrow> LineEdit list" where
  "cancel_edits synced events =
     List.map_filter (\<lambda>l. if sl_id l \<notin> set (map ev_id events) \<and> \<not> is_cancelled l
       then Some \<lparr>le_row = sl_row l, le_kind = Replace (cancelled_form l)\<rparr> else None) synced"

definition insert_edits :: "rstr list \<Rightarrow> nat \<times> nat \<Rightarrow> SyncedLine list \<Rightarrow> CalendarEvent list \<Rightarrow> LineEdit list" where
  "insert_edits lines rows synced events =
     (let fallback_row = after_last_content_row lines rows
      in map (\<lambda>event. \<lparr>le_row = (case find (\<lambda>l. sort_start (ev_time event) < sl_sort_start l) synced of
                                  Some l \<Rightarrow> sl_row l | None \<Rightarrow> fallback_row),
                       le_kind = Insert (render_synced_line event)\<rparr>)
           (sort_key event_sort_key (filter (\<lambda>event. line_of synced event = None) events)))"

definition reconcile :: "env \<Rightarrow> rstr \<Rightarrow> CalendarEvent list \<Rightarrow> CalendarConfig \<Rightarrow> Reconciled" where
  "reconcile E note_text events0 config =
     (let lines = str_lines note_text
      in case planner_section E lines (planner_heading_names E config) of
           None \<Rightarrow> NoPlannerSection
         | Some (rows, planner_level) \<Rightarrow>
             let events = first_events [] events0
             in (case find_child_section E lines rows planner_level (cc_section config) of
                   None \<Rightarrow>
                     if events = [] then Edits [] []
                     else if 6 \<le> planner_level then NoSectionRoom
                     else Edits (section_creation_edits lines rows planner_level (cc_section config) events) []
                 | Some sec_rows \<Rightarrow>
                     let synced = synced_lines lines sec_rows;
                         edits = update_edits synced events @ cancel_edits synced events @ insert_edits lines sec_rows synced events
                     in Edits (sort_key le_row edits) (divergences synced events)))"

end
