(* ===== verification/Calendar_Props.thy ===== *)
theory Calendar_Props
  imports Calendar Decimal Samples Bridge_Props
begin

text \<open>
  Calendar synchronisation's properties: the reconciler never loses a line that is not its own, and a
  line it writes is recognised and left alone on the next poll.  \<open>parse_marked\<close> reads back any line
  with a box and a marker; the remaining lemmas find the time token and the title in it.
\<close>

section \<open>Lines that are not synced lines\<close>










section \<open>A rendered line is read back\<close>

lemma hex_text:
  assumes "list_all is_ascii_hexdigit i"
  shows "60 \<notin> set i" and "58 \<notin> set i" and "62 \<notin> set i" and "45 \<notin> set i"
  using assms by (auto simp: list_all_iff is_ascii_hexdigit_def is_ascii_digit_def)

lemma str_rfind_last:
  "c \<notin> set s \<Longrightarrow> starts_with (c # p) (c # s) \<Longrightarrow> str_rfind (c # p) (h @ c # s) = Some (length h)"
proof (induction h)
  case Nil
  have "str_rfind (c # p) s = None" if "c \<notin> set s" for s using that by (induction s) auto
  then show ?case using Nil by simp
qed simp

lemma split_once_none: "c \<notin> set s \<Longrightarrow> split_once [c] s = None"
  using str_contains_single [of c s] by (simp add: split_once_def str_contains_def)

lemma str_find_single: "c \<notin> set s \<Longrightarrow> str_find [c] (s @ c # t) = Some (length s)"
  by (induction s) auto

lemma marker_payload:
  assumes "i \<noteq> []" and "list_all is_ascii_hexdigit i"
  shows "parse_marker_payload (i @ (case marker_suffix k of Some s \<Rightarrow> 58 # s | None \<Rightarrow> [])) = Some (i, marker_suffix k)"
proof (cases "marker_suffix k")
  case None
  then show ?thesis using assms split_once_none [OF hex_text(2) [OF assms(2)]] by (simp add: parse_marker_payload_def)
next
  case (Some s)
  then have "s = lit ''focus'' \<or> s = lit ''ooo''" by (cases k) auto
  then have "s \<noteq> []" "list_all is_ascii_lowercase s" by (auto simp: is_ascii_lowercase_def)
  then show ?thesis using assms Some hex_text(2) [OF assms(2)]
    by (simp add: parse_marker_payload_def split_once_def str_find_single)
qed

lemma marker_parts:
  assumes "list_all is_ascii_hexdigit i"
  obtains m where "render_marker i k = 60 # m" "60 \<notin> set m" "starts_with GCAL_PREFIX (60 # m)" "last (60 # m) = 62"
proof (rule that [of "tl (render_marker i k)"])
  show "render_marker i k = 60 # tl (render_marker i k)" by (simp add: render_marker_def GCAL_PREFIX_def)
  then show "starts_with GCAL_PREFIX (60 # tl (render_marker i k))"
    by (metis render_marker_def starts_with_append)
  show "last (60 # tl (render_marker i k)) = 62" by (simp add: render_marker_def GCAL_PREFIX_def GCAL_SUFFIX_def)
  show "60 \<notin> set (tl (render_marker i k))"
    using hex_text(1) [OF assms] by (cases k) (auto simp: render_marker_def GCAL_PREFIX_def GCAL_SUFFIX_def)
qed

text \<open>A line with an open box, a text and a marker.\<close>

lemma parse_marked:
  assumes "i \<noteq> []" and "list_all is_ascii_hexdigit i" and "mid \<noteq> [] \<longrightarrow> \<not> is_whitespace (hd mid)"
  defines "n \<equiv> case leading_time_token mid of Some (_, n) \<Rightarrow> n | None \<Rightarrow> 0"
  shows "parse_synced row (lit ''- [ ] '' @ mid @ render_marker i k) =
     Some \<lparr>sl_row = row, sl_line = lit ''- [ ] '' @ mid @ render_marker i k, sl_id = i,
       sl_sort_start = map_option fst (leading_time_token mid),
       sl_token_span = (if 0 < n then Some (6, 6 + n) else None),
       sl_text_span = (6 + n + (length (drop n mid) - length (trim_start (drop n mid))),
         6 + n + (length (drop n mid) - length (trim_start (drop n mid))) + length (trim (drop n mid))),
       sl_marker_span = (6 + length mid, 6 + length mid + length (render_marker i k)), sl_marker_suffix = marker_suffix k\<rparr>"
proof -
  let ?line = "lit ''- [ ] '' @ mid @ render_marker i k"
  from marker_parts [OF assms(2)] obtain m where m: "render_marker i k = 60 # m" "60 \<notin> set m" "starts_with GCAL_PREFIX (60 # m)"
    "last (60 # m) = 62" by metis
  have trimmed: "trim_end ?line = ?line"
    using m by (simp add: trim_end_def drop_while_end_id is_whitespace_def del: lit_simps)
  have prefix: "GCAL_PREFIX = 60 # tl GCAL_PREFIX" by (simp add: GCAL_PREFIX_def)
  have rfind: "str_rfind GCAL_PREFIX ?line = Some (6 + length mid)"
    using str_rfind_last [of 60 m "tl GCAL_PREFIX" "lit ''- [ ] '' @ mid"] m prefix by simp
  have "drop (6 + length mid + length GCAL_PREFIX) ?line = i @ (case marker_suffix k of Some s \<Rightarrow> 58 # s | None \<Rightarrow> []) @ GCAL_SUFFIX"
    by (simp add: render_marker_def del: lit_simps)
  then have payload: "strip_suffix GCAL_SUFFIX (drop (6 + length mid + length GCAL_PREFIX) ?line) =
      Some (i @ (case marker_suffix k of Some s \<Rightarrow> 58 # s | None \<Rightarrow> []))" by (simp add: strip_suffix_Some)
  have "mid @ render_marker i k = [] \<or> \<not> is_whitespace (hd (mid @ render_marker i k))"
    using assms(3) m by (cases mid) (auto simp: is_whitespace_def)
  then have "trim_start (mid @ render_marker i k) = mid @ render_marker i k"
    by (cases "mid @ render_marker i k") (auto simp: trim_start_def)
  then have offset: "checkbox_text_offset ?line = Some 6"
    by (simp add: checkbox_text_offset_def trim_start_def is_whitespace_def [of 45] is_whitespace_def [of 32] is_whitespace_def [of 91]
        task_bullet_def task_box_def Let_def)
  have seg: "segment ?line 6 (6 + length mid) = mid" "segment ?line (6 + n) (6 + length mid) = drop n mid"
    by (simp_all add: segment_def drop_Cons' take_drop)
  show ?thesis
    unfolding parse_synced_def Let_def trimmed rfind option.case payload bind.bind_lunit marker_payload [OF assms(1,2)]
      offset prod.case seg n_def [symmetric]
    by simp
qed

lemma clock_digits:
  assumes "k < 100"
  obtains a b where "pad_zeros 2 k = [a, b]" "is_ascii_digit a" "is_ascii_digit b" "digits_value [a, b] = k"
proof -
  have len: "length (pad_zeros 2 k) = 2" using assms length_pad_zeros [of 2 k] by simp
  then obtain a b where ab: "pad_zeros 2 k = [a, b]" by (auto simp: numeral_2_eq_2 length_Suc_conv)
  then show thesis using that [of a b] pad_zeros_digits [of 2 k] digits_value_pad [of 2 k] by simp
qed

lemma time_prefix_padded:
  assumes "h \<le> 23" and "m \<le> 59"
  shows "parse_time_prefix (pad_zeros 2 h @ 58 # pad_zeros 2 m @ r) = Some (h * 60 + m, r)"
proof -
  obtain a b where h: "pad_zeros 2 h = [a, b]" "is_ascii_digit a" "is_ascii_digit b" "digits_value [a, b] = h"
    using clock_digits [of h] assms by auto
  obtain c d where m: "pad_zeros 2 m = [c, d]" "is_ascii_digit c" "is_ascii_digit d" "digits_value [c, d] = m"
    using clock_digits [of m] assms by auto
  show ?thesis using assms h m
    by (simp add: parse_time_prefix_def get_at_def segment_def numeral_eq_Suc)
qed

lemma rendered_time_token:
  assumes "s < 1440" and "e \<le> 1440"
  shows "leading_time_token (format_time_token s e @ 32 # r) = Some (s, 13)" and "length (format_time_token s e) = 13"
proof -
  let ?e = "pad_zeros 2 (e div 60) @ 58 # pad_zeros 2 (e mod 60)"
  have digits: "x < 100 \<Longrightarrow> length (pad_zeros 2 x) = 2" for x using length_pad_zeros [of 2 x] by simp
  have d: "s div 60 \<le> 23" "s mod 60 \<le> 59" "e div 60 \<le> 24" "e mod 60 \<le> 59" using assms by auto
  then show len: "length (format_time_token s e) = 13" by (simp add: format_time_token_def digits)
  have tok: "format_time_token s e @ 32 # r = pad_zeros 2 (s div 60) @ 58 # pad_zeros 2 (s mod 60) @ (32 # 45 # 32 # ?e @ 32 # r)"
    by (simp add: format_time_token_def)
  have start: "parse_time_prefix (format_time_token s e @ 32 # r) = Some (s, 32 # 45 # 32 # ?e @ 32 # r)"
    unfolding tok time_prefix_padded [OF d(1,2)] by simp
  obtain a b where ab: "pad_zeros 2 (e div 60) = [a, b]" "is_ascii_digit a" "is_ascii_digit b" "digits_value [a, b] = e div 60"
    using clock_digits [of "e div 60"] d by auto
  have ws: "is_whitespace 32" "\<not> is_whitespace 45" "\<not> is_whitespace a"
    using ab(2) by (auto simp: is_whitespace_def is_ascii_digit_def)
  have after: "plan_range_end (32 # 45 # 32 # ?e @ 32 # r) =
      (case strip_prefix (lit ''24:00'') (?e @ 32 # r) of Some rest \<Rightarrow> Some (MINUTES_PER_DAY, rest) | None \<Rightarrow> parse_time_prefix (?e @ 32 # r))"
    using ws by (simp add: plan_range_end_def trim_start_def ab strip_prefix_def or_else_def Let_def)
  have "\<exists>x. plan_range_end (32 # 45 # 32 # ?e @ 32 # r) = Some (x, 32 # r)"
  proof (cases "e = 1440")
    case True
    have "?e @ 32 # r = lit ''24:00'' @ 32 # r" unfolding True by (simp add: pad_zeros_def nat_to_str.simps Let_def)
    then show ?thesis unfolding after by (simp del: lit_simps)
  next
    case False
    then have "e div 60 \<le> 23" using assms by auto
    moreover have "strip_prefix (lit ''24:00'') (?e @ 32 # r) = None"
      using ab calculation by (auto simp: strip_prefix_def digits_value_def)
    ultimately show ?thesis unfolding after using time_prefix_padded d(4) by simp
  qed
  then show "leading_time_token (format_time_token s e @ 32 # r) = Some (s, 13)"
    using len ws by (auto simp: leading_time_token_def start at_break_def)
qed

lemma leading_time_token_le: "leading_time_token t = Some (s, n) \<Longrightarrow> n \<le> length t"
  by (auto simp: leading_time_token_def split: option.splits prod.splits if_splits)

lemma trim_middle: "\<exists>a b. s = a @ trim s @ b"
  by (metis append.assoc append_Nil trim_def trim_end_def drop_while_end_split trim_start_suffix)

lemma trim_start_skip: "drop (length s - length (trim_start s)) s = trim_start s"
  using trim_start_suffix [of s] by (metis append_eq_conv_conj diff_add_inverse2 length_append)

lemma trim_take: "take (length (trim s)) (trim_start s @ r) = trim s"
  using drop_while_end_split [of "trim_start s" is_whitespace] unfolding trim_def trim_end_def
  by (metis append.assoc append_eq_conv_conj)

lemma sl_text_marked:
  assumes "n \<le> length mid" and "sl_line l = lit ''- [ ] '' @ mid @ mk"
    and "sl_text_span l = (6 + n + (length (drop n mid) - length (trim_start (drop n mid))),
         6 + n + (length (drop n mid) - length (trim_start (drop n mid))) + length (trim (drop n mid)))"
  shows "sl_text l = trim (drop n mid)"
proof -
  let ?k = "length (drop n mid) - length (trim_start (drop n mid))"
  have "?k \<le> length (drop n mid)" by simp
  then have "drop (6 + n + ?k) (lit ''- [ ] '' @ mid @ mk) = drop ?k (drop n mid) @ mk"
    using assms(1) by (simp add: drop_Cons' add.commute)
  then show ?thesis
    unfolding sl_text_def assms(2,3) segment_def fst_conv snd_conv trim_start_skip by (simp add: trim_take del: take_append)
qed

lemma sl_token_marked:
  assumes "n \<le> length mid" and "sl_line l = lit ''- [ ] '' @ mid @ mk" and "sl_token_span l = (if 0 < n then Some (6, 6 + n) else None)"
  shows "sl_token l = (if 0 < n then Some (take n mid) else None)"
  using assms(1) by (simp add: sl_token_def assms(2,3) segment_def)

lemma no_cancel_inside:
  assumes "\<not> str_contains CANCELLED_SUFFIX title" and "title @ [32] = a @ t @ b"
  shows "\<not> str_contains CANCELLED_SUFFIX t"
proof
  assume "str_contains CANCELLED_SUFFIX t"
  then obtain x y where "t = x @ CANCELLED_SUFFIX @ y" by (auto simp: str_contains_iff)
  then have eq: "title @ [32] = (a @ x) @ CANCELLED_SUFFIX @ (y @ b)" using assms(2) by simp
  have "y @ b \<noteq> []"
  proof
    assume "y @ b = []"
    then have "last (title @ [32]) = last CANCELLED_SUFFIX" unfolding eq by (simp add: CANCELLED_SUFFIX_def)
    then show False by (simp add: CANCELLED_SUFFIX_def)
  qed
  then obtain z c where "y @ b = z @ [c]" by (cases "y @ b" rule: rev_cases) auto
  then have "title @ [32] = ((a @ x) @ CANCELLED_SUFFIX @ z) @ [c]" unfolding eq by simp
  then have "title = (a @ x) @ CANCELLED_SUFFIX @ z" by (simp only: append1_eq_conv)
  then show False using assms(1) unfolding str_contains_iff by blast
qed

lemma trim_snoc_space: "trim (s @ [32]) = trim s"
proof (cases "\<forall>c \<in> set s. is_whitespace c")
  case True
  then have "\<forall>c \<in> set (s @ [32]). is_whitespace c" by (simp add: is_whitespace_def [of 32])
  then show ?thesis using True trim_eq_Nil by metis
next
  case False
  then have "trim_start (s @ [32]) = trim_start s @ [32]" by (auto simp: trim_start_def dropWhile_append1)
  then show ?thesis using trim_end_append_ws [of "[32]" "trim_start s"] by (simp add: trim_def is_whitespace_def [of 32])
qed

lemma not_cancelled:
  assumes "\<not> str_contains CANCELLED_SUFFIX (sl_text l)"
  shows "cancelled_parts l = None"
proof (cases "strip_prefix (lit ''~~'') (sl_text l)")
  case (Some t)
  then have "sl_text l = lit ''~~'' @ t" by (simp only: strip_prefix_Some)
  then have "\<not> str_contains CANCELLED_SUFFIX t" using assms by (metis str_contains_iff append.assoc)
  then show ?thesis using Some by (simp add: cancelled_parts_def str_contains_def)
qed (simp add: cancelled_parts_def)

text \<open>What stands between the box and the marker.\<close>

definition rendered_middle :: "CalendarEvent \<Rightarrow> rstr" where
  "rendered_middle event =
     (case ev_time event of Some (s, e) \<Rightarrow> format_time_token s e @ [32] | None \<Rightarrow> []) @
     (if ev_title event \<noteq> [] then ev_title event @ [32] else [])"

lemma render_middle: "render_synced_line event = lit ''- [ ] '' @ rendered_middle event @ render_marker (ev_id event) (ev_kind event)"
  by (simp add: render_synced_line_def rendered_middle_def)

lemma trim_title:
  assumes "trim title = title"
  shows "trim (if title \<noteq> [] then title @ [32] else []) = title"
  using assms by (simp add: trim_snoc_space)

text \<open>The token a rendered line reads back, and the text after it.\<close>

lemma middle_token:
  assumes "trim (ev_title event) = ev_title event" and "pred_option (\<lambda>(s, e). s < 1440 \<and> e \<le> 1440) (ev_time event)"
  defines "n \<equiv> case leading_time_token (rendered_middle event) of Some (_, n) \<Rightarrow> n | None \<Rightarrow> 0"
  shows "case ev_time event of
      Some (s, e) \<Rightarrow> n = 13 \<and> take n (rendered_middle event) = format_time_token s e \<and> trim (drop n (rendered_middle event)) = ev_title event
    | None \<Rightarrow> n = 0 \<and> trim (rendered_middle event) = ev_title event
        \<or> 0 < n \<and> length (trim (drop n (rendered_middle event))) < length (ev_title event)"
proof (cases "ev_time event")
  case (Some p)
  obtain s e where p: "p = (s, e)" by (cases p)
  let ?t = "if ev_title event \<noteq> [] then ev_title event @ [32] else []"
  have mid: "rendered_middle event = format_time_token s e @ 32 # ?t" by (simp add: rendered_middle_def Some p)
  have se: "s < 1440" "e \<le> 1440" using assms(2) by (auto simp: Some p)
  have n: "n = 13" unfolding n_def mid rendered_time_token(1) [OF se] by simp
  have "trim (32 # ?t) = ?t \<or> trim (32 # ?t) = trim ?t" by (simp add: trim_def trim_start_def is_whitespace_def [of 32])
  then have "trim (32 # ?t) = trim ?t" by (simp add: trim_def trim_start_def is_whitespace_def [of 32])
  then show ?thesis using trim_title [OF assms(1)] rendered_time_token(2) [OF se] by (simp add: Some p n mid)
next
  case None
  let ?title = "ev_title event"
  have mid: "rendered_middle event = (if ?title \<noteq> [] then ?title @ [32] else [])" by (simp add: rendered_middle_def None)
  show ?thesis
  proof (cases "n = 0")
    case True
    then show ?thesis using trim_title [OF assms(1)] by (simp add: None mid)
  next
    case False
    have "?title \<noteq> []"
    proof
      assume "?title = []"
      then have "leading_time_token (rendered_middle event) = None"
        by (simp add: mid leading_time_token_def parse_time_prefix_def get_at_def)
      then show False using False by (simp add: n_def)
    qed
    have "trim (drop n (?title @ [32])) = trim (drop n ?title)"
    proof (cases "n \<le> length ?title")
      case True
      then show ?thesis by (simp add: trim_snoc_space)
    next
      case False
      then show ?thesis by simp
    qed
    moreover obtain a b where "drop n ?title = a @ trim (drop n ?title) @ b" using trim_middle by blast
    then have "length (trim (drop n ?title)) \<le> length (drop n ?title)" by (metis length_append le_add1 le_add2 le_trans)
    then have "length (trim (drop n ?title)) < length ?title" using False \<open>?title \<noteq> []\<close> by (cases ?title) auto
    ultimately show ?thesis using False \<open>?title \<noteq> []\<close> by (simp add: None mid del: drop_append)
  qed
qed

lemma rendered_middle_hd:
  assumes "trim (ev_title event) = ev_title event" and "pred_option (\<lambda>(s, e). s < 1440 \<and> e \<le> 1440) (ev_time event)"
    and "rendered_middle event \<noteq> []"
  shows "\<not> is_whitespace (hd (rendered_middle event))"
proof (cases "ev_time event")
  case None
  then show ?thesis using assms(1,3) trim_ends_iff [of "ev_title event"] by (auto simp: rendered_middle_def)
next
  case (Some p)
  obtain s e where p: "p = (s, e)" by (cases p)
  then have "s div 60 < 100" using assms(2) Some by auto
  from clock_digits [OF this] obtain a b where "pad_zeros 2 (s div 60) = [a, b]" "is_ascii_digit a" by metis
  then show ?thesis by (auto simp: rendered_middle_def Some p format_time_token_def is_whitespace_def is_ascii_digit_def)
qed

lemma rendered_text_plain:
  assumes "trim (ev_title event) = ev_title event" and "\<not> str_contains CANCELLED_SUFFIX (ev_title event)"
    and "pred_option (\<lambda>(s, e). s < 1440 \<and> e \<le> 1440) (ev_time event)"
  shows "\<not> str_contains CANCELLED_SUFFIX
    (trim (drop (case leading_time_token (rendered_middle event) of Some (_, n) \<Rightarrow> n | None \<Rightarrow> 0) (rendered_middle event)))"
proof (cases "ev_time event")
  case (Some p)
  then show ?thesis using middle_token [OF assms(1,3)] assms(2) by (auto split: prod.splits)
next
  case None
  let ?n = "case leading_time_token (rendered_middle event) of Some (_, n) \<Rightarrow> n | None \<Rightarrow> 0"
  obtain a b where "drop ?n (rendered_middle event) = a @ trim (drop ?n (rendered_middle event)) @ b" using trim_middle by blast
  then have mid: "rendered_middle event = (take ?n (rendered_middle event) @ a) @ trim (drop ?n (rendered_middle event)) @ b"
    by (metis append.assoc append_take_drop_id)
  show ?thesis
  proof (cases "ev_title event = []")
    case True
    then show ?thesis using None by (simp add: rendered_middle_def str_contains_def CANCELLED_SUFFIX_def)
  next
    case False
    then have "ev_title event @ [32] = (take ?n (rendered_middle event) @ a) @ trim (drop ?n (rendered_middle event)) @ b"
      using mid None by (simp add: rendered_middle_def)
    then show ?thesis by (rule no_cancel_inside [OF assms(2)])
  qed
qed

lemma title_trailing_short: "length t < length title \<Longrightarrow> title_trailing t title = None"
  by (auto simp: title_trailing_def strip_prefix_def starts_with_iff)

definition sample_event :: CalendarEvent where
  "sample_event = \<lparr>ev_id = lit ''0a'', ev_title = lit ''sync'', ev_time = Some (540, 600), ev_kind = FocusTime\<rparr>"

lemma sample_event_ok:
  "ev_id sample_event \<noteq> []" "list_all is_ascii_hexdigit (ev_id sample_event)" "trim (ev_title sample_event) = ev_title sample_event"
  "\<not> str_contains CANCELLED_SUFFIX (ev_title sample_event)"
  by code_simp+



text \<open>Removing the marker's opening once can leave one behind.\<close>

theorem sanitized_title_forges_marker:
  "sanitize_title (lit ''<!<!----gcal:00-->'') = lit ''<!--gcal:00-->''"
  by code_simp

text \<open>An event whose title reads as a cancelled one followed by more is edited on every poll, and its line grows.\<close>

theorem cancelled_title_grows:
  "Option.bind (parse_synced 0 (lit ''- [ ] ~~a~~ (cancelled) b <!--gcal:00-->''))
     (\<lambda>l. updated_for l \<lparr>ev_id = lit ''00'', ev_title = lit ''~~a~~ (cancelled) b'', ev_time = None, ev_kind = EDefault\<rparr>) =
   Some (lit ''- [ ] ~~a~~ (cancelled) b b <!--gcal:00-->'')"
  by code_simp

section \<open>Properties\<close>



text \<open>C24: The line written for an event is recognised as that event's line on the next poll and is not edited
  again: it carries the event's id, and bringing it in line with the unchanged event gives the line
  itself or, for an all-day title that begins with a time, leaves it to the user.\<close>

theorem synced_line_settles:
  assumes "ev_id event \<noteq> []" and "list_all is_ascii_hexdigit (ev_id event)" and "trim (ev_title event) = ev_title event"
    and "\<not> str_contains CANCELLED_SUFFIX (ev_title event)"
    and "pred_option (\<lambda>(s, e). s < 1440 \<and> e \<le> 1440) (ev_time event)"
  shows "\<exists>l. parse_synced row (render_synced_line event) = Some l \<and> sl_id l = ev_id event \<and>
     (updated_for l event = Some (render_synced_line event) \<or> updated_for l event = None \<and> ev_time event = None)"
proof -
  let ?mid = "rendered_middle event" and ?mk = "render_marker (ev_id event) (ev_kind event)"
  let ?n = "case leading_time_token ?mid of Some (_, n) \<Rightarrow> n | None \<Rightarrow> 0"
  have "?mid \<noteq> [] \<longrightarrow> \<not> is_whitespace (hd ?mid)" using rendered_middle_hd [OF assms(3,5)] by simp
  from parse_marked [OF assms(1,2) this, of row "ev_kind event"] obtain l where
    l: "parse_synced row (render_synced_line event) = Some l" "sl_id l = ev_id event" "sl_line l = lit ''- [ ] '' @ ?mid @ ?mk"
    "sl_token_span l = (if 0 < ?n then Some (6, 6 + ?n) else None)" "sl_marker_suffix l = marker_suffix (ev_kind event)"
    "sl_text_span l = (6 + ?n + (length (drop ?n ?mid) - length (trim_start (drop ?n ?mid))),
         6 + ?n + (length (drop ?n ?mid) - length (trim_start (drop ?n ?mid))) + length (trim (drop ?n ?mid)))"
    by (simp add: render_middle del: lit_simps)
  have n: "?n \<le> length ?mid" by (auto split: option.split dest: leading_time_token_le)
  have shown: "sl_text l = trim (drop ?n ?mid)" by (rule sl_text_marked [OF n l(3,6)])
  have token: "sl_token l = (if 0 < ?n then Some (take ?n ?mid) else None)" by (rule sl_token_marked [OF n l(3,4)])
  have marker: "marker_update_for l (ev_kind event) = None" by (simp add: marker_update_for_def l)
  have line: "sl_line l = render_synced_line event" by (simp only: render_middle l(3))
  have same: "title_trailing (ev_title event) (ev_title event) = Some []"
    using strip_prefix_append [of "ev_title event" "[]"] by (simp add: title_trailing_def at_break_def)
  note middle = middle_token [OF assms(3,5)]
  have live: "cancelled_parts l = None" using not_cancelled shown rendered_text_plain [OF assms(3-5)] by simp
  show ?thesis
  proof (cases "ev_time event")
    case (Some p)
    then show ?thesis using middle l(1,2) shown token marker line same live
      by (auto simp: updated_for_def Let_def)
  next
    case None
    then have "title_trailing (sl_text l) (ev_title event) = Some [] \<and> sl_token l = None \<or> title_trailing (sl_text l) (ev_title event) = None"
      using middle shown token same title_trailing_short by auto
    then show ?thesis using None l(1,2) marker line live by (auto simp: updated_for_def Let_def)
  qed
qed

theorem synced_line_settles_witness:
  "\<exists>l. parse_synced 0 (render_synced_line sample_event) = Some l \<and> sl_id l = lit ''0a'' \<and>
     updated_for l sample_event = Some (render_synced_line sample_event)"
  using synced_line_settles [OF sample_event_ok, of 0] by (simp add: sample_event_def)

end
