(* ===== verification/Reminder_Index.thy ===== *)
theory Reminder_Index
  imports Reminder_Edit
begin

text \<open>
  The desk's reminders index (\<open>crates/thock/src/reminder_index.rs\<close>, with its settings from
  \<open>crates/thock/src/reminders.rs\<close>): reading \<open>reminders.md\<close> and the notes it links to into reminders,
  and applying line changes to a file.  A file's lines keep the endings they have.  chrono's parsing
  of a date and the TOML parser are parameters.
\<close>

section \<open>Settings\<close>

record ('d, 't) index_env =
  ix_env :: env
  ix_chrono :: "('d, 't) chrono"
  ix_parse_Ymd :: "rstr \<Rightarrow> 'd option"

record 't ReminderSettings =
  rs_index :: rstr
  rs_open_headings :: "rstr list"
  rs_done_headings :: "rstr list"
  rs_day_headings :: "rstr list"
  rs_date_only_at :: 't
  rs_snooze_minutes :: nat
  rs_tomorrow_at :: 't
  rs_ring_on_desk :: bool

definition settings_default :: "'t \<Rightarrow> 't ReminderSettings" where
  "settings_default nine =
     \<lparr>rs_index = lit ''reminders.md'', rs_open_headings = [lit ''Open''], rs_done_headings = [lit ''Done''],
      rs_day_headings = [DEFAULT_DAY_HEADING], rs_date_only_at = nine, rs_snooze_minutes = 60,
      rs_tomorrow_at = nine, rs_ring_on_desk = True\<rparr>"

record SettingsContent =
  sct_index :: "rstr option"
  sct_open :: "rstr list option"
  sct_done :: "rstr list option"
  sct_day :: "rstr list option"
  sct_date_only_at :: "rstr option"
  sct_snooze_minutes :: "nat option"
  sct_tomorrow_at :: "rstr option"
  sct_desk :: "bool option"

definition is_vault_markdown_path :: "rstr \<Rightarrow> bool" where
  "is_vault_markdown_path path \<longleftrightarrow>
     \<not> starts_with [47] path \<and> \<not> str_contains [92] path \<and> ends_with (lit ''.md'') (map to_ascii_lowercase path) \<and>
     list_all (\<lambda>seg. seg \<noteq> [] \<and> seg \<noteq> lit ''.'' \<and> seg \<noteq> lit ''..'') (split_on (\<lambda>c. c = 47) path)"

definition settings_headings :: "rstr list option \<Rightarrow> rstr list \<Rightarrow> rstr list" where
  "settings_headings names fallback =
     (let kept = filter (\<lambda>n. n \<noteq> []) (map trim (case names of Some ns \<Rightarrow> ns | None \<Rightarrow> []))
      in if kept = [] then fallback else kept)"

definition settings_time :: "(rstr \<Rightarrow> 't option) \<Rightarrow> rstr option \<Rightarrow> 't \<Rightarrow> 't option" where
  "settings_time parse_HM value fallback = (case value of None \<Rightarrow> Some fallback | Some t \<Rightarrow> parse_HM (trim t))"

definition settings_index :: "rstr option \<Rightarrow> rstr \<Rightarrow> rstr option" where
  "settings_index index fallback =
     (case map_option trim index of
        Some i \<Rightarrow> if i \<noteq> [] then (if is_vault_markdown_path i then Some i else None) else Some fallback
      | None \<Rightarrow> Some fallback)"

definition parse_reminder_settings ::
  "(rstr \<Rightarrow> SettingsContent option) \<Rightarrow> (rstr \<Rightarrow> 't option) \<Rightarrow> 't \<Rightarrow> rstr \<Rightarrow> 't ReminderSettings option" where
  "parse_reminder_settings toml parse_HM nine t =
     Option.bind (toml t) (\<lambda>content. let defaults = settings_default nine in
       Option.bind (settings_index (sct_index content) (rs_index defaults)) (\<lambda>index.
       Option.bind (settings_time parse_HM (sct_date_only_at content) (rs_date_only_at defaults)) (\<lambda>at.
       Option.bind (settings_time parse_HM (sct_tomorrow_at content) (rs_tomorrow_at defaults)) (\<lambda>tomorrow.
         Some \<lparr>rs_index = index,
           rs_open_headings = settings_headings (sct_open content) (rs_open_headings defaults),
           rs_done_headings = settings_headings (sct_done content) (rs_done_headings defaults),
           rs_day_headings = settings_headings (sct_day content) (rs_day_headings defaults),
           rs_date_only_at = at,
           rs_snooze_minutes = max 1 (min (24 * 60) (case sct_snooze_minutes content of Some m \<Rightarrow> m | None \<Rightarrow> rs_snooze_minutes defaults)),
           rs_tomorrow_at = tomorrow,
           rs_ring_on_desk = (case sct_desk content of Some b \<Rightarrow> b | None \<Rightarrow> rs_ring_on_desk defaults)\<rparr>))))"

section \<open>Entries\<close>

definition INDEX_COMMENT :: rstr where
  "INDEX_COMMENT = lit ''<!-- Thock keeps this index. A task here is a reminder; a link points at one that lives in another note. -->''"

datatype IndexSection = SecOpen | SecDone
datatype StampKind = StampDone | StampDropped | StampRemoved

record 'd Stamp =
  st_kind :: StampKind
  st_date :: 'd

fun stamp_word :: "StampKind \<Rightarrow> rstr" where
  "stamp_word StampDone = [9989]"
| "stamp_word StampDropped = lit ''dropped''"
| "stamp_word StampRemoved = lit ''removed''"

definition stamp_text :: "('d, 't) index_env \<Rightarrow> 'd Stamp \<Rightarrow> rstr" where
  "stamp_text X s = stamp_word (st_kind s) @ [32] @ format_Ymd (cal (ix_chrono X)) (st_date s)"

datatype EntryKind = Link rstr | Loose

record 'd ReminderEntry =
  ie_id :: rstr
  ie_row :: nat
  ie_section :: IndexSection
  ie_kind :: EntryKind
  ie_stamp :: "'d Stamp option"

definition link_path :: "rstr \<Rightarrow> rstr" where
  "link_path target =
     (let t = trim_start_matches (\<lambda>c. c = 47) (trim target)
      in if ends_with (lit ''.md'') (map to_ascii_lowercase t) then t else t @ lit ''.md'')"

definition section_ranges :: "('d, 't) index_env \<Rightarrow> rstr \<Rightarrow> 'u ReminderSettings \<Rightarrow> (IndexSection \<times> nat \<times> nat) list" where
  "section_ranges X t settings =
     (let hs = note_headings t;
          line_count = length (split_on (\<lambda>c. c = 10) t)
      in List.map_filter (\<lambda>h.
           map_option (\<lambda>sec. (sec, nh_row h + 1,
               case find (\<lambda>other. nh_row h < nh_row other \<and> nh_level other \<le> nh_level h) hs of
                 Some other \<Rightarrow> nh_row other | None \<Rightarrow> line_count))
             (if list_ex (heading_matches (ix_env X) (nh_text h)) (rs_open_headings settings) then Some SecOpen
              else if list_ex (heading_matches (ix_env X) (nh_text h)) (rs_done_headings settings) then Some SecDone
              else None)) hs)"

definition list_item_body :: "rstr \<Rightarrow> rstr option" where
  "list_item_body line = find_map (\<lambda>marker. strip_prefix marker line) [lit ''- '', lit ''* '', lit ''+ '']"

definition parse_stamp :: "('d, 't) index_env \<Rightarrow> rstr \<Rightarrow> 'd Stamp option" where
  "parse_stamp X line =
     (let head = trim_end (take (trailing_comments_start line) line)
      in if length head < 10 then None
         else Option.bind (ix_parse_Ymd X (drop (length head - 10) head)) (\<lambda>date.
           let prior = trim_end (take (length head - 10) head)
           in if ends_with [9989] prior then Some \<lparr>st_kind = StampDone, st_date = date\<rparr>
              else if ends_with (lit '' dropped'') prior then Some \<lparr>st_kind = StampDropped, st_date = date\<rparr>
              else if ends_with (lit '' removed'') prior then Some \<lparr>st_kind = StampRemoved, st_date = date\<rparr>
              else None))"

definition trim_cr :: "rstr \<Rightarrow> rstr" where
  "trim_cr line = trim_end_matches (\<lambda>c. c = 13) line"

definition entry_kind :: "rstr \<Rightarrow> EntryKind" where
  "entry_kind body =
     (case Option.bind (strip_prefix (lit ''[['') body) (split_once (lit '']]'')) of
        Some (target, _) \<Rightarrow> Link (link_path (hd (split_on (\<lambda>c. c = 124) target)))
      | None \<Rightarrow> Loose)"

definition in_rows :: "nat \<Rightarrow> nat \<times> nat \<Rightarrow> bool" where
  "in_rows row rows \<longleftrightarrow> fst rows \<le> row \<and> row < snd rows"

definition parse_index :: "('d, 't) index_env \<Rightarrow> rstr \<Rightarrow> rstr \<Rightarrow> 'u ReminderSettings \<Rightarrow> ReminderConfig \<Rightarrow> 'd ReminderEntry list" where
  "parse_index X t index_path settings config =
     (let ranges = section_ranges X t settings;
          lines = split_on (\<lambda>c. c = 10) t
      in List.map_filter (\<lambda>a.
           Option.bind (lr_id (ap_reminder a)) (\<lambda>i.
           Option.bind (find (\<lambda>(_, rows). in_rows (ap_line a) rows) (rev ranges)) (\<lambda>(sec, _).
           Option.bind (map_option trim_cr (get_at lines (ap_line a))) (\<lambda>line.
           Option.bind (list_item_body line) (\<lambda>body.
             Some \<lparr>ie_id = i, ie_row = ap_line a, ie_section = sec, ie_kind = entry_kind body, ie_stamp = parse_stamp X line\<rparr>)))))
         (parse_note (ix_env X) (ix_chrono X) t index_path config))"

definition find_home :: "('d, 't) index_env \<Rightarrow> rstr \<Rightarrow> rstr \<Rightarrow> rstr \<Rightarrow> ReminderConfig \<Rightarrow> ('d, 't) Appearance option" where
  "find_home X t path i config =
     (let candidates = filter (\<lambda>a. \<not> ap_mirror a \<and> lr_id (ap_reminder a) = Some i)
            (parse_note (ix_env X) (ix_chrono X) t path config)
      in case find (\<lambda>a. lr_token (ap_reminder a) \<noteq> None) candidates of
           Some a \<Rightarrow> Some a
         | None \<Rightarrow> first_opt candidates)"

section \<open>Reading\<close>

datatype IndexedState = IxOpen | IxClosed | IxDropped | IxRemoved | IxMissing

record ('d, 't) IndexedReminder =
  ir_id :: rstr
  ir_section :: IndexSection
  ir_kind :: EntryKind
  ir_stamp :: "'d Stamp option"
  ir_home :: rstr
  ir_line :: "nat option"
  ir_line_text :: "rstr option"
  ir_text :: "rstr option"
  ir_due :: "('d, 't) Due option"
  ir_task :: "Task option"
  ir_state :: IndexedState

definition indexed_group :: "'d calendar \<Rightarrow> ('d, 't) IndexedReminder \<Rightarrow> 'd \<Rightarrow> Group option" where
  "indexed_group K r today =
     (case ir_state r of
        IxOpen \<Rightarrow> group K Open (ir_due r) today
      | IxClosed \<Rightarrow> group K Closed (ir_due r) today
      | IxDropped \<Rightarrow> group K Dropped (ir_due r) today
      | IxRemoved \<Rightarrow> Some Done
      | IxMissing \<Rightarrow> None)"

definition rings_at :: "('d, 't) IndexedReminder \<Rightarrow> 't \<Rightarrow> ('d \<times> 't) option" where
  "rings_at r date_only_at = map_option (\<lambda>due. due_at due date_only_at) (ir_due r)"

definition indexed_is_open :: "('d, 't) IndexedReminder \<Rightarrow> bool" where
  "indexed_is_open r \<longleftrightarrow> ir_state r = IxOpen"

fun indexed_state :: "ReminderState \<Rightarrow> IndexedState" where
  "indexed_state Open = IxOpen"
| "indexed_state Closed = IxClosed"
| "indexed_state Dropped = IxDropped"

definition entry_home :: "rstr \<Rightarrow> 'd ReminderEntry \<Rightarrow> rstr" where
  "entry_home index_path e = (case ie_kind e of Link home \<Rightarrow> home | Loose \<Rightarrow> index_path)"

definition read_entry :: "('d, 't) index_env \<Rightarrow> rstr \<Rightarrow> rstr \<Rightarrow> (rstr \<Rightarrow> rstr option) \<Rightarrow> ReminderConfig \<Rightarrow> 'd ReminderEntry \<Rightarrow>
    ('d, 't) IndexedReminder" where
  "read_entry X index_path index_text files config e =
     (let home = entry_home index_path e;
          found = Option.bind (if home = index_path then Some index_text else files home) (\<lambda>t.
            Option.bind (find_home X t home (ie_id e) config) (\<lambda>a.
              map_option (\<lambda>line. (a, trim_cr line)) (get_at (split_on (\<lambda>c. c = 10) t) (ap_line a))))
      in case found of
           Some (a, line) \<Rightarrow>
             \<lparr>ir_id = ie_id e, ir_section = ie_section e, ir_kind = ie_kind e, ir_stamp = ie_stamp e, ir_home = home,
              ir_line = Some (ap_line a), ir_line_text = Some line, ir_text = Some (reminder_text (ix_chrono X) line),
              ir_due = lr_due (ap_reminder a), ir_task = lr_task (ap_reminder a),
              ir_state = indexed_state (lr_state (ap_reminder a))\<rparr>
         | None \<Rightarrow>
             \<lparr>ir_id = ie_id e, ir_section = ie_section e, ir_kind = ie_kind e, ir_stamp = ie_stamp e, ir_home = home,
              ir_line = None, ir_line_text = None, ir_text = None, ir_due = None, ir_task = None,
              ir_state = (if is_some_and (ie_stamp e) (\<lambda>s. st_kind s = StampRemoved) then IxRemoved else IxMissing)\<rparr>)"

definition read_index :: "('d, 't) index_env \<Rightarrow> rstr \<Rightarrow> rstr \<Rightarrow> (rstr \<Rightarrow> rstr option) \<Rightarrow> 'u ReminderSettings \<Rightarrow> ReminderConfig \<Rightarrow>
    ('d, 't) IndexedReminder list" where
  "read_index X index_path index_text files settings config =
     map (read_entry X index_path index_text files config) (parse_index X index_text index_path settings config)"

end
