(* ===== verification/Reminder_Changes.thy ===== *)
theory Reminder_Changes
  imports Reminder_Index
begin

text \<open>
  The changes a batch plans for a file and their application (\<open>crates/thock/src/reminder_index.rs\<close>):
  lines with their endings, edits addressed by id, entries appended to, replaced in and moved within
  the index.
\<close>

section \<open>Lines and their endings\<close>

record Lines =
  lns_lines :: "rstr list"
  lns_endings :: "rstr list"
  lns_ending :: rstr

definition CR_LF :: rstr where "CR_LF = [13, 10]"
definition LF :: rstr where "LF = [10]"

definition piece_line :: "rstr \<Rightarrow> rstr \<times> rstr" where
  "piece_line piece =
     (case strip_suffix CR_LF piece of
        Some line \<Rightarrow> (line, CR_LF)
      | None \<Rightarrow> (case strip_suffix LF piece of Some line \<Rightarrow> (line, LF) | None \<Rightarrow> (piece, [])))"

definition lines_split :: "rstr \<Rightarrow> Lines" where
  "lines_split t =
     (let pieces = map piece_line (split_inclusive t);
          crlf = length (filter (\<lambda>p. snd p = CR_LF) pieces);
          lf = length (filter (\<lambda>p. snd p = LF) pieces)
      in \<lparr>lns_lines = map fst pieces, lns_endings = map snd pieces, lns_ending = (if lf < crlf then CR_LF else LF)\<rparr>)"

definition lines_join :: "Lines \<Rightarrow> rstr" where
  "lines_join ls = concat (map (\<lambda>(line, ending). line @ ending) (zip (lns_lines ls) (lns_endings ls)))"

definition lines_insert :: "nat \<Rightarrow> rstr \<Rightarrow> Lines \<Rightarrow> Lines" where
  "lines_insert at0 line ls =
     (let at = min at0 (length (lns_lines ls))
      in if at = length (lns_lines ls) \<and> last_opt (lns_endings ls) = Some []
         then ls\<lparr>lns_endings := butlast (lns_endings ls) @ [lns_ending ls, []], lns_lines := lns_lines ls @ [line]\<rparr>
         else ls\<lparr>lns_lines := splice_at at [line] (lns_lines ls), lns_endings := splice_at at [lns_ending ls] (lns_endings ls)\<rparr>)"

definition lines_remove :: "nat \<Rightarrow> Lines \<Rightarrow> Lines" where
  "lines_remove at ls =
     (if at < length (lns_lines ls)
      then let kept = take at (lns_lines ls) @ drop (at + 1) (lns_lines ls);
               ending = lns_endings ls ! at;
               endings = take at (lns_endings ls) @ drop (at + 1) (lns_endings ls)
           in ls\<lparr>lns_lines := kept,
                 lns_endings := (if at = length kept \<and> ending = [] \<and> endings \<noteq> [] then butlast endings @ [[]] else endings)\<rparr>
      else ls)"

definition lines_set :: "nat \<Rightarrow> rstr \<Rightarrow> Lines \<Rightarrow> Lines" where
  "lines_set row line ls = ls\<lparr>lns_lines := (lns_lines ls)[row := line]\<rparr>"

section \<open>Changes\<close>

datatype ('d, 't) HomeEdit = HClose | HReopen | HRewrite "('d, 't) Due" | HDrop

datatype ('d, 't) Change =
    AddId nat rstr rstr
  | Home rstr "('d, 't) HomeEdit"
  | AppendEntry IndexSection rstr
  | ReplaceEntry rstr rstr
  | MoveEntry rstr IndexSection rstr
  | RemoveDuplicateLinks rstr

record ('d, 't) FileChanges =
  fch_path :: rstr
  fch_changes :: "('d, 't) Change list"

definition index_skeleton :: "'u ReminderSettings \<Rightarrow> rstr" where
  "index_skeleton settings =
     (let op = (case rs_open_headings settings of h # _ \<Rightarrow> h | [] \<Rightarrow> lit ''Open'');
          dn = (case rs_done_headings settings of h # _ \<Rightarrow> h | [] \<Rightarrow> lit ''Done'')
      in lit ''# Reminders'' @ [10, 10] @ INDEX_COMMENT @ [10, 10] @ lit ''## '' @ op @ [10, 10] @ lit ''## '' @ dn @ [10])"

text \<open>The row a new entry of a section goes at: after its last non-blank line.\<close>

definition index_section_end :: "('d, 't) index_env \<Rightarrow> Lines \<Rightarrow> IndexSection \<Rightarrow> 'u ReminderSettings \<Rightarrow> nat option" where
  "index_section_end X ls sec settings =
     map_option (\<lambda>(_, s, e).
         fold (\<lambda>row last. if is_some_and (get_at (lns_lines ls) row) (\<lambda>line. trim line \<noteq> []) then row + 1 else last) [s..<e] s)
       (find (\<lambda>(found, _). found = sec) (section_ranges X (lines_join ls) settings))"

definition add_heading :: "('d, 't) index_env \<Rightarrow> Lines \<Rightarrow> IndexSection \<Rightarrow> 'u ReminderSettings \<Rightarrow> Lines" where
  "add_heading X ls sec settings =
     (let (names, fallback) = (case sec of SecOpen \<Rightarrow> (rs_open_headings settings, lit ''Open'')
             | SecDone \<Rightarrow> (rs_done_headings settings, lit ''Done''));
          heading = lit ''## '' @ (case names of h # _ \<Rightarrow> h | [] \<Rightarrow> fallback);
          done_heading = (if sec = SecOpen
            then map_option (\<lambda>(_, s, _). s - 1) (find (\<lambda>(found, _). found = SecDone) (section_ranges X (lines_join ls) settings))
            else None)
      in case done_heading of
           Some row \<Rightarrow> lines_insert (row + 1) [] (lines_insert row heading ls)
         | None \<Rightarrow>
             let ls' = (if is_some_and (last_opt (lns_lines ls)) (\<lambda>l. trim l \<noteq> []) then lines_insert (length (lns_lines ls)) [] ls else ls)
             in lines_insert (length (lns_lines ls')) heading ls')"

text \<open>The row of the section's end and the lines it is a row of: with the heading when there was none.\<close>

definition ensure_section :: "('d, 't) index_env \<Rightarrow> Lines \<Rightarrow> IndexSection \<Rightarrow> 'u ReminderSettings \<Rightarrow> nat \<times> Lines" where
  "ensure_section X ls sec settings =
     (case index_section_end X ls sec settings of
        Some row \<Rightarrow> (row, ls)
      | None \<Rightarrow>
          let ls' = add_heading X ls sec settings
          in (case index_section_end X ls' sec settings of Some row \<Rightarrow> row | None \<Rightarrow> length (lns_lines ls'), ls'))"

definition append_entry :: "('d, 't) index_env \<Rightarrow> Lines \<Rightarrow> IndexSection \<Rightarrow> rstr \<Rightarrow> 'u ReminderSettings \<Rightarrow> nat \<times> Lines" where
  "append_entry X ls sec line settings = (let (row, ls') = ensure_section X ls sec settings in (row, lines_insert row line ls'))"

definition insert_loose_line :: "('d, 't) index_env \<Rightarrow> rstr option \<Rightarrow> 'u ReminderSettings \<Rightarrow> rstr \<times> nat" where
  "insert_loose_line X t settings =
     (let initial = (case t of Some s \<Rightarrow> s | None \<Rightarrow> index_skeleton settings);
          (row, ls) = ensure_section X (lines_split initial) SecOpen settings
      in (lines_join (lines_insert row (lit ''- [ ] '') ls), row))"

definition entry_row :: "('d, 't) index_env \<Rightarrow> Lines \<Rightarrow> rstr \<Rightarrow> rstr \<Rightarrow> 'u ReminderSettings \<Rightarrow> ReminderConfig \<Rightarrow> nat option" where
  "entry_row X ls path i settings config =
     map_option ie_row (find (\<lambda>e. ie_id e = i) (parse_index X (lines_join ls) path settings config))"

definition indent :: "rstr \<Rightarrow> nat" where
  "indent t = length t - length (trim_start t)"

definition children_end :: "rstr list \<Rightarrow> nat \<Rightarrow> nat" where
  "children_end lines entry =
     (let base = indent (lines ! entry)
      in entry + 1 + length (takeWhile (\<lambda>child. trim child \<noteq> [] \<and> base < indent child) (drop (entry + 1) lines)))"

definition move_entry :: "('d, 't) index_env \<Rightarrow> Lines \<Rightarrow> nat \<Rightarrow> IndexSection \<Rightarrow> rstr \<Rightarrow> 'u ReminderSettings \<Rightarrow> Lines" where
  "move_entry X ls entry to line settings =
     (let e = children_end (lns_lines ls) entry;
          children = segment (lns_lines ls) (entry + 1) e;
          removed = (lines_remove entry ^^ (e - entry)) ls;
          (row, appended) = append_entry X removed to line settings
      in fold (\<lambda>(offset, child). lines_insert (row + 1 + offset) child) (enumerate 0 children) appended)"

definition addressed_row :: "rstr list \<Rightarrow> nat \<Rightarrow> rstr \<Rightarrow> nat option" where
  "addressed_row lines row expected =
     (if get_at lines row = Some expected then Some row
      else case filter (\<lambda>index. lines ! index = expected) [0..<length lines] of [index] \<Rightarrow> Some index | _ \<Rightarrow> None)"

fun home_edit :: "('d, 't) chrono \<Rightarrow> ('d, 't) HomeEdit \<Rightarrow> 'd option \<Rightarrow> rstr \<Rightarrow> rstr option" where
  "home_edit C HClose day line = close_reminder C line"
| "home_edit C HReopen day line = reopen C line"
| "home_edit C (HRewrite due) day line = rewrite C line due day"
| "home_edit C HDrop day line = drop_token C line"

definition duplicate_rows :: "('d, 't) index_env \<Rightarrow> Lines \<Rightarrow> rstr \<Rightarrow> rstr \<Rightarrow> 'u ReminderSettings \<Rightarrow> ReminderConfig \<Rightarrow> nat list" where
  "duplicate_rows X ls path i settings config =
     map ie_row (filter (\<lambda>e. ie_kind e \<noteq> Loose)
       (drop 1 (filter (\<lambda>e. ie_id e = i) (parse_index X (lines_join ls) path settings config))))"

fun apply_change :: "('d, 't) index_env \<Rightarrow> rstr \<Rightarrow> 'u ReminderSettings \<Rightarrow> ReminderConfig \<Rightarrow> ('d, 't) Change \<Rightarrow> Lines \<Rightarrow> Lines" where
  "apply_change X path settings config (AddId row expected i) ls =
     (case addressed_row (lns_lines ls) row expected of
        None \<Rightarrow> ls
      | Some row' \<Rightarrow>
          (case add_id (ix_chrono X) (lns_lines ls ! row') i of Some edited \<Rightarrow> lines_set row' edited ls | None \<Rightarrow> ls))"
| "apply_change X path settings config (Home i edit) ls =
     (case find_home X (lines_join ls) path i config of
        None \<Rightarrow> ls
      | Some home \<Rightarrow>
          (case home_edit (ix_chrono X) edit (day_of (ix_chrono X) (rc_daily config) path) (lns_lines ls ! ap_line home) of
             Some edited \<Rightarrow> lines_set (ap_line home) edited ls | None \<Rightarrow> ls))"
| "apply_change X path settings config (AppendEntry sec line) ls = snd (append_entry X ls sec line settings)"
| "apply_change X path settings config (RemoveDuplicateLinks i) ls =
     fold lines_remove (rev (duplicate_rows X ls path i settings config)) ls"
| "apply_change X path settings config (ReplaceEntry i line) ls =
     (case entry_row X ls path i settings config of Some entry \<Rightarrow> lines_set entry line ls | None \<Rightarrow> ls)"
| "apply_change X path settings config (MoveEntry i to line) ls =
     (case entry_row X ls path i settings config of Some entry \<Rightarrow> move_entry X ls entry to line settings | None \<Rightarrow> ls)"

fun needs_index :: "('d, 't) Change \<Rightarrow> bool" where
  "needs_index (AppendEntry _ _) = True"
| "needs_index (MoveEntry _ _ _) = True"
| "needs_index _ = False"

definition apply_changes :: "('d, 't) index_env \<Rightarrow> rstr option \<Rightarrow> rstr \<Rightarrow> ('d, 't) Change list \<Rightarrow> 'u ReminderSettings \<Rightarrow>
    ReminderConfig \<Rightarrow> rstr" where
  "apply_changes X t path changes settings config =
     (let initial = (case t of Some s \<Rightarrow> s | None \<Rightarrow> if list_ex needs_index changes then index_skeleton settings else [])
      in lines_join (fold (apply_change X path settings config) changes (lines_split initial)))"

end
