(* ===== verification/Reminder_Batch.thy ===== *)
theory Reminder_Batch
  imports Reminder_Changes "HOL-Library.List_Lexorder"
begin

text \<open>
  The batch step of the reminders index (\<open>crates/thock/src/reminder_index.rs\<close>): from what every note
  says about reminders, the writes that bring the index in step with them.  The maps of the source
  that are gone through in key order are lists of pairs in that order, the others functions.  The
  instants of the batch and the drawing of an id are parameters; an id is drawn until one is valid
  and unknown, so a plan is \<open>None\<close> when the source of ids never gives one.
\<close>

section \<open>The scan\<close>

record ScanLine =
  scl_row :: nat
  scl_id :: "rstr option"
  scl_token :: bool
  scl_has_day :: bool
  scl_closed :: bool
  scl_mirror :: bool

definition scan_state :: "ScanLine \<Rightarrow> ReminderState" where
  "scan_state l = (if \<not> scl_token l then Dropped else if scl_closed l then Closed else Open)"

definition scan_note :: "('d, 't) index_env \<Rightarrow> rstr \<Rightarrow> rstr \<Rightarrow> ReminderConfig \<Rightarrow> ScanLine list" where
  "scan_note X t path config =
     map (\<lambda>a. let r = ap_reminder a
        in \<lparr>scl_row = ap_line a, scl_id = lr_id r, scl_token = (lr_token r \<noteq> None), scl_has_day = (lr_due r \<noteq> None),
            scl_closed = (lr_task r = Some TDone \<or> is_some_and (lr_token r) tok_struck), scl_mirror = ap_mirror a\<rparr>)
       (parse_note (ix_env X) (ix_chrono X) t path config)"

section \<open>Inputs and outputs\<close>

type_synonym scans = "(rstr \<times> ScanLine list) list"

record ('d, 'n) instants =
  nw_date :: "'n \<Rightarrow> 'd"
  nw_grace_over :: "'n \<Rightarrow> 'n \<Rightarrow> bool"
  nw_plus_grace :: "'n \<Rightarrow> 'n"
  nw_min :: "'n \<Rightarrow> 'n \<Rightarrow> 'n"

record 'n BatchInput =
  bi_index_path :: rstr
  bi_index_text :: "rstr option"
  bi_scan :: scans
  bi_previous :: "rstr \<Rightarrow> ScanLine list option"
  bi_changed :: "(rstr \<times> rstr) list"
  bi_skip_rows :: "rstr \<Rightarrow> nat list"
  bi_now :: 'n

record ('d, 't, 'n) BatchPlan =
  bp_changes :: "('d, 't) FileChanges list"
  bp_recheck_at :: "'n option"

definition plan_is_empty :: "('d, 't, 'n) BatchPlan \<Rightarrow> bool" where
  "plan_is_empty plan \<longleftrightarrow> bp_changes plan = []"

section \<open>Entry lines\<close>

definition link_line :: "('d, 't) index_env \<Rightarrow> rstr \<Rightarrow> rstr \<Rightarrow> 'd Stamp option \<Rightarrow> rstr" where
  "link_line X home i stamp =
     lit ''- [['' @ note_link home @ lit '']] '' @
     (case stamp of Some s \<Rightarrow> stamp_text X s @ [32] | None \<Rightarrow> []) @ id_marker i"

definition strip_stamp_word :: "rstr \<Rightarrow> rstr" where
  "strip_stamp_word t =
     (case or_else (strip_suffix [9989] t) (or_else (strip_suffix (lit ''dropped'') t) (strip_suffix (lit ''removed'') t)) of
        Some s \<Rightarrow> s | None \<Rightarrow> t)"

definition restamp :: "('d, 't) index_env \<Rightarrow> rstr \<Rightarrow> 'd Stamp option \<Rightarrow> rstr" where
  "restamp X line stamp =
     (let split = trailing_comments_start line;
          head0 = trim_end (take split line);
          head1 = (if parse_stamp X line \<noteq> None \<and> 10 \<le> length head0
                   then trim_end (strip_stamp_word (trim_end (take (length head0 - 10) head0))) else head0);
          head2 = (case stamp of Some s \<Rightarrow> head1 @ [32] @ stamp_text X s | None \<Rightarrow> head1);
          comments = trim (drop split line)
      in if comments = [] then head2 else head2 @ [32] @ comments)"

section \<open>One entry per id\<close>

fun unique_entries :: "rstr list \<Rightarrow> 'd ReminderEntry list \<Rightarrow> 'd ReminderEntry list" where
  "unique_entries seen [] = []"
| "unique_entries seen (e # es) =
     (if ie_id e \<in> set seen then unique_entries seen es else e # unique_entries (ie_id e # seen) es)"

text \<open>The ids whose later link entries go, each once, in the order met.\<close>

fun duplicate_ids :: "rstr list \<Rightarrow> rstr list \<Rightarrow> 'd ReminderEntry list \<Rightarrow> rstr list" where
  "duplicate_ids seen found [] = found"
| "duplicate_ids seen found (e # es) =
     (if ie_id e \<notin> set seen then duplicate_ids (ie_id e # seen) found es
      else if ie_kind e \<noteq> Loose \<and> ie_id e \<notin> set found then duplicate_ids seen (found @ [ie_id e]) es
      else duplicate_ids seen found es)"

section \<open>Ids for new tokens\<close>

partial_function (option) draw_id :: "('s \<Rightarrow> rstr \<times> 's) \<Rightarrow> rstr list \<Rightarrow> 's \<Rightarrow> (rstr \<times> 's) option" where
  "draw_id new_id known s =
     (if is_id (fst (new_id s)) \<and> fst (new_id s) \<notin> set known then Some (new_id s)
      else draw_id new_id known (snd (new_id s)))"

declare draw_id.simps [code]

definition wants_id :: "nat list \<Rightarrow> rstr list \<Rightarrow> ScanLine \<Rightarrow> bool" where
  "wants_id skip rows l \<longleftrightarrow>
     scl_has_day l \<and> scl_id l = None \<and> scl_row l \<notin> set skip \<and> scl_row l < length rows"

text \<open>The ids of one note: its lines with their ids, the changes, the ids known now and the source's state.\<close>

fun id_lines :: "('s \<Rightarrow> rstr \<times> 's) \<Rightarrow> nat list \<Rightarrow> rstr list \<Rightarrow> ScanLine list \<Rightarrow> rstr list \<Rightarrow> 's \<Rightarrow>
    (ScanLine list \<times> ('d, 't) Change list \<times> rstr list \<times> 's) option" where
  "id_lines new_id skip rows [] known s = Some ([], [], known, s)"
| "id_lines new_id skip rows (l # ls) known s =
     (if wants_id skip rows l
      then Option.bind (draw_id new_id known s) (\<lambda>(i, s').
             map_option (\<lambda>(ls', cs, known', s''). (l\<lparr>scl_id := Some i\<rparr> # ls', AddId (scl_row l) (trim_cr (rows ! scl_row l)) i # cs, known', s''))
               (id_lines new_id skip rows ls (i # known) s'))
      else map_option (\<lambda>(ls', r). (l # ls', r)) (id_lines new_id skip rows ls known s))"

definition set_scan :: "rstr \<Rightarrow> ScanLine list \<Rightarrow> scans \<Rightarrow> scans" where
  "set_scan path ls scan = map (\<lambda>(p, old). (p, if p = path then ls else old)) scan"

fun id_step :: "('s \<Rightarrow> rstr \<times> 's) \<Rightarrow> (rstr \<Rightarrow> nat list) \<Rightarrow> (rstr \<times> rstr) list \<Rightarrow> scans \<Rightarrow> rstr list \<Rightarrow> 's \<Rightarrow>
    (scans \<times> (rstr \<times> ('d, 't) Change) list \<times> 's) option" where
  "id_step new_id skip_rows [] scan known s = Some (scan, [], s)"
| "id_step new_id skip_rows ((path, t) # changed) scan known s =
     (case map_of scan path of
        None \<Rightarrow> id_step new_id skip_rows changed scan known s
      | Some ls \<Rightarrow>
          Option.bind (id_lines new_id (skip_rows path) (split_on (\<lambda>c. c = 10) t) ls known s) (\<lambda>(ls', cs, known', s').
            map_option (\<lambda>(scan', pushes, s''). (scan', map (Pair path) cs @ pushes, s''))
              (id_step new_id skip_rows changed (set_scan path ls' scan) known' s')))"

definition scan_ids :: "scans \<Rightarrow> rstr list" where
  "scan_ids scan = List.map_filter scl_id (concat (map snd scan))"

section \<open>Homes\<close>

definition homes_of :: "scans \<Rightarrow> rstr \<Rightarrow> (rstr \<times> ScanLine) list" where
  "homes_of scan i =
     concat (map (\<lambda>(path, ls). map (Pair path) (filter (\<lambda>l. \<not> scl_mirror l \<and> scl_id l = Some i) ls)) scan)"

definition home_in :: "scans \<Rightarrow> rstr \<Rightarrow> rstr \<Rightarrow> ScanLine option" where
  "home_in scan i path =
     (let candidates = map snd (filter (\<lambda>(found, _). found = path) (homes_of scan i))
      in case find scl_token candidates of Some l \<Rightarrow> Some l | None \<Rightarrow> first_opt candidates)"

definition moved_to :: "scans \<Rightarrow> rstr \<Rightarrow> rstr \<Rightarrow> rstr \<Rightarrow> rstr option" where
  "moved_to scan index_path i from =
     map_option fst (find (\<lambda>(path, l). scl_has_day l \<and> path \<noteq> from \<and> path \<noteq> index_path) (homes_of scan i))"

section \<open>Copies\<close>

text \<open>A tick or an untick on a copy, written to the home line: the home's path, the id and the new state.\<close>

definition copy_tick :: "rstr \<Rightarrow> scans \<Rightarrow> 'd ReminderEntry list \<Rightarrow> ScanLine list option \<Rightarrow> rstr \<Rightarrow> ScanLine \<Rightarrow>
    (rstr \<times> rstr \<times> bool) option" where
  "copy_tick index_path scan entries previous path line =
     Option.bind (scl_id line) (\<lambda>i.
     Option.bind (find (\<lambda>e. ie_id e = i) entries) (\<lambda>entry.
       let home_path = entry_home index_path entry
       in Option.bind (home_in scan i home_path) (\<lambda>home.
            if home_path = path \<and> scl_row home = scl_row line then None
            else Option.bind (Option.bind previous (find (\<lambda>old. scl_id old = Some i \<and> scl_mirror old = scl_mirror line))) (\<lambda>prior.
              if scl_closed prior = scl_closed line \<or> scan_state home = Dropped then None
              else if scl_closed home \<noteq> scl_closed line then Some (home_path, i, scl_closed line) else None))))"

definition copy_ticks :: "rstr \<Rightarrow> scans \<Rightarrow> 'd ReminderEntry list \<Rightarrow> (rstr \<Rightarrow> ScanLine list option) \<Rightarrow> rstr list \<Rightarrow>
    (rstr \<times> rstr \<times> bool) list" where
  "copy_ticks index_path scan entries previous paths =
     concat (map (\<lambda>path. case map_of scan path of None \<Rightarrow> []
        | Some ls \<Rightarrow> List.map_filter (copy_tick index_path scan entries (previous path) path) ls) paths)"

definition tick_change :: "rstr \<times> rstr \<times> bool \<Rightarrow> rstr \<times> ('d, 't) Change" where
  "tick_change tick = (case tick of (path, i, closed) \<Rightarrow> (path, Home i (if closed then HClose else HReopen)))"

definition copy_state :: "(rstr \<times> rstr \<times> bool) list \<Rightarrow> rstr \<Rightarrow> bool option" where
  "copy_state ticks i = map_of (rev (map snd ticks)) i"

section \<open>Following moves and state\<close>

definition wanted_entry :: "ReminderState \<Rightarrow> 'd \<Rightarrow> IndexSection \<times> 'd Stamp option" where
  "wanted_entry state today =
     (case state of
        Open \<Rightarrow> (SecOpen, None)
      | Closed \<Rightarrow> (SecDone, Some \<lparr>st_kind = StampDone, st_date = today\<rparr>)
      | Dropped \<Rightarrow> (SecDone, Some \<lparr>st_kind = StampDropped, st_date = today\<rparr>))"

definition current_line :: "rstr option \<Rightarrow> nat \<Rightarrow> rstr" where
  "current_line t row =
     trim_cr (case Option.bind t (\<lambda>s. get_at (split_on (\<lambda>c. c = 10) s) row) of Some line \<Rightarrow> line | None \<Rightarrow> [])"

text \<open>The changes of the index, the instants ids went missing and the recheck.\<close>

record ('d, 't, 'n) follow =
  fo_changes :: "('d, 't) Change list"
  fo_missing :: "rstr \<Rightarrow> 'n option"
  fo_recheck :: "'n option"

definition follow_missing :: "('d, 't) index_env \<Rightarrow> ('d, 'n) instants \<Rightarrow> 'n BatchInput \<Rightarrow> 'd ReminderEntry \<Rightarrow>
    ('d, 't, 'n) follow \<Rightarrow> ('d, 't, 'n) follow" where
  "follow_missing X N inp entry fo =
     (if is_some_and (ie_stamp entry) (\<lambda>s. st_kind s = StampRemoved)
      then fo\<lparr>fo_missing := (fo_missing fo)(ie_id entry := None)\<rparr>
      else let since = (case fo_missing fo (ie_id entry) of Some n \<Rightarrow> n | None \<Rightarrow> bi_now inp)
           in if nw_grace_over N since (bi_now inp)
              then fo\<lparr>fo_missing := (fo_missing fo)(ie_id entry := None),
                      fo_changes := fo_changes fo @
                        [MoveEntry (ie_id entry) SecDone
                          (link_line X (entry_home (bi_index_path inp) entry) (ie_id entry)
                            (Some \<lparr>st_kind = StampRemoved, st_date = nw_date N (bi_now inp)\<rparr>))]\<rparr>
              else let at = nw_plus_grace N since
                   in fo\<lparr>fo_missing := (fo_missing fo)(ie_id entry := Some since),
                         fo_recheck := Some (case fo_recheck fo of Some current \<Rightarrow> nw_min N current at | None \<Rightarrow> at)\<rparr>)"

definition follow_home :: "('d, 't) index_env \<Rightarrow> ('d, 'n) instants \<Rightarrow> 'n BatchInput \<Rightarrow> (rstr \<Rightarrow> bool option) \<Rightarrow> 'd ReminderEntry \<Rightarrow> rstr \<Rightarrow> ScanLine \<Rightarrow>
    ('d, 't, 'n) follow \<Rightarrow> ('d, 't, 'n) follow" where
  "follow_home X N inp copies entry target home fo =
     (let home_state = (case copies (ie_id entry) of Some True \<Rightarrow> Closed | Some False \<Rightarrow> Open | None \<Rightarrow> scan_state home);
          (sec, wanted_stamp) = wanted_entry home_state (nw_date N (bi_now inp));
          entry_line = (\<lambda>stamp. if ie_kind entry = Loose
             then restamp X (current_line (bi_index_text inp) (ie_row entry)) stamp
             else link_line X target (ie_id entry) stamp);
          pushed = (if sec \<noteq> ie_section entry then [MoveEntry (ie_id entry) sec (entry_line wanted_stamp)]
             else if target \<noteq> entry_home (bi_index_path inp) entry then [ReplaceEntry (ie_id entry) (entry_line (ie_stamp entry))]
             else [])
      in fo\<lparr>fo_missing := (fo_missing fo)(ie_id entry := None), fo_changes := fo_changes fo @ pushed\<rparr>)"

definition follow_entry :: "('d, 't) index_env \<Rightarrow> ('d, 'n) instants \<Rightarrow> 'n BatchInput \<Rightarrow> scans \<Rightarrow> (rstr \<Rightarrow> bool option) \<Rightarrow>
    'd ReminderEntry \<Rightarrow> ('d, 't, 'n) follow \<Rightarrow> ('d, 't, 'n) follow" where
  "follow_entry X N inp scan copies entry fo =
     (let home_path = entry_home (bi_index_path inp) entry
      in case home_in scan (ie_id entry) home_path of
           Some home \<Rightarrow> follow_home X N inp copies entry home_path home fo
         | None \<Rightarrow>
             (case (if ie_kind entry = Loose then None else moved_to scan (bi_index_path inp) (ie_id entry) home_path) of
                None \<Rightarrow> follow_missing X N inp entry fo
              | Some new_home \<Rightarrow>
                  (case home_in scan (ie_id entry) new_home of
                     Some home \<Rightarrow> follow_home X N inp copies entry new_home home fo
                   | None \<Rightarrow> follow_missing X N inp entry fo)))"

section \<open>New reminders and the plan\<close>

definition new_entries :: "('d, 't) index_env \<Rightarrow> ('d, 'n) instants \<Rightarrow> 'n BatchInput \<Rightarrow> scans \<Rightarrow> 'd ReminderEntry list \<Rightarrow> ('d, 't) Change list" where
  "new_entries X N inp scan entries =
     List.map_filter (\<lambda>i.
       if i \<in> set (map ie_id entries) then None
       else map_option (\<lambda>(path, l).
              let (sec, stamp) = (case scan_state l of
                     Closed \<Rightarrow> (SecDone, Some \<lparr>st_kind = StampDone, st_date = nw_date N (bi_now inp)\<rparr>) | _ \<Rightarrow> (SecOpen, None))
              in AppendEntry sec (link_line X path i stamp))
            (find (\<lambda>(path, l). scl_has_day l \<and> path \<noteq> bi_index_path inp) (homes_of scan i)))
       (sort (remdups (scan_ids scan)))"

definition grouped :: "(rstr \<times> ('d, 't) Change) list \<Rightarrow> ('d, 't) FileChanges list" where
  "grouped pushes =
     map (\<lambda>path. \<lparr>fch_path = path, fch_changes = map snd (filter (\<lambda>(p, _). p = path) pushes)\<rparr>)
       (sort (remdups (map fst pushes)))"

definition listed_entries :: "('d, 't) index_env \<Rightarrow> 'n BatchInput \<Rightarrow> 'u ReminderSettings \<Rightarrow> ReminderConfig \<Rightarrow> 'd ReminderEntry list" where
  "listed_entries X inp settings config =
     (case bi_index_text inp of Some t \<Rightarrow> parse_index X t (bi_index_path inp) settings config | None \<Rightarrow> [])"

definition follow_all :: "('d, 't) index_env \<Rightarrow> ('d, 'n) instants \<Rightarrow> 'n BatchInput \<Rightarrow> scans \<Rightarrow> (rstr \<times> rstr \<times> bool) list \<Rightarrow>
    'd ReminderEntry list \<Rightarrow> (rstr \<Rightarrow> 'n option) \<Rightarrow> ('d, 't, 'n) follow" where
  "follow_all X N inp scan ticks all_entries missing =
     fold (follow_entry X N inp scan (copy_state ticks)) (unique_entries [] all_entries)
       \<lparr>fo_changes = map RemoveDuplicateLinks (duplicate_ids [] [] all_entries), fo_missing = missing, fo_recheck = None\<rparr>"

definition plan_batch :: "('d, 't) index_env \<Rightarrow> ('d, 'n) instants \<Rightarrow> 'n BatchInput \<Rightarrow> (rstr \<Rightarrow> 'n option) \<Rightarrow> 'u ReminderSettings \<Rightarrow>
    ReminderConfig \<Rightarrow> ('s \<Rightarrow> rstr \<times> 's) \<Rightarrow> 's \<Rightarrow> (('d, 't, 'n) BatchPlan \<times> (rstr \<Rightarrow> 'n option) \<times> 's) option" where
  "plan_batch X N inp missing settings config new_id s =
     (let all_entries = listed_entries X inp settings config;
          entries = unique_entries [] all_entries;
          known = scan_ids (bi_scan inp) @ map ie_id entries
      in Option.bind (id_step new_id (bi_skip_rows inp) (bi_changed inp) (bi_scan inp) known s) (\<lambda>(scan, id_pushes, s').
           let ticks = copy_ticks (bi_index_path inp) scan entries (bi_previous inp) (map fst (bi_changed inp));
               fo = follow_all X N inp scan ticks all_entries missing;
               index_changes = fo_changes fo @ new_entries X N inp scan entries
           in Some (\<lparr>bp_changes = grouped (id_pushes @ map tick_change ticks @ map (Pair (bi_index_path inp)) index_changes),
                     bp_recheck_at = fo_recheck fo\<rparr>, fo_missing fo, s')))"

end
