(* ===== verification/Reminder_Index_Props.thy ===== *)
theory Reminder_Index_Props
  imports Reminder_Batch Reminder_Props
begin

text \<open>
  The reminders index's properties: a batch ends when its source of ids can give enough of them, the ids
  it gives are fresh, a line gone from every note is not filed away at once, and a change never edits
  a line that reads otherwise than planned.  \<open>fresh_round\<close> is what a round of drawing gives;
  \<open>plan_batch_parts\<close> takes a plan apart into the steps that push its changes.
\<close>

section \<open>Drawing ids\<close>

definition drawn :: "('s \<Rightarrow> rstr \<times> 's) \<Rightarrow> nat \<Rightarrow> 's \<Rightarrow> rstr" where
  "drawn new_id n s = fst (new_id (((\<lambda>s. snd (new_id s)) ^^ n) s))"

lemma draw_id_total:
  "is_id (drawn new_id n s) \<Longrightarrow> drawn new_id n s \<notin> set known \<Longrightarrow> \<exists>r. draw_id new_id known s = Some r"
proof (induction n arbitrary: s)
  case 0
  then show ?case by (subst draw_id.simps) (simp add: drawn_def)
next
  case (Suc n)
  have "drawn new_id (Suc n) s = drawn new_id n (snd (new_id s))"
    by (simp add: drawn_def funpow_Suc_right del: funpow.simps)
  then have "\<exists>r. draw_id new_id known (snd (new_id s)) = Some r" using Suc by simp
  then show ?case by (subst draw_id.simps) simp
qed

lemma draw_id_fresh: "draw_id new_id known s = Some (i, s') \<Longrightarrow> is_id i \<and> i \<notin> set known"
  by (drule draw_id.raw_induct [where P = "\<lambda>new_id known s r. is_id (fst r) \<and> fst r \<notin> set known", rotated])
     (auto split: if_splits)

definition added_ids :: "('d, 't) Change list \<Rightarrow> rstr list" where
  "added_ids cs = List.map_filter (\<lambda>c. case c of AddId row expected i \<Rightarrow> Some i | _ \<Rightarrow> None) cs"

lemma added_ids_simps [simp]:
  "added_ids [] = []" "added_ids (AddId row e i # cs) = i # added_ids cs" "added_ids (cs @ ds) = added_ids cs @ added_ids ds"
  by (simp_all add: added_ids_def map_filter_simps) (simp add: List.map_filter_def)

definition unlabeled :: "ScanLine list \<Rightarrow> nat" where
  "unlabeled ls = length (filter (\<lambda>l. scl_id l = None) ls)"

text \<open>What a round of drawing gives: fresh ids, each once, known from then on.\<close>

definition fresh_round :: "rstr list \<Rightarrow> rstr list \<Rightarrow> rstr list \<Rightarrow> bool" where
  "fresh_round known ids known' \<longleftrightarrow>
     distinct ids \<and> list_all is_id ids \<and> set ids \<inter> set known = {} \<and> set known' = set known \<union> set ids \<and>
     length known' = length known + length ids"

lemma fresh_round_Nil [simp]: "fresh_round known [] known"
  by (simp add: fresh_round_def)

lemma fresh_round_Cons: "is_id i \<Longrightarrow> i \<notin> set known \<Longrightarrow> fresh_round (i # known) ids known' \<Longrightarrow> fresh_round known (i # ids) known'"
  by (auto simp: fresh_round_def)

lemma fresh_round_append: "fresh_round known ids known' \<Longrightarrow> fresh_round known' ids' known'' \<Longrightarrow> fresh_round known (ids @ ids') known''"
  by (auto simp: fresh_round_def)

definition home_line :: "rstr \<Rightarrow> ScanLine \<Rightarrow> bool" where
  "home_line i l \<longleftrightarrow> \<not> scl_mirror l \<and> scl_id l = Some i"

lemma id_lines_spec:
  "id_lines new_id skip rows ls known s = Some (ls', cs, known', s') \<Longrightarrow>
     fresh_round known (added_ids cs) known' \<and> unlabeled ls' + length (added_ids cs) = unlabeled ls \<and>
     (i \<in> set known \<longrightarrow> filter (home_line i) ls' = filter (home_line i) ls)"
proof (induction ls arbitrary: known s ls' cs known' s')
  case (Cons l ls)
  show ?case
  proof (cases "wants_id skip rows l")
    case True
    from Cons.prems True obtain j s1 ls1 cs1 where draw: "draw_id new_id known s = Some (j, s1)"
      and rest: "id_lines new_id skip rows ls (j # known) s1 = Some (ls1, cs1, known', s')"
      and out: "ls' = l\<lparr>scl_id := Some j\<rparr> # ls1" "cs = AddId (scl_row l) (trim_cr (rows ! scl_row l)) j # cs1"
      by (auto simp: bind_eq_Some_conv)
    have "is_id j" "j \<notin> set known" using draw_id_fresh [OF draw] by auto
    then show ?thesis using Cons.IH [OF rest] True fresh_round_Cons
      by (auto simp: out unlabeled_def wants_id_def home_line_def)
  next
    case False
    then obtain ls1 where "id_lines new_id skip rows ls known s = Some (ls1, cs, known', s')" "ls' = l # ls1"
      using Cons.prems by auto
    then show ?thesis using Cons.IH by (auto simp: unlabeled_def)
  qed
qed (simp add: unlabeled_def)

lemma id_lines_total:
  fixes new_id :: "'s \<Rightarrow> rstr \<times> 's"
  assumes "\<And>known s. length known < K \<Longrightarrow> \<exists>n. is_id (drawn new_id n s) \<and> drawn new_id n s \<notin> set known"
  shows "length known + unlabeled ls \<le> K \<Longrightarrow> \<exists>r. id_lines new_id skip rows ls known s = Some (r :: ScanLine list \<times> ('d, 't) Change list \<times> rstr list \<times> 's)"
proof (induction ls arbitrary: known s)
  case (Cons l ls)
  show ?case
  proof (cases "wants_id skip rows l")
    case True
    then have "scl_id l = None" by (simp add: wants_id_def)
    then have le: "length known + 1 + unlabeled ls \<le> K" using Cons.prems by (simp add: unlabeled_def)
    then obtain i s' where d: "draw_id new_id known s = Some (i, s')"
      using assms [of known s] draw_id_total [of new_id _ s known] by fastforce
    have "\<exists>r. id_lines new_id skip rows ls (i # known) s' = Some (r :: ScanLine list \<times> ('d, 't) Change list \<times> rstr list \<times> 's)" using Cons.IH [of "i # known" s'] le by simp
    then obtain r where "id_lines new_id skip rows ls (i # known) s' = Some (r :: ScanLine list \<times> ('d, 't) Change list \<times> rstr list \<times> 's)" ..
    then show ?thesis using True d by (cases r) simp
  next
    case False
    have "unlabeled ls \<le> unlabeled (l # ls)" by (simp add: unlabeled_def)
    then have "\<exists>r. id_lines new_id skip rows ls known s = Some (r :: ScanLine list \<times> ('d, 't) Change list \<times> rstr list \<times> 's)" using Cons.IH [of known s] Cons.prems by simp
    then obtain r where "id_lines new_id skip rows ls known s = Some (r :: ScanLine list \<times> ('d, 't) Change list \<times> rstr list \<times> 's)" ..
    then show ?thesis using False by (cases r) simp
  qed
qed simp

definition all_unlabeled :: "scans \<Rightarrow> nat" where
  "all_unlabeled scan = sum_list (map (\<lambda>(_, ls). unlabeled ls) scan)"

lemma set_scan_unlabeled:
  "distinct (map fst scan) \<Longrightarrow> map_of scan path = Some ls \<Longrightarrow>
     all_unlabeled (set_scan path ls' scan) + unlabeled ls = all_unlabeled scan + unlabeled ls'"
proof (induction scan)
  case (Cons x scan)
  obtain p old where x: "x = (p, old)" by (cases x)
  have other: "path \<notin> fst ` set scan \<Longrightarrow> set_scan path ls' scan = scan" for scan
    by (induction scan) (auto simp: set_scan_def)
  show ?case using Cons other [of scan] by (cases "p = path") (auto simp: x all_unlabeled_def set_scan_def)
qed simp

lemma set_scan_paths [simp]: "map fst (set_scan path ls scan) = map fst scan"
  by (induction scan) (auto simp: set_scan_def)

lemma set_scan_homes:
  assumes "distinct (map fst scan)" and "map_of scan path = Some ls" and "filter (home_line i) ls' = filter (home_line i) ls"
  shows "homes_of (set_scan path ls' scan) i = homes_of scan i"
proof -
  have "filter (home_line i) (if p = path then ls' else old) = filter (home_line i) old" if "(p, old) \<in> set scan" for p old
    using assms that by (auto dest: map_of_is_SomeI [OF assms(1)])
  then show ?thesis unfolding homes_of_def set_scan_def home_line_def [abs_def, symmetric]
    by (auto simp: home_line_def [abs_def] comp_def case_prod_unfold intro!: arg_cong [where f = concat])
qed

lemma id_step_spec:
  "id_step new_id skip_rows changed scan known s = Some (scan', pushes, s') \<Longrightarrow> distinct (map fst scan) \<Longrightarrow>
     (\<exists>known'. fresh_round known (added_ids (map snd pushes)) known') \<and>
     (i \<in> set known \<longrightarrow> homes_of scan' i = homes_of scan i)"
proof (induction changed arbitrary: scan known s pushes)
  case (Cons x changed)
  obtain path t where x: "x = (path, t)" by (cases x)
  show ?case
  proof (cases "map_of scan path")
    case None
    then show ?thesis using Cons by (simp add: x)
  next
    case (Some ls)
    from Cons.prems(1) Some obtain ls' cs known1 s1 pushes1
      where lines: "id_lines new_id (skip_rows path) (split_on (\<lambda>c. c = 10) t) ls known s = Some (ls', cs, known1, s1)"
      and rest: "id_step new_id skip_rows changed (set_scan path ls' scan) known1 s1 = Some (scan', pushes1, s')"
      and out: "pushes = map (Pair path) cs @ pushes1"
      by (auto simp: x bind_eq_Some_conv)
    note spec = id_lines_spec [OF lines]
    have "distinct (map fst (set_scan path ls' scan))" using Cons.prems(2) by simp
    note later = Cons.IH [OF rest this]
    have ids: "added_ids (map snd pushes) = added_ids cs @ added_ids (map snd pushes1)" by (simp add: out comp_def)
    have "i \<in> set known \<Longrightarrow> i \<in> set known1" using spec by (auto simp: fresh_round_def)
    then show ?thesis
      using spec later fresh_round_append set_scan_homes [OF Cons.prems(2) Some, of i ls'] unfolding ids by metis
  qed
qed (auto intro!: exI fresh_round_Nil)

lemma id_step_total:
  fixes new_id :: "'s \<Rightarrow> rstr \<times> 's"
  assumes "\<And>known s. length known < K \<Longrightarrow> \<exists>n. is_id (drawn new_id n s) \<and> drawn new_id n s \<notin> set known"
  shows "distinct (map fst scan) \<Longrightarrow> length known + all_unlabeled scan \<le> K \<Longrightarrow>
     \<exists>q. id_step new_id skip_rows changed scan known s = Some (q :: scans \<times> (rstr \<times> ('d, 't) Change) list \<times> 's)"
proof (induction changed arbitrary: scan known s)
  case (Cons x changed)
  obtain path t where x: "x = (path, t)" by (cases x)
  show ?case
  proof (cases "map_of scan path")
    case None
    then show ?thesis using Cons by (simp add: x)
  next
    case (Some ls)
    note count = set_scan_unlabeled [OF Cons.prems(1) Some]
    have "unlabeled ls \<le> all_unlabeled scan" using count [of "[]"] by (simp add: unlabeled_def)
    then have "length known + unlabeled ls \<le> K" using Cons.prems(2) by simp
    from id_lines_total [OF assms this, of "skip_rows path" "split_on (\<lambda>c. c = 10) t" s]
    obtain r :: "ScanLine list \<times> ('d, 't) Change list \<times> rstr list \<times> 's"
      where r: "id_lines new_id (skip_rows path) (split_on (\<lambda>c. c = 10) t) ls known s = Some r" by blast
    obtain ls' cs known1 s1 where r': "r = (ls', cs, known1, s1)" by (cases r)
    have "length known1 + all_unlabeled (set_scan path ls' scan) \<le> K"
      using id_lines_spec [OF r [unfolded r'], where i = "[]"] count [of ls'] Cons.prems(2) by (auto simp: fresh_round_def)
    then have "\<exists>q. id_step new_id skip_rows changed (set_scan path ls' scan) known1 s1 = Some (q :: scans \<times> (rstr \<times> ('d, 't) Change) list \<times> 's)"
      using Cons.IH [of "set_scan path ls' scan" known1 s1] Cons.prems(1) by simp
    then obtain q where "id_step new_id skip_rows changed (set_scan path ls' scan) known1 s1 = Some (q :: scans \<times> (rstr \<times> ('d, 't) Change) list \<times> 's)" ..
    then show ?thesis using Some r r' by (cases q) (simp add: x)
  qed
qed simp

section \<open>The plan\<close>

lemma grouped_mset: "mset (concat (map fch_changes (grouped pushes))) = mset (map snd pushes)"
proof -
  let ?f = "\<lambda>path. mset (map snd (filter (\<lambda>(p, _). p = path) pushes))"
  have "(\<Sum>path \<in> set (map fst xs) \<union> A. mset (map snd (filter (\<lambda>(p, _). p = path) xs))) = mset (map snd xs)"
    if "finite A" for xs :: "(rstr \<times> ('a, 'b) Change) list" and A
    using that
  proof (induction xs arbitrary: A)
    case (Cons x xs)
    obtain p c where x: "x = (p, c)" by (cases x)
    let ?S = "set (map fst (x # xs)) \<union> A"
    have S: "?S = set (map fst xs) \<union> insert p A" by (auto simp: x)
    have "(\<Sum>path \<in> ?S. mset (map snd (filter (\<lambda>(p, _). p = path) (x # xs)))) =
        (\<Sum>path \<in> ?S. (if path = p then {#c#} else {#}) + mset (map snd (filter (\<lambda>(p, _). p = path) xs)))"
      by (rule sum.cong) (auto simp: x)
    also have "\<dots> = {#c#} + (\<Sum>path \<in> ?S. mset (map snd (filter (\<lambda>(p, _). p = path) xs)))"
      using Cons.prems by (simp add: sum.distrib sum.delta x)
    finally show ?case using Cons.IH [of "insert p A"] Cons.prems unfolding S by (simp add: x)
  qed simp
  from this [of "{}" pushes] have "(\<Sum>path \<in> set (map fst pushes). ?f path) = mset (map snd pushes)" by simp
  moreover have "mset (concat (map fch_changes (grouped pushes))) = (\<Sum>path \<leftarrow> sort (remdups (map fst pushes)). ?f path)"
    by (simp add: grouped_def mset_concat comp_def)
  moreover have "\<dots> = (\<Sum>path \<in> set (map fst pushes). ?f path)"
    by (subst sum_list_distinct_conv_sum_set) simp_all
  ultimately show ?thesis by simp
qed

lemma added_ids_mset: "mset cs = mset ds \<Longrightarrow> mset (added_ids cs) = mset (added_ids ds)"
proof -
  have "mset (added_ids cs) = image_mset the (filter_mset (\<lambda>x. x \<noteq> None) (image_mset (\<lambda>c. case c of AddId row expected i \<Rightarrow> Some i | _ \<Rightarrow> None) (mset cs)))"
    for cs :: "('a, 'b) Change list"
    by (induction cs) (auto simp: added_ids_def map_filter_simps split: Change.splits)
  then show "mset cs = mset ds \<Longrightarrow> mset (added_ids cs) = mset (added_ids ds)" by simp
qed

text \<open>The changes of the index add no ids.\<close>

lemma added_ids_none: "(\<And>row e i. AddId row e i \<notin> set cs) \<Longrightarrow> added_ids cs = []"
  by (induction cs) (auto simp: added_ids_def map_filter_simps split: Change.splits)

lemma follow_entry_no_ids:
  "AddId row e i \<in> set (fo_changes (follow_entry X N inp scan copies entry fo)) \<longleftrightarrow> AddId row e i \<in> set (fo_changes fo)"
  by (auto simp: follow_entry_def follow_home_def follow_missing_def Let_def split: option.splits prod.splits)

lemma follow_fold_no_ids:
  "AddId row e i \<in> set (fo_changes (fold (follow_entry X N inp scan copies) entries fo)) \<longleftrightarrow> AddId row e i \<in> set (fo_changes fo)"
  by (induction entries arbitrary: fo) (simp_all add: follow_entry_no_ids)

lemma new_entries_no_ids: "AddId row e i \<notin> set (new_entries X N inp scan entries)"
  by (auto simp: new_entries_def List.map_filter_def split: if_splits option.splits prod.splits ReminderState.splits)

lemma plan_batch_parts:
  assumes "plan_batch X N inp missing settings config new_id s = Some (plan, missing', s')"
  obtains scan pushes ticks where
    "id_step new_id (bi_skip_rows inp) (bi_changed inp) (bi_scan inp)
       (scan_ids (bi_scan inp) @ map ie_id (unique_entries [] (listed_entries X inp settings config))) s = Some (scan, pushes, s')"
    "mset (concat (map fch_changes (bp_changes plan))) = mset (map snd pushes @ map (snd \<circ> tick_change) ticks @
       fo_changes (follow_all X N inp scan ticks (listed_entries X inp settings config) missing) @
       new_entries X N inp scan (unique_entries [] (listed_entries X inp settings config)))"
    "missing' = fo_missing (follow_all X N inp scan ticks (listed_entries X inp settings config) missing :: ('a, 'b, 'c) follow)"
  using assms by (auto simp: plan_batch_def Let_def bind_eq_Some_conv grouped_mset comp_def)

lemma fresh_round_mset: "mset ids' = mset ids \<Longrightarrow> fresh_round known ids known' \<Longrightarrow> fresh_round known ids' known'"
  using mset_eq_setD [of ids' ids] mset_eq_length [of ids' ids] mset_eq_imp_distinct_iff [of ids' ids]
  by (auto simp: fresh_round_def list_all_iff)

lemma plan_added_ids:
  assumes "plan_batch X N inp missing settings config new_id s = Some (plan, missing', s')"
    and "distinct (map fst (bi_scan inp))"
  defines "known \<equiv> scan_ids (bi_scan inp) @ map ie_id (unique_entries [] (listed_entries X inp settings config))"
  shows "\<exists>known'. fresh_round known (added_ids (concat (map fch_changes (bp_changes plan)))) known'"
proof -
  from plan_batch_parts [OF assms(1)] obtain scan pushes ticks where
    step: "id_step new_id (bi_skip_rows inp) (bi_changed inp) (bi_scan inp) known s = Some (scan, pushes, s')"
    and cs: "mset (concat (map fch_changes (bp_changes plan))) = mset (map snd pushes @ map (snd \<circ> tick_change) ticks @
       fo_changes (follow_all X N inp scan ticks (listed_entries X inp settings config) missing) @
       new_entries X N inp scan (unique_entries [] (listed_entries X inp settings config)))"
    unfolding known_def by metis
  have "added_ids (map (snd \<circ> tick_change) ticks) = []"
    by (rule added_ids_none) (auto simp: tick_change_def split: prod.splits)
  moreover have "added_ids (fo_changes (follow_all X N inp scan ticks (listed_entries X inp settings config) missing)) = []"
    by (rule added_ids_none) (auto simp: follow_all_def follow_fold_no_ids)
  moreover have "added_ids (new_entries X N inp scan es) = []" for es
    by (rule added_ids_none) (rule new_entries_no_ids)
  ultimately have "mset (added_ids (concat (map fch_changes (bp_changes plan)))) = mset (added_ids (map snd pushes))"
    using added_ids_mset [OF cs] by simp
  moreover obtain known' where "fresh_round known (added_ids (map snd pushes)) known'"
    using id_step_spec [OF step assms(2)] by blast
  ultimately show ?thesis using fresh_round_mset by metis
qed

section \<open>A line gone from every note\<close>

lemma unique_entries_ids:
  "distinct (map ie_id (unique_entries seen es)) \<and> set (map ie_id (unique_entries seen es)) \<inter> set seen = {}"
proof (induction es arbitrary: seen)
  case (Cons e es)
  show ?case using Cons.IH [of seen] Cons.IH [of "ie_id e # seen"] by auto
qed simp

lemma id_lines_adds: "id_lines new_id skip rows ls known s = Some (ls', cs, known', s') \<Longrightarrow> c \<in> set cs \<Longrightarrow> \<exists>row e i. c = AddId row e i"
proof (induction ls arbitrary: known s ls' cs known' s')
  case (Cons l ls)
  then show ?case by (cases "wants_id skip rows l") (fastforce simp: bind_eq_Some_conv)+
qed simp

lemma id_step_adds: "id_step new_id skip_rows changed scan known s = Some (scan', pushes, s') \<Longrightarrow> c \<in> set (map snd pushes) \<Longrightarrow> \<exists>row e i. c = AddId row e i"
proof (induction changed arbitrary: scan known s pushes)
  case (Cons x changed)
  obtain path t where x: "x = (path, t)" by (cases x)
  show ?case
  proof (cases "map_of scan path")
    case None
    then show ?thesis using Cons by (simp add: x)
  next
    case (Some ls)
    from Cons.prems(1) Some obtain ls' cs known1 s1 pushes1
      where lines: "id_lines new_id (skip_rows path) (split_on (\<lambda>c. c = 10) t) ls known s = Some (ls', cs, known1, s1)"
      and rest: "id_step new_id skip_rows changed (set_scan path ls' scan) known1 s1 = Some (scan', pushes1, s')"
      and out: "pushes = map (Pair path) cs @ pushes1"
      by (auto simp: x bind_eq_Some_conv)
    have "c \<in> set cs \<or> c \<in> set (map snd pushes1)" using Cons.prems(2) by (auto simp: out)
    then show ?thesis using Cons.IH [OF rest] id_lines_adds [OF lines] by blast
  qed
qed simp

lemma new_entries_appends: "c \<in> set (new_entries X N inp scan entries) \<Longrightarrow> \<exists>sec line. c = AppendEntry sec line"
  by (auto simp: new_entries_def List.map_filter_def split: if_splits option.splits prod.splits ReminderState.splits)

lemma follow_other:
  "ie_id e \<noteq> i \<Longrightarrow> fo_missing (follow_entry X N inp scan copies e fo) i = fo_missing fo i \<and>
     (MoveEntry i sec line \<in> set (fo_changes (follow_entry X N inp scan copies e fo)) \<longleftrightarrow> MoveEntry i sec line \<in> set (fo_changes fo))"
  by (auto simp: follow_entry_def follow_home_def follow_missing_def Let_def split: option.splits prod.splits)

lemma follow_others:
  "i \<notin> set (map ie_id es) \<Longrightarrow> fo_missing (fold (follow_entry X N inp scan copies) es fo) i = fo_missing fo i \<and>
     (MoveEntry i sec line \<in> set (fo_changes (fold (follow_entry X N inp scan copies) es fo)) \<longleftrightarrow> MoveEntry i sec line \<in> set (fo_changes fo))"
proof (induction es arbitrary: fo)
  case (Cons e es)
  then show ?case using follow_other [of e i X N inp scan copies fo sec line] by auto
qed simp

lemma follow_gone:
  assumes "homes_of scan (ie_id e) = []" and "\<not> is_some_and (ie_stamp e) (\<lambda>s. st_kind s = StampRemoved)"
    and "fo_missing fo (ie_id e) = None" and "\<not> nw_grace_over N (bi_now inp) (bi_now inp)"
  shows "fo_missing (follow_entry X N inp scan copies e fo) (ie_id e) = Some (bi_now inp)"
    and "fo_changes (follow_entry X N inp scan copies e fo) = fo_changes fo"
proof -
  have "home_in scan (ie_id e) p = None" "moved_to scan q (ie_id e) p = None" for p q
    using assms(1) by (simp_all add: home_in_def moved_to_def first_opt_def)
  then have "follow_entry X N inp scan copies e fo = follow_missing X N inp e fo"
    by (simp add: follow_entry_def Let_def)
  then show "fo_missing (follow_entry X N inp scan copies e fo) (ie_id e) = Some (bi_now inp)"
    "fo_changes (follow_entry X N inp scan copies e fo) = fo_changes fo"
    using assms(2-4) by (simp_all add: follow_missing_def Let_def)
qed

section \<open>Lines\<close>

lemma piece_line_join: "fst (piece_line p) @ snd (piece_line p) = p"
  by (auto simp: piece_line_def strip_suffix_Some split: option.split)

theorem lines_roundtrip: "lines_join (lines_split t) = t"
proof -
  have "concat (map (\<lambda>(line, ending). line @ ending) (zip (map fst (map piece_line ps)) (map snd (map piece_line ps)))) = concat ps" for ps
    by (induction ps) (auto simp: piece_line_join case_prod_unfold)
  from this [of "split_inclusive t"] show ?thesis by (simp add: lines_join_def lines_split_def Let_def)
qed

lemma addressed_row_reads: "addressed_row lines row expected = Some row' \<Longrightarrow> get_at lines row' = Some expected"
proof -
  have "filter P xs = [y] \<Longrightarrow> y \<in> set xs \<and> P y" for P y and xs :: "nat list"
    by (drule arg_cong [where f = set]) auto
  then show "addressed_row lines row expected = Some row' \<Longrightarrow> get_at lines row' = Some expected"
    by (fastforce simp: addressed_row_def split: if_splits list.splits)
qed

text \<open>A change that gives a line an id edits a line that reads as it did when the batch planned it, or none.\<close>

theorem stale_row_spared:
  "apply_change X path settings config (AddId row expected i) ls = ls \<or>
   (\<exists>row' edited. get_at (lns_lines ls) row' = Some expected \<and> add_id (ix_chrono X) expected i = Some edited \<and>
      apply_change X path settings config (AddId row expected i) ls = lines_set row' edited ls)"
proof (cases "addressed_row (lns_lines ls) row expected")
  case (Some row')
  then have "get_at (lns_lines ls) row' = Some expected" by (rule addressed_row_reads)
  then show ?thesis using Some by (auto split: option.split)
qed simp

section \<open>Evaluated instances\<close>

text \<open>A source of ids that goes round ten of them.\<close>

definition sample_ids :: "nat \<Rightarrow> rstr \<times> nat" where
  "sample_ids k = (lit ''aaaaaaaaaaa'' @ [48 + int (k mod 10)], k + 1)"

definition sample_index_env :: "(int \<times> nat \<times> nat, nat \<times> nat \<times> nat \<times> nat) index_env" where
  "sample_index_env = \<lparr>ix_env = ascii_env, ix_chrono = sample_chrono, ix_parse_Ymd = parse_iso_date gregorian\<rparr>"

definition sample_instants :: "(int \<times> nat \<times> nat, nat) instants" where
  "sample_instants = \<lparr>nw_date = (\<lambda>_. (2026, 7, 20)), nw_grace_over = (\<lambda>since now. since + 10 \<le> now), nw_plus_grace = (\<lambda>n. n + 10), nw_min = min\<rparr>"

definition sample_index_text :: rstr where
  "sample_index_text = from_lines [''## Open'', [], ''- [[garden]] <!--rem:bbbbbbbbbbbb-->'']"

definition sample_input :: "nat BatchInput" where
  "sample_input =
     \<lparr>bi_index_path = lit ''reminders.md'', bi_index_text = Some sample_index_text,
      bi_scan = [(lit ''house.md'', [\<lparr>scl_row = 0, scl_id = None, scl_token = True, scl_has_day = True, scl_closed = False, scl_mirror = False\<rparr>])],
      bi_previous = (\<lambda>_. None), bi_changed = [(lit ''house.md'', lit ''- [ ] paint (@2026-07-21)'')],
      bi_skip_rows = (\<lambda>_. []), bi_now = 0\<rparr>"

definition sample_plan_batch where
  "sample_plan_batch = plan_batch sample_index_env sample_instants sample_input (\<lambda>_. None) (settings_default (9::nat)) ReminderConfig_default sample_ids 0"

lemma sample_listed:
  "unique_entries [] (listed_entries sample_index_env sample_input (settings_default (9::nat)) ReminderConfig_default) =
     [\<lparr>ie_id = lit ''bbbbbbbbbbbb'', ie_row = 2, ie_section = SecOpen, ie_kind = Link (lit ''garden.md''), ie_stamp = None\<rparr>]"
  by code_simp

lemma sample_batch:
  "map_option (\<lambda>(plan, missing', s'). (added_ids (concat (map fch_changes (bp_changes plan))), s')) sample_plan_batch = Some ([lit ''aaaaaaaaaaa0''], 1)"
  by code_simp

lemma sample_planned:
  obtains plan missing' s' where
    "plan_batch sample_index_env sample_instants sample_input (\<lambda>_. None) (settings_default (9::nat)) ReminderConfig_default sample_ids 0 = Some (plan, missing', s')"
  using sample_batch by (auto simp: sample_plan_batch_def)

lemma sample_scan_paths: "distinct (map fst (bi_scan sample_input))"
  by code_simp

lemma drawn_sample: "drawn sample_ids n s = lit ''aaaaaaaaaaa'' @ [48 + int ((s + n) mod 10)]"
proof -
  have "((\<lambda>s. snd (sample_ids s)) ^^ n) s = s + n" by (induction n) (simp_all add: sample_ids_def)
  then show ?thesis by (simp add: drawn_def sample_ids_def add.commute)
qed

lemma sample_supply:
  assumes "length known < 3"
  shows "\<exists>n. is_id (drawn sample_ids n s) \<and> drawn sample_ids n s \<notin> set known"
proof -
  let ?f = "\<lambda>r. lit ''aaaaaaaaaaa'' @ [48 + int r]"
  have "card (set known) < card (?f ` {0..<10})"
    using assms card_length [of known] by (subst card_image) (auto simp: inj_on_def)
  then have "\<not> ?f ` {0..<10} \<subseteq> set known" by (meson card_mono finite_set leD)
  then have "\<exists>r \<in> {0..<10}. ?f r \<notin> set known" by blast
  then obtain r where r: "r < 10" "?f r \<notin> set known" by (elim bexE) simp
  have "s mod 10 < 10" "10 * (s div 10) + s mod 10 = s" by simp_all
  moreover have "m < 10 \<Longrightarrow> 10 * q + m = s \<Longrightarrow> s + (r + 10 - m) = r + 10 * (q + 1)" for m q by arith
  ultimately have "s + (r + 10 - s mod 10) = r + 10 * (s div 10 + 1)" by blast
  then have "(s + (r + 10 - s mod 10)) mod 10 = r" using r(1) by (metis mod_less mod_mult_self2)
  then have "drawn sample_ids (r + 10 - s mod 10) s = ?f r" by (simp only: drawn_sample)
  moreover have "list_all (\<lambda>r. is_id (?f r)) [0..<10]" by code_simp
  then have "is_id (?f r)" using r(1) by (simp add: list_all_iff del: lit_simps)
  ultimately show ?thesis using r(2) by metis
qed

definition sample_row :: "(int \<times> nat \<times> nat) ReminderEntry" where
  "sample_row = \<lparr>ie_id = lit ''bbbbbbbbbbbb'', ie_row = 2, ie_section = SecOpen, ie_kind = Link (lit ''garden.md''), ie_stamp = None\<rparr>"

lemma sample_gone:
  "homes_of (bi_scan sample_input) (ie_id sample_row) = []" "\<not> is_some_and (ie_stamp sample_row) (\<lambda>s. st_kind s = StampRemoved)"
  "\<not> nw_grace_over sample_instants (bi_now sample_input) (bi_now sample_input)"
  by code_simp+

section \<open>Properties\<close>

text \<open>C26: The ids a batch gives to new reminders are valid, each given once, and none of them stands in a note
  or in the index already.\<close>

theorem batch_ids_fresh:
  assumes "plan_batch X N inp missing settings config new_id s = Some (plan, missing', s')"
    and "distinct (map fst (bi_scan inp))"
  shows "distinct (added_ids (concat (map fch_changes (bp_changes plan)))) \<and>
     list_all is_id (added_ids (concat (map fch_changes (bp_changes plan)))) \<and>
     set (added_ids (concat (map fch_changes (bp_changes plan)))) \<inter> set (scan_ids (bi_scan inp)) = {} \<and>
     set (added_ids (concat (map fch_changes (bp_changes plan)))) \<inter>
       set (map ie_id (unique_entries [] (listed_entries X inp settings config))) = {}"
  using plan_added_ids [OF assms] by (auto simp: fresh_round_def)

theorem batch_ids_fresh_witness:
  "\<exists>plan missing' s'.
     plan_batch sample_index_env sample_instants sample_input (\<lambda>_. None) (settings_default (9::nat)) ReminderConfig_default sample_ids 0 = Some (plan, missing', s') \<and>
     distinct (added_ids (concat (map fch_changes (bp_changes plan)))) \<and>
     list_all is_id (added_ids (concat (map fch_changes (bp_changes plan))))"
proof (rule sample_planned)
  fix plan missing' s'
  assume "plan_batch sample_index_env sample_instants sample_input (\<lambda>_. None) (settings_default (9::nat)) ReminderConfig_default sample_ids 0 = Some (plan, missing', s')"
  with batch_ids_fresh [OF this sample_scan_paths] show ?thesis by auto
qed

text \<open>C25: A batch ends: whatever the notes and the index say, its loop over candidate ids stops, when the source
  of ids has, after any number of draws, a valid id outside any list shorter than the ids in use and
  the lines in want of one.\<close>

theorem plan_batch_terminates:
  fixes new_id :: "'s \<Rightarrow> rstr \<times> 's" and X :: "('d, 't) index_env"
  assumes "distinct (map fst (bi_scan inp))"
    and "length (scan_ids (bi_scan inp)) + length (unique_entries [] (listed_entries X inp settings config)) + all_unlabeled (bi_scan inp) \<le> K"
    and "\<And>known s. length known < K \<Longrightarrow> \<exists>n. is_id (drawn new_id n s) \<and> drawn new_id n s \<notin> set known"
  shows "\<exists>plan missing' s'. plan_batch X N inp missing settings config new_id s = Some (plan, missing', s')"
proof -
  have bound: "length (scan_ids (bi_scan inp) @ map ie_id (unique_entries [] (listed_entries X inp settings config))) + all_unlabeled (bi_scan inp) \<le> K"
    using assms(2) by simp
  have "\<exists>q. id_step new_id (bi_skip_rows inp) (bi_changed inp) (bi_scan inp)
      (scan_ids (bi_scan inp) @ map ie_id (unique_entries [] (listed_entries X inp settings config))) s =
      Some (q :: scans \<times> (rstr \<times> ('d, 't) Change) list \<times> 's)"
    by (rule id_step_total [where K = K]) (use assms bound in auto)
  then show ?thesis by (force simp: plan_batch_def Let_def)
qed

theorem plan_batch_terminates_witness:
  "\<exists>plan missing' s'.
     plan_batch sample_index_env sample_instants sample_input (\<lambda>_. None) (settings_default (9::nat)) ReminderConfig_default sample_ids 7 = Some (plan, missing', s')"
proof -
  have "scan_ids (bi_scan sample_input) = []" "all_unlabeled (bi_scan sample_input) = 1" by code_simp+
  then show ?thesis
    by (intro plan_batch_terminates [where K = 3]) (use sample_supply sample_scan_paths in \<open>simp_all add: sample_listed\<close>)
qed

text \<open>A reminder whose line is gone from every note is not filed away at once: the first batch that misses it
  only notes the instant, so a line cut from one note and pasted into another is a move.\<close>

theorem removal_waits:
  assumes "plan_batch X N inp missing settings config new_id s = Some (plan, missing', s')"
    and "distinct (map fst (bi_scan inp))"
    and "entry \<in> set (unique_entries [] (listed_entries X inp settings config))"
    and "homes_of (bi_scan inp) (ie_id entry) = []"
    and "\<not> is_some_and (ie_stamp entry) (\<lambda>s. st_kind s = StampRemoved)"
    and "missing (ie_id entry) = None"
    and "\<not> nw_grace_over N (bi_now inp) (bi_now inp)"
  shows "missing' (ie_id entry) = Some (bi_now inp) \<and>
     MoveEntry (ie_id entry) sec line \<notin> set (concat (map fch_changes (bp_changes plan)))"
proof -
  let ?all = "listed_entries X inp settings config"
  let ?known = "scan_ids (bi_scan inp) @ map ie_id (unique_entries [] ?all)"
  from plan_batch_parts [OF assms(1)] obtain scan pushes ticks where
    step: "id_step new_id (bi_skip_rows inp) (bi_changed inp) (bi_scan inp) ?known s = Some (scan, pushes, s')"
    and cs: "mset (concat (map fch_changes (bp_changes plan))) = mset (map snd pushes @ map (snd \<circ> tick_change) ticks @
       fo_changes (follow_all X N inp scan ticks ?all missing) @ new_entries X N inp scan (unique_entries [] ?all))"
    and m: "missing' = fo_missing (follow_all X N inp scan ticks ?all missing)" by metis
  have "ie_id entry \<in> set ?known" using assms(3) by auto
  then have gone: "homes_of scan (ie_id entry) = []" using id_step_spec [OF step assms(2)] assms(4) by metis
  obtain as bs where es: "unique_entries [] ?all = as @ entry # bs" using split_list [OF assms(3)] by blast
  have other: "ie_id entry \<notin> set (map ie_id as)" "ie_id entry \<notin> set (map ie_id bs)"
    using unique_entries_ids [of "[]" ?all] unfolding es by auto
  let ?fo = "\<lparr>fo_changes = map RemoveDuplicateLinks (duplicate_ids [] [] ?all), fo_missing = missing, fo_recheck = None\<rparr>"
  let ?step = "follow_entry X N inp scan (copy_state ticks)"
  have follow: "follow_all X N inp scan ticks ?all missing = fold ?step bs (?step entry (fold ?step as ?fo))"
    by (simp add: follow_all_def es)
  have "fo_missing (fold ?step as ?fo) (ie_id entry) = None" by (simp add: follow_others [OF other(1)] assms(6))
  note this_step = follow_gone [OF gone assms(5) this assms(7)]
  have "MoveEntry (ie_id entry) sec line \<notin> set (fo_changes (follow_all X N inp scan ticks ?all missing))"
    unfolding follow by (auto simp: follow_others [OF other(2)] this_step(2) follow_others [OF other(1)])
  moreover have "MoveEntry (ie_id entry) sec line \<notin> set (map snd pushes)" using id_step_adds [OF step] by blast
  moreover have "MoveEntry (ie_id entry) sec line \<notin> set (map (snd \<circ> tick_change) ticks)"
    by (auto simp: tick_change_def split: prod.splits)
  moreover have "MoveEntry (ie_id entry) sec line \<notin> set (new_entries X N inp scan (unique_entries [] ?all))"
    using new_entries_appends by blast
  ultimately have "MoveEntry (ie_id entry) sec line \<notin> set (concat (map fch_changes (bp_changes plan)))"
    unfolding mset_eq_setD [OF cs] by auto
  then show ?thesis using this_step(1) by (simp add: m follow follow_others [OF other(2)])
qed

theorem removal_waits_witness:
  "\<exists>plan missing' s'.
     plan_batch sample_index_env sample_instants sample_input (\<lambda>_. None) (settings_default (9::nat)) ReminderConfig_default sample_ids 0 = Some (plan, missing', s') \<and>
     missing' (lit ''bbbbbbbbbbbb'') = Some 0 \<and>
     MoveEntry (lit ''bbbbbbbbbbbb'') SecDone [] \<notin> set (concat (map fch_changes (bp_changes plan)))"
proof (rule sample_planned)
  fix plan missing' s'
  assume plan: "plan_batch sample_index_env sample_instants sample_input (\<lambda>_. None) (settings_default (9::nat)) ReminderConfig_default sample_ids 0 = Some (plan, missing', s')"
  have "sample_row \<in> set (unique_entries [] (listed_entries sample_index_env sample_input (settings_default (9::nat)) ReminderConfig_default))"
    unfolding sample_listed sample_row_def by simp
  from removal_waits [OF plan sample_scan_paths this sample_gone(1,2) refl sample_gone(3), of SecDone "[]"] plan show ?thesis
    by (auto simp: sample_row_def sample_input_def simp del: lit_simps)
qed

end
