(* ===== verification/Desk_Blocks.thy ===== *)
theory Desk_Blocks
  imports Day_Plan
begin

text \<open>
  The block constructs of the desk's Markdown scanner (\<open>crates/thock/src/markdown_syntax.rs\<close>): which
  lines of a note are content, list items and their boxes, the edits that tick a task and give a line
  a block prefix, and where a \<open>/\<close> query starts.  Byte columns are character columns; a fence
  character is an ASCII one.
\<close>

section \<open>Fences and front matter\<close>

definition block_indent :: "rstr \<Rightarrow> nat option" where
  "block_indent line =
     (let ind = length line - length (trim_start_matches (\<lambda>c. c = 32) line)
      in if ind \<le> 3 then Some ind else None)"

definition desk_opens_fence :: "rstr \<Rightarrow> (rchar \<times> nat) option" where
  "desk_opens_fence line =
     Option.bind (block_indent line) (\<lambda>ind.
       case drop ind line of
         [] \<Rightarrow> None
       | m # _ \<Rightarrow>
           if m \<noteq> 96 \<and> m \<noteq> 126 then None
           else let len = run_length m (drop ind line)
                in if len < 3 then None
                   else if m = 96 \<and> 96 \<in> set (drop len (drop ind line)) then None
                   else Some (m, len))"

definition desk_closes_fence :: "rstr \<Rightarrow> rchar \<Rightarrow> nat \<Rightarrow> bool" where
  "desk_closes_fence line m len \<longleftrightarrow>
     is_some_and (block_indent line) (\<lambda>ind.
       let rest = drop ind line; run = run_length m rest
       in len \<le> run \<and> list_all is_ascii_whitespace (drop run rest))"

record BlockState =
  bs_fence :: "(rchar \<times> nat) option"
  bs_front_matter :: bool
  bs_lines_seen :: nat

definition block_init :: BlockState where
  "block_init = \<lparr>bs_fence = None, bs_front_matter = False, bs_lines_seen = 0\<rparr>"

definition strip_cr :: "rstr \<Rightarrow> rstr" where
  "strip_cr line = (case strip_suffix [13] line of Some l \<Rightarrow> l | None \<Rightarrow> line)"

definition block_advance :: "rstr \<Rightarrow> BlockState \<Rightarrow> BlockState \<times> bool" where
  "block_advance line0 st0 =
     (let line = strip_cr line0;
          first = (bs_lines_seen st0 = 0);
          st = st0\<lparr>bs_lines_seen := bs_lines_seen st0 + 1\<rparr>
      in if first \<and> trim_end line = lit ''---'' then (st\<lparr>bs_front_matter := True\<rparr>, False)
         else if bs_front_matter st
         then (if trim_end line = lit ''---'' \<or> trim_end line = lit ''...'' then st\<lparr>bs_front_matter := False\<rparr> else st, False)
         else case bs_fence st of
           Some (m, len) \<Rightarrow> (if desk_closes_fence line m len then st\<lparr>bs_fence := None\<rparr> else st, False)
         | None \<Rightarrow> (case desk_opens_fence line of
             Some opened \<Rightarrow> (st\<lparr>bs_fence := Some opened\<rparr>, False)
           | None \<Rightarrow> (st, True)))"

definition block_after :: "rstr \<Rightarrow> BlockState" where
  "block_after prior = fold (\<lambda>line st. fst (block_advance line st)) (butlast (split_on (\<lambda>c. c = 10) prior)) block_init"

definition is_content :: "BlockState \<Rightarrow> rstr \<Rightarrow> bool" where
  "is_content st line = snd (block_advance line st)"

text \<open>The flags of \<open>each_content_line\<close>, then its lines with where they start.\<close>

fun content_flags :: "BlockState \<Rightarrow> rstr list \<Rightarrow> bool list" where
  "content_flags st [] = []"
| "content_flags st (line # ls) = (let (st', content) = block_advance line st in content # content_flags st' ls)"

fun line_offsets :: "nat \<Rightarrow> rstr list \<Rightarrow> (nat \<times> rstr) list" where
  "line_offsets offset [] = []"
| "line_offsets offset (raw # ls) = (offset, strip_cr raw) # line_offsets (offset + length raw + 1) ls"

definition each_content_line :: "rstr \<Rightarrow> (nat \<times> rstr) list" where
  "each_content_line t =
     (let lines = split_on (\<lambda>c. c = 10) t
      in map fst (filter snd (zip (line_offsets 0 lines) (content_flags block_init (map strip_cr lines)))))"

record WikilinkReference =
  wr_range :: "nat \<times> nat"
  wr_target :: "nat \<times> nat"

definition shift :: "nat \<Rightarrow> nat \<times> nat \<Rightarrow> nat \<times> nat" where
  "shift n r = (n + fst r, n + snd r)"

text \<open>The link of a line that contains the column, when it is a wikilink.\<close>

definition wikilink_in_line :: "nat \<Rightarrow> nat \<Rightarrow> rstr \<Rightarrow> WikilinkReference option" where
  "wikilink_in_line offset line_start line =
     (if offset < line_start \<or> line_start + length line < offset then None
      else Option.bind (find (\<lambda>l. in_range offset (shift line_start (il_range l)) \<or> offset < snd (shift line_start (il_range l)))
                          (each_inline_link line 0 (desk_inline_exclusions line)))
             (\<lambda>l. if in_range offset (shift line_start (il_range l))
                then map_option (\<lambda>target. \<lparr>wr_range = shift line_start (il_range l), wr_target = shift line_start target\<rparr>)
                       (il_wikilink_target l)
                else None))"

definition wikilink_at :: "rstr \<Rightarrow> nat \<Rightarrow> WikilinkReference option" where
  "wikilink_at t offset = find_map (\<lambda>(line_start, line). wikilink_in_line offset line_start line) (each_content_line t)"

definition is_prose_at :: "rstr \<Rightarrow> nat \<Rightarrow> bool" where
  "is_prose_at t offset =
     fold (\<lambda>(line_start, line) prose.
         if line_start \<le> offset \<and> offset \<le> line_start + length line
         then \<not> list_ex (in_range (offset - line_start)) (desk_inline_exclusions line) else prose)
       (each_content_line t) False"

section \<open>List items\<close>

definition tab_or_space :: "rchar \<Rightarrow> bool" where
  "tab_or_space c \<longleftrightarrow> c = 32 \<or> c = 9"

definition line_indent :: "rstr \<Rightarrow> nat" where
  "line_indent line = length line - length (trim_start_matches tab_or_space line)"

definition bullet_marker :: "rstr \<Rightarrow> (nat \<times> nat) option" where
  "bullet_marker line =
     (let ind = line_indent line; rest = drop ind line
      in case rest of
           [] \<Rightarrow> None
         | m # after \<Rightarrow>
             if \<not> task_bullet m then None
             else if after = [] \<or> \<not> tab_or_space (hd after) then None
             else let others = filter (\<lambda>c. \<not> is_ascii_whitespace c) rest
                  in if list_all (\<lambda>c. c = m) others \<and> 3 \<le> length others then None
                     else Some (ind, ind + 1))"

definition task_checkbox :: "rstr \<Rightarrow> ((nat \<times> nat) \<times> bool) option" where
  "task_checkbox line =
     (case drop (line_indent line) line of
        [] \<Rightarrow> None
      | m # after_bullet \<Rightarrow>
          if \<not> task_bullet m then None
          else let after_space = trim_start_matches tab_or_space after_bullet
               in if length after_space = length after_bullet then None
                  else (case task_box after_space of
                          None \<Rightarrow> None
                        | Some (checked, after_checkbox) \<Rightarrow>
                            if after_checkbox \<noteq> [] \<and> \<not> tab_or_space (hd after_checkbox) then None
                            else let e = length line - length after_checkbox in Some ((e - 3, e), checked)))"

definition list_prefix :: "rstr \<Rightarrow> (nat \<times> nat) option" where
  "list_prefix line =
     map_option (\<lambda>bullet.
         let marker_end = (case task_checkbox line of Some (box, _) \<Rightarrow> snd box | None \<Rightarrow> snd bullet)
         in (fst bullet, length line - length (trim_start_matches tab_or_space (drop marker_end line))))
       (bullet_marker line)"

definition toggle_task_edit :: "rstr \<Rightarrow> ((nat \<times> nat) \<times> rstr) option" where
  "toggle_task_edit line =
     Option.bind (bullet_marker line) (\<lambda>_.
       map_option (\<lambda>(box, checked). ((fst box + 1, fst box + 2), if checked then [32] else [120])) (task_checkbox line))"

section \<open>Block prefixes\<close>

datatype Block = BTask | BBullet | BNumbered | BHeading nat | BQuote

fun block_prefix :: "Block \<Rightarrow> rstr" where
  "block_prefix BTask = lit ''- [ ] ''"
| "block_prefix BBullet = lit ''- ''"
| "block_prefix BNumbered = lit ''1. ''"
| "block_prefix (BHeading level) = replicate (max 1 (min 6 level)) 35 @ [32]"
| "block_prefix BQuote = lit ''> ''"

definition block_text_start :: "rstr \<Rightarrow> nat \<Rightarrow> nat" where
  "block_text_start line ind =
     (case list_prefix line of
        Some p \<Rightarrow> snd p
      | None \<Rightarrow>
          let rest = drop ind line;
              digits = length (takeWhile is_ascii_digit rest);
              hashes = run_length 35 rest;
              marker = (if 1 \<le> digits \<and> digits \<le> 9 \<and> (starts_with [46] (drop digits rest) \<or> starts_with [41] (drop digits rest))
                        then Some (digits + 1)
                        else if 1 \<le> hashes \<and> hashes \<le> 6 then Some hashes
                        else if starts_with [62] rest then Some 1 else None)
          in (case marker of
                None \<Rightarrow> ind
              | Some n \<Rightarrow>
                  let after = drop n rest; spaced = trim_start_matches tab_or_space after
                  in if length spaced = length after \<and> after \<noteq> [] \<and> \<not> starts_with [62] rest then ind
                     else length line - length spaced))"

definition apply_block :: "rstr \<Rightarrow> Block \<Rightarrow> nat \<Rightarrow> rstr \<times> nat" where
  "apply_block line block cursor =
     (let ind = line_indent line;
          text_start = block_text_start line ind;
          new_text_start = ind + length (block_prefix block)
      in (take ind line @ block_prefix block @ drop text_start line,
          new_text_start + (min cursor (length line) - text_start)))"

section \<open>Slash queries and the remaining line forms\<close>

definition in_open_link :: "rstr \<Rightarrow> bool" where
  "in_open_link prior \<longleftrightarrow>
     is_some_and (str_rfind (lit ''[['') prior) (\<lambda>o'. \<not> str_contains (lit '']]'') (drop o' prior)) \<or>
     is_some_and (str_rfind (lit ''](''  ) prior) (\<lambda>o'. \<not> str_contains [41] (drop o' prior))"

definition slash_query_start :: "env \<Rightarrow> rstr \<Rightarrow> nat \<Rightarrow> nat option" where
  "slash_query_start E line column =
     (if length line < column then None
      else let line_prefix = take column line
           in Option.bind (str_rfind [47] line_prefix) (\<lambda>slash.
                let prior = take slash line_prefix
                in if \<not> list_all (is_alphanumeric E) (drop (slash + 1) line_prefix) then None
                   else if \<not> (trim prior = [] \<or> is_some_and (last_opt prior) is_whitespace) then None
                   else if in_open_link prior then None
                   else if list_ex (in_range slash) (desk_inline_exclusions line @ map il_range (inline_links line)) then None
                   else Some slash))"

definition journal_time :: "rstr \<Rightarrow> (nat \<times> nat) option" where
  "journal_time line =
     Option.bind (parse_time_prefix line) (\<lambda>(_, rest).
       if starts_with [32, 183, 32] rest then Some (0, length line - length rest) else None)"

definition desk_thematic_break :: "rstr \<Rightarrow> bool" where
  "desk_thematic_break line \<longleftrightarrow>
     is_some_and (block_indent line) (\<lambda>ind.
       let rest = drop ind line; run = run_length 95 rest
       in 3 \<le> run \<and> list_all tab_or_space (drop run rest))"

definition atx_heading :: "rstr \<Rightarrow> (nat \<times> nat \<times> nat) option" where
  "atx_heading line =
     Option.bind (block_indent line) (\<lambda>ind.
       let level = run_length 35 (drop ind line);
           spaces = length (takeWhile tab_or_space (drop (ind + level) line))
       in if level = 0 \<or> 6 < level then None
          else if spaces = 0 then None
          else Some (level, ind, ind + level + spaces))"

definition blockquote_range :: "rstr \<Rightarrow> (nat \<times> nat) option" where
  "blockquote_range line =
     Option.bind (block_indent line) (\<lambda>ind.
       if \<not> starts_with [62] (drop ind line) then None
       else let e = length (trim_end line) in if ind < e then Some (ind, e) else None)"

end
