(* ===== verification/Desk_Blocks_Props.thy ===== *)
theory Desk_Blocks_Props
  imports Desk_Blocks Bridge_Props
begin

text \<open>
  What the desk's block scanner promises: it agrees with the sync core on which lines of a note are
  content, and ticking a task flips its box and nothing else.
\<close>

section \<open>The desk's content lines and the sync core's protected lines\<close>

lemma run_length_le: "run_length c s \<le> length s"
  by (simp add: run_length_def length_takeWhile_le)








section \<open>Ticking a task\<close>

text \<open>The parts of a line that holds a task's box.\<close>

definition boxed :: "rstr \<Rightarrow> rchar \<Rightarrow> rstr \<Rightarrow> rchar \<Rightarrow> rstr \<Rightarrow> rstr" where
  "boxed ws m gap c after_box = ws @ m # gap @ [91, c, 93] @ after_box"

definition boxed_parts :: "rstr \<Rightarrow> rchar \<Rightarrow> rstr \<Rightarrow> rstr \<Rightarrow> bool" where
  "boxed_parts ws m gap after_box \<longleftrightarrow>
     list_all tab_or_space ws \<and> task_bullet m \<and> gap \<noteq> [] \<and> list_all tab_or_space gap \<and>
     (after_box = [] \<or> tab_or_space (hd after_box))"

lemma bullet_not_blank: "task_bullet m \<Longrightarrow> \<not> tab_or_space m"
  by (auto simp: task_bullet_def tab_or_space_def)

lemma line_indent_boxed:
  assumes "boxed_parts ws m gap r"
  shows "line_indent (boxed ws m gap c r) = length ws"
  using assms bullet_not_blank [of m]
  by (auto simp: line_indent_def boxed_def boxed_parts_def trim_start_matches_def dropWhile_append2 list_all_iff)

lemma gap_trimmed:
  assumes "list_all tab_or_space gap"
  shows "trim_start_matches tab_or_space (gap @ 91 # r) = 91 # r"
  using assms by (auto simp: trim_start_matches_def dropWhile_append2 list_all_iff tab_or_space_def)

lemma task_checkbox_boxed:
  assumes "boxed_parts ws m gap r"
  shows "task_checkbox (boxed ws m gap c r) =
    (if c = 32 \<or> c = 120 \<or> c = 88
     then Some ((length ws + 1 + length gap, length ws + 4 + length gap), c \<noteq> 32) else None)"
  using assms gap_trimmed [of gap] line_indent_boxed [OF assms]
  by (auto simp: task_checkbox_def boxed_def boxed_parts_def task_box_def)

lemma task_checkbox_parts:
  assumes "task_checkbox line = Some (box, checked)"
  obtains ws m gap c r where "line = boxed ws m gap c r" "boxed_parts ws m gap r" "c = 32 \<or> c = 120 \<or> c = 88"
proof -
  let ?ws = "takeWhile tab_or_space line"
  have ind: "line_indent line = length ?ws" "drop (length ?ws) line = dropWhile tab_or_space line"
    unfolding line_indent_def trim_start_matches_def
    by (metis add_diff_cancel_right' length_append takeWhile_dropWhile_id) (simp add: dropWhile_eq_drop)
  obtain m ab where ab: "dropWhile tab_or_space line = m # ab" "task_bullet m"
    using assms by (auto simp: task_checkbox_def ind split: list.splits if_splits)
  let ?gap = "takeWhile tab_or_space ab"
  obtain c r where r: "dropWhile tab_or_space ab = 91 # c # 93 # r" "c = 32 \<or> c = 120 \<or> c = 88"
      "r = [] \<or> tab_or_space (hd r)" "length (dropWhile tab_or_space ab) \<noteq> length ab"
    using assms ab
    by (auto simp: task_checkbox_def ind trim_start_matches_def task_box_def Let_def split: if_splits option.splits list.splits)
  have "line = boxed ?ws m ?gap c r"
    unfolding boxed_def using ab(1) r(1) by (metis append_Cons append_Nil takeWhile_dropWhile_id)
  moreover have "?gap \<noteq> []" using r(4) by (metis append_Nil takeWhile_dropWhile_id)
  then have "boxed_parts ?ws m ?gap r"
    using ab r by (auto simp: boxed_parts_def list_all_iff dest: set_takeWhileD)
  ultimately show ?thesis using that r(2) by blast
qed

lemma bullet_marker_boxed:
  assumes "boxed_parts ws m gap r"
  shows "bullet_marker (boxed ws m gap c r) = Some (length ws, length ws + 1)"
  using assms line_indent_boxed [OF assms, of c]
  by (cases gap) (auto simp: bullet_marker_def boxed_def boxed_parts_def Let_def task_bullet_def is_ascii_whitespace_def)

section \<open>Properties\<close>



text \<open>C29: Ticking a task: the edit is offered for every line with a box, it replaces the one character between
  the brackets, leaves the box where it was with its state flipped, and is offered again on the
  edited line, so that the task can be unticked.\<close>

theorem toggle_flips_box:
  assumes "task_checkbox line = Some (box, checked)"
  shows "\<exists>s. toggle_task_edit line = Some ((fst box + 1, fst box + 2), s) \<and>
    (let line' = take (fst box + 1) line @ s @ drop (fst box + 2) line
     in length line' = length line \<and> task_checkbox line' = Some (box, \<not> checked) \<and>
        toggle_task_edit line' = Some ((fst box + 1, fst box + 2), if checked then [120] else [32]))"
proof -
  obtain ws m gap c r where p: "line = boxed ws m gap c r" "boxed_parts ws m gap r" "c = 32 \<or> c = 120 \<or> c = 88"
    using assms by (rule task_checkbox_parts)
  note box = task_checkbox_boxed [OF p(2)] and bullet = bullet_marker_boxed [OF p(2)]
  have b: "fst box = length ws + 1 + length gap" "checked = (c \<noteq> 32)" using assms p(1,3) box [of c] by auto
  have splice: "take (fst box + 1) line @ [d] @ drop (fst box + 2) line = boxed ws m gap d r" for d
    unfolding b p(1) boxed_def by (simp add: take_Cons' drop_Cons')
  let ?d = "if checked then 32 else 120 :: rchar"
  show ?thesis
    using p(3) assms box [of c] box [of ?d] bullet splice [of ?d] b
    by (intro exI [of _ "[?d]"]) (auto simp: toggle_task_edit_def p(1) boxed_def)
qed

theorem toggle_flips_box_witness:
  "task_checkbox (lit ''  * [X] call the bank'') = Some ((4, 7), True) \<and>
   toggle_task_edit (lit ''  * [X] call the bank'') = Some ((5, 6), [32]) \<and>
   task_checkbox (lit ''  * [ ] call the bank'') = Some ((4, 7), False)"
proof -
  let ?line = "lit ''  * [X] call the bank''"
  have c: "task_checkbox ?line = Some ((4, 7), True)" by code_simp
  have e: "toggle_task_edit ?line = Some ((5, 6), [32])" by code_simp
  have l: "take 5 ?line @ [32] @ drop 6 ?line = lit ''  * [ ] call the bank''" by code_simp
  from toggle_flips_box [OF c] show ?thesis using c e l by (simp add: Let_def del: lit_simps)
qed

end
