(* ===== verification/Sync_Api.thy ===== *)
theory Sync_Api
  imports Bridge_Http Write Decimal
begin

text \<open>
  The client of the sync service (\<open>crates/thock/src/vault_sync.rs\<close>, the protocol types and
  \<open>SyncApi\<close>): how each call is written as an HTTP request and how its answer becomes a value or an
  error.  The service with the network before it is the parameter \<open>sn_send\<close> of the record
  \<open>sync_net\<close>: a state \<open>'s\<close> that a request changes and answers; serde's reading and writing of
  JSON texts are its other fields.  Of an \<open>anyhow::Error\<close> the model keeps what the code branches on,
  the \<open>SyncError\<close> it may hold; sentences are dropped.  Versions, sequence numbers and sizes, \<open>u64\<close> in
  the source, are natural numbers.
\<close>

section \<open>Protocol types\<close>

record WritesInfo =
  wi_pending :: nat
  wi_latest_seq :: nat
  wi_acked_through_seq :: nat
  wi_acked_at_version :: nat

record DeviceInfo =
  dev_device_id :: rstr
  dev_role :: rstr
  dev_name :: rstr
  dev_paired_at :: rstr
  dev_last_seen_at :: rstr

record VaultInfo =
  vi_vault_id :: rstr
  vi_status :: rstr
  vi_key_check :: rstr
  vi_quota_bytes :: nat
  vi_used_bytes :: nat
  vi_file_count :: nat
  vi_latest_version :: nat
  vi_writes :: WritesInfo
  vi_devices :: "DeviceInfo list"
  vi_lapsed_at :: "rstr option"

definition info_phone :: "VaultInfo \<Rightarrow> DeviceInfo option" where
  "info_phone info = find (\<lambda>device. dev_role device = lit ''phone'') (vi_devices info)"

definition is_lapsed :: "VaultInfo \<Rightarrow> bool" where
  "is_lapsed info \<longleftrightarrow> vi_status info = lit ''lapsed'' \<or> vi_lapsed_at info \<noteq> None"

record UploadTarget =
  ut_url :: rstr
  ut_method :: rstr
  ut_headers :: "(rstr \<times> rstr) list"

definition default_put :: rstr where "default_put = lit ''PUT''"

record WriteRow =
  rw_seq :: nat
  rw_client_id :: rstr
  rw_path :: rstr
  rw_payload :: rstr

record WritesPage =
  wp_writes :: "WriteRow list"
  wp_has_more :: bool

record Acked =
  ak_through_seq :: nat
  ak_at_version :: nat

record PairingCode =
  pc_code :: rstr
  pc_expires_at :: rstr

record ErrorBody =
  eb_error :: rstr
  eb_code :: rstr
  eb_current :: "nat option"

record SyncError =
  se_status :: nat
  se_code :: rstr
  se_current_version :: "nat option"

datatype sync_failure = Refusal SyncError | OtherFailure

fun sync_error :: "sync_failure \<Rightarrow> SyncError option" where
  "sync_error (Refusal e) = Some e"
| "sync_error OtherFailure = None"

definition has_code :: "string \<Rightarrow> sync_failure \<Rightarrow> bool" where
  "has_code code error \<longleftrightarrow> is_some_and (sync_error error) (\<lambda>e. se_code e = lit code)"

section \<open>The service\<close>

record SyncRequest =
  sq_method :: rstr
  sq_url :: rstr
  sq_headers :: "(rstr \<times> rstr) list"
  sq_body :: "byte list"

record 's sync_net =
  sn_send :: "SyncRequest \<Rightarrow> 's \<Rightarrow> (nat \<times> rstr) option \<times> 's"
  sn_to_string :: "Value \<Rightarrow> rstr"
  sn_error_body :: "rstr \<Rightarrow> ErrorBody option"
  sn_vault :: "rstr \<Rightarrow> VaultInfo option"
  sn_ticket :: "rstr \<Rightarrow> UploadTarget option"
  sn_version :: "rstr \<Rightarrow> nat option"
  sn_page :: "rstr \<Rightarrow> WritesPage option"
  sn_acked :: "rstr \<Rightarrow> Acked option"
  sn_pairing :: "rstr \<Rightarrow> PairingCode option"
  sn_is_method :: "rstr \<Rightarrow> bool"
  sn_client_version :: rstr

record SyncApi =
  api_base_url :: rstr
  api_credential :: rstr

definition api_new :: "rstr \<Rightarrow> rstr \<Rightarrow> SyncApi" where
  "api_new base_url credential =
     \<lparr>api_base_url = trim_end_matches (\<lambda>c. c = 47) base_url, api_credential = credential\<rparr>"

definition api_request :: "'s sync_net \<Rightarrow> SyncApi \<Rightarrow> string \<Rightarrow> rstr \<Rightarrow> Value option \<Rightarrow> SyncRequest" where
  "api_request N api m route body =
     (let base = [(lit ''Accept'', lit ''application/json''),
                  (lit ''Authorization'', lit ''Bearer '' @ api_credential api),
                  (lit ''Thock-Client'', lit ''desk/'' @ sn_client_version N)];
          bytes = utf8 (case body of Some v \<Rightarrow> sn_to_string N v | None \<Rightarrow> lit ''{}'')
      in if m = ''GET''
         then \<lparr>sq_method = lit m, sq_url = api_base_url api @ route, sq_headers = base, sq_body = []\<rparr>
         else \<lparr>sq_method = lit m, sq_url = api_base_url api @ route,
                sq_headers = base @ [(lit ''Content-Type'', lit ''application/json; charset=utf-8''),
                                     (lit ''Content-Length'', nat_to_str (length bytes))],
                sq_body = bytes\<rparr>)"

definition success_status :: "nat \<Rightarrow> bool" where
  "success_status status \<longleftrightarrow> 200 \<le> status \<and> status < 300"

definition classify :: "'s sync_net \<Rightarrow> nat \<Rightarrow> rstr \<Rightarrow> SyncError" where
  "classify N status body =
     (let (code, current) = (case sn_error_body N body of Some b \<Rightarrow> (eb_code b, eb_current b) | None \<Rightarrow> ([], None))
      in \<lparr>se_status = status,
          se_code = (if code \<noteq> [] then code
                     else if status = 401 then lit ''unauthorized''
                     else if status = 403 then lit ''revoked''
                     else if status = 409 then lit ''stale_version''
                     else lit ''http_'' @ nat_to_str status),
          se_current_version = current\<rparr>)"

text \<open>\<open>SyncApi::call\<close>, for the reader of the answer; a blank answer is read as the text \<open>null\<close>.\<close>

definition api_call :: "'s sync_net \<Rightarrow> SyncApi \<Rightarrow> (rstr \<Rightarrow> 'a option) \<Rightarrow> string \<Rightarrow> rstr \<Rightarrow> Value option \<Rightarrow> 's \<Rightarrow>
    (sync_failure + 'a) \<times> 's" where
  "api_call N api read m route body s =
     (case sn_send N (api_request N api m route body) s of
        (None, s') \<Rightarrow> (Inl OtherFailure, s')
      | (Some (status, t), s') \<Rightarrow>
          (if \<not> success_status status then Inl (Refusal (classify N status t))
           else case read (if trim t = [] then lit ''null'' else t) of
                  Some value \<Rightarrow> Inr value
                | None \<Rightarrow> Inl OtherFailure, s'))"

definition api_call_empty :: "'s sync_net \<Rightarrow> SyncApi \<Rightarrow> string \<Rightarrow> rstr \<Rightarrow> Value option \<Rightarrow> 's \<Rightarrow>
    (sync_failure + unit) \<times> 's" where
  "api_call_empty N api m route body s =
     (case sn_send N (api_request N api m route body) s of
        (None, s') \<Rightarrow> (Inl OtherFailure, s')
      | (Some (status, t), s') \<Rightarrow>
          (if \<not> success_status status then Inl (Refusal (classify N status t)) else Inr (), s'))"

definition encode_segment :: "rstr \<Rightarrow> rstr" where
  "encode_segment seg = concat (map encode_byte (utf8 seg))"

definition encode_route :: "rstr \<Rightarrow> rstr" where
  "encode_route path = join_with [47] (map encode_segment (split_on (\<lambda>c. c = 47) path))"

definition json_nat :: "nat \<Rightarrow> Value" where
  "json_nat n = Number (PosInt (of_nat n))"

definition files_route :: "rstr \<Rightarrow> rstr" where
  "files_route path = lit ''/v1/vault/files/'' @ encode_route path"

definition ensure_vault :: "'s sync_net \<Rightarrow> SyncApi \<Rightarrow> rstr \<Rightarrow> rstr \<Rightarrow> 's \<Rightarrow> (sync_failure + VaultInfo) \<times> 's" where
  "ensure_vault N api device_name key_check =
     api_call N api (sn_vault N) ''POST'' (lit ''/v1/vault'')
       (Some (Object [(lit ''device_name'', String device_name), (lit ''key_check'', String key_check)]))"

definition get_vault :: "'s sync_net \<Rightarrow> SyncApi \<Rightarrow> 's \<Rightarrow> (sync_failure + VaultInfo) \<times> 's" where
  "get_vault N api = api_call N api (sn_vault N) ''GET'' (lit ''/v1/vault'') None"

definition delete_vault :: "'s sync_net \<Rightarrow> SyncApi \<Rightarrow> 's \<Rightarrow> (sync_failure + unit) \<times> 's" where
  "delete_vault N api = api_call_empty N api ''DELETE'' (lit ''/v1/vault'') None"

definition reset_vault :: "'s sync_net \<Rightarrow> SyncApi \<Rightarrow> rstr \<Rightarrow> 's \<Rightarrow> (sync_failure + VaultInfo) \<times> 's" where
  "reset_vault N api key_check =
     api_call N api (sn_vault N) ''POST'' (lit ''/v1/vault/reset'') (Some (Object [(lit ''key_check'', String key_check)]))"

definition create_pairing :: "'s sync_net \<Rightarrow> SyncApi \<Rightarrow> 's \<Rightarrow> (sync_failure + PairingCode) \<times> 's" where
  "create_pairing N api = api_call N api (sn_pairing N) ''POST'' (lit ''/v1/vault/pairings'') None"

definition revoke_device :: "'s sync_net \<Rightarrow> SyncApi \<Rightarrow> rstr \<Rightarrow> 's \<Rightarrow> (sync_failure + unit) \<times> 's" where
  "revoke_device N api device_id =
     api_call_empty N api ''POST'' (lit ''/v1/vault/devices/'' @ encode_segment device_id @ lit ''/revoke'') None"

definition begin_upload :: "'s sync_net \<Rightarrow> SyncApi \<Rightarrow> rstr \<Rightarrow> nat \<Rightarrow> rstr \<Rightarrow> nat \<Rightarrow> rstr \<Rightarrow> 's \<Rightarrow>
    (sync_failure + UploadTarget) \<times> 's" where
  "begin_upload N api path expected_version blob_id size_bytes content_hash =
     api_call N api (sn_ticket N) ''POST'' (files_route path)
       (Some (Object [(lit ''expected_version'', json_nat expected_version), (lit ''blob_id'', String blob_id),
                      (lit ''size_bytes'', json_nat size_bytes), (lit ''content_hash'', String content_hash)]))"

definition commit_upload :: "'s sync_net \<Rightarrow> SyncApi \<Rightarrow> rstr \<Rightarrow> nat \<Rightarrow> rstr \<Rightarrow> 's \<Rightarrow> (sync_failure + nat) \<times> 's" where
  "commit_upload N api path expected_version blob_id =
     api_call N api (sn_version N) ''POST'' (files_route path @ lit ''/commit'')
       (Some (Object [(lit ''expected_version'', json_nat expected_version), (lit ''blob_id'', String blob_id)]))"

definition tombstone :: "'s sync_net \<Rightarrow> SyncApi \<Rightarrow> rstr \<Rightarrow> nat \<Rightarrow> 's \<Rightarrow> (sync_failure + nat) \<times> 's" where
  "tombstone N api path expected_version =
     api_call N api (sn_version N) ''DELETE'' (files_route path)
       (Some (Object [(lit ''expected_version'', json_nat expected_version)]))"

definition writes_after :: "'s sync_net \<Rightarrow> SyncApi \<Rightarrow> nat \<Rightarrow> 's \<Rightarrow> (sync_failure + WritesPage) \<times> 's" where
  "writes_after N api after =
     api_call N api (sn_page N) ''GET''
       (lit ''/v1/vault/writes?after='' @ nat_to_str after @ lit ''&limit=1000'') None"

definition ack_writes :: "'s sync_net \<Rightarrow> SyncApi \<Rightarrow> nat \<Rightarrow> 's \<Rightarrow> (sync_failure + Acked) \<times> 's" where
  "ack_writes N api through_seq =
     api_call N api (sn_acked N) ''POST'' (lit ''/v1/vault/writes/ack'')
       (Some (Object [(lit ''through_seq'', json_nat through_seq)]))"

text \<open>An upload goes to the address the service named, without the credential.\<close>

definition put_blob :: "'s sync_net \<Rightarrow> UploadTarget \<Rightarrow> byte list \<Rightarrow> 's \<Rightarrow> (sync_failure + unit) \<times> 's" where
  "put_blob N target bytes s =
     (if \<not> sn_is_method N (ut_method target) then (Inl OtherFailure, s)
      else case sn_send N \<lparr>sq_method = ut_method target, sq_url = ut_url target,
                   sq_headers = (lit ''Content-Length'', nat_to_str (length bytes)) # ut_headers target, sq_body = bytes\<rparr> s of
             (Some (status, _), s') \<Rightarrow> (if success_status status then Inr () else Inl OtherFailure, s')
           | (None, s') \<Rightarrow> (Inl OtherFailure, s'))"

end
