(* ===== verification/Vault_Disk.thy ===== *)
theory Vault_Disk
  imports Reminder Envelope Apply Utf8_Lossy
begin

text \<open>
  The notes of a vault on disk as the synchronisation client sees them
  (\<open>crates/thock/src/vault_sync.rs\<close>), and the application of one write of the phone to them:
  \<open>open_write\<close>, \<open>apply_write\<close> with its pictures and moves, and the template a new note starts from
  (\<open>expand_template\<close> of \<open>crates/thock/src/notes.rs\<close>, \<open>note_date\<close> of \<open>vault.rs\<close>,
  \<open>move_note\<close> of \<open>inbox_service.rs\<close>).

  The editor's \<open>Fs\<close> is a map from vault paths to bytes with a script of faults, one entry per
  operation that can fail; the script runs out into success.  Folders the configuration names are
  relative to the root.  Base64, the cipher, chrono, the local clock and serde are parameters.
\<close>

section \<open>The disk\<close>

record VaultDisk =
  vd_files :: "rstr \<Rightarrow> byte list option"
  vd_faults :: "bool list"

definition disk_op :: "VaultDisk \<Rightarrow> bool \<times> VaultDisk" where
  "disk_op d = (case vd_faults d of [] \<Rightarrow> (True, d) | fault # fs \<Rightarrow> (\<not> fault, d\<lparr>vd_faults := fs\<rparr>))"

definition is_file :: "rstr \<Rightarrow> VaultDisk \<Rightarrow> bool" where
  "is_file path d \<longleftrightarrow> vd_files d path \<noteq> None"

definition load_bytes :: "rstr \<Rightarrow> VaultDisk \<Rightarrow> byte list option \<times> VaultDisk" where
  "load_bytes path d = (let (ok, d') = disk_op d in (if ok then vd_files d' path else None, d'))"

text \<open>\<open>create_dir\<close> of the parent, then a write; the write alone changes a file.\<close>

definition write_bytes :: "rstr \<Rightarrow> byte list \<Rightarrow> VaultDisk \<Rightarrow> bool \<times> VaultDisk" where
  "write_bytes path bytes d =
     (let (made, d1) = disk_op d
      in if \<not> made then (False, d1)
         else let (ok, d2) = disk_op d1
              in (ok, if ok then d2\<lparr>vd_files := (vd_files d2)(path \<mapsto> bytes)\<rparr> else d2))"

section \<open>Templates\<close>

function expand_loop :: "('d, 't) chrono \<Rightarrow> 'd \<Rightarrow> 't \<Rightarrow> rstr \<Rightarrow> rstr \<Rightarrow> rstr \<Rightarrow> rstr" where
  "expand_loop C date time title written rest =
     (case str_find (lit ''{{'') rest of
        None \<Rightarrow> written @ rest
      | Some start \<Rightarrow>
          (case str_find (lit ''}}'') (drop (start + 2) rest) of
             None \<Rightarrow> written @ rest
           | Some e \<Rightarrow>
               let token = take e (drop (start + 2) rest);
                   expanded = (if token = lit ''date'' then format_Ymd (cal C) date
                     else if token = lit ''time'' then format_HM (clk C) time
                     else if token = lit ''title'' then title
                     else case strip_prefix (lit ''date:'') token of
                            Some format \<Rightarrow> format_date (cal C) date format
                          | None \<Rightarrow> segment rest start (start + e + 4))
               in expand_loop C date time title (written @ take start rest @ expanded) (drop (start + e + 4) rest)))"
  by pat_completeness auto
termination
proof (relation "measure (\<lambda>(_, _, _, _, _, rest). length rest)", goal_cases)
  case (2 C date time title written rest start e)
  then show ?case using str_find_bound [of "lit ''{{''" rest start] by (auto simp: lit_def)
qed simp

declare expand_loop.simps [simp del]

definition expand_template :: "('d, 't) chrono \<Rightarrow> rstr \<Rightarrow> 'd \<Rightarrow> 't \<Rightarrow> rstr \<Rightarrow> rstr" where
  "expand_template C template date time title = expand_loop C date time title [] template"

section \<open>The vault\<close>

record NotesConfig =
  nc_dir :: rstr
  nc_filename :: rstr
  nc_template :: rstr

record VaultConfig =
  vc_daily :: NotesConfig
  vc_weekly :: NotesConfig
  vc_images_dir :: rstr

datatype NoteKind = Daily | Weekly

fun notes_config :: "VaultConfig \<Rightarrow> NoteKind \<Rightarrow> NotesConfig" where
  "notes_config V Daily = vc_daily V"
| "notes_config V Weekly = vc_weekly V"

text \<open>\<open>Path::strip_prefix\<close> by components, below the root.\<close>

definition below_dir :: "rstr \<Rightarrow> rstr \<Rightarrow> rstr option" where
  "below_dir dir path =
     (let parts = filter (\<lambda>p. p \<noteq> [] \<and> p \<noteq> [46]) (split_on (\<lambda>c. c = 47) dir);
          segs = split_on (\<lambda>c. c = 47) path
      in if starts_with [47] dir \<or> take (length parts) segs \<noteq> parts then None
         else Some (join_with [47] (drop (length parts) segs)))"

definition note_date :: "'d calendar \<Rightarrow> VaultConfig \<Rightarrow> NoteKind \<Rightarrow> rstr \<Rightarrow> 'd option" where
  "note_date K V k path =
     (let config = notes_config V k
      in Option.bind (Option.bind (below_dir (nc_dir config) path) (strip_suffix (lit ''.md'')))
           (\<lambda>stem. parse_date K stem (nc_filename config)))"

definition note_kind_and_date :: "'d calendar \<Rightarrow> VaultConfig \<Rightarrow> rstr \<Rightarrow> (NoteKind \<times> 'd) option" where
  "note_kind_and_date K V path =
     (case note_date K V Daily path of
        Some date \<Rightarrow> Some (Daily, date)
      | None \<Rightarrow> map_option (Pair Weekly) (note_date K V Weekly path))"

text \<open>\<open>Path::file_stem\<close>: the file name up to its last dot, unless that dot begins it.\<close>

definition file_stem :: "rstr \<Rightarrow> rstr" where
  "file_stem path =
     (let name = last (split_on (\<lambda>c. c = 47) path)
      in case str_rfind [46] name of Some (Suc i) \<Rightarrow> take (Suc i) name | _ \<Rightarrow> name)"

section \<open>Opening a write\<close>

record ('d, 't) vault_env =
  ve_env :: env
  ve_aead :: aead
  ve_serde :: serde
  ve_base64 :: "rstr \<Rightarrow> byte list option"
  ve_is_nfc :: "rstr \<Rightarrow> bool"
  ve_chrono :: "('d, 't) chrono"
  ve_now :: 't

datatype ApplyFailure = AfRefused | AfVault | AfUnsupported

definition open_write :: "('d, 't) vault_env \<Rightarrow> byte list \<Rightarrow> rstr \<Rightarrow> rstr \<Rightarrow> rstr \<Rightarrow> rstr \<Rightarrow> ApplyFailure + Write" where
  "open_write X key client_id path payload images_dir =
     (case ve_base64 X (trim payload) of
        None \<Rightarrow> Inl AfRefused
      | Some envelope \<Rightarrow>
          (case open_envelope (ve_aead X) key (CWrite client_id) envelope of
             Inl _ \<Rightarrow> Inl AfRefused
           | Inr plaintext \<Rightarrow>
               (case from_utf8 plaintext of
                  None \<Rightarrow> Inl AfRefused
                | Some json \<Rightarrow>
                    (case parse_write (ve_serde X) json of
                       Inl error \<Rightarrow> Inl (if needs_newer_reader error then AfUnsupported else AfRefused)
                     | Inr w \<Rightarrow>
                         if w_path w \<noteq> path \<or> w_client_id w \<noteq> client_id then Inl AfRefused
                         else if \<not> is_syncable_path (ve_is_nfc X) (w_path w) \<and>
                                 \<not> is_syncable_image_path (ve_is_nfc X) (w_path w) images_dir then Inl AfRefused
                         else Inr w))))"

section \<open>Applying a write\<close>

record AppliedWrite =
  aw_changed :: "rstr option"
  aw_removed :: "rstr option"

definition nothing_applied :: AppliedWrite where
  "nothing_applied = \<lparr>aw_changed = None, aw_removed = None\<rparr>"

definition MAX_FILE_BYTES :: nat where "MAX_FILE_BYTES = 2 * 1024 * 1024"

definition PHONE_MOVE_DESTINATIONS :: "rstr list" where
  "PHONE_MOVE_DESTINATIONS = [lit ''archives/inbox/'']"

definition plaintext_hash :: "env \<Rightarrow> byte list \<Rightarrow> rstr" where
  "plaintext_hash E bytes = hex_encode E (sha256 E bytes)"

definition apply_put_file :: "('d, 't) vault_env \<Rightarrow> VaultConfig \<Rightarrow> Write \<Rightarrow> rstr \<Rightarrow> rstr \<Rightarrow> VaultDisk \<Rightarrow>
    (ApplyFailure + AppliedWrite) \<times> VaultDisk" where
  "apply_put_file X V w content_base64 expected_hash d =
     (if \<not> is_syncable_image_path (ve_is_nfc X) (w_path w) (vc_images_dir V) then (Inl AfRefused, d)
      else case ve_base64 X (trim content_base64) of
        None \<Rightarrow> (Inl AfRefused, d)
      | Some bytes \<Rightarrow>
          if MAX_FILE_BYTES < length bytes then (Inl AfRefused, d)
          else if plaintext_hash (ve_env X) bytes \<noteq> expected_hash then (Inl AfRefused, d)
          else if is_file (w_path w) d
          then (case load_bytes (w_path w) d of
                  (None, d') \<Rightarrow> (Inl AfVault, d')
                | (Some _, d') \<Rightarrow> (Inr nothing_applied, d'))
          else (case write_bytes (w_path w) bytes d of
                  (False, d') \<Rightarrow> (Inl AfVault, d')
                | (True, d') \<Rightarrow> (Inr \<lparr>aw_changed = Some (w_path w), aw_removed = None\<rparr>, d')))"

datatype MoveOutcome = Moved | SourceGone | DestinationExists

definition move_note :: "rstr \<Rightarrow> rstr \<Rightarrow> VaultDisk \<Rightarrow> MoveOutcome option \<times> VaultDisk" where
  "move_note from to d =
     (if \<not> is_file from d then (Some SourceGone, d)
      else if is_file to d then (Some DestinationExists, d)
      else let (ok, d') = disk_op d
           in if ok then (Some Moved, d'\<lparr>vd_files := (vd_files d')(to := vd_files d' from, from := None)\<rparr>)
              else (None, d'))"

definition apply_move_file :: "('d, 't) vault_env \<Rightarrow> Write \<Rightarrow> rstr \<Rightarrow> VaultDisk \<Rightarrow> (ApplyFailure + AppliedWrite) \<times> VaultDisk" where
  "apply_move_file X w to d =
     (if \<not> is_syncable_path (ve_is_nfc X) to \<or> \<not> list_ex (\<lambda>folder. starts_with folder to) PHONE_MOVE_DESTINATIONS
      then (Inl AfRefused, d)
      else case move_note (w_path w) to d of
             (None, d') \<Rightarrow> (Inl AfVault, d')
           | (Some Moved, d') \<Rightarrow> (Inr \<lparr>aw_changed = Some to, aw_removed = Some (w_path w)\<rparr>, d')
           | (Some _, d') \<Rightarrow> (Inr nothing_applied, d'))"

fun create_from_template :: "Operation \<Rightarrow> bool" where
  "create_from_template (Append _ _ _ _ from_template _) = from_template"
| "create_from_template _ = False"

text \<open>The seed of a new daily or weekly note.  The template is loaded as text.\<close>

definition template_seed :: "('d, 't) vault_env \<Rightarrow> VaultConfig \<Rightarrow> rstr \<Rightarrow> VaultDisk \<Rightarrow> rstr option \<times> VaultDisk" where
  "template_seed X V path d =
     (case note_kind_and_date (cal (ve_chrono X)) V path of
        None \<Rightarrow> (None, d)
      | Some (k, date) \<Rightarrow>
          (case load_bytes (nc_template (notes_config V k)) d of
             (bytes, d') \<Rightarrow>
               (map_option (\<lambda>template. expand_template (ve_chrono X) template date (ve_now X) (file_stem path))
                  (Option.bind bytes from_utf8), d')))"

definition apply_opened_write :: "('d, 't) vault_env \<Rightarrow> VaultConfig \<Rightarrow> Write \<Rightarrow> rstr option \<Rightarrow> VaultDisk \<Rightarrow>
    rstr option option \<times> VaultDisk" where
  "apply_opened_write X V w existing d =
     (let (seed, d1) = (if existing = None \<and> create_from_template (w_operation w)
                        then template_seed X V (w_path w) d else (None, d));
          applied = apply_write (ve_env X) existing w seed
      in if a_outcome applied = Noop \<or> existing = Some (a_text applied) then (Some None, d1)
         else case write_bytes (w_path w) (utf8 (a_text applied)) d1 of
                (False, d2) \<Rightarrow> (None, d2)
              | (True, d2) \<Rightarrow> (Some (Some (w_path w)), d2))"

text \<open>The rest of \<open>apply_write\<close> for a write on text.\<close>

definition apply_text_write :: "('d, 't) vault_env \<Rightarrow> VaultConfig \<Rightarrow> Write \<Rightarrow> VaultDisk \<Rightarrow>
    (ApplyFailure + AppliedWrite) \<times> VaultDisk" where
  "apply_text_write X V w d =
     (let (existing, d1) =
        (if is_file (w_path w) d
         then (case load_bytes (w_path w) d of
                 (None, d') \<Rightarrow> (Inl AfVault, d')
               | (Some bytes, d') \<Rightarrow> (case from_utf8 bytes of None \<Rightarrow> Inl AfRefused | Some t \<Rightarrow> Inr (Some t), d'))
         else (Inr None, d))
      in case existing of
           Inl failure \<Rightarrow> (Inl failure, d1)
         | Inr t \<Rightarrow>
             (case apply_opened_write X V w t d1 of
                (None, d2) \<Rightarrow> (Inl AfVault, d2)
              | (Some changed, d2) \<Rightarrow> (Inr \<lparr>aw_changed = changed, aw_removed = None\<rparr>, d2)))"

definition apply_row :: "('d, 't) vault_env \<Rightarrow> VaultConfig \<Rightarrow> byte list \<Rightarrow> rstr \<Rightarrow> rstr \<Rightarrow> rstr \<Rightarrow> VaultDisk \<Rightarrow>
    (ApplyFailure + AppliedWrite) \<times> VaultDisk" where
  "apply_row X V key client_id path payload d =
     (case open_write X key client_id path payload (vc_images_dir V) of
        Inl failure \<Rightarrow> (Inl failure, d)
      | Inr w \<Rightarrow>
          (case w_operation w of
             PutFile content_base64 expected_hash \<Rightarrow> apply_put_file X V w content_base64 expected_hash d
           | MoveFile to \<Rightarrow> apply_move_file X w to d
           | _ \<Rightarrow> apply_text_write X V w d))"

end
