(* ===== verification/Vault_Sync.thy ===== *)
theory Vault_Sync
  imports Sync_Api Vault_Disk BTree
begin

text \<open>
  The worker of the synchronisation client (\<open>crates/thock/src/vault_sync.rs\<close>): the scan of the vault
  against the local record, the phone's queue, uploads and tombstones, and one pass (\<open>run_job\<close>).

  A pass threads the disk and the state of the network.  The directory listing is a parameter of
  the scan.  A \<open>BTreeSet\<close> is a list, put in order and without repetitions where it is walked.  The
  checkpoint of the history before a batch, log lines and toasts are left out.
\<close>

section \<open>Local state\<close>

record FileRecord =
  fr_version :: nat
  fr_blob_id :: rstr
  fr_hash :: rstr

record LocalState =
  lst_schema :: nat
  lst_cursor :: nat
  lst_acked_through_seq :: nat
  lst_files :: "(rstr \<times> FileRecord) list"

record Job =
  jb_catch_up :: bool
  jb_drain :: bool
  jb_dirty :: "rstr list"
  jb_removed :: "rstr list"

definition job_default :: Job where
  "job_default = \<lparr>jb_catch_up = False, jb_drain = False, jb_dirty = [], jb_removed = []\<rparr>"

definition job_is_empty :: "Job \<Rightarrow> bool" where
  "job_is_empty job \<longleftrightarrow> \<not> jb_catch_up job \<and> \<not> jb_drain job \<and> jb_dirty job = [] \<and> jb_removed job = []"

definition job_is_poll :: "Job \<Rightarrow> bool" where
  "job_is_poll job \<longleftrightarrow> jb_drain job \<and> \<not> jb_catch_up job \<and> jb_dirty job = [] \<and> jb_removed job = []"

definition in_order :: "rstr list \<Rightarrow> rstr list" where
  "in_order paths = sort (remdups paths)"

definition STATE_FILE :: rstr where "STATE_FILE = lit ''.thock/sync/state.json''"

datatype skip_reason = TooLarge | NotText

record SkippedFile =
  sk_path :: rstr
  sk_reason :: skip_reason

definition unsendable_reason :: "byte list \<Rightarrow> bool \<Rightarrow> skip_reason option" where
  "unsendable_reason bytes is_image =
     (if MAX_FILE_BYTES < length bytes then Some TooLarge
      else if \<not> is_image \<and> from_utf8 bytes = None then Some NotText else None)"

section \<open>The scan\<close>

definition SKIPPED_DIRS :: "rstr list" where
  "SKIPPED_DIRS = map lit [''.git'', ''.thock/history'', ''.thock/cache'', ''.thock/sync'']"

text \<open>An entry of a listing: its path below the root and, when they can be read, its metadata.\<close>

datatype ScanMeta = MetaDir | MetaFile bool nat

record ScanResult =
  sr_changed :: "rstr list"
  sr_skipped :: "SkippedFile list"
  sr_seen :: "rstr list"
  sr_unlisted :: "rstr list"

definition scan_empty :: ScanResult where
  "scan_empty = \<lparr>sr_changed = [], sr_skipped = [], sr_seen = [], sr_unlisted = []\<rparr>"

definition scan_file :: "('d, 't) vault_env \<Rightarrow> (rstr \<times> FileRecord) list \<Rightarrow> rstr \<Rightarrow> rstr \<Rightarrow> bool \<Rightarrow> nat \<Rightarrow>
    ScanResult \<times> VaultDisk \<Rightarrow> ScanResult \<times> VaultDisk" where
  "scan_file X known images_dir rel is_symlink len acc =
     (let (r0, d) = acc; is_image = is_syncable_image_path (ve_is_nfc X) rel images_dir
      in if is_symlink \<or> \<not> is_image \<and> \<not> is_syncable_path (ve_is_nfc X) rel then (r0, d)
         else let r = r0\<lparr>sr_seen := rel # sr_seen r0\<rparr>
              in if MAX_FILE_BYTES < len then (r\<lparr>sr_skipped := sr_skipped r @ [\<lparr>sk_path = rel, sk_reason = TooLarge\<rparr>]\<rparr>, d)
                 else (case load_bytes rel d of
                         (None, d') \<Rightarrow> (r, d')
                       | (Some bytes, d') \<Rightarrow>
                           (case unsendable_reason bytes is_image of
                              Some why \<Rightarrow> (r\<lparr>sr_skipped := sr_skipped r @ [\<lparr>sk_path = rel, sk_reason = why\<rparr>]\<rparr>, d')
                            | None \<Rightarrow>
                                if is_some_and (bt_get known rel) (\<lambda>record. fr_hash record = plaintext_hash (ve_env X) bytes)
                                then (r, d') else (r\<lparr>sr_changed := rel # sr_changed r\<rparr>, d'))))"

fun scan_entries :: "('d, 't) vault_env \<Rightarrow> (rstr \<times> FileRecord) list \<Rightarrow> rstr \<Rightarrow> (rstr option \<times> ScanMeta option) list \<Rightarrow>
    rstr list \<times> ScanResult \<times> VaultDisk \<Rightarrow> rstr list \<times> ScanResult \<times> VaultDisk" where
  "scan_entries X known images_dir [] acc = acc"
| "scan_entries X known images_dir ((Some rel, Some MetaDir) # es) (dirs, acc) =
     scan_entries X known images_dir es (if rel \<in> set SKIPPED_DIRS then dirs else dirs @ [rel], acc)"
| "scan_entries X known images_dir ((Some rel, Some (MetaFile is_symlink len)) # es) (dirs, acc) =
     scan_entries X known images_dir es (dirs, scan_file X known images_dir rel is_symlink len acc)"
| "scan_entries X known images_dir (_ # es) acc = scan_entries X known images_dir es acc"

type_synonym listing = "rstr \<Rightarrow> (rstr option \<times> ScanMeta option) list option"

partial_function (option) scan_loop_dirs :: "('d, 't) vault_env \<Rightarrow> (rstr \<times> FileRecord) list \<Rightarrow> rstr \<Rightarrow> listing \<Rightarrow>
    rstr list \<Rightarrow> ScanResult \<Rightarrow> VaultDisk \<Rightarrow> (ScanResult \<times> VaultDisk) option" where
  "scan_loop_dirs X known images_dir read_dir dirs r d =
     (if dirs = [] then Some (r, d)
      else let dir = last dirs; rest = butlast dirs
           in case read_dir dir of
                None \<Rightarrow> scan_loop_dirs X known images_dir read_dir rest
                          (r\<lparr>sr_unlisted := (if dir = [] then [] else dir @ [47]) # sr_unlisted r\<rparr>) d
              | Some es \<Rightarrow>
                  (case scan_entries X known images_dir es (rest, r, d) of
                     (dirs', r', d') \<Rightarrow> scan_loop_dirs X known images_dir read_dir dirs' r' d'))"

declare scan_loop_dirs.simps [code]

definition scan_removed :: "(rstr \<times> FileRecord) list \<Rightarrow> ScanResult \<Rightarrow> rstr list" where
  "scan_removed known r =
     filter (\<lambda>path. path \<notin> set (sr_seen r) \<and> \<not> list_ex (\<lambda>p. starts_with p path) (sr_unlisted r)) (map fst known)"

definition scan_vault :: "('d, 't) vault_env \<Rightarrow> (rstr \<times> FileRecord) list \<Rightarrow> rstr \<Rightarrow> listing \<Rightarrow> VaultDisk \<Rightarrow>
    (rstr list \<times> rstr list \<times> SkippedFile list \<times> VaultDisk) option" where
  "scan_vault X known images_dir read_dir d =
     map_option (\<lambda>(r, d'). (sr_changed r, scan_removed known r, sr_skipped r, d'))
       (scan_loop_dirs X known images_dir read_dir [[]] scan_empty d)"

section \<open>The phone's queue\<close>

partial_function (option) fetch_loop :: "'s sync_net \<Rightarrow> SyncApi \<Rightarrow> nat \<Rightarrow> WriteRow list \<Rightarrow> 's \<Rightarrow>
    ((sync_failure + WriteRow list) \<times> 's) option" where
  "fetch_loop N api after rows s =
     (case writes_after N api after s of
        (Inl e, s') \<Rightarrow> Some (Inl e, s')
      | (Inr page, s') \<Rightarrow>
          if wp_writes page = [] then Some (Inr rows, s')
          else if \<not> wp_has_more page then Some (Inr (rows @ wp_writes page), s')
          else fetch_loop N api (rw_seq (last (wp_writes page))) (rows @ wp_writes page) s')"

declare fetch_loop.simps [code]

definition fetch_writes :: "'s sync_net \<Rightarrow> SyncApi \<Rightarrow> nat \<Rightarrow> 's \<Rightarrow> ((sync_failure + WriteRow list) \<times> 's) option" where
  "fetch_writes N api after s =
     map_option (\<lambda>(rows, s'). (case rows of Inl e \<Rightarrow> Inl e | Inr ws \<Rightarrow> Inr (sort_key rw_seq ws), s')) (fetch_loop N api after [] s)"

record Batch =
  ba_changed :: "rstr list"
  ba_vacated :: "rstr list"
  ba_applied :: nat
  ba_last :: "nat option"
  ba_refused :: "rstr list"
  ba_blocked :: "ApplyFailure option"

definition batch_empty :: Batch where
  "batch_empty = \<lparr>ba_changed = [], ba_vacated = [], ba_applied = 0, ba_last = None, ba_refused = [], ba_blocked = None\<rparr>"

definition note_row :: "nat \<Rightarrow> Batch \<Rightarrow> Batch" where
  "note_row sequence b = b\<lparr>ba_last := Some (case ba_last b of None \<Rightarrow> sequence | Some q \<Rightarrow> max q sequence)\<rparr>"

definition note_applied :: "AppliedWrite \<Rightarrow> Batch \<Rightarrow> Batch" where
  "note_applied result b =
     b\<lparr>ba_changed := (case aw_changed result of Some p \<Rightarrow> p # ba_changed b | None \<Rightarrow> ba_changed b),
       ba_applied := (if aw_changed result = None then ba_applied b else ba_applied b + 1),
       ba_vacated := (case aw_removed result of Some p \<Rightarrow> p # ba_vacated b | None \<Rightarrow> ba_vacated b)\<rparr>"

text \<open>The rows in order, up to the first that is blocked.\<close>

fun apply_rows :: "('d, 't) vault_env \<Rightarrow> VaultConfig \<Rightarrow> byte list \<Rightarrow> WriteRow list \<Rightarrow> Batch \<Rightarrow> VaultDisk \<Rightarrow> Batch \<times> VaultDisk" where
  "apply_rows X V key [] b d = (b, d)"
| "apply_rows X V key (row # rows) b d =
     (case apply_row X V key (rw_client_id row) (rw_path row) (rw_payload row) d of
        (Inr result, d') \<Rightarrow> apply_rows X V key rows (note_row (rw_seq row) (note_applied result b)) d'
      | (Inl AfRefused, d') \<Rightarrow>
          apply_rows X V key rows (note_row (rw_seq row) (b\<lparr>ba_refused := ba_refused b @ [rw_path row]\<rparr>)) d'
      | (Inl failure, d') \<Rightarrow> (b\<lparr>ba_blocked := Some failure\<rparr>, d'))"

declare apply_rows.simps(2) [simp del]

section \<open>Uploads and tombstones\<close>

record 's randomness =
  rn_blob_id :: "'s \<Rightarrow> rstr \<times> 's"
  rn_nonce :: "'s \<Rightarrow> byte list \<times> 's"

record Session =
  ss_api :: SyncApi
  ss_key :: "byte list"

text \<open>The attempts left; only the first may be tried again with the version the service names.\<close>

fun upload_attempts :: "('d, 't) vault_env \<Rightarrow> 's sync_net \<Rightarrow> 's randomness \<Rightarrow> Session \<Rightarrow> rstr \<Rightarrow> byte list \<Rightarrow> rstr \<Rightarrow>
    nat \<Rightarrow> bool \<Rightarrow> nat \<Rightarrow> 's \<Rightarrow> (sync_failure + FileRecord) \<times> 's" where
  "upload_attempts X N R S path bytes hash 0 first expected s = (Inl OtherFailure, s)"
| "upload_attempts X N R S path bytes hash (Suc left) first expected s =
     (let (blob_id, s1) = rn_blob_id R s;
          (nonce, s2) = rn_nonce R s1;
          envelope = seal_with_nonce (ve_aead X) (ss_key S) nonce (CFile path blob_id) bytes;
          again = (\<lambda>e s'. if first \<and> has_code ''stale_version'' e
             then upload_attempts X N R S path bytes hash left False
                    (case Option.bind (sync_error e) se_current_version of Some v \<Rightarrow> v | None \<Rightarrow> expected) s'
             else (Inl e, s'))
      in case begin_upload N (ss_api S) path expected blob_id (length envelope) (content_hash (ve_env X) envelope) s2 of
           (Inl e, s3) \<Rightarrow> again e s3
         | (Inr target, s3) \<Rightarrow>
             (case put_blob N target envelope s3 of
                (Inl e, s4) \<Rightarrow> (Inl e, s4)
              | (Inr _, s4) \<Rightarrow>
                  (case commit_upload N (ss_api S) path expected blob_id s4 of
                     (Inl e, s5) \<Rightarrow> again e s5
                   | (Inr version, s5) \<Rightarrow> (Inr \<lparr>fr_version = version, fr_blob_id = blob_id, fr_hash = hash\<rparr>, s5))))"

definition upload_file :: "('d, 't) vault_env \<Rightarrow> 's sync_net \<Rightarrow> 's randomness \<Rightarrow> Session \<Rightarrow> rstr \<Rightarrow> nat \<Rightarrow> byte list \<Rightarrow> rstr \<Rightarrow> 's \<Rightarrow>
    (sync_failure + FileRecord) \<times> 's" where
  "upload_file X N R S path expected bytes hash s = upload_attempts X N R S path bytes hash 2 True expected s"

record UploadState =
  us_state :: LocalState
  us_uploaded :: nat
  us_skipped :: "SkippedFile list"
  us_held_back :: "rstr list"
  us_used :: nat

definition upload_one :: "('d, 't) vault_env \<Rightarrow> VaultConfig \<Rightarrow> 's sync_net \<Rightarrow> 's randomness \<Rightarrow> Session \<Rightarrow> nat \<Rightarrow> rstr \<Rightarrow>
    UploadState \<Rightarrow> VaultDisk \<Rightarrow> 's \<Rightarrow> (sync_failure + UploadState) \<times> VaultDisk \<times> 's" where
  "upload_one X V N R S quota path u d s =
     (case load_bytes path d of
        (None, d') \<Rightarrow> (Inr u, d', s)
      | (Some bytes, d') \<Rightarrow>
          (case unsendable_reason bytes (is_syncable_image_path (ve_is_nfc X) path (vc_images_dir V)) of
             Some why \<Rightarrow> (Inr (u\<lparr>us_skipped := us_skipped u @ [\<lparr>sk_path = path, sk_reason = why\<rparr>]\<rparr>), d', s)
           | None \<Rightarrow>
               let hash = plaintext_hash (ve_env X) bytes; known = bt_get (lst_files (us_state u)) path
               in if is_some_and known (\<lambda>record. fr_hash record = hash) then (Inr u, d', s)
                  else if known = None \<and> 0 < quota \<and> starts_with (lit ''reference/'') path \<and> quota < us_used u + (length bytes + 32)
                  then (Inr (u\<lparr>us_held_back := us_held_back u @ [path]\<rparr>), d', s)
                  else (case upload_file X N R S path (case known of Some record \<Rightarrow> fr_version record | None \<Rightarrow> 0) bytes hash s of
                          (Inl e, s') \<Rightarrow> (Inl e, d', s')
                        | (Inr record, s') \<Rightarrow>
                            let st = us_state u
                            in (Inr (u\<lparr>us_used := us_used u + length bytes + 32, us_uploaded := us_uploaded u + 1,
                                   us_state := st\<lparr>lst_cursor := max (lst_cursor st) (fr_version record),
                                                  lst_files := bt_insert path record (lst_files st)\<rparr>\<rparr>), d', s'))))"

fun upload_paths :: "('d, 't) vault_env \<Rightarrow> VaultConfig \<Rightarrow> 's sync_net \<Rightarrow> 's randomness \<Rightarrow> Session \<Rightarrow> nat \<Rightarrow> rstr list \<Rightarrow>
    UploadState \<Rightarrow> VaultDisk \<Rightarrow> 's \<Rightarrow> (sync_failure + UploadState) \<times> VaultDisk \<times> 's" where
  "upload_paths X V N R S quota [] u d s = (Inr u, d, s)"
| "upload_paths X V N R S quota (path # paths) u d s =
     (case upload_one X V N R S quota path u d s of
        (Inl e, d', s') \<Rightarrow> (Inl e, d', s')
      | (Inr u', d', s') \<Rightarrow> upload_paths X V N R S quota paths u' d' s')"

definition tombstone_path :: "'s sync_net \<Rightarrow> SyncApi \<Rightarrow> rstr \<Rightarrow> FileRecord \<Rightarrow> 's \<Rightarrow> (sync_failure + nat) \<times> 's" where
  "tombstone_path N api path record s =
     (let (attempt, s2) =
        (case tombstone N api path (fr_version record) s of
           (Inl e, s1) \<Rightarrow>
             if has_code ''stale_version'' e
             then tombstone N api path
                    (case Option.bind (sync_error e) se_current_version of Some v \<Rightarrow> v | None \<Rightarrow> fr_version record) s1
             else (Inl e, s1)
         | answered \<Rightarrow> answered)
      in (case attempt of
            Inl e \<Rightarrow> if has_code ''not_found'' e then Inr (fr_version record) else Inl e
          | Inr version \<Rightarrow> Inr version, s2))"

fun remove_paths :: "'s sync_net \<Rightarrow> SyncApi \<Rightarrow> rstr list \<Rightarrow> LocalState \<Rightarrow> 's \<Rightarrow> (sync_failure + LocalState) \<times> 's" where
  "remove_paths N api [] st s = (Inr st, s)"
| "remove_paths N api (path # paths) st s =
     (case bt_get (lst_files st) path of
        None \<Rightarrow> remove_paths N api paths st s
      | Some record \<Rightarrow>
          (case tombstone_path N api path record s of
             (Inl e, s') \<Rightarrow> (Inl e, s')
           | (Inr version, s') \<Rightarrow>
               remove_paths N api paths
                 (st\<lparr>lst_cursor := max (lst_cursor st) version, lst_files := bt_remove path (lst_files st)\<rparr>) s'))"

section \<open>One pass\<close>

record JobOutcome =
  jo_state :: LocalState
  jo_info :: "VaultInfo option"
  jo_applied :: nat
  jo_uploaded :: nat
  jo_skipped :: "SkippedFile list"
  jo_held_back :: "rstr list"
  jo_refused :: "rstr list"
  jo_blocked :: "ApplyFailure option"

text \<open>The uploads, then the tombstones.\<close>

definition send_changes :: "('d, 't) vault_env \<Rightarrow> VaultConfig \<Rightarrow> 's sync_net \<Rightarrow> 's randomness \<Rightarrow> Session \<Rightarrow> VaultInfo option \<Rightarrow>
    rstr list \<Rightarrow> rstr list \<Rightarrow> LocalState \<Rightarrow> SkippedFile list \<Rightarrow> VaultDisk \<Rightarrow> 's \<Rightarrow> (sync_failure + UploadState) \<times> VaultDisk \<times> 's" where
  "send_changes X V N R S info dirty removed st skipped d s =
     (let (quota, used) = (case info of Some i \<Rightarrow> (vi_quota_bytes i, vi_used_bytes i) | None \<Rightarrow> (0, 0));
          u0 = \<lparr>us_state = st, us_uploaded = 0, us_skipped = skipped, us_held_back = [], us_used = used\<rparr>
      in case upload_paths X V N R S quota (in_order dirty) u0 d s of
           (Inl e, d1, s1) \<Rightarrow> (Inl e, d1, s1)
         | (Inr u, d1, s1) \<Rightarrow>
             (case remove_paths N (ss_api S) (in_order removed) (us_state u) s1 of
                (Inl e, s2) \<Rightarrow> (Inl e, d1, s2)
              | (Inr st', s2) \<Rightarrow> (Inr (u\<lparr>us_state := st'\<rparr>), d1, s2)))"

text \<open>The acknowledgement and the vault's figures.\<close>

definition finish_pass :: "'s sync_net \<Rightarrow> SyncApi \<Rightarrow> nat option \<Rightarrow> LocalState \<Rightarrow> 's \<Rightarrow> (sync_failure + LocalState \<times> VaultInfo) \<times> 's" where
  "finish_pass N api last_seq st s =
     (let (acked, s1) =
        (case last_seq of
           None \<Rightarrow> (Inr st, s)
         | Some q \<Rightarrow>
             (case ack_writes N api q s of
                (Inl e, s') \<Rightarrow> (Inl e, s')
              | (Inr a, s') \<Rightarrow>
                  (Inr (st\<lparr>lst_acked_through_seq := ak_through_seq a, lst_cursor := max (lst_cursor st) (ak_at_version a)\<rparr>), s')))
      in case acked of
           Inl e \<Rightarrow> (Inl e, s1)
         | Inr st' \<Rightarrow>
             (case get_vault N api s1 of
                (Inl e, s2) \<Rightarrow> (Inl e, s2)
              | (Inr info, s2) \<Rightarrow> (Inr (st', info), s2)))"

text \<open>\<open>LocalState::default\<close>, and the record read back at the start; \<open>from_json\<close> is serde's reader.\<close>

definition local_default :: LocalState where
  "local_default = \<lparr>lst_schema = 0, lst_cursor = 0, lst_acked_through_seq = 0, lst_files = []\<rparr>"

definition load_state :: "(rstr \<Rightarrow> LocalState option) \<Rightarrow> VaultDisk \<Rightarrow> LocalState \<times> VaultDisk" where
  "load_state from_json d =
     (let (bytes, d') = load_bytes STATE_FILE d
      in (case Option.bind (Option.bind bytes from_utf8) from_json of Some st \<Rightarrow> st | None \<Rightarrow> local_default, d'))"

definition save_state :: "(LocalState \<Rightarrow> rstr) \<Rightarrow> LocalState \<Rightarrow> VaultDisk \<Rightarrow> bool \<times> VaultDisk" where
  "save_state to_json st d = write_bytes STATE_FILE (utf8 (to_json st)) d"

text \<open>From the paths to send to the end of the pass.\<close>

definition complete_pass :: "('d, 't) vault_env \<Rightarrow> VaultConfig \<Rightarrow> 's sync_net \<Rightarrow> 's randomness \<Rightarrow> Session \<Rightarrow> (LocalState \<Rightarrow> rstr) \<Rightarrow>
    VaultInfo option \<Rightarrow> LocalState \<Rightarrow> rstr list \<Rightarrow> rstr list \<Rightarrow> SkippedFile list \<Rightarrow> Batch \<Rightarrow> VaultDisk \<Rightarrow> 's \<Rightarrow>
    (sync_failure + JobOutcome) \<times> VaultDisk \<times> 's" where
  "complete_pass X V N R S to_json info st dirty removed skipped b d s =
     (case send_changes X V N R S info (dirty @ ba_changed b) (removed @ ba_vacated b) st skipped d s of
        (Inl e, d1, s1) \<Rightarrow> (Inl e, d1, s1)
      | (Inr u, d1, s1) \<Rightarrow>
          (case finish_pass N (ss_api S) (ba_last b) (us_state u) s1 of
             (Inl e, s2) \<Rightarrow> (Inl e, d1, s2)
           | (Inr (st', info'), s2) \<Rightarrow>
               let (saved, d2) = (if st' = st then (True, d1) else save_state to_json st' d1)
               in (if saved
                   then Inr \<lparr>jo_state = st', jo_info = Some info', jo_applied = ba_applied b, jo_uploaded = us_uploaded u,
                             jo_skipped = us_skipped u, jo_held_back = us_held_back u, jo_refused = ba_refused b,
                             jo_blocked = ba_blocked b\<rparr>
                   else Inl OtherFailure, d2, s2)))"

definition run_job :: "('d, 't) vault_env \<Rightarrow> VaultConfig \<Rightarrow> 's sync_net \<Rightarrow> 's randomness \<Rightarrow> Session \<Rightarrow> (LocalState \<Rightarrow> rstr) \<Rightarrow>
    listing \<Rightarrow> Job \<Rightarrow> VaultInfo option \<Rightarrow> LocalState \<Rightarrow> VaultDisk \<Rightarrow> 's \<Rightarrow> ((sync_failure + JobOutcome) \<times> VaultDisk \<times> 's) option" where
  "run_job X V N R S to_json read_dir job info st d s =
     Option.bind (if jb_catch_up job then scan_vault X (lst_files st) (vc_images_dir V) read_dir d else Some ([], [], [], d))
       (\<lambda>(changed, gone, skipped, d1).
       Option.bind (if jb_drain job then fetch_writes N (ss_api S) (lst_acked_through_seq st) s else Some (Inr [], s))
         (\<lambda>(fetched, s1).
         case fetched of
           Inl e \<Rightarrow> Some (Inl e, d1, s1)
         | Inr rows \<Rightarrow>
             (let (b, d2) = apply_rows X V (ss_key S) rows batch_empty d1
              in Some (complete_pass X V N R S to_json info st (jb_dirty job @ changed) (jb_removed job @ gone) skipped b d2 s1))))"

end
