(* ===== verification/Vault_Service.thy ===== *)
theory Vault_Service
  imports Vault_Sync
begin

text \<open>
  The service around the worker (\<open>VaultSyncService\<close> of \<open>crates/thock/src/vault_sync.rs\<close>) as transitions of a
  record: what a file event, a poll, the user and the end of a pass do to the session, the status and the
  pending work.  Timers, announcements and the entity system are left out; a status keeps its constructor.
\<close>

section \<open>The service\<close>

datatype PhoneSyncState = Hidden | Off | Starting | PhoneNotConnected | Working | UpToDate | Paused | Failing

record Service =
  sv_root :: "rstr option"
  sv_session :: "Session option"
  sv_state :: LocalState
  sv_info :: "VaultInfo option"
  sv_pending :: Job
  sv_status :: PhoneSyncState
  sv_skipped :: "SkippedFile list"
  sv_held_back :: "rstr list"
  sv_retry_delay :: nat

definition RETRY_FLOOR :: nat where "RETRY_FLOOR = 5"
definition RETRY_CEILING :: nat where "RETRY_CEILING = 600"

definition next_delay :: "nat \<Rightarrow> nat" where
  "next_delay delay = min (delay * 2) RETRY_CEILING"

definition service_new :: Service where
  "service_new =
     \<lparr>sv_root = None, sv_session = None, sv_state = local_default, sv_info = None, sv_pending = job_default,
      sv_status = Hidden, sv_skipped = [], sv_held_back = [], sv_retry_delay = RETRY_FLOOR\<rparr>"

definition sv_active :: "Service \<Rightarrow> bool" where
  "sv_active v \<longleftrightarrow> sv_session v \<noteq> None"

definition stop_session :: "PhoneSyncState \<Rightarrow> Service \<Rightarrow> Service" where
  "stop_session status v = v\<lparr>sv_session := None, sv_pending := job_default, sv_status := status\<rparr>"

definition start_session :: "Session \<Rightarrow> Service \<Rightarrow> Service" where
  "start_session session v =
     v\<lparr>sv_session := Some session, sv_status := Working, sv_retry_delay := RETRY_FLOOR,
       sv_pending := (sv_pending v)\<lparr>jb_catch_up := True, jb_drain := True\<rparr>\<rparr>"

text \<open>The end of \<open>start\<close>: the local record and what the keychain held, where \<open>Inl\<close> is a failure to read it.\<close>

definition started :: "LocalState \<Rightarrow> SyncApi option \<Rightarrow> unit + byte list option \<Rightarrow> Service \<Rightarrow> Service" where
  "started st api key v =
     (case api of
        None \<Rightarrow> v\<lparr>sv_state := st, sv_status := Hidden\<rparr>
      | Some a \<Rightarrow>
          (case key of
             Inr (Some k) \<Rightarrow> start_session \<lparr>ss_api = a, ss_key = k\<rparr> (v\<lparr>sv_state := st\<rparr>)
           | Inr None \<Rightarrow> v\<lparr>sv_state := st, sv_status := Off\<rparr>
           | Inl _ \<Rightarrow> v\<lparr>sv_state := st, sv_status := Failing\<rparr>))"

text \<open>\<open>reload\<close> with the vault that was detected; the flag says whether the keychain is to be read.\<close>

definition reload :: "rstr option \<Rightarrow> Service \<Rightarrow> bool \<times> Service" where
  "reload root v =
     (case root of
        None \<Rightarrow> (False, stop_session Hidden (v\<lparr>sv_root := None\<rparr>))
      | Some r \<Rightarrow>
          let v' = v\<lparr>sv_root := Some r\<rparr>
          in if sv_root v \<noteq> Some r \<or> sv_session v = None then (True, stop_session Starting v') else (False, v'))"

text \<open>One change of the worktree; the flag says whether the file was removed.\<close>

definition path_event :: "(rstr \<Rightarrow> bool) \<Rightarrow> rstr \<Rightarrow> bool \<Rightarrow> Service \<Rightarrow> Service" where
  "path_event is_nfc path gone v =
     (if \<not> sv_active v \<or> \<not> is_syncable_path is_nfc path then v
      else let job = sv_pending v
           in v\<lparr>sv_pending :=
                (if gone then job\<lparr>jb_dirty := removeAll path (jb_dirty job), jb_removed := path # jb_removed job\<rparr>
                 else job\<lparr>jb_removed := removeAll path (jb_removed job), jb_dirty := path # jb_dirty job\<rparr>)\<rparr>)"

definition poll_tick :: "Service \<Rightarrow> Service" where
  "poll_tick v = (if sv_active v then v\<lparr>sv_pending := (sv_pending v)\<lparr>jb_drain := True\<rparr>\<rparr> else v)"

definition sync_now :: "Service \<Rightarrow> Service" where
  "sync_now v = (if sv_active v then v\<lparr>sv_pending := (sv_pending v)\<lparr>jb_catch_up := True, jb_drain := True\<rparr>\<rparr> else v)"

text \<open>What the worker takes up, if anything.\<close>

definition take_job :: "Service \<Rightarrow> (Job \<times> Service) option" where
  "take_job v =
     (if job_is_empty (sv_pending v) \<or> \<not> sv_active v then None
      else Some (sv_pending v,
             v\<lparr>sv_pending := job_default, sv_status := (if job_is_poll (sv_pending v) then sv_status v else Working)\<rparr>))"

definition finish_ok :: "JobOutcome \<Rightarrow> Service \<Rightarrow> nat option \<times> Service" where
  "finish_ok outcome v0 =
     (let info = (case jo_info outcome of Some i \<Rightarrow> Some i | None \<Rightarrow> sv_info v0);
          v = v0\<lparr>sv_state := jo_state outcome, sv_info := info, sv_skipped := jo_skipped outcome,
                 sv_held_back := jo_held_back outcome,
                 sv_retry_delay := (if jo_blocked outcome = None then RETRY_FLOOR else sv_retry_delay v0),
                 sv_status := (case info of
                    Some i \<Rightarrow> if is_lapsed i then Paused else if info_phone i = None then PhoneNotConnected else UpToDate
                  | None \<Rightarrow> UpToDate)\<rparr>
      in if jo_blocked outcome = None then (None, v)
         else (Some (sv_retry_delay v),
               v\<lparr>sv_pending := (sv_pending v)\<lparr>jb_drain := True\<rparr>, sv_status := Failing,
                 sv_retry_delay := next_delay (sv_retry_delay v)\<rparr>))"

definition put_back :: "Job \<Rightarrow> Job \<Rightarrow> Job" where
  "put_back job pending =
     \<lparr>jb_catch_up = (jb_catch_up pending \<or> jb_catch_up job), jb_drain = (jb_drain pending \<or> jb_drain job),
      jb_dirty = jb_dirty pending @ jb_dirty job, jb_removed = jb_removed pending @ jb_removed job\<rparr>"

definition finish_failed :: "Job \<Rightarrow> sync_failure \<Rightarrow> Service \<Rightarrow> nat option \<times> Service" where
  "finish_failed job error v0 =
     (let v = v0\<lparr>sv_pending := put_back job (sv_pending v0), sv_retry_delay := next_delay (sv_retry_delay v0)\<rparr>
      in if has_code ''plus_lapsed'' error then (None, v\<lparr>sv_status := Paused, sv_pending := job_default\<rparr>)
         else if has_code ''unauthorized'' error \<or> has_code ''revoked'' error then (None, stop_session Failing v)
         else if has_code ''vault_missing'' error then (None, stop_session Off v)
         else (Some (sv_retry_delay v0), v\<lparr>sv_status := Failing\<rparr>))"

definition finish_job :: "Job \<Rightarrow> sync_failure + JobOutcome \<Rightarrow> Service \<Rightarrow> nat option \<times> Service" where
  "finish_job job outcome v =
     (case outcome of Inr ok \<Rightarrow> finish_ok ok v | Inl error \<Rightarrow> finish_failed job error v)"

section \<open>Pairing\<close>

text \<open>\<open>begin_pairing\<close>: the requests, for the key at hand, and what they do to the service.\<close>

definition request_pairing :: "'s sync_net \<Rightarrow> SyncApi \<Rightarrow> rstr \<Rightarrow> rstr \<Rightarrow> 's \<Rightarrow> (sync_failure + PairingCode) \<times> 's" where
  "request_pairing N api device_name check s =
     (let (ensured, s') =
        (case ensure_vault N api device_name check s of
           (Inr _, s1) \<Rightarrow> (Inr (), s1)
         | (Inl e, s1) \<Rightarrow>
             if has_code ''key_mismatch'' e
             then (case reset_vault N api check s1 of (Inl e', s2) \<Rightarrow> (Inl e', s2) | (Inr _, s2) \<Rightarrow> (Inr (), s2))
             else (Inl e, s1))
      in case ensured of Inl e \<Rightarrow> (Inl e, s') | Inr _ \<Rightarrow> create_pairing N api s')"

definition pairing_started :: "Session \<Rightarrow> Service \<Rightarrow> Service" where
  "pairing_started session v =
     (if sv_session v = None then start_session session v
      else v\<lparr>sv_pending := (sv_pending v)\<lparr>jb_catch_up := True\<rparr>\<rparr>)"

definition begin_pairing :: "env \<Rightarrow> 's sync_net \<Rightarrow> rstr \<Rightarrow> Session \<Rightarrow> Service \<Rightarrow> 's \<Rightarrow>
    (sync_failure + PairingCode) \<times> Service \<times> 's" where
  "begin_pairing E N device_name session v s =
     (let used = (case sv_session v of Some current \<Rightarrow> current | None \<Rightarrow> session)
      in case request_pairing N (ss_api used) device_name (key_check E (ss_key used)) s of
           (Inl e, s') \<Rightarrow> (Inl e, v, s')
         | (Inr code, s') \<Rightarrow> (Inr code, pairing_started used v, s'))"

definition pairing_url :: "(byte list \<Rightarrow> rstr) \<Rightarrow> rstr \<Rightarrow> byte list \<Rightarrow> rstr \<Rightarrow> rstr" where
  "pairing_url to_base64url code key backend_url =
     lit ''thock://pair?v=1&code='' @ encode_segment code @ lit ''&key='' @ to_base64url key @
     lit ''&backend='' @ encode_segment backend_url"

text \<open>The summary the modal polls, as it arrives.\<close>

definition sv_phone :: "Service \<Rightarrow> DeviceInfo option" where
  "sv_phone v = Option.bind (sv_info v) info_phone"

definition info_refreshed :: "VaultInfo \<Rightarrow> Service \<Rightarrow> Service" where
  "info_refreshed info v0 =
     (let v = v0\<lparr>sv_info := Some info\<rparr>
      in if is_lapsed info then v\<lparr>sv_status := Paused\<rparr>
         else if sv_phone v0 = None \<and> sv_phone v \<noteq> None
         then v\<lparr>sv_status := Working, sv_pending := (sv_pending v)\<lparr>jb_catch_up := True, jb_drain := True\<rparr>\<rparr>
         else if sv_status v = PhoneNotConnected \<and> sv_phone v \<noteq> None then v\<lparr>sv_status := UpToDate\<rparr> else v)"

definition disconnect_phone :: "'s sync_net \<Rightarrow> Service \<Rightarrow> 's \<Rightarrow> Service \<times> 's" where
  "disconnect_phone N v s =
     (case (sv_session v, sv_phone v) of
        (Some session, Some phone) \<Rightarrow>
          (case revoke_device N (ss_api session) (dev_device_id phone) s of
             (Inl _, s') \<Rightarrow> (v, s')
           | (Inr _, s') \<Rightarrow>
               (v\<lparr>sv_info := map_option (\<lambda>info. info\<lparr>vi_devices :=
                    filter (\<lambda>device. dev_role device \<noteq> lit ''phone'') (vi_devices info)\<rparr>) (sv_info v),
                  sv_status := PhoneNotConnected\<rparr>, s'))
      | _ \<Rightarrow> (v, s))"

text \<open>\<open>turn_off\<close>: at once, and then at the service and on disk; the keychain either forgets the key or fails.\<close>

definition turned_off :: "Service \<Rightarrow> Service" where
  "turned_off v = (stop_session Off v)\<lparr>sv_info := None, sv_state := local_default\<rparr>"

definition forget_copy :: "'s sync_net \<Rightarrow> Session \<Rightarrow> bool \<Rightarrow> VaultDisk \<Rightarrow> 's \<Rightarrow> bool \<times> VaultDisk \<times> 's" where
  "forget_copy N session key_deleted d s =
     (case delete_vault N (ss_api session) s of
        (Inl _, s') \<Rightarrow> (False, d, s')
      | (Inr _, s') \<Rightarrow>
          if \<not> key_deleted then (False, d, s')
          else if is_file STATE_FILE d
          then (let (ok, d') = disk_op d
                in (ok, if ok then d'\<lparr>vd_files := (vd_files d')(STATE_FILE := None)\<rparr> else d', s'))
          else (True, d, s'))"

end
