(* ===== verification/Vault_Sync_Props.thy ===== *)
theory Vault_Sync_Props
  imports Vault_Service Reminder_Props Samples Decimal
begin

text \<open>
  The theorems on a pass of the synchronisation client: a write of the phone lands as the application
  rules say, the queue is read to its end, an acknowledgement covers handled rows alone; and two
  passes that go wrong, a note that came back and is deleted, and a picture that is never sent.
\<close>

text \<open>A path that syncs, as a note or as a picture.\<close>

definition syncs :: "('d, 't) vault_env \<Rightarrow> rstr \<Rightarrow> rstr \<Rightarrow> bool" where
  "syncs X images_dir path \<longleftrightarrow> is_syncable_image_path (ve_is_nfc X) path images_dir \<or> is_syncable_path (ve_is_nfc X) path"

section \<open>Taking in the queue\<close>

text \<open>A row as it is applied, and the disk after a run of rows.\<close>

definition row_result :: "('d, 't) vault_env \<Rightarrow> VaultConfig \<Rightarrow> byte list \<Rightarrow> WriteRow \<Rightarrow> VaultDisk \<Rightarrow>
    (ApplyFailure + AppliedWrite) \<times> VaultDisk" where
  "row_result X V key row d = apply_row X V key (rw_client_id row) (rw_path row) (rw_payload row) d"

definition rows_disk :: "('d, 't) vault_env \<Rightarrow> VaultConfig \<Rightarrow> byte list \<Rightarrow> WriteRow list \<Rightarrow> VaultDisk \<Rightarrow> VaultDisk" where
  "rows_disk X V key rows d = fold (\<lambda>row d. snd (row_result X V key row d)) rows d"

fun row_blocks :: "ApplyFailure + AppliedWrite \<Rightarrow> bool" where
  "row_blocks (Inl failure) = (failure \<noteq> AfRefused)"
| "row_blocks (Inr _) = False"

text \<open>The rows up to the first that blocks.\<close>

fun handled_rows :: "('d, 't) vault_env \<Rightarrow> VaultConfig \<Rightarrow> byte list \<Rightarrow> WriteRow list \<Rightarrow> VaultDisk \<Rightarrow> WriteRow list" where
  "handled_rows X V key [] d = []"
| "handled_rows X V key (row # rows) d =
     (if row_blocks (fst (row_result X V key row d)) then []
      else row # handled_rows X V key rows (snd (row_result X V key row d)))"

lemma handled_prefix: "rows = handled_rows X V key rows d @ drop (length (handled_rows X V key rows d)) rows"
  by (induction X V key rows d rule: handled_rows.induct) simp_all

lemma handled_not_blocked:
  "handled_rows X V key rows d = done_before @ row # done_after \<Longrightarrow>
     \<not> row_blocks (fst (row_result X V key row (rows_disk X V key done_before d)))"
proof (induction X V key rows d arbitrary: done_before rule: handled_rows.induct)
  case (2 X V key r rows d)
  then show ?case by (cases done_before) (auto simp: rows_disk_def split: if_splits)
qed simp

lemma first_held_blocks:
  "drop (length (handled_rows X V key rows d)) rows = row # held \<Longrightarrow>
     row_blocks (fst (row_result X V key row (rows_disk X V key (handled_rows X V key rows d) d)))"
  by (induction X V key rows d rule: handled_rows.induct) (auto simp: rows_disk_def split: if_splits)

lemma apply_rows_step:
  "apply_rows X V key (row # rows) b d =
     (case row_result X V key row d of
        (Inr result, d') \<Rightarrow> apply_rows X V key rows (note_row (rw_seq row) (note_applied result b)) d'
      | (Inl failure, d') \<Rightarrow>
          if failure = AfRefused
          then apply_rows X V key rows (note_row (rw_seq row) (b\<lparr>ba_refused := ba_refused b @ [rw_path row]\<rparr>)) d'
          else (b\<lparr>ba_blocked := Some failure\<rparr>, d'))"
  by (auto simp: row_result_def apply_rows.simps(2) split: prod.split sum.split ApplyFailure.split)

lemma note_row_fields [simp]:
  "ba_last (note_row q b) = Some (case ba_last b of None \<Rightarrow> q | Some p \<Rightarrow> max p q)"
  "ba_blocked (note_row q b) = ba_blocked b" "ba_last (note_applied result b) = ba_last b"
  "ba_blocked (note_applied result b) = ba_blocked b"
  by (simp_all add: note_row_def note_applied_def)

lemma apply_rows_last:
  "apply_rows X V key rows b d = (b', d') \<Longrightarrow> sorted_wrt (<) (map rw_seq rows) \<Longrightarrow>
     \<forall>row \<in> set rows. \<forall>q. ba_last b = Some q \<longrightarrow> q < rw_seq row \<Longrightarrow>
     ba_last b' = (if handled_rows X V key rows d = [] then ba_last b
                   else Some (rw_seq (List.last (handled_rows X V key rows d))))"
proof (induction X V key rows d arbitrary: b rule: handled_rows.induct)
  case (2 X V key row rows d)
  show ?case
  proof (cases "row_blocks (fst (row_result X V key row d))")
    case True
    with 2(2) show ?thesis
      by (cases "fst (row_result X V key row d)") (auto simp: apply_rows_step split: prod.splits if_splits)
  next
    case False
    let ?d = "snd (row_result X V key row d)"
    from False 2(2) obtain b1 where run: "apply_rows X V key rows (note_row (rw_seq row) b1) ?d = (b', d')" and l: "ba_last b1 = ba_last b"
      by (cases "fst (row_result X V key row d)") (auto simp: apply_rows_step split: prod.splits if_splits)
    have q: "ba_last (note_row (rw_seq row) b1) = Some (rw_seq row)"
      using 2(4) l by (auto split: option.split)
    show ?thesis using 2(1) [OF False run] 2(3) q False by auto
  qed
qed simp

lemma apply_rows_blocked:
  "apply_rows X V key rows b d = (b', d') \<Longrightarrow> ba_blocked b = None \<Longrightarrow>
     ba_blocked b' =
       (case drop (length (handled_rows X V key rows d)) rows of
          [] \<Rightarrow> None
        | row # _ \<Rightarrow> (case fst (row_result X V key row (rows_disk X V key (handled_rows X V key rows d) d)) of
            Inl failure \<Rightarrow> Some failure | Inr _ \<Rightarrow> None))"
proof (induction X V key rows d arbitrary: b rule: handled_rows.induct)
  case (2 X V key row rows d)
  show ?case
  proof (cases "row_blocks (fst (row_result X V key row d))")
    case True
    with 2(2) show ?thesis
      by (cases "fst (row_result X V key row d)") (auto simp: apply_rows_step rows_disk_def split: prod.splits if_splits)
  next
    case False
    let ?d = "snd (row_result X V key row d)"
    from False 2(2,3) obtain b1 where "apply_rows X V key rows b1 ?d = (b', d')" and "ba_blocked b1 = None"
      by (cases "fst (row_result X V key row d)") (fastforce simp: apply_rows_step split: prod.splits if_splits)+
    note rest = 2(1) [OF False this]
    have h: "handled_rows X V key (row # rows) d = row # handled_rows X V key rows ?d" using False by simp
    have dd: "rows_disk X V key (row # handled_rows X V key rows ?d) d = rows_disk X V key (handled_rows X V key rows ?d) ?d"
      by (simp add: rows_disk_def)
    show ?thesis unfolding h dd using rest by simp
  qed
qed simp

section \<open>A write of the phone\<close>

text \<open>What opens is what the phone sealed.\<close>

lemma opened_sealed:
  assumes "aead_correct (ve_aead X)" and "length nonce = NONCE_LEN"
    and "encrypt (ve_aead X) key nonce (associated_data (CWrite client_id)) (utf8 json) = Some c"
    and "ve_base64 X (trim payload) = Some (seal_with_nonce (ve_aead X) key nonce (CWrite client_id) (utf8 json))"
    and "list_all scalar json"
  shows "open_write X key client_id path payload images_dir =
     (case parse_write (ve_serde X) json of
        Inl error \<Rightarrow> Inl (if needs_newer_reader error then AfUnsupported else AfRefused)
      | Inr w \<Rightarrow> if w_path w \<noteq> path \<or> w_client_id w \<noteq> client_id \<or> \<not> syncs X images_dir path then Inl AfRefused else Inr w)"
  using sealed_opens [OF assms(1-3)] assms(4,5) by (auto simp: open_write_def syncs_def split: sum.split)

lemma text_row:
  "open_write X key client_id path payload (vc_images_dir V) = Inr w \<Longrightarrow> \<not> is_file_level (w_operation w) \<Longrightarrow>
     apply_row X V key client_id path payload d = apply_text_write X V w d"
  by (cases "w_operation w") (simp_all add: apply_row_def)

lemma quiet_disk:
  assumes "vd_faults d = []"
  shows "load_bytes path d = (vd_files d path, d)"
    and "write_bytes path bytes d = (True, d\<lparr>vd_files := (vd_files d)(path \<mapsto> bytes)\<rparr>)"
  using assms by (simp_all add: load_bytes_def write_bytes_def disk_op_def)

definition landed_text :: "env \<Rightarrow> rstr \<Rightarrow> Write \<Rightarrow> rstr" where
  "landed_text E t w =
     (let applied = apply_write E (Some t) w None in if a_outcome applied = Noop then t else a_text applied)"

lemma text_write_lands:
  assumes "vd_faults d = []" and "vd_files d (w_path w) = Some (utf8 t)" and "list_all scalar t"
  shows "apply_text_write X V w d =
     (Inr \<lparr>aw_changed = (if landed_text (ve_env X) t w = t then None else Some (w_path w)), aw_removed = None\<rparr>,
      d\<lparr>vd_files := (vd_files d)(w_path w \<mapsto> utf8 (landed_text (ve_env X) t w))\<rparr>)"
proof -
  have "d = d\<lparr>vd_files := (vd_files d)(w_path w \<mapsto> utf8 t)\<rparr>" using assms(2) by (cases d) auto
  then show ?thesis
    using assms by (auto simp: apply_text_write_def apply_opened_write_def is_file_def quiet_disk landed_text_def Let_def)
qed

section \<open>Evaluated instances\<close>

definition picture_write :: Write where
  "picture_write = write_new (lit ''c2'') (lit ''images/a.png'') (PutFile (lit ''pic'') (lit ''010203''))"

definition milk_write :: Write where
  "milk_write = sample_write (Append (Some backlog) [lit ''- [ ] milk''] AtEnd False False None)"

text \<open>A desk whose payloads are their own texts, under the toy cipher.\<close>

definition desk_serde :: serde where
  "desk_serde =
     \<lparr>json_from_str = (\<lambda>j. if j = lit ''newer'' then Inr (Object [(lit ''v'', Number (PosInt 2))]) else Inr (String j)),
      write_from_value = (\<lambda>v. Inr (if v = String (lit ''picture'') then picture_write else milk_write))\<rparr>"

definition desk_base64 :: "rstr \<Rightarrow> byte list option" where
  "desk_base64 t =
     (if t = lit ''pic'' then Some [1, 2, 3] else if t = lit ''broken'' then None
      else Some (seal_with_nonce toy_aead [1, 2] (replicate 12 7)
             (CWrite (if t = lit ''picture'' then lit ''c2'' else lit ''c1'')) (utf8 t)))"

definition desk_env :: "(int \<times> nat \<times> nat, nat \<times> nat \<times> nat \<times> nat) vault_env" where
  "desk_env =
     \<lparr>ve_env = ascii_env, ve_aead = toy_aead, ve_serde = desk_serde, ve_base64 = desk_base64,
      ve_is_nfc = (\<lambda>_. True), ve_chrono = sample_chrono, ve_now = (9, 0, 0, 0)\<rparr>"

definition desk_notes :: "string \<Rightarrow> NotesConfig" where
  "desk_notes dir = \<lparr>nc_dir = lit dir, nc_filename = lit ''YYYY-MM-DD'', nc_template = lit ''templates/daily.md''\<rparr>"

definition desk_vault :: VaultConfig where
  "desk_vault = \<lparr>vc_daily = desk_notes ''daily'', vc_weekly = desk_notes ''weekly'', vc_images_dir = lit ''images''\<rparr>"

definition desk_disk :: VaultDisk where
  "desk_disk = \<lparr>vd_files = [lit ''journal.md'' \<mapsto> utf8 sample_note, lit ''images/a.png'' \<mapsto> [1, 2, 3]], vd_faults = []\<rparr>"

definition desk_row :: "nat \<Rightarrow> string \<Rightarrow> string \<Rightarrow> string \<Rightarrow> WriteRow" where
  "desk_row n client path payload =
     \<lparr>rw_seq = n, rw_client_id = lit client, rw_path = lit path, rw_payload = lit payload\<rparr>"

lemma desk_opens:
  assumes "lit payload \<noteq> lit ''pic''" and "lit payload \<noteq> lit ''broken''" and "trim (lit payload) = lit payload"
    and "client_id = (if lit payload = lit ''picture'' then lit ''c2'' else lit ''c1'')"
  shows "open_write desk_env [1, 2] client_id path (lit payload) images_dir =
     (case parse_write desk_serde (lit payload) of
        Inl error \<Rightarrow> Inl (if needs_newer_reader error then AfUnsupported else AfRefused)
      | Inr w \<Rightarrow> if w_path w \<noteq> path \<or> w_client_id w \<noteq> client_id \<or> \<not> syncs desk_env images_dir path then Inl AfRefused
                 else Inr w)"
proof -
  have e: "encrypt toy_aead [1, 2] (replicate 12 7) ad m = Some (m @ toy_tag [1, 2] (replicate 12 7) ad)" for ad m
    by (simp add: toy_aead_def)
  show ?thesis
    using opened_sealed [of desk_env "replicate 12 7" "[1, 2]" client_id "lit payload" _ "lit payload" path images_dir]
      assms e toy_aead_correct scalar_lit
    by (simp add: desk_env_def desk_base64_def NONCE_LEN_def del: lit_simps)
qed

lemma milk_write_facts:
  "parse_write desk_serde (lit ''milk'') = Inr milk_write" "w_client_id milk_write = lit ''c1''"
  "w_path milk_write = lit ''journal.md''" "\<not> is_file_level (w_operation milk_write)"
  "trim (lit ''milk'') = lit ''milk''" "is_syncable_path (\<lambda>_. True) (lit ''journal.md'')"
  by code_simp+

lemma toy_encrypts:
  "encrypt toy_aead [1, 2] (replicate 12 7) ad m = Some (m @ toy_tag [1, 2] (replicate 12 7) ad)"
  by (simp add: toy_aead_def)

lemma desk_opens_milk:
  "desk_base64 (trim (lit ''milk'')) = Some (seal_with_nonce toy_aead [1, 2] (replicate 12 7) (CWrite (lit ''c1'')) (utf8 (lit ''milk'')))"
  unfolding milk_write_facts(5) by (simp add: desk_base64_def)

section \<open>The queue is read to its end\<close>

definition rows_after :: "nat \<Rightarrow> WriteRow list \<Rightarrow> WriteRow list" where
  "rows_after after Q = filter (\<lambda>row. after < rw_seq row) Q"

definition queue_page :: "WriteRow list \<Rightarrow> nat \<Rightarrow> nat \<Rightarrow> WritesPage" where
  "queue_page Q lim after = \<lparr>wp_writes = take lim (rows_after after Q), wp_has_more = lim < length (rows_after after Q)\<rparr>"

text \<open>A service that holds the rows \<open>Q\<close> and answers with pages of \<open>lim\<close>.\<close>

definition serves_queue :: "'s sync_net \<Rightarrow> SyncApi \<Rightarrow> WriteRow list \<Rightarrow> nat \<Rightarrow> bool" where
  "serves_queue N api Q lim \<longleftrightarrow> (\<forall>after s. fst (writes_after N api after s) = Inr (queue_page Q lim after))"

lemma filter_after_last:
  assumes "sorted_wrt (\<lambda>x y. f x < (f y :: nat)) (xs @ ys)" and "xs \<noteq> []"
  shows "filter (\<lambda>x. f (List.last xs) < f x) (xs @ ys) = ys"
proof -
  obtain zs z where xs: "xs = zs @ [z]" using assms(2) by (cases xs rule: rev_cases) auto
  with assms(1) have "\<forall>x \<in> set zs. \<not> f z < f x" and "\<forall>y \<in> set ys. f z < f y"
    by (auto simp: sorted_wrt_append)
  then have "filter (\<lambda>x. f z < f x) zs = []" and "filter (\<lambda>x. f z < f x) ys = ys"
    by (simp_all add: filter_empty_conv filter_id_conv)
  with xs show ?thesis by simp
qed

lemma rows_after_sorted:
  "sorted_wrt (<) (map rw_seq Q) \<Longrightarrow> sorted_wrt (\<lambda>x y. rw_seq x < rw_seq y) (rows_after after Q)"
  by (simp add: rows_after_def sorted_wrt_map sorted_wrt_filter)

lemma rows_after_page:
  assumes "sorted_wrt (<) (map rw_seq Q)" and "take lim (rows_after after Q) \<noteq> []"
  shows "rows_after (rw_seq (List.last (take lim (rows_after after Q)))) Q = drop lim (rows_after after Q)"
proof -
  let ?xs = "rows_after after Q"
  let ?q = "rw_seq (List.last (take lim ?xs))"
  have "List.last (take lim ?xs) \<in> set ?xs" by (rule in_set_takeD [OF last_in_set [OF assms(2)]])
  then have "after < ?q" by (simp add: rows_after_def)
  then have "rows_after ?q Q = filter (\<lambda>row. ?q < rw_seq row) ?xs"
    by (auto simp: rows_after_def intro!: filter_cong)
  moreover have "filter (\<lambda>row. ?q < rw_seq row) (take lim ?xs @ drop lim ?xs) = drop lim ?xs"
    using rows_after_sorted [OF assms(1)] assms(2) by (intro filter_after_last) simp_all
  ultimately show ?thesis by simp
qed

lemma fetch_loop_reads:
  assumes "serves_queue N api Q lim" and "sorted_wrt (<) (map rw_seq Q)" and "0 < lim"
  shows "\<exists>s'. fetch_loop N api after rows s = Some (Inr (rows @ rows_after after Q), s')"
proof (induction "length (rows_after after Q)" arbitrary: after rows s rule: less_induct)
  case less
  let ?xs = "rows_after after Q"
  obtain s1 where a: "writes_after N api after s = (Inr (queue_page Q lim after), s1)"
    using assms(1) by (metis prod.collapse serves_queue_def)
  consider "?xs = []" | "?xs \<noteq> []" "length ?xs \<le> lim" | "lim < length ?xs" by linarith
  then show ?case
  proof cases
    case 3
    then have page: "take lim ?xs \<noteq> []" using assms(3) by auto
    let ?q = "rw_seq (List.last (take lim ?xs))"
    have r: "rows_after ?q Q = drop lim ?xs" by (rule rows_after_page [OF assms(2) page])
    have "fetch_loop N api after rows s = fetch_loop N api ?q (rows @ take lim ?xs) s1"
      using a 3 page by (subst fetch_loop.simps) (simp add: queue_page_def)
    moreover have "length (rows_after ?q Q) < length ?xs" using r 3 assms(3) by simp
    ultimately show ?thesis using less [of ?q "rows @ take lim ?xs" s1] r by simp
  qed (use a assms(3) in \<open>subst fetch_loop.simps, auto simp: queue_page_def\<close>)+
qed

section \<open>Picture and note\<close>

lemma remove_paths_forgets:
  "remove_paths N api paths st s = (Inr st', s') \<Longrightarrow>
     path \<in> set paths \<or> bt_get (lst_files st) path = None \<Longrightarrow> bt_get (lst_files st') path = None"
proof (induction paths arbitrary: st s)
  case (Cons p paths)
  then show ?case
    by (cases "bt_get (lst_files st) p") (auto simp: bt_get_remove split: prod.splits sum.splits if_splits)
qed simp

lemma finish_pass_files: "finish_pass N api q st s = (Inr (st', info), s') \<Longrightarrow> lst_files st' = lst_files st"
  by (auto simp: finish_pass_def split: option.splits prod.splits sum.splits)

lemma finish_pass_acks:
  "finish_pass N api (Some q) st s = (Inr (st', info), s') \<Longrightarrow>
     \<exists>a s2. ack_writes N api q s = (Inr a, s2) \<and> lst_acked_through_seq st' = ak_through_seq a"
  by (auto simp: finish_pass_def split: prod.splits sum.splits)

lemma complete_pass_forgets:
  assumes "complete_pass X V N R S to_json info st dirty removed skipped b d s = (Inr outcome, d', s')"
    and "path \<in> set removed"
  shows "bt_get (lst_files (jo_state outcome)) path = None"
  using assms remove_paths_forgets [where path = path] finish_pass_files
  by (fastforce simp: complete_pass_def send_changes_def in_order_def Let_def split: prod.splits sum.splits if_splits)

lemma run_jobE:
  assumes "run_job X V N R S to_json read_dir job info st d s = Some (Inr outcome, d', s')"
  obtains changed gone skipped d1 rows s1 b d2
  where "(if jb_catch_up job then scan_vault X (lst_files st) (vc_images_dir V) read_dir d else Some ([], [], [], d)) =
      Some (changed, gone, skipped, d1)"
    and "(if jb_drain job then fetch_writes N (ss_api S) (lst_acked_through_seq st) s else Some (Inr [], s)) =
      Some (Inr rows, s1)"
    and "apply_rows X V (ss_key S) rows batch_empty d1 = (b, d2)"
    and "complete_pass X V N R S to_json info st (jb_dirty job @ changed) (jb_removed job @ gone) skipped b d2 s1 =
      (Inr outcome, d', s')"
proof -
  let ?scan = "if jb_catch_up job then scan_vault X (lst_files st) (vc_images_dir V) read_dir d else Some ([], [], [], d)"
  let ?fetch = "if jb_drain job then fetch_writes N (ss_api S) (lst_acked_through_seq st) s else Some (Inr [], s)"
  obtain changed gone skipped d1 where scan: "?scan = Some (changed, gone, skipped, d1)"
    using assms unfolding run_job_def by (cases ?scan) (simp, force)
  obtain fetched s1 where fetch: "?fetch = Some (fetched, s1)"
    using assms unfolding run_job_def scan by (cases ?fetch) (simp, force)
  obtain rows where rows: "fetched = Inr rows"
    using assms unfolding run_job_def scan fetch by (cases fetched) simp_all
  obtain b d2 where batch: "apply_rows X V (ss_key S) rows batch_empty d1 = (b, d2)" by fastforce
  from assms have "complete_pass X V N R S to_json info st (jb_dirty job @ changed) (jb_removed job @ gone) skipped b d2 s1 =
      (Inr outcome, d', s')"
    unfolding run_job_def scan fetch by (simp add: rows batch)
  with scan fetch rows batch show thesis by (intro that) simp_all
qed

lemma run_job_forgets:
  assumes "run_job X V N R S to_json read_dir job info st d s = Some (Inr outcome, d', s')"
    and "path \<in> set (jb_removed job)"
  shows "bt_get (lst_files (jo_state outcome)) path = None"
  using assms(1)
proof (rule run_jobE)
  fix changed gone skipped d1 rows s1 b d2
  assume "complete_pass X V N R S to_json info st (jb_dirty job @ changed) (jb_removed job @ gone) skipped b d2 s1 =
      (Inr outcome, d', s')"
  from complete_pass_forgets [OF this] assms(2) show ?thesis by simp
qed

text \<open>A pass with nothing to send leaves the record of the files as it is.\<close>

lemma send_nothing:
  "send_changes X V N R S info [] [] st skipped d s = (Inr u, d', s') \<Longrightarrow>
     us_state u = st \<and> us_uploaded u = 0 \<and> s' = s"
  by (auto simp: send_changes_def in_order_def split: prod.splits)

lemma complete_pass_idle:
  assumes "complete_pass X V N R S to_json info st [] [] [] b d s = (Inr outcome, d', s')"
    and "ba_changed b = []" and "ba_vacated b = []" and "ba_last b = Some q"
  shows "lst_files (jo_state outcome) = lst_files st \<and> jo_uploaded outcome = 0 \<and>
     (\<exists>a s2. ack_writes N (ss_api S) q s = (Inr a, s2) \<and> lst_acked_through_seq (jo_state outcome) = ak_through_seq a)"
proof -
  obtain u d1 s1 st' info' s2 where sent: "send_changes X V N R S info [] [] st [] d s = (Inr u, d1, s1)"
    and f: "finish_pass N (ss_api S) (Some q) (us_state u) s1 = (Inr (st', info'), s2)"
    and o: "jo_state outcome = st'" "jo_uploaded outcome = us_uploaded u"
    using assms by (fastforce simp: complete_pass_def Let_def split: prod.splits sum.splits if_splits)
  from send_nothing [OF sent] have "us_state u = st" "us_uploaded u = 0" "s1 = s" by simp_all
  with finish_pass_files [OF f] finish_pass_acks [OF f] o show ?thesis by simp
qed

lemma picture_lands_once:
  assumes "open_write X key (rw_client_id row) (rw_path row) (rw_payload row) (vc_images_dir V) = Inr w"
    and "w_operation w = PutFile content hash" and "vd_faults d = []" and "is_file (w_path w) d"
    and "apply_rows X V key [row] batch_empty d = (b, d')"
  shows "ba_changed b = [] \<and> ba_vacated b = [] \<and> ba_last b = Some (rw_seq row)"
proof -
  have "fst (row_result X V key row d) \<in> {Inl AfRefused, Inr nothing_applied}"
    using assms(1-4) by (auto simp: row_result_def apply_row_def apply_put_file_def quiet_disk is_file_def split: option.split)
  with assms(5) show ?thesis
    by (auto simp: apply_rows_step batch_empty_def note_row_def note_applied_def nothing_applied_def split: prod.splits)
qed

lemma queue_run:
  "apply_rows desk_env desk_vault [1, 2]
     [desk_row 5 ''c1'' ''journal.md'' ''broken'', desk_row 6 ''c1'' ''journal.md'' ''newer'',
      desk_row 7 ''c1'' ''journal.md'' ''milk''] batch_empty desk_disk =
   (batch_empty\<lparr>ba_refused := [lit ''journal.md''], ba_last := Some 5, ba_blocked := Some AfUnsupported\<rparr>, desk_disk)"
proof -
  have t: "trim (lit ''broken'') = lit ''broken''" "trim (lit ''newer'') = lit ''newer''" by code_simp+
  have n: "desk_base64 (lit ''broken'') = None" "lit ''newer'' \<noteq> lit ''pic''" "lit ''newer'' \<noteq> lit ''broken''"
    "lit ''newer'' \<noteq> lit ''picture''" by (simp_all add: desk_base64_def)
  have broken: "row_result desk_env desk_vault [1, 2] (desk_row 5 ''c1'' ''journal.md'' ''broken'') desk_disk = (Inl AfRefused, desk_disk)"
    by (simp add: row_result_def apply_row_def open_write_def desk_row_def t n desk_env_def del: lit_simps)
  have p: "parse_write desk_serde (lit ''newer'') = Inl (UnsupportedVersion 2)"
    by (simp add: parse_write_def desk_serde_def unknown_version_def WRITE_VERSION_def u32_try_from_def)
  have "open_write desk_env [1, 2] (lit ''c1'') (lit ''journal.md'') (lit ''newer'') (vc_images_dir desk_vault) = Inl AfUnsupported"
    using desk_opens [of "''newer''" "lit ''c1''"] n t p by (simp add: WRITE_VERSION_def del: lit_simps)
  then have newer: "row_result desk_env desk_vault [1, 2] (desk_row 6 ''c1'' ''journal.md'' ''newer'') desk_disk =
      (Inl AfUnsupported, desk_disk)"
    by (simp add: row_result_def apply_row_def desk_row_def del: lit_simps)
  show ?thesis
    by (simp add: apply_rows_step broken newer note_row_def batch_empty_def) (simp add: desk_row_def)
qed

section \<open>A network that answers\<close>

definition calm_info :: VaultInfo where
  "calm_info =
     \<lparr>vi_vault_id = [], vi_status = lit ''active'', vi_key_check = [], vi_quota_bytes = 0, vi_used_bytes = 0,
      vi_file_count = 0, vi_latest_version = 7,
      vi_writes = \<lparr>wi_pending = 0, wi_latest_seq = 4, wi_acked_through_seq = 3, wi_acked_at_version = 7\<rparr>,
      vi_devices = [], vi_lapsed_at = None\<rparr>"

text \<open>Its state counts the requests.\<close>

definition calm_net :: "nat sync_net" where
  "calm_net =
     \<lparr>sn_send = (\<lambda>req s. (Some (200, lit ''ok''), s + 1)), sn_to_string = (\<lambda>_. []), sn_error_body = (\<lambda>_. None),
      sn_vault = (\<lambda>_. Some calm_info), sn_ticket = (\<lambda>_. Some \<lparr>ut_url = [], ut_method = default_put, ut_headers = []\<rparr>),
      sn_version = (\<lambda>_. Some 7), sn_page = (\<lambda>_. Some \<lparr>wp_writes = [desk_row 4 ''c2'' ''images/a.png'' ''picture''], wp_has_more = False\<rparr>),
      sn_acked = (\<lambda>_. Some \<lparr>ak_through_seq = 4, ak_at_version = 7\<rparr>), sn_pairing = (\<lambda>_. Some \<lparr>pc_code = lit ''4711'', pc_expires_at = []\<rparr>), sn_is_method = (\<lambda>_. True), sn_client_version = []\<rparr>"

lemma calm_answers:
  "begin_upload calm_net api path v blob len hash s = (Inr \<lparr>ut_url = [], ut_method = default_put, ut_headers = []\<rparr>, s + 1)"
  "put_blob calm_net target bytes s = (Inr (), s + 1)"
  "commit_upload calm_net api path v blob s = (Inr 7, s + 1)"
  "tombstone calm_net api path v s = (Inr 7, s + 1)"
  "ack_writes calm_net api q s = (Inr \<lparr>ak_through_seq = 4, ak_at_version = 7\<rparr>, s + 1)"
  "get_vault calm_net api s = (Inr calm_info, s + 1)"
  "writes_after calm_net api after s =
     (Inr \<lparr>wp_writes = [desk_row 4 ''c2'' ''images/a.png'' ''picture''], wp_has_more = False\<rparr>, s + 1)"
  by (simp_all add: begin_upload_def put_blob_def commit_upload_def tombstone_def ack_writes_def get_vault_def
      writes_after_def api_call_def calm_net_def success_status_def)

definition calm_random :: "nat randomness" where
  "calm_random = \<lparr>rn_blob_id = (\<lambda>s. (lit ''b1'', s)), rn_nonce = (\<lambda>s. (replicate 12 7, s))\<rparr>"

definition calm_session :: Session where
  "calm_session = \<lparr>ss_api = \<lparr>api_base_url = [], api_credential = []\<rparr>, ss_key = [1, 2]\<rparr>"

definition busy_service :: Service where
  "busy_service = service_new\<lparr>sv_root := Some [], sv_session := Some calm_session\<rparr>"

definition fresh_state :: LocalState where
  "fresh_state = \<lparr>lst_schema = 1, lst_cursor = 0, lst_acked_through_seq = 0, lst_files = []\<rparr>"

definition tiny_disk :: VaultDisk where
  "tiny_disk = \<lparr>vd_files = [lit ''journal.md'' \<mapsto> utf8 (lit ''a'')], vd_faults = []\<rparr>"

lemma calm_upload:
  "upload_one desk_env desk_vault calm_net calm_random calm_session 0 (lit ''journal.md'')
     \<lparr>us_state = fresh_state, us_uploaded = 0, us_skipped = [], us_held_back = [], us_used = 0\<rparr> tiny_disk s =
   (Inr \<lparr>us_state = fresh_state\<lparr>lst_cursor := 7, lst_files := [(lit ''journal.md'',
        \<lparr>fr_version = 7, fr_blob_id = lit ''b1'', fr_hash = plaintext_hash ascii_env (utf8 (lit ''a''))\<rparr>)]\<rparr>,
      us_uploaded = 1, us_skipped = [], us_held_back = [], us_used = length (utf8 (lit ''a'')) + 32\<rparr>, tiny_disk, s + 3)"
proof -
  have "is_syncable_image_path (\<lambda>_. True) (lit ''journal.md'') (lit ''images'') = False" by code_simp
  moreover have "length (utf8 (lit ''a'')) = 1" by code_simp
  moreover have "from_utf8 (utf8 (lit ''a'')) = Some (lit ''a'')" by (rule from_utf8_utf8 [OF scalar_lit])
  ultimately show ?thesis
    by (simp add: upload_one_def quiet_disk tiny_disk_def unsendable_reason_def MAX_FILE_BYTES_def desk_env_def
        upload_file_def numeral_2_eq_2 calm_random_def calm_answers fresh_state_def desk_vault_def bt_get_def
        del: lit_simps)
qed

lemma calm_finish:
  "finish_pass calm_net api q st s =
     (Inr (case q of None \<Rightarrow> st | Some _ \<Rightarrow> st\<lparr>lst_acked_through_seq := 4, lst_cursor := max (lst_cursor st) 7\<rparr>, calm_info),
      case q of None \<Rightarrow> s + 1 | Some _ \<Rightarrow> s + 2)"
  by (simp add: finish_pass_def calm_answers split: option.split)

lemma calm_remove:
  "remove_paths calm_net api [path] st s =
     (case bt_get (lst_files st) path of
        None \<Rightarrow> (Inr st, s)
      | Some record \<Rightarrow> (Inr (st\<lparr>lst_cursor := max (lst_cursor st) 7, lst_files := bt_remove path (lst_files st)\<rparr>), s + 1))"
  by (simp add: tombstone_path_def calm_answers split: option.split)

lemma calm_send:
  "send_changes desk_env desk_vault calm_net calm_random calm_session None [lit ''journal.md''] [lit ''journal.md'']
     fresh_state [] tiny_disk s =
   (Inr \<lparr>us_state = fresh_state\<lparr>lst_cursor := 7\<rparr>, us_uploaded = 1, us_skipped = [], us_held_back = [],
       us_used = length (utf8 (lit ''a'')) + 32\<rparr>, tiny_disk, s + 4)"
  by (simp add: send_changes_def in_order_def calm_upload calm_remove bt_get_def bt_remove_def del: lit_simps remove_paths.simps)
    (simp add: fresh_state_def)

lemma calm_pass:
  "\<exists>outcome d' s'. run_job desk_env desk_vault calm_net calm_random calm_session (\<lambda>_. []) (\<lambda>_. None)
     (put_back (job_default\<lparr>jb_removed := [lit ''journal.md'']\<rparr>) (job_default\<lparr>jb_dirty := [lit ''journal.md'']\<rparr>))
     None fresh_state tiny_disk s = Some (Inr outcome, d', s')"
proof -
  have q: "vd_faults tiny_disk = []" by (simp add: tiny_disk_def)
  show ?thesis
    by (simp add: run_job_def put_back_def job_default_def complete_pass_def calm_send batch_empty_def calm_finish
      save_state_def quiet_disk(2) [OF q] Let_def del: lit_simps)
qed


lemma picture_facts:
  "w_operation picture_write = PutFile (lit ''pic'') (lit ''010203'')" "w_path picture_write = lit ''images/a.png''"
  "w_client_id picture_write = lit ''c2''" "is_syncable_image_path (\<lambda>_. True) (lit ''images/a.png'') (lit ''images'')"
  "trim (lit ''picture'') = lit ''picture''" "parse_write desk_serde (lit ''picture'') = Inr picture_write"
  "trim (lit ''pic'') = lit ''pic''" "plaintext_hash ascii_env [1, 2, 3] = lit ''010203''"
  by code_simp+

lemma picture_opens:
  "open_write desk_env [1, 2] (lit ''c2'') (lit ''images/a.png'') (lit ''picture'') (vc_images_dir desk_vault) = Inr picture_write"
proof -
  have "lit ''picture'' \<noteq> lit ''pic''" "lit ''picture'' \<noteq> lit ''broken''" by simp_all
  moreover have "syncs desk_env (vc_images_dir desk_vault) (lit ''images/a.png'')"
    using picture_facts(4) by (simp add: syncs_def desk_env_def desk_vault_def del: lit_simps)
  ultimately show ?thesis using desk_opens [of "''picture''" "lit ''c2''"] picture_facts by (simp del: lit_simps)
qed

lemma batch_empty_fields:
  "ba_changed batch_empty = []" "ba_vacated batch_empty = []" "ba_last batch_empty = None"
  by (simp_all add: batch_empty_def)

lemma picture_row:
  "apply_rows desk_env desk_vault [1, 2] [desk_row 4 ''c2'' ''images/a.png'' ''picture''] batch_empty desk_disk =
   (batch_empty\<lparr>ba_last := Some 4\<rparr>, desk_disk)"
proof -
  have e: "ve_base64 desk_env (trim (lit ''pic'')) = Some [1, 2, 3]" "vc_images_dir desk_vault = lit ''images''"
    "ve_env desk_env = ascii_env" "ve_is_nfc desk_env = (\<lambda>_. True)"
    by (simp_all add: picture_facts desk_env_def desk_base64_def desk_vault_def del: lit_simps)
  have q: "vd_faults desk_disk = []" "vd_files desk_disk (lit ''images/a.png'') = Some [1, 2, 3]"
    by (simp_all add: desk_disk_def)
  have "row_result desk_env desk_vault [1, 2] (desk_row 4 ''c2'' ''images/a.png'' ''picture'') desk_disk =
      (Inr nothing_applied, desk_disk)"
    using picture_opens picture_facts e q
    by (simp add: row_result_def apply_row_def desk_row_def apply_put_file_def MAX_FILE_BYTES_def is_file_def quiet_disk
      del: lit_simps)
  then show ?thesis
    by (simp add: apply_rows_step note_row_def note_applied_def nothing_applied_def batch_empty_def) (simp add: desk_row_def)
qed

definition paging_net :: "WriteRow list \<Rightarrow> nat sync_net" where
  "paging_net Q = calm_net\<lparr>sn_send := (\<lambda>req s. (Some (200, drop 23 (sq_url req)), s + 1)),
     sn_page := (\<lambda>t. Some (queue_page Q 2 (digits_value (takeWhile is_ascii_digit t))))\<rparr>"

lemma trim_keeps_text: "c \<in> set t \<Longrightarrow> \<not> is_whitespace c \<Longrightarrow> trim t \<noteq> []"
proof -
  assume c: "c \<in> set t" "\<not> is_whitespace c"
  then have "c \<in> set (dropWhile is_whitespace t)"
    by (metis Un_iff set_append set_takeWhileD takeWhile_dropWhile_id)
  with c(2) show ?thesis
    by (auto simp: trim_def trim_end_def trim_start_def drop_while_end_def dropWhile_eq_Nil_conv)
qed

lemma paging_serves: "serves_queue (paging_net Q) \<lparr>api_base_url = [], api_credential = []\<rparr> Q 2"
proof -
  have "takeWhile is_ascii_digit (nat_to_str after @ lit ''&limit=1000'') = nat_to_str after" for after
    using nat_to_str_digits [of after] by (simp add: takeWhile_append2 list_all_iff is_ascii_digit_def)
  moreover have "trim (nat_to_str after @ lit ''&limit=1000'') \<noteq> []" for after
    by (rule trim_keeps_text [of 38]) (simp_all add: is_whitespace_def)
  ultimately show ?thesis
    by (auto simp: serves_queue_def writes_after_def api_call_def api_request_def paging_net_def success_status_def)
qed

section \<open>Properties\<close>

text \<open>C31: An acknowledgement covers handled rows alone.  The rows split into handled ones, each applied or
  refused on the disk its predecessors left, and held ones, the first of which could not be applied here and
  now; the sequence to be acknowledged is that of the last handled row, and every held row lies beyond it.\<close>

theorem ack_covers_handled:
  assumes "apply_rows X V key rows batch_empty d = (b, d')" and "sorted_wrt (<) (map rw_seq rows)"
  shows "\<exists>handled held. rows = handled @ held \<and>
     ba_last b = (if handled = [] then None else Some (rw_seq (List.last handled))) \<and>
     (\<forall>row \<in> set held. ba_last b \<noteq> None \<longrightarrow> the (ba_last b) < rw_seq row) \<and>
     (\<forall>earlier row later. handled = earlier @ row # later \<longrightarrow>
        \<not> row_blocks (fst (row_result X V key row (rows_disk X V key earlier d)))) \<and>
     (case held of [] \<Rightarrow> ba_blocked b = None
      | row # _ \<Rightarrow> row_blocks (fst (row_result X V key row (rows_disk X V key handled d))) \<and> ba_blocked b \<noteq> None)"
proof -
  let ?h = "handled_rows X V key rows d"
  let ?held = "drop (length ?h) rows"
  have l: "ba_last b = (if ?h = [] then None else Some (rw_seq (List.last ?h)))"
    using apply_rows_last [OF assms] by (simp add: batch_empty_def)
  have split: "rows = ?h @ ?held" by (rule handled_prefix)
  with assms(2) have "sorted_wrt (<) (map rw_seq ?h @ map rw_seq ?held)" by (metis map_append)
  with l have beyond: "\<forall>row \<in> set ?held. ba_last b \<noteq> None \<longrightarrow> the (ba_last b) < rw_seq row"
    by (auto simp: sorted_wrt_append)
  have blk: "case ?held of [] \<Rightarrow> ba_blocked b = None
      | row # _ \<Rightarrow> row_blocks (fst (row_result X V key row (rows_disk X V key ?h d))) \<and> ba_blocked b \<noteq> None"
    using apply_rows_blocked [OF assms(1)] first_held_blocks [of X V key rows d]
    by (auto simp: batch_empty_def split: list.split sum.split)
  show ?thesis
    by (intro exI [of _ ?h] exI [of _ ?held] conjI) (use split l beyond handled_not_blocked blk in blast)+
qed

theorem ack_covers_handled_witness:
  "\<exists>handled held. [desk_row 5 ''c1'' ''journal.md'' ''broken'', desk_row 6 ''c1'' ''journal.md'' ''newer'',
      desk_row 7 ''c1'' ''journal.md'' ''milk''] = handled @ held \<and> handled \<noteq> [] \<and> held \<noteq> [] \<and> rw_seq (List.last handled) = 5"
proof -
  have s: "sorted_wrt (<) (map rw_seq [desk_row 5 ''c1'' ''journal.md'' ''broken'', desk_row 6 ''c1'' ''journal.md'' ''newer'',
      desk_row 7 ''c1'' ''journal.md'' ''milk''])" by (simp add: desk_row_def)
  from ack_covers_handled [OF queue_run s] obtain handled held
    where a: "[desk_row 5 ''c1'' ''journal.md'' ''broken'', desk_row 6 ''c1'' ''journal.md'' ''newer'',
      desk_row 7 ''c1'' ''journal.md'' ''milk''] = handled @ held"
      and l: "Some 5 = (if handled = [] then None else Some (rw_seq (List.last handled)))"
      and h: "case held of [] \<Rightarrow> Some AfUnsupported = None | row # _ \<Rightarrow> True"
    by (fastforce simp: batch_empty_def split: list.splits)
  then show ?thesis by (intro exI [of _ handled] exI [of _ held]) (auto split: if_splits)
qed

text \<open>C30: A write of the phone lands as the application rules say.  A row whose payload is the sealed text of
  a valid write on a note, for this path and this client id, changes on a disk without faults that note alone,
  to the text \<open>apply_write\<close> gives, and reports the path as changed exactly when the text is another.\<close>

theorem phone_write_lands:
  assumes "aead_correct (ve_aead X)" and "length nonce = NONCE_LEN"
    and "encrypt (ve_aead X) key nonce (associated_data (CWrite (w_client_id w))) (utf8 json) = Some c"
    and "ve_base64 X (trim payload) = Some (seal_with_nonce (ve_aead X) key nonce (CWrite (w_client_id w)) (utf8 json))"
    and "list_all scalar json" and "parse_write (ve_serde X) json = Inr w"
    and "is_syncable_path (ve_is_nfc X) (w_path w)" and "\<not> is_file_level (w_operation w)"
    and "vd_faults d = []" and "vd_files d (w_path w) = Some (utf8 t)" and "list_all scalar t"
  shows "apply_row X V key (w_client_id w) (w_path w) payload d =
     (Inr \<lparr>aw_changed = (if landed_text (ve_env X) t w = t then None else Some (w_path w)), aw_removed = None\<rparr>,
      d\<lparr>vd_files := (vd_files d)(w_path w \<mapsto> utf8 (landed_text (ve_env X) t w))\<rparr>)"
proof -
  have o: "open_write X key (w_client_id w) (w_path w) payload (vc_images_dir V) = Inr w"
    using opened_sealed [OF assms(1-5)] assms(6,7) by (simp add: syncs_def)
  show ?thesis unfolding text_row [OF o assms(8)] by (rule text_write_lands [OF assms(9-11)])
qed

theorem phone_write_lands_witness:
  "is_syncable_path (\<lambda>_. True) (lit ''journal.md'') \<and>
   apply_row desk_env desk_vault [1, 2] (lit ''c1'') (lit ''journal.md'') (lit ''milk'') desk_disk =
     (Inr \<lparr>aw_changed = Some (lit ''journal.md''), aw_removed = None\<rparr>,
      desk_disk\<lparr>vd_files := (vd_files desk_disk)(lit ''journal.md'' \<mapsto> utf8 (landed_text ascii_env sample_note milk_write))\<rparr>)"
proof
  show "is_syncable_path (\<lambda>_. True) (lit ''journal.md'')" by (rule milk_write_facts)
  have f: "vd_files desk_disk (lit ''journal.md'') = Some (utf8 sample_note)" by (simp add: desk_disk_def)
  have "landed_text ascii_env sample_note milk_write \<noteq> sample_note" and "list_all scalar sample_note" by code_simp+
  with phone_write_lands [of desk_env "replicate 12 7" "[1, 2]" milk_write "lit ''milk''"
      "utf8 (lit ''milk'') @ toy_tag [1, 2] (replicate 12 7) (associated_data (CWrite (lit ''c1'')))" "lit ''milk''"
      desk_disk sample_note desk_vault] f toy_encrypts desk_opens_milk milk_write_facts toy_aead_correct
      scalar_lit [of "''milk''"]
  show "apply_row desk_env desk_vault [1, 2] (lit ''c1'') (lit ''journal.md'') (lit ''milk'') desk_disk =
     (Inr \<lparr>aw_changed = Some (lit ''journal.md''), aw_removed = None\<rparr>,
      desk_disk\<lparr>vd_files := (vd_files desk_disk)(lit ''journal.md'' \<mapsto> utf8 (landed_text ascii_env sample_note milk_write))\<rparr>)"
    by (simp add: desk_env_def NONCE_LEN_def desk_disk_def del: lit_simps)
qed

text \<open>C32: The queue is read to its end.  Against a service that holds rows in the order of their sequence
  numbers and hands out the ones asked for in pages, the loop over the pages returns, with every row behind
  the last acknowledged one, each once and in order.\<close>

theorem fetch_writes_complete:
  assumes "serves_queue N api Q lim" and "sorted_wrt (<) (map rw_seq Q)" and "0 < lim"
  shows "\<exists>s'. fetch_writes N api after s = Some (Inr (rows_after after Q), s')"
proof -
  obtain s' where f: "fetch_loop N api after [] s = Some (Inr (rows_after after Q), s')"
    using fetch_loop_reads [OF assms, of after "[]" s] by auto
  have "sorted (map rw_seq (rows_after after Q))"
    using rows_after_sorted [OF assms(2), of after] by (simp add: sorted_map sorted_wrt_mono_rel [rotated])
  then have "sort_key rw_seq (rows_after after Q) = rows_after after Q" by (rule sort_key_id_if_sorted)
  with f show ?thesis by (simp add: fetch_writes_def)
qed

theorem fetch_writes_complete_witness:
  "\<exists>s'. fetch_writes (paging_net [desk_row 5 ''c1'' ''a.md'' ''x'', desk_row 6 ''c1'' ''a.md'' ''y'', desk_row 7 ''c1'' ''a.md'' ''z'',
       desk_row 9 ''c1'' ''a.md'' ''w'']) \<lparr>api_base_url = [], api_credential = []\<rparr> 5 0 =
     Some (Inr [desk_row 6 ''c1'' ''a.md'' ''y'', desk_row 7 ''c1'' ''a.md'' ''z'', desk_row 9 ''c1'' ''a.md'' ''w''], s')"
  using fetch_writes_complete [OF paging_serves, of "[desk_row 5 ''c1'' ''a.md'' ''x'', desk_row 6 ''c1'' ''a.md'' ''y'',
      desk_row 7 ''c1'' ''a.md'' ''z'', desk_row 9 ''c1'' ''a.md'' ''w'']" 5 0]
  by (simp add: rows_after_def desk_row_def)

text \<open>C34: A note that came back while its tombstone failed is deleted by the retry.  When a pass that was to
  remove a path fails for the moment and the file is created again before the failure is taken in, the path
  is pending both ways; the next pass that ends well uploads first and removes after, so that no record of
  the note is left, whatever the disk holds.\<close>

theorem recreated_note_tombstoned:
  assumes "sv_active v" and "is_syncable_path is_nfc path" and "path \<in> set (jb_removed job)"
    and "finish_failed job OtherFailure (path_event is_nfc path False v) = (delay, v')"
    and "run_job X V N R S to_json read_dir (sv_pending v') info st d s = Some (Inr outcome, d', s')"
  shows "path \<in> set (jb_dirty (sv_pending v')) \<and> path \<in> set (jb_removed (sv_pending v')) \<and>
     bt_get (lst_files (jo_state outcome)) path = None"
proof -
  have p: "path \<in> set (jb_dirty (sv_pending v'))" "path \<in> set (jb_removed (sv_pending v'))"
    using assms(1-4) by (auto simp: path_event_def finish_failed_def put_back_def has_code_def Let_def)
  moreover have "bt_get (lst_files (jo_state outcome)) path = None"
    using p(2) by (rule run_job_forgets [OF assms(5)])
  ultimately show ?thesis by blast
qed

theorem recreated_note_tombstoned_witness:
  "is_file (lit ''journal.md'') tiny_disk \<and>
   (\<exists>outcome d' s'. run_job desk_env desk_vault calm_net calm_random calm_session (\<lambda>_. []) (\<lambda>_. None)
     (sv_pending (snd (finish_failed (job_default\<lparr>jb_removed := [lit ''journal.md'']\<rparr>) OtherFailure
        (path_event (\<lambda>_. True) (lit ''journal.md'') False busy_service))))
     None fresh_state tiny_disk 0 = Some (Inr outcome, d', s') \<and>
     bt_get (lst_files (jo_state outcome)) (lit ''journal.md'') = None)"
proof
  show "is_file (lit ''journal.md'') tiny_disk" by (simp add: is_file_def tiny_disk_def)
  let ?job = "job_default\<lparr>jb_removed := [lit ''journal.md'']\<rparr>"
  let ?v = "finish_failed ?job OtherFailure (path_event (\<lambda>_. True) (lit ''journal.md'') False busy_service)"
  have a: "sv_active busy_service" by (simp add: busy_service_def sv_active_def)
  have "sv_pending (snd ?v) = put_back ?job (job_default\<lparr>jb_dirty := [lit ''journal.md'']\<rparr>)"
    using a milk_write_facts(6)
    by (simp add: finish_failed_def path_event_def has_code_def busy_service_def service_new_def job_default_def Let_def del: lit_simps)
  with calm_pass [of 0] obtain outcome d' s' where r: "run_job desk_env desk_vault calm_net calm_random calm_session
      (\<lambda>_. []) (\<lambda>_. None) (sv_pending (snd ?v)) None fresh_state tiny_disk 0 = Some (Inr outcome, d', s')" by auto
  have "lit ''journal.md'' \<in> set (jb_removed ?job)" by (simp del: lit_simps)
  from recreated_note_tombstoned [OF a milk_write_facts(6) this surjective_pairing r] r
  show "\<exists>outcome d' s'. run_job desk_env desk_vault calm_net calm_random calm_session (\<lambda>_. []) (\<lambda>_. None)
     (sv_pending (snd ?v)) None fresh_state tiny_disk 0 = Some (Inr outcome, d', s') \<and>
     bt_get (lst_files (jo_state outcome)) (lit ''journal.md'') = None" by blast
qed

text \<open>C35: A picture that landed in a pass which failed later is acknowledged without having been sent.  When the
  row is fetched again the file is there, so nothing counts as changed and nothing is uploaded, no change of the
  worktree reports pictures, and yet the row is acknowledged.\<close>

theorem landed_picture_acked_unsent:
  assumes "open_write X (ss_key S) (rw_client_id row) (rw_path row) (rw_payload row) (vc_images_dir V) = Inr w"
    and "w_operation w = PutFile content hash" and "vd_faults d = []" and "is_file (w_path w) d"
    and "is_syncable_image_path is_nfc (w_path w) images_dir"
    and "fetch_writes N (ss_api S) (lst_acked_through_seq st) s = Some (Inr [row], s1)"
    and "run_job X V N R S to_json read_dir (job_default\<lparr>jb_drain := True\<rparr>) info st d s = Some (Inr outcome, d', s')"
  shows "lst_files (jo_state outcome) = lst_files st \<and> jo_uploaded outcome = 0 \<and>
     (\<exists>a s2. ack_writes N (ss_api S) (rw_seq row) s1 = (Inr a, s2) \<and>
        lst_acked_through_seq (jo_state outcome) = ak_through_seq a) \<and>
     path_event is_nfc (w_path w) gone v = v"
proof -
  obtain b d2 where b: "apply_rows X V (ss_key S) [row] batch_empty d = (b, d2)"
    and c: "complete_pass X V N R S to_json info st [] [] [] b d2 s1 = (Inr outcome, d', s')"
    using assms(6) by (rule_tac run_jobE [OF assms(7)]) (auto simp: job_default_def)
  have "path_event is_nfc (w_path w) gone v = v"
    using text_and_image_disjoint assms(5) by (auto simp: path_event_def)
  with complete_pass_idle [OF c] picture_lands_once [OF assms(1-4) b] show ?thesis by blast
qed

theorem landed_picture_acked_unsent_witness:
  "is_file (lit ''images/a.png'') desk_disk \<and>
   (\<exists>outcome d' s'. run_job desk_env desk_vault calm_net calm_random calm_session (\<lambda>_. []) (\<lambda>_. None)
     (job_default\<lparr>jb_drain := True\<rparr>) None fresh_state desk_disk 0 = Some (Inr outcome, d', s') \<and>
     lst_files (jo_state outcome) = [] \<and> lst_acked_through_seq (jo_state outcome) = 4)"
proof
  let ?row = "desk_row 4 ''c2'' ''images/a.png'' ''picture''"
  let ?run = "run_job desk_env desk_vault calm_net calm_random calm_session (\<lambda>_. []) (\<lambda>_. None)
     (job_default\<lparr>jb_drain := True\<rparr>) None fresh_state desk_disk 0"
  have q: "vd_faults desk_disk = []" by (simp add: desk_disk_def)
  show f: "is_file (lit ''images/a.png'') desk_disk" by (simp add: is_file_def desk_disk_def)
  have o: "open_write desk_env (ss_key calm_session) (rw_client_id ?row) (rw_path ?row) (rw_payload ?row)
      (vc_images_dir desk_vault) = Inr picture_write"
    using picture_opens by (simp add: calm_session_def desk_row_def del: lit_simps)
  have w: "fetch_writes calm_net (ss_api calm_session) (lst_acked_through_seq fresh_state) 0 = Some (Inr [?row], 1)"
    unfolding fetch_writes_def by (subst fetch_loop.simps) (simp add: calm_answers)
  have ne: "fresh_state\<lparr>lst_acked_through_seq := 4, lst_cursor := x\<rparr> \<noteq> fresh_state" for x by (simp add: fresh_state_def)
  have "\<exists>outcome d' s'. ?run = Some (Inr outcome, d', s')"
    using w picture_row batch_empty_fields ne
    by (simp add: run_job_def job_default_def complete_pass_def send_changes_def in_order_def calm_finish calm_session_def
      save_state_def quiet_disk(2) [OF q] Let_def del: lit_simps)
  then obtain outcome d' s' where r: "?run = Some (Inr outcome, d', s')" by blast
  from f have f': "is_file (w_path picture_write) desk_disk" by (simp only: picture_facts)
  show "\<exists>outcome d' s'. ?run = Some (Inr outcome, d', s') \<and>
     lst_files (jo_state outcome) = [] \<and> lst_acked_through_seq (jo_state outcome) = 4"
    using landed_picture_acked_unsent [OF o picture_facts(1) q f' _ w r] r picture_facts(2,4)
    by (auto simp: fresh_state_def calm_answers)
qed

end
