(* ===== verification/Vault_Scan_Props.thy ===== *)
theory Vault_Scan_Props
  imports Vault_Sync_Props
begin

text \<open>
  The scan of the vault: the walk over the folders ends, and it tombstones exactly the notes that are
  gone; and what the first scan of a new pairing misses.
\<close>

section \<open>What the scan reaches\<close>

text \<open>The folders the scan walks into, and the paths a folder lists as files that sync.\<close>

inductive reached :: "listing \<Rightarrow> rstr \<Rightarrow> bool" for read_dir :: listing where
  reached_root: "reached read_dir []"
| reached_below: "reached read_dir dir \<Longrightarrow> read_dir dir = Some es \<Longrightarrow> (Some rel, Some MetaDir) \<in> set es \<Longrightarrow>
    rel \<notin> set SKIPPED_DIRS \<Longrightarrow> reached read_dir rel"

definition lists_file :: "('d, 't) vault_env \<Rightarrow> rstr \<Rightarrow> (rstr option \<times> ScanMeta option) list \<Rightarrow> rstr \<Rightarrow> bool" where
  "lists_file X images_dir es path \<longleftrightarrow>
     syncs X images_dir path \<and> (\<exists>len. (Some path, Some (MetaFile False len)) \<in> set es)"

definition dir_prefix :: "rstr \<Rightarrow> rstr" where
  "dir_prefix dir = (if dir = [] then [] else dir @ [47])"

fun subdirs :: "(rstr option \<times> ScanMeta option) list \<Rightarrow> rstr list" where
  "subdirs [] = []"
| "subdirs ((Some rel, Some MetaDir) # es) = (if rel \<in> set SKIPPED_DIRS then [] else [rel]) @ subdirs es"
| "subdirs ((Some rel, Some (MetaFile link len)) # es) = subdirs es"
| "subdirs (_ # es) = subdirs es"

lemma set_subdirs: "set (subdirs es) = {rel. (Some rel, Some MetaDir) \<in> set es \<and> rel \<notin> set SKIPPED_DIRS}"
  by (induction es rule: subdirs.induct) auto

lemma scan_file_seen:
  "scan_file X known images_dir rel link len (r, d) = (r', d') \<Longrightarrow>
     set (sr_seen r') = set (sr_seen r) \<union> (if \<not> link \<and> syncs X images_dir rel then {rel} else {}) \<and>
     sr_unlisted r' = sr_unlisted r"
  by (auto simp: scan_file_def syncs_def Let_def split: if_splits option.splits prod.splits)

lemma scan_entries_result:
  "scan_entries X known images_dir es (dirs, r, d) = (dirs', r', d') \<Longrightarrow>
     dirs' = dirs @ subdirs es \<and> set (sr_seen r') = set (sr_seen r) \<union> {path. lists_file X images_dir es path} \<and>
     sr_unlisted r' = sr_unlisted r"
proof (induction es arbitrary: dirs r d rule: subdirs.induct)
  case (1 dirs r d)
  then show ?case by (simp add: lists_file_def)
next
  case (2 rel es)
  from 2(2) have "scan_entries X known images_dir es (if rel \<in> set SKIPPED_DIRS then dirs else dirs @ [rel], r, d) =
      (dirs', r', d')" by simp
  from 2(1) [OF this] show ?case by (auto simp: lists_file_def)
next
  case (3 rel link len es)
  obtain r1 d1 where f: "scan_file X known images_dir rel link len (r, d) = (r1, d1)" by force
  with 3 show ?case using scan_file_seen [OF f] by (auto simp: lists_file_def)
qed (auto simp: lists_file_def)

text \<open>The state of the walk: the folders done, the stack, and what was seen and could not be listed.\<close>

definition walked :: "('d, 't) vault_env \<Rightarrow> rstr \<Rightarrow> listing \<Rightarrow> rstr set \<Rightarrow> rstr list \<Rightarrow> ScanResult \<Rightarrow> bool" where
  "walked X images_dir read_dir P dirs r \<longleftrightarrow>
     [] \<in> P \<union> set dirs \<and> (\<forall>dir \<in> P \<union> set dirs. reached read_dir dir) \<and>
     (\<forall>dir \<in> P. \<forall>es. read_dir dir = Some es \<longrightarrow> set (subdirs es) \<subseteq> P \<union> set dirs) \<and>
     set (sr_seen r) = {path. \<exists>dir \<in> P. \<exists>es. read_dir dir = Some es \<and> lists_file X images_dir es path} \<and>
     set (sr_unlisted r) = dir_prefix ` {dir \<in> P. read_dir dir = None}"

lemma walked_start: "walked X images_dir read_dir {} [[]] scan_empty"
  by (simp add: walked_def scan_empty_def reached_root)

lemma walked_unlisted:
  assumes "walked X images_dir read_dir P (dirs @ [dir]) r" and "read_dir dir = None"
  shows "walked X images_dir read_dir (insert dir P) dirs (r\<lparr>sr_unlisted := dir_prefix dir # sr_unlisted r\<rparr>)"
  using assms unfolding walked_def by auto

lemma walked_listed:
  assumes w: "walked X images_dir read_dir P (dirs @ [dir]) r" and l: "read_dir dir = Some es"
    and s: "set (sr_seen r') = set (sr_seen r) \<union> {path. lists_file X images_dir es path}"
    and u: "sr_unlisted r' = sr_unlisted r"
  shows "walked X images_dir read_dir (insert dir P) (dirs @ subdirs es) r'"
proof -
  have r: "\<forall>rel \<in> set (subdirs es). reached read_dir rel"
    using w l by (auto simp: set_subdirs walked_def intro: reached_below)
  have "set (subdirs es') \<subseteq> insert dir P \<union> set (dirs @ subdirs es)"
    if "x \<in> insert dir P" and "read_dir x = Some es'" for x es'
    using that w l unfolding walked_def by (cases "x = dir") fastforce+
  moreover have "set (sr_seen r') = {path. \<exists>x \<in> insert dir P. \<exists>es. read_dir x = Some es \<and> lists_file X images_dir es path}"
    using w l s unfolding walked_def by auto
  moreover have "set (sr_unlisted r') = dir_prefix ` {x \<in> insert dir P. read_dir x = None}"
    using w l u unfolding walked_def by auto
  ultimately show ?thesis using w r unfolding walked_def by auto
qed

text \<open>What every step of the walk keeps holds at its end.\<close>

lemma scan_loop_keeps:
  assumes "scan_loop_dirs X known images_dir read_dir dirs r d = Some (r', d')" and "kept dirs r d"
    and none: "\<And>rest dir r d. kept (rest @ [dir]) r d \<Longrightarrow> read_dir dir = None \<Longrightarrow>
      kept rest (r\<lparr>sr_unlisted := dir_prefix dir # sr_unlisted r\<rparr>) d"
    and listed: "\<And>rest dir r d es dirs' r' d'. kept (rest @ [dir]) r d \<Longrightarrow> read_dir dir = Some es \<Longrightarrow>
      scan_entries X known images_dir es (rest, r, d) = (dirs', r', d') \<Longrightarrow> kept dirs' r' d'"
  shows "kept [] r' d'"
proof -
  let ?Q = "\<lambda>X0 known0 images_dir0 read_dir0 dirs r d y.
      X0 = X \<and> known0 = known \<and> images_dir0 = images_dir \<and> read_dir0 = read_dir \<longrightarrow> kept dirs r d \<longrightarrow> kept [] (fst y) (snd y)"
  have "?Q X known images_dir read_dir dirs r d (r', d')"
    using assms(1)
  proof (rule scan_loop_dirs.raw_induct [where P = ?Q, rotated], intro impI, elim conjE, hypsubst_thin)
    fix loop :: "('a, 'b) vault_env \<Rightarrow> (rstr \<times> FileRecord) list \<Rightarrow> rstr \<Rightarrow> listing \<Rightarrow> rstr list \<Rightarrow> ScanResult \<Rightarrow>
        VaultDisk \<Rightarrow> (ScanResult \<times> VaultDisk) option"
      and dirs r d y
    assume IH: "\<And>X0 known0 images_dir0 read_dir0 dirs r d y. loop X0 known0 images_dir0 read_dir0 dirs r d = Some y \<Longrightarrow>
        ?Q X0 known0 images_dir0 read_dir0 dirs r d y"
      and step: "(if dirs = [] then Some (r, d)
        else let dir = last dirs; rest = butlast dirs
             in case read_dir dir of
                  None \<Rightarrow> loop X known images_dir read_dir rest
                            (r\<lparr>sr_unlisted := (if dir = [] then [] else dir @ [47]) # sr_unlisted r\<rparr>) d
                | Some es \<Rightarrow> (case scan_entries X known images_dir es (rest, r, d) of
                       (dirs', r', d') \<Rightarrow> loop X known images_dir read_dir dirs' r' d')) = Some y"
      and start: "kept dirs r d"
    show "kept [] (fst y) (snd y)"
    proof (cases dirs rule: rev_cases)
      case Nil
      with step start show ?thesis by auto
    next
      case (snoc rest dir)
      show ?thesis
      proof (cases "read_dir dir")
        case None
        with step snoc IH none start show ?thesis by (simp add: dir_prefix_def)
      next
        case (Some es)
        obtain dirs' r' d' where e: "scan_entries X known images_dir es (rest, r, d) = (dirs', r', d')" by (rule prod_cases3)
        with listed start snoc Some have "kept dirs' r' d'" by blast
        with step snoc e IH Some show ?thesis by fastforce
      qed
    qed
  qed
  with assms(2) show ?thesis by simp
qed

lemma scan_walks:
  assumes "scan_loop_dirs X known images_dir read_dir dirs r d = Some (r', d')"
    and "walked X images_dir read_dir P dirs r"
  shows "\<exists>P'. walked X images_dir read_dir P' [] r'"
proof (rule scan_loop_keeps [OF assms(1), where kept = "\<lambda>dirs r d. \<exists>P. walked X images_dir read_dir P dirs r"])
  show "\<exists>P. walked X images_dir read_dir P dirs r" using assms(2) by blast
qed (blast intro: walked_unlisted, metis scan_entries_result walked_listed)

lemma scan_loop_dirs_snoc:
  "scan_loop_dirs X known images_dir read_dir (rest @ [dir]) r d =
     (case read_dir dir of
        None \<Rightarrow> scan_loop_dirs X known images_dir read_dir rest (r\<lparr>sr_unlisted := dir_prefix dir # sr_unlisted r\<rparr>) d
      | Some es \<Rightarrow> (case scan_entries X known images_dir es (rest, r, d) of
          (dirs', r', d') \<Rightarrow> scan_loop_dirs X known images_dir read_dir dirs' r' d'))"
  by (subst scan_loop_dirs.simps) (simp add: dir_prefix_def split: option.split)

definition tree_like :: "listing \<Rightarrow> (rstr \<Rightarrow> nat) \<Rightarrow> bool" where
  "tree_like read_dir height \<longleftrightarrow>
     (\<forall>dir es rel. read_dir dir = Some es \<longrightarrow> (Some rel, Some MetaDir) \<in> set es \<longrightarrow> rel \<notin> set SKIPPED_DIRS \<longrightarrow>
        height rel < height dir)"

definition scan_ends :: "('d, 't) vault_env \<Rightarrow> (rstr \<times> FileRecord) list \<Rightarrow> rstr \<Rightarrow> listing \<Rightarrow> rstr list \<Rightarrow> bool" where
  "scan_ends X known images_dir read_dir dirs \<longleftrightarrow> (\<forall>r d. scan_loop_dirs X known images_dir read_dir dirs r d \<noteq> None)"

lemma scan_ends_snoc:
  assumes "tree_like read_dir height"
  shows "scan_ends X known images_dir read_dir rest \<Longrightarrow> scan_ends X known images_dir read_dir (rest @ [dir])"
proof (induction "height dir" arbitrary: dir rest rule: less_induct)
  case less
  have more: "scan_ends X known images_dir read_dir (rest @ rels)" if "\<forall>rel \<in> set rels. height rel < height dir" for rels
    using that by (induction rels rule: rev_induct) (use less in \<open>simp_all flip: append_assoc\<close>)
  show ?case unfolding scan_ends_def
  proof (intro allI)
    fix r d
    show "scan_loop_dirs X known images_dir read_dir (rest @ [dir]) r d \<noteq> None"
    proof (cases "read_dir dir")
      case None
      then show ?thesis using less.prems by (simp add: scan_loop_dirs_snoc scan_ends_def)
    next
      case (Some es)
      obtain dirs' r' d' where e: "scan_entries X known images_dir es (rest, r, d) = (dirs', r', d')" by (rule prod_cases3)
      with scan_entries_result have "dirs' = rest @ subdirs es" by blast
      moreover have "\<forall>rel \<in> set (subdirs es). height rel < height dir"
        using assms Some by (auto simp: tree_like_def set_subdirs)
      ultimately show ?thesis using more e Some by (simp add: scan_loop_dirs_snoc scan_ends_def)
    qed
  qed
qed

lemma scan_vault_ends:
  assumes "tree_like read_dir height"
  shows "scan_vault X known images_dir read_dir d \<noteq> None"
proof -
  have "scan_ends X known images_dir read_dir []" by (simp add: scan_ends_def scan_loop_dirs.simps)
  from scan_ends_snoc [OF assms this, where dir = "[]"] show ?thesis by (auto simp: scan_ends_def scan_vault_def)
qed

section \<open>Evaluated instances\<close>

text \<open>A root with a note, an entry whose metadata cannot be read, a folder and a locked folder.\<close>

definition small_listing :: listing where
  "small_listing dir =
     (if dir = [] then Some [(Some (lit ''journal.md''), Some (MetaFile False 3)), (Some (lit ''broken.md''), None),
        (Some (lit ''notes''), Some MetaDir), (Some (lit ''locked''), Some MetaDir)]
      else if dir = lit ''notes'' then Some [(Some (lit ''notes/a.md''), Some (MetaFile False 3))] else None)"

definition small_known :: "(rstr \<times> FileRecord) list" where
  "small_known = map (\<lambda>path. (lit path, \<lparr>fr_version = 1, fr_blob_id = [], fr_hash = []\<rparr>))
     [''broken.md'', ''journal.md'', ''locked/x.md'', ''notes/a.md'', ''old.md'']"

lemma small_tree: "tree_like small_listing (\<lambda>dir. if dir = [] then 1 else 0)"
  by (auto simp: tree_like_def small_listing_def split: if_splits)

lemma small_reached: "reached small_listing dir \<longleftrightarrow> dir \<in> {[], lit ''notes'', lit ''locked''}"
proof
  show "reached small_listing dir \<Longrightarrow> dir \<in> {[], lit ''notes'', lit ''locked''}"
    by (induction rule: reached.induct) (auto simp: small_listing_def split: if_splits)
  have r: "(Some (lit ''notes''), Some MetaDir) \<in> set (the (small_listing []))" "(Some (lit ''locked''), Some MetaDir) \<in> set (the (small_listing []))"
    "lit ''notes'' \<notin> set SKIPPED_DIRS" "lit ''locked'' \<notin> set SKIPPED_DIRS" and l: "small_listing [] = Some (the (small_listing []))"
    by (simp_all add: small_listing_def SKIPPED_DIRS_def)
  show "dir \<in> {[], lit ''notes'', lit ''locked''} \<Longrightarrow> reached small_listing dir"
    using reached_root [of small_listing] l r by (blast intro: reached_below)
qed

section \<open>A copy that is gone\<close>

text \<open>The local record has, for every note and picture there is, the hash of its bytes.\<close>

definition recorded :: "('d, 't) vault_env \<Rightarrow> rstr \<Rightarrow> (rstr \<times> FileRecord) list \<Rightarrow> (rstr \<Rightarrow> byte list option) \<Rightarrow> bool" where
  "recorded X images_dir known files \<longleftrightarrow>
     (\<forall>path bytes. syncs X images_dir path \<longrightarrow> files path = Some bytes \<longrightarrow>
        is_some_and (bt_get known path) (\<lambda>record. fr_hash record = plaintext_hash (ve_env X) bytes))"

lemma load_bytes_files: "load_bytes path d = (bytes, d') \<Longrightarrow> vd_files d' = vd_files d \<and> (bytes = None \<or> bytes = vd_files d path)"
  by (auto simp: load_bytes_def disk_op_def split: list.splits if_splits prod.splits)

lemma scan_file_recorded:
  assumes "scan_file X known images_dir rel link len (r, d) = (r', d')" and "recorded X images_dir known (vd_files d)"
  shows "sr_changed r' = sr_changed r \<and> vd_files d' = vd_files d"
proof -
  obtain bytes d1 where l: "load_bytes rel d = (bytes, d1)" by fastforce
  from load_bytes_files [OF l] assms show ?thesis
    by (auto simp: scan_file_def l recorded_def syncs_def Let_def split: if_splits option.splits)
qed

lemma scan_entries_recorded:
  "scan_entries X known images_dir es (dirs, r, d) = (dirs', r', d') \<Longrightarrow> recorded X images_dir known (vd_files d) \<Longrightarrow>
     sr_changed r' = sr_changed r \<and> vd_files d' = vd_files d"
proof (induction es arbitrary: dirs r d rule: subdirs.induct)
  case (2 rel es)
  from 2(2) have "scan_entries X known images_dir es (if rel \<in> set SKIPPED_DIRS then dirs else dirs @ [rel], r, d) =
      (dirs', r', d')" by simp
  from 2(1) [OF this 2(3)] show ?case .
next
  case (3 rel link len es)
  obtain r1 d1 where f: "scan_file X known images_dir rel link len (r, d) = (r1, d1)" by force
  with 3 show ?case using scan_file_recorded [OF f] by simp
qed auto

lemma scan_recorded:
  assumes "scan_loop_dirs X known images_dir read_dir dirs r d = Some (r', d')"
    and "recorded X images_dir known (vd_files d)"
  shows "sr_changed r' = sr_changed r"
proof -
  have "sr_changed r' = sr_changed r \<and> vd_files d' = vd_files d"
    by (rule scan_loop_keeps [OF assms(1), where kept = "\<lambda>dirs r' d'. sr_changed r' = sr_changed r \<and> vd_files d' = vd_files d"])
      (use assms(2) in \<open>auto dest: scan_entries_recorded\<close>)
  then show ?thesis ..
qed

lemma send_only_removals:
  "send_changes X V N R S info [] removed st skipped d s = (Inr u, d', s') \<Longrightarrow> us_uploaded u = 0"
  by (auto simp: send_changes_def in_order_def split: prod.splits sum.splits option.splits)

lemma complete_pass_sends_nothing:
  "complete_pass X V N R S to_json info st [] removed skipped batch_empty d s = (Inr outcome, d', s') \<Longrightarrow>
     jo_uploaded outcome = 0"
  by (auto simp: complete_pass_def batch_empty_def Let_def dest!: send_only_removals
      split: prod.splits sum.splits if_splits)

section \<open>Evaluated instances\<close>

definition one_note :: listing where
  "one_note dir = (if dir = [] then Some [(Some (lit ''journal.md''), Some (MetaFile False 1))] else None)"

definition known_state :: LocalState where
  "known_state = \<lparr>lst_schema = 1, lst_cursor = 3, lst_acked_through_seq = 4,
     lst_files = [(lit ''journal.md'', \<lparr>fr_version = 3, fr_blob_id = lit ''b1'', fr_hash = plaintext_hash ascii_env (utf8 (lit ''a''))\<rparr>)]\<rparr>"

definition idle_net :: "nat sync_net" where
  "idle_net = calm_net\<lparr>sn_page := (\<lambda>_. Some \<lparr>wp_writes = [], wp_has_more = False\<rparr>)\<rparr>"

definition copy_gone :: sync_failure where
  "copy_gone = Refusal \<lparr>se_status = 404, se_code = lit ''vault_missing'', se_current_version = None\<rparr>"

lemma idle_answers:
  "ensure_vault idle_net api name check s = (Inr calm_info, s + 1)"
  "create_pairing idle_net api s = (Inr \<lparr>pc_code = lit ''4711'', pc_expires_at = []\<rparr>, s + 1)"
  "get_vault idle_net api s = (Inr calm_info, s + 1)"
  "writes_after idle_net api after s = (Inr \<lparr>wp_writes = [], wp_has_more = False\<rparr>, s + 1)"
  by (simp_all add: ensure_vault_def create_pairing_def get_vault_def writes_after_def api_call_def idle_net_def
      calm_net_def success_status_def)

lemma idle_fetch: "fetch_writes idle_net api after s = Some (Inr [], s + 1)"
  unfolding fetch_writes_def by (subst fetch_loop.simps) (simp add: idle_answers)

lemma journal_scanned:
  "scan_vault desk_env (lst_files known_state) (lit ''images'') one_note tiny_disk = Some ([], [], [], tiny_disk)"
proof -
  have n: "is_syncable_image_path (\<lambda>_. True) (lit ''journal.md'') (lit ''images'') = False" by code_simp
  have q: "vd_faults tiny_disk = []" and f: "vd_files tiny_disk (lit ''journal.md'') = Some (utf8 (lit ''a''))"
    by (simp_all add: tiny_disk_def)
  have u: "from_utf8 (utf8 (lit ''a'')) = Some (lit ''a'')" by (rule from_utf8_utf8 [OF scalar_lit])
  have len: "length (utf8 (lit ''a'')) = 1" by code_simp
  have s: "scan_file desk_env (lst_files known_state) (lit ''images'') (lit ''journal.md'') False 1 (scan_empty, tiny_disk) =
      (scan_empty\<lparr>sr_seen := [lit ''journal.md'']\<rparr>, tiny_disk)"
    using n milk_write_facts(6) u len f
    by (simp add: scan_file_def desk_env_def quiet_disk(1) [OF q] unsendable_reason_def MAX_FILE_BYTES_def known_state_def
        bt_get_def scan_empty_def del: lit_simps)
  then show ?thesis
    unfolding scan_vault_def
    by (subst scan_loop_dirs.simps, simp add: one_note_def s del: lit_simps, subst scan_loop_dirs.simps)
      (simp add: scan_removed_def known_state_def scan_empty_def del: lit_simps)
qed

lemma idle_pass:
  "\<exists>outcome d' s'. run_job desk_env desk_vault idle_net calm_random calm_session (\<lambda>_. []) one_note
     (job_default\<lparr>jb_catch_up := True, jb_drain := True\<rparr>) None known_state tiny_disk s = Some (Inr outcome, d', s')"
proof -
  have v: "vc_images_dir desk_vault = lit ''images''" by (simp add: desk_vault_def)
  show ?thesis
    by (simp add: run_job_def v journal_scanned idle_fetch job_default_def complete_pass_def send_changes_def in_order_def
        finish_pass_def idle_answers batch_empty_def del: lit_simps)
qed

section \<open>Properties\<close>

text \<open>C33: The scan ends, and tombstones exactly the notes that are gone.  Where the folders below the root form a
  tree, so that some height falls at every step into a folder, the loop over the stack of folders returns,
  whatever the files and the faults of the disk; a path of the local record is removed exactly when no folder the
  walk reached lists it as a file that syncs and no folder above it refused to be listed.\<close>

theorem scan_tombstones_exact:
  assumes "tree_like read_dir height"
  shows "\<exists>changed gone skipped d'. scan_vault X known images_dir read_dir d = Some (changed, gone, skipped, d') \<and>
     set gone = {path \<in> fst ` set known.
       \<not> (\<exists>dir es. reached read_dir dir \<and> read_dir dir = Some es \<and> lists_file X images_dir es path) \<and>
       \<not> (\<exists>dir. reached read_dir dir \<and> read_dir dir = None \<and> starts_with (dir_prefix dir) path)}"
proof -
  obtain r d' where s: "scan_loop_dirs X known images_dir read_dir [[]] scan_empty d = Some (r, d')"
    using scan_vault_ends [OF assms, of X known images_dir d] by (auto simp: scan_vault_def)
  obtain P where w: "walked X images_dir read_dir P [] r" using scan_walks [OF s walked_start] by blast
  have "reached read_dir dir \<Longrightarrow> dir \<in> P" for dir
    by (induction rule: reached.induct) (use w in \<open>auto simp: walked_def set_subdirs\<close>)
  with w have "P = {dir. reached read_dir dir}" by (auto simp: walked_def)
  with w have "set (scan_removed known r) = {path \<in> fst ` set known.
       \<not> (\<exists>dir es. reached read_dir dir \<and> read_dir dir = Some es \<and> lists_file X images_dir es path) \<and>
       \<not> (\<exists>dir. reached read_dir dir \<and> read_dir dir = None \<and> starts_with (dir_prefix dir) path)}"
    by (auto simp: scan_removed_def walked_def list_ex_iff image_iff)
  with s show ?thesis by (auto simp: scan_vault_def)
qed

theorem scan_tombstones_exact_witness:
  "\<exists>changed gone skipped d'. scan_vault desk_env small_known (lit ''images'') small_listing desk_disk = Some (changed, gone, skipped, d') \<and>
     set gone = {lit ''broken.md'', lit ''old.md''}"
proof -
  have syn: "syncs desk_env (lit ''images'') (lit ''journal.md'')" "syncs desk_env (lit ''images'') (lit ''notes/a.md'')"
    unfolding syncs_def desk_env_def vault_env.simps by code_simp+
  have k: "fst ` set small_known = {lit ''broken.md'', lit ''journal.md'', lit ''locked/x.md'', lit ''notes/a.md'', lit ''old.md''}"
    by (simp add: small_known_def del: lit_simps)
  have locked: "starts_with (dir_prefix (lit ''locked'')) (lit ''locked/x.md'')" by code_simp
  have open_names: "\<not> starts_with (dir_prefix (lit ''locked'')) (lit ''broken.md'')" "\<not> starts_with (dir_prefix (lit ''locked'')) (lit ''old.md'')"
    by code_simp+
  have root: "small_listing [] = Some [(Some (lit ''journal.md''), Some (MetaFile False 3)), (Some (lit ''broken.md''), None),
        (Some (lit ''notes''), Some MetaDir), (Some (lit ''locked''), Some MetaDir)]"
    and below: "small_listing (lit ''notes'') = Some [(Some (lit ''notes/a.md''), Some (MetaFile False 3))]"
      "small_listing (lit ''locked'') = None"
    by (simp_all add: small_listing_def)
  have listed: "(\<exists>dir es. reached small_listing dir \<and> small_listing dir = Some es \<and> lists_file desk_env (lit ''images'') es path) \<longleftrightarrow>
      path \<in> {lit ''journal.md'', lit ''notes/a.md''}" for path
    unfolding small_reached lists_file_def using syn root below by (auto simp del: lit_simps)
  have none: "(\<exists>dir. reached small_listing dir \<and> small_listing dir = None \<and> starts_with (dir_prefix dir) path) \<longleftrightarrow>
      starts_with (dir_prefix (lit ''locked'')) path" for path
    unfolding small_reached using root below by (auto simp del: lit_simps)
  have distinct_names: "distinct (map lit [''broken.md'', ''journal.md'', ''locked/x.md'', ''notes/a.md'', ''old.md''])" by code_simp
  have "{path \<in> fst ` set small_known.
       \<not> (\<exists>dir es. reached small_listing dir \<and> small_listing dir = Some es \<and> lists_file desk_env (lit ''images'') es path) \<and>
       \<not> (\<exists>dir. reached small_listing dir \<and> small_listing dir = None \<and> starts_with (dir_prefix dir) path)} =
      {lit ''broken.md'', lit ''old.md''}"
    unfolding listed k none using locked open_names distinct_names by (auto simp del: lit_simps)
  with scan_tombstones_exact [OF small_tree, of desk_env small_known "lit ''images''" desk_disk] show ?thesis by simp
qed

text \<open>C36: Pairing again after the copy was lost sends nothing.  When the service answers that the vault is missing
  the session ends but the local record stays; pairing then makes an empty vault and starts a session, whose first
  pass finds every note recorded with its hash and uploads none of them.\<close>

theorem pairing_again_sends_nothing:
  assumes "has_code ''vault_missing'' e" and "finish_failed job e v = (delay, v1)"
    and "begin_pairing E N device_name session v1 s0 = (Inr code, v2, s1)"
    and "recorded X (vc_images_dir V) (lst_files (sv_state v)) (vd_files d)"
    and "fetch_writes N (ss_api session) (lst_acked_through_seq (sv_state v)) s1 = Some (Inr [], s2)"
    and "run_job X V N R session to_json read_dir (sv_pending v2) (sv_info v2) (sv_state v2) d s1 = Some (Inr outcome, d', s')"
  shows "sv_session v1 = None \<and> sv_session v2 = Some session \<and> sv_state v2 = sv_state v \<and> jo_uploaded outcome = 0"
proof -
  have v1: "v1 = stop_session Off (v\<lparr>sv_pending := put_back job (sv_pending v), sv_retry_delay := next_delay (sv_retry_delay v)\<rparr>)"
    using assms(1,2) by (auto simp: finish_failed_def has_code_def is_some_and_iff Let_def)
  have v2: "v2 = start_session session v1"
    using assms(3) by (auto simp: begin_pairing_def pairing_started_def v1 stop_session_def split: prod.splits sum.splits)
  obtain changed gone skipped d1 b d2
    where scan: "scan_vault X (lst_files (sv_state v)) (vc_images_dir V) read_dir d = Some (changed, gone, skipped, d1)"
    and b: "apply_rows X V (ss_key session) [] batch_empty d1 = (b, d2)"
    and c: "complete_pass X V N R session to_json (sv_info v2) (sv_state v2) changed gone skipped b d2 s2 = (Inr outcome, d', s')"
    using assms(5) by (rule_tac run_jobE [OF assms(6)]) (auto simp: v1 v2 stop_session_def start_session_def job_default_def)
  have "changed = []"
    using scan scan_recorded [OF _ assms(4)] by (fastforce simp: scan_vault_def scan_empty_def)
  with c b complete_pass_sends_nothing show ?thesis by (auto simp: v1 v2 stop_session_def start_session_def)
qed

theorem pairing_again_sends_nothing_witness:
  "\<exists>v1 v2 s1 outcome d' s'.
     begin_pairing ascii_env idle_net [] calm_session v1 0 = (Inr \<lparr>pc_code = lit ''4711'', pc_expires_at = []\<rparr>, v2, s1) \<and>
     sv_session v1 = None \<and> sv_state v2 = known_state \<and>
     run_job desk_env desk_vault idle_net calm_random calm_session (\<lambda>_. []) one_note (sv_pending v2) (sv_info v2) (sv_state v2)
       tiny_disk s1 = Some (Inr outcome, d', s') \<and> jo_uploaded outcome = 0"
proof -
  let ?v = "busy_service\<lparr>sv_state := known_state\<rparr>"
  obtain delay v1 where f: "finish_failed job_default copy_gone ?v = (delay, v1)" by fastforce
  have c: "has_code ''vault_missing'' copy_gone" by (simp add: has_code_def copy_gone_def)
  have v1: "v1 = stop_session Off (?v\<lparr>sv_pending := put_back job_default (sv_pending ?v), sv_retry_delay := next_delay (sv_retry_delay ?v)\<rparr>)"
    using f by (simp add: finish_failed_def has_code_def copy_gone_def Let_def)
  have p: "begin_pairing ascii_env idle_net [] calm_session v1 0 =
      (Inr \<lparr>pc_code = lit ''4711'', pc_expires_at = []\<rparr>, start_session calm_session v1, 2)"
    by (simp add: begin_pairing_def request_pairing_def idle_answers pairing_started_def v1 stop_session_def del: lit_simps)
  have v2: "sv_pending (start_session calm_session v1) = job_default\<lparr>jb_catch_up := True, jb_drain := True\<rparr>"
    "sv_info (start_session calm_session v1) = None" "sv_state (start_session calm_session v1) = known_state"
    by (simp_all add: v1 start_session_def stop_session_def busy_service_def service_new_def job_default_def)
  obtain outcome d' s' where r: "run_job desk_env desk_vault idle_net calm_random calm_session (\<lambda>_. []) one_note
      (sv_pending (start_session calm_session v1)) (sv_info (start_session calm_session v1))
      (sv_state (start_session calm_session v1)) tiny_disk 2 = Some (Inr outcome, d', s')"
    using idle_pass [of 2] unfolding v2 by blast
  have "recorded desk_env (vc_images_dir desk_vault) (lst_files (sv_state ?v)) (vd_files tiny_disk)"
    by (simp add: recorded_def tiny_disk_def known_state_def desk_env_def bt_get_def del: lit_simps)
  from pairing_again_sends_nothing [OF c f p this idle_fetch r] have "sv_session v1 = None" "jo_uploaded outcome = 0" by blast+
  with p r v2(3) show ?thesis by blast
qed

end
