(* ===== verification/Capture.thy ===== *)
theory Capture
  imports Inbox Dates "HOL-Library.Option_ord"
begin

text \<open>
  The landing zone of captured items (\<open>crates/thock/src/inbox.rs\<close>): the configuration, the digest of
  an item, the capture planner that turns items into one note each, the note it writes and its
  reader, the scan of the triage log, and what counts as new.  A set of digests or stems is a list
  of which only the elements matter.  \<open>toml\<close>, chrono's readers of moments and SHA-256 are parameters.
\<close>

section \<open>Configuration\<close>

record InboxConfig =
  ic_dir :: rstr
  ic_poll_seconds :: nat
  ic_tasks_enabled :: bool
  ic_tasks_list :: "rstr option"

definition inbox_default :: InboxConfig where
  "inbox_default = \<lparr>ic_dir = lit ''inbox'', ic_poll_seconds = 300, ic_tasks_enabled = True, ic_tasks_list = None\<rparr>"

record InboxTasksContent =
  it_enabled :: "bool option"
  it_list :: "rstr option"

record InboxConfigContent =
  icc_schema :: "nat option"
  icc_dir :: "rstr option"
  icc_poll_seconds :: "nat option"
  icc_tasks :: InboxTasksContent

definition non_empty :: "rstr option \<Rightarrow> rstr option" where
  "non_empty t = (case t of Some s \<Rightarrow> if s = [] then None else Some s | None \<Rightarrow> None)"

definition parse_inbox_config :: "(rstr \<Rightarrow> 'e + InboxConfigContent) \<Rightarrow> rstr \<Rightarrow> 'e + InboxConfig" where
  "parse_inbox_config toml t =
     (case toml t of
        Inl e \<Rightarrow> Inl e
      | Inr content \<Rightarrow> Inr
          \<lparr>ic_dir = (case non_empty (map_option (\<lambda>dir. trim_matches (\<lambda>c. c = 47) (trim dir)) (icc_dir content)) of
                       Some dir \<Rightarrow> dir | None \<Rightarrow> ic_dir inbox_default),
           ic_poll_seconds = max 60 (min 3600 (case icc_poll_seconds content of Some n \<Rightarrow> n | None \<Rightarrow> 300)),
           ic_tasks_enabled = (case it_enabled (icc_tasks content) of Some b \<Rightarrow> b | None \<Rightarrow> ic_tasks_enabled inbox_default),
           ic_tasks_list = non_empty (map_option trim (it_list (icc_tasks content)))\<rparr>)"

section \<open>Items, digests and titles\<close>

record ('m, 'd) CapturedItem =
  ci_source :: rstr
  ci_external_id :: rstr
  ci_title :: rstr
  ci_from :: "rstr option"
  ci_url :: "rstr option"
  ci_link :: "rstr option"
  ci_body :: "rstr option"
  ci_occurred_at :: "'m option"
  ci_due :: "'d option"

text \<open>Moments with their offsets: the instant they are ordered by, the stamp of a file name, and the
  readers of RFC 3339, of the plain formats of the watermark and of a bare date.\<close>

record 'm moments =
  mo_instant :: "'m \<Rightarrow> int"
  mo_stamp :: "'m \<Rightarrow> rstr"
  mo_rfc3339 :: "rstr \<Rightarrow> 'm option"
  mo_naive :: "rstr \<Rightarrow> rstr \<Rightarrow> int option"
  mo_midnight :: "rstr \<Rightarrow> int option"

definition capture_digest :: "env \<Rightarrow> rstr \<Rightarrow> rstr \<Rightarrow> rstr \<Rightarrow> rstr" where
  "capture_digest E account source external_id =
     concat (map byte_to_hex (take 6 (sha256 E (utf8 account @ [0] @ utf8 source @ [0] @ utf8 external_id))))"

definition collapse_whitespace :: "rstr \<Rightarrow> rstr" where
  "collapse_whitespace t = join_with [32] (split_whitespace t)"

text \<open>\<open>break_wikilinks\<close>: a pass of the loop over a pair of brackets leaves none behind.\<close>

fun break_pairs :: "rchar \<Rightarrow> rstr \<Rightarrow> rstr" where
  "break_pairs b (c # d # s) = (if c = b \<and> d = b then c # 32 # break_pairs b (d # s) else c # break_pairs b (d # s))"
| "break_pairs b s = s"

definition break_wikilinks :: "rstr \<Rightarrow> rstr" where
  "break_wikilinks t = break_pairs 93 (break_pairs 91 t)"

definition capture_title :: "rstr \<Rightarrow> rstr" where
  "capture_title raw =
     (let title = collapse_whitespace (break_wikilinks (str_replace (lit ''<!--'') [] raw))
      in if title = [] then lit ''(untitled)'' else title)"

fun slug_loop :: "rstr \<Rightarrow> rstr \<Rightarrow> bool \<Rightarrow> rstr" where
  "slug_loop [] written last_dash = written"
| "slug_loop (c # cs) written last_dash =
     (let (w, dash) = (if is_ascii_alphanumeric c then (written @ [to_ascii_lowercase c], False)
                       else if \<not> last_dash then (written @ [45], True) else (written, last_dash))
      in if 60 \<le> length w then w else slug_loop cs w dash)"

definition slug :: "rstr \<Rightarrow> rstr \<Rightarrow> rstr" where
  "slug t fallback =
     (let s = trim_matches (\<lambda>c. c = 45) (slug_loop t [] True) in if s = [] then fallback else s)"

section \<open>The note of an item\<close>

text \<open>\<open>{:<9}\<close> of the key and its colon, then the given.\<close>

definition capture_field :: "string \<Rightarrow> rstr \<Rightarrow> rstr" where
  "capture_field key given =
     (let k = lit key @ [58] in k @ replicate (9 - length k) 32 @ [32] @ given @ [10])"

definition optional_field :: "string \<Rightarrow> rstr option \<Rightarrow> rstr" where
  "optional_field key given = (case given of Some v \<Rightarrow> capture_field key v | None \<Rightarrow> [])"

definition render_inbox_note :: "'d calendar \<Rightarrow> ('m, 'd) CapturedItem \<Rightarrow> rstr \<Rightarrow> rstr \<Rightarrow> rstr \<Rightarrow> rstr" where
  "render_inbox_note K item title digest captured_at =
     (let body = non_empty (map_option trim (ci_body item))
      in lit ''---'' @ [10] @
         capture_field ''source'' (ci_source item) @ capture_field ''capture'' digest @
         capture_field ''captured'' captured_at @ capture_field ''title'' title @
         optional_field ''from'' (map_option collapse_whitespace (ci_from item)) @
         optional_field ''url'' (map_option collapse_whitespace (ci_url item)) @
         optional_field ''link'' (map_option collapse_whitespace (ci_link item)) @
         optional_field ''due'' (map_option (format_Ymd K) (ci_due item)) @
         lit ''---'' @ [10, 10] @ lit ''# '' @ title @ [10] @
         (case ci_url item of Some url \<Rightarrow> [10] @ collapse_whitespace url @ [10] | None \<Rightarrow> []) @
         (case body of
            Some b \<Rightarrow> [10] @ b @ [10]
          | None \<Rightarrow> if ci_url item = None then [10] @ lit ''_(no content)_'' @ [10] else []))"

section \<open>The planner\<close>

record InboxFile =
  if_rel_path :: rstr
  if_stem :: rstr
  if_digest :: rstr
  if_content :: rstr

record ImportRecord =
  ir_digest :: rstr
  ir_source :: rstr
  ir_external_id :: rstr
  ir_title :: rstr

record InboxPlan =
  ip_files :: "InboxFile list"
  ip_newly_imported :: "ImportRecord list"

definition inbox_plan_is_empty :: "InboxPlan \<Rightarrow> bool" where
  "inbox_plan_is_empty plan \<longleftrightarrow> ip_files plan = [] \<and> ip_newly_imported plan = []"

record ('m, 'd) capture_env =
  ce_hash :: env
  ce_moments :: "'m moments"
  ce_calendar :: "'d calendar"
  ce_account :: rstr
  ce_dir :: rstr
  ce_captured_at :: rstr

definition item_digest :: "('m, 'd) capture_env \<Rightarrow> ('m, 'd) CapturedItem \<Rightarrow> rstr" where
  "item_digest X item = capture_digest (ce_hash X) (ce_account X) (ci_source item) (ci_external_id item)"

definition item_record :: "('m, 'd) capture_env \<Rightarrow> ('m, 'd) CapturedItem \<Rightarrow> ImportRecord" where
  "item_record X item =
     \<lparr>ir_digest = item_digest X item, ir_source = ci_source item, ir_external_id = ci_external_id item,
      ir_title = capture_title (ci_title item)\<rparr>"

definition item_stem :: "('m, 'd) capture_env \<Rightarrow> rstr list \<Rightarrow> ('m, 'd) CapturedItem \<Rightarrow> rstr" where
  "item_stem X claimed item =
     (let digest = item_digest X item;
          moment = or_else (ci_occurred_at item) (mo_rfc3339 (ce_moments X) (ce_captured_at X));
          stamp = (case moment of Some m \<Rightarrow> mo_stamp (ce_moments X) m | None \<Rightarrow> lit ''undated'');
          base = stamp @ [45] @ slug (capture_title (ci_title item)) (lit ''item'')
      in case find (\<lambda>candidate. candidate \<notin> set claimed) [base, base @ [45] @ take 4 digest, base @ [45] @ digest] of
           Some stem \<Rightarrow> stem | None \<Rightarrow> base @ [45] @ digest)"

definition item_file :: "('m, 'd) capture_env \<Rightarrow> rstr list \<Rightarrow> ('m, 'd) CapturedItem \<Rightarrow> InboxFile" where
  "item_file X claimed item =
     (let stem = item_stem X claimed item; digest = item_digest X item
      in \<lparr>if_rel_path = ce_dir X @ [47] @ stem @ lit ''.md'', if_stem = stem, if_digest = digest,
          if_content = render_inbox_note (ce_calendar X) item (capture_title (ci_title item)) digest (ce_captured_at X)\<rparr>)"

fun plan_items :: "('m, 'd) capture_env \<Rightarrow> rstr list \<Rightarrow> rstr list \<Rightarrow> rstr list \<Rightarrow> rstr list \<Rightarrow> InboxPlan \<Rightarrow>
    ('m, 'd) CapturedItem list \<Rightarrow> InboxPlan" where
  "plan_items X imported vault_digests planned claimed plan [] = plan"
| "plan_items X imported vault_digests planned claimed plan (item # items) =
     (let digest = item_digest X item
      in if digest \<in> set imported \<or> digest \<in> set planned
         then plan_items X imported vault_digests planned claimed plan items
         else if digest \<in> set vault_digests
         then plan_items X imported vault_digests (digest # planned) claimed
                (plan\<lparr>ip_newly_imported := ip_newly_imported plan @ [item_record X item]\<rparr>) items
         else let file = item_file X claimed item
              in plan_items X imported vault_digests (digest # planned) (if_stem file # claimed)
                   (plan\<lparr>ip_files := ip_files plan @ [file],
                         ip_newly_imported := ip_newly_imported plan @ [item_record X item]\<rparr>) items)"

definition plan_inbox_capture :: "('m, 'd) capture_env \<Rightarrow> ('m, 'd) CapturedItem list \<Rightarrow> rstr list \<Rightarrow> rstr list \<Rightarrow> rstr list \<Rightarrow>
    InboxPlan" where
  "plan_inbox_capture X items imported vault_digests taken_stems =
     plan_items X imported vault_digests [] taken_stems \<lparr>ip_files = [], ip_newly_imported = []\<rparr>
       (sort_key (\<lambda>item. map_option (mo_instant (ce_moments X)) (ci_occurred_at item)) items)"

section \<open>Reading the vault back\<close>

definition inbox_note_digest :: "rstr \<Rightarrow> rstr option" where
  "inbox_note_digest content =
     Option.bind (strip_prefix (lit ''---'' @ [10]) content)
       (\<lambda>rest. Option.bind (split_once ([10] @ lit ''---'') rest)
          (\<lambda>(front, _). find_map (\<lambda>line. non_empty (map_option trim (strip_prefix (lit ''capture:'') line))) (str_lines front)))"

text \<open>\<open>str::split\<close> at a string that is not empty: the first piece and the rest.\<close>

function split_str :: "rstr \<Rightarrow> rstr \<Rightarrow> rstr list" where
  "split_str p s =
     (if p = [] then [s]
      else case split_once p s of None \<Rightarrow> [s] | Some (a, b) \<Rightarrow> a # split_str p b)"
  by pat_completeness auto
termination
proof (relation "measure (\<lambda>(_, s). length s)", goal_cases)
  case (2 p s ab a b)
  then show ?case using str_find_bound [of p s] by (cases p) (auto simp: split_once_def split: option.splits)
qed simp

declare split_str.simps [simp del]

definition INBOX_MARKER_PREFIX :: rstr where "INBOX_MARKER_PREFIX = lit ''<!--inbox:''"
definition INBOX_MARKER_SUFFIX :: rstr where "INBOX_MARKER_SUFFIX = lit ''-->''"

definition scan_triage_log_markers :: "rstr \<Rightarrow> rstr list" where
  "scan_triage_log_markers t =
     filter (\<lambda>i. i \<noteq> [] \<and> byte_len i \<le> 64 \<and> 10 \<notin> set i)
       (map (\<lambda>chunk. trim (hd (split_str INBOX_MARKER_SUFFIX chunk))) (drop 1 (split_str INBOX_MARKER_PREFIX t)))"

record InboxItem =
  ii_path :: rstr
  ii_stem :: rstr
  ii_title :: rstr
  ii_source :: "rstr option"
  ii_from :: "rstr option"
  ii_url :: "rstr option"
  ii_link :: "rstr option"
  ii_captured :: "rstr option"
  ii_due :: "rstr option"
  ii_digest :: "rstr option"
  ii_body :: rstr
  ii_has_body :: bool
  ii_has_image :: bool

function front_fields :: "rstr \<Rightarrow> (rstr \<times> rstr) list \<Rightarrow> (rstr \<times> rstr) list \<times> rstr" where
  "front_fields cursor found =
     (let (line, after) = (case str_find [10] cursor of
            Some index \<Rightarrow> (take index cursor, drop (index + 1) cursor)
          | None \<Rightarrow> (cursor, []));
          trimmed = trim_end line
      in if trimmed = lit ''---'' \<or> trimmed = lit ''...'' then (found, after)
         else let found' = (case split_once [58] line of
                     Some (key, given) \<Rightarrow> found @ [(trim key, trim given)] | None \<Rightarrow> found)
              in if after = [] then (found', []) else front_fields after found')"
  by pat_completeness auto
termination
proof (relation "measure (\<lambda>(cursor, _). length cursor)", goal_cases)
  case (2 cursor found x line after trimmed found')
  then show ?case using str_find_bound [of "[10]" cursor] by (auto split: option.splits)
qed simp

declare front_fields.simps [simp del]

definition split_frontmatter :: "rstr \<Rightarrow> (rstr \<times> rstr) list \<times> rstr" where
  "split_frontmatter content =
     (case strip_prefix (lit ''---'') content of
        None \<Rightarrow> ([], content)
      | Some rest \<Rightarrow>
          (case str_find [10] rest of
             None \<Rightarrow> ([], [])
           | Some first_break \<Rightarrow>
               if trim (take first_break rest) \<noteq> [] then ([], content)
               else front_fields (drop (first_break + 1) rest) []))"

definition front_field :: "(rstr \<times> rstr) list \<Rightarrow> string \<Rightarrow> rstr option" where
  "front_field found key = non_empty (map_option snd (find (\<lambda>(name, _). name = lit key) found))"

definition parse_inbox_note :: "rstr \<Rightarrow> rstr \<Rightarrow> InboxItem" where
  "parse_inbox_note path content =
     (let name = last (split_on (\<lambda>c. c = 47) path);
          stem = (case strip_suffix (lit ''.md'') name of Some s \<Rightarrow> s | None \<Rightarrow> name);
          (found, body) = split_frontmatter content;
          field = front_field found;
          first_line = (case find (\<lambda>line. line \<noteq> []) (map trim (str_lines body)) of Some l \<Rightarrow> l | None \<Rightarrow> []);
          heading = non_empty (map_option (\<lambda>rest. trim (trim_start_matches (\<lambda>c. c = 35) rest)) (strip_prefix [35] first_line));
          fallback = (case or_else (field ''title'') (or_else heading (if first_line = [] then None else Some first_line)) of
                        Some t \<Rightarrow> t | None \<Rightarrow> stem);
          title = (case heading of Some t \<Rightarrow> if starts_with (lit ''# '') first_line then t else fallback | None \<Rightarrow> fallback)
      in \<lparr>ii_path = path, ii_stem = stem, ii_title = title, ii_source = field ''source'', ii_from = field ''from'',
          ii_url = field ''url'', ii_link = field ''link'', ii_captured = field ''captured'', ii_due = field ''due'',
          ii_digest = field ''capture'', ii_body = body, ii_has_body = inbox_has_body content,
          ii_has_image = list_ex (\<lambda>line. starts_with (lit ''!['') (trim line) \<and> str_contains (lit '']('') (trim line)) (str_lines body)\<rparr>)"

definition note_hash :: "env \<Rightarrow> rstr \<Rightarrow> rstr" where
  "note_hash E content = hex_encode E (sha256 E (utf8 content))"

section \<open>New or carried over\<close>

definition WATERMARK_FORMATS :: "rstr list" where
  "WATERMARK_FORMATS = map lit [''%Y-%m-%dT%H:%M:%S%.f'', ''%Y-%m-%dT%H:%M:%S'', ''%Y-%m-%d %H:%M:%S'']"

definition parse_watermark :: "'m moments \<Rightarrow> rstr \<Rightarrow> int option" where
  "parse_watermark M t0 =
     (let t = trim t0
      in or_else (map_option (mo_instant M) (mo_rfc3339 M t))
           (or_else (find_map (\<lambda>format. mo_naive M t format) WATERMARK_FORMATS) (mo_midnight M t)))"

definition is_new :: "'m moments \<Rightarrow> InboxItem \<Rightarrow> int option \<Rightarrow> int option \<Rightarrow> bool" where
  "is_new M item modified watermark =
     (case watermark of
        None \<Rightarrow> True
      | Some w \<Rightarrow>
          (case or_else (map_option (mo_instant M) (Option.bind (ii_captured item) (mo_rfc3339 M))) modified of
             None \<Rightarrow> True | Some moment \<Rightarrow> w < moment))"

end
