(* ===== verification/Capture_Props.thy ===== *)
theory Capture_Props
  imports Capture Offline_Props Bridge_Props Samples
begin

text \<open>
  The capture planner and its note: breaking brackets is where the source's loop ends, a plan holds each
  item once, the note written for an item is read back field by field and its digest found by the rebuild
  scan, a second poll settles, and a title that nests the start of a comment forges a marker.
\<close>

section \<open>Titles\<close>

text \<open>\<open>break_pairs\<close> is where the source's loop of replacements ends: it changes a text without a pair by
  nothing, and a pass of the loop leaves its value alone.\<close>

lemma break_pairs_Cons:
  "break_pairs b (c # s) = (if c = b \<and> first_opt s = Some b then c # 32 # break_pairs b s else c # break_pairs b s)"
  by (cases s) (auto simp: first_opt_def)

lemma break_pairs_id: "\<not> str_contains [b, b] t \<Longrightarrow> break_pairs b t = t"
proof (induction t)
  case (Cons c t)
  have "\<not> str_contains [b, b] t" using Cons.prems by (auto simp: str_contains_def split: option.splits if_splits)
  moreover have "\<not> (c = b \<and> first_opt t = Some b)" using Cons.prems
    by (cases t) (auto simp: str_contains_def first_opt_def split: if_splits)
  ultimately show ?case using Cons.IH by (simp add: break_pairs_Cons)
qed simp

lemma first_replaced: "first_opt (str_replace [b, b] [b, 32, b] t) = first_opt t"
  by (subst str_replace.simps) (auto simp: first_opt_def starts_with_iff split: list.splits)

lemma break_pairs_pass: "b \<noteq> 32 \<Longrightarrow> break_pairs b (str_replace [b, b] [b, 32, b] t) = break_pairs b t"
proof (induction "length t" arbitrary: t rule: less_induct)
  case less
  show ?case
  proof (cases t)
    case (Cons c s)
    show ?thesis
    proof (cases "starts_with [b, b] t")
      case True
      then obtain r where r: "t = b # b # r" by (auto simp: starts_with_iff)
      then have "str_replace [b, b] [b, 32, b] t = b # 32 # b # str_replace [b, b] [b, 32, b] r"
        by (subst str_replace.simps) simp
      with r less first_replaced [of b r] show ?thesis by (simp add: break_pairs_Cons first_opt_def)
    next
      case False
      with Cons have "str_replace [b, b] [b, 32, b] t = c # str_replace [b, b] [b, 32, b] s"
        by (subst str_replace.simps) auto
      with Cons less first_replaced [of b s] show ?thesis by (simp add: break_pairs_Cons)
    qed
  qed (simp add: str_replace.simps)
qed

lemma split_whitespace_words: "w \<in> set (split_whitespace t) \<Longrightarrow> w \<noteq> [] \<and> (\<forall>c \<in> set w. \<not> is_whitespace c)"
  by (auto simp: split_whitespace_def dest: split_on_pieces)

lemma join_words:
  "ws \<noteq> [] \<Longrightarrow> \<forall>w \<in> set ws. w \<noteq> [] \<and> (\<forall>c \<in> set w. \<not> is_whitespace c) \<Longrightarrow>
     join_with [32] ws \<noteq> [] \<and> \<not> is_whitespace (hd (join_with [32] ws)) \<and> \<not> is_whitespace (List.last (join_with [32] ws)) \<and>
     (\<forall>c \<in> set (join_with [32] ws). is_whitespace c \<longrightarrow> c = 32)"
proof (induction "[32] :: rstr" ws rule: join_with.induct)
  case (2 w)
  then show ?case by (cases w) auto
next
  case (3 w v ws)
  then show ?case by (cases w) auto
qed simp

lemma tidy_collapsed:
  "trim (collapse_whitespace t) = collapse_whitespace t \<and> 10 \<notin> set (collapse_whitespace t) \<and> 13 \<notin> set (collapse_whitespace t)"
proof (cases "split_whitespace t")
  case Nil
  then show ?thesis by (simp add: collapse_whitespace_def)
next
  case (Cons w ws)
  have j: "collapse_whitespace t \<noteq> [] \<and> \<not> is_whitespace (hd (collapse_whitespace t)) \<and>
      \<not> is_whitespace (List.last (collapse_whitespace t)) \<and> (\<forall>c \<in> set (collapse_whitespace t). is_whitespace c \<longrightarrow> c = 32)"
    unfolding collapse_whitespace_def
  proof (rule join_words)
    show "split_whitespace t \<noteq> []" using Cons by simp
    show "\<forall>w \<in> set (split_whitespace t). w \<noteq> [] \<and> (\<forall>c \<in> set w. \<not> is_whitespace c)"
      using split_whitespace_words by blast
  qed
  have "is_whitespace 10" "is_whitespace 13" by (simp_all add: is_whitespace_def)
  then have "10 \<notin> set (collapse_whitespace t)" "13 \<notin> set (collapse_whitespace t)" using j by force+
  moreover have "trim (collapse_whitespace t) = collapse_whitespace t" using j by (intro trim_ends) simp_all
  ultimately show ?thesis by simp
qed

text \<open>A text on one line without white space around it.\<close>

definition tidy :: "rstr \<Rightarrow> bool" where
  "tidy t \<longleftrightarrow> trim t = t \<and> 10 \<notin> set t"

lemma tidy_collapse: "tidy (collapse_whitespace t)"
  using tidy_collapsed by (simp add: tidy_def)

lemma tidy_title: "tidy (capture_title t) \<and> capture_title t \<noteq> []"
proof -
  have "trim (lit ''(untitled)'') = lit ''(untitled)''" by code_simp
  then show ?thesis using tidy_collapse by (auto simp: capture_title_def tidy_def Let_def)
qed

section \<open>What a plan holds\<close>

abbreviation plan_digests :: "InboxPlan \<Rightarrow> rstr list" where
  "plan_digests plan \<equiv> map if_digest (ip_files plan)"

abbreviation new_digests :: "InboxPlan \<Rightarrow> rstr list" where
  "new_digests plan \<equiv> map ir_digest (ip_newly_imported plan)"

lemma item_digests [simp]: "if_digest (item_file X claimed item) = item_digest X item" "ir_digest (item_record X item) = item_digest X item"
  by (simp_all add: item_file_def item_record_def Let_def)

lemma plan_items_digests:
  "ir_digest ` set (ip_newly_imported (plan_items X imported vault planned claimed plan items)) =
     ir_digest ` set (ip_newly_imported plan) \<union> (item_digest X ` set items - set imported - set planned)"
  "if_digest ` set (ip_files (plan_items X imported vault planned claimed plan items)) =
     if_digest ` set (ip_files plan) \<union> (item_digest X ` set items - set imported - set planned - set vault)"
  by (induction X imported vault planned claimed plan items rule: plan_items.induct) (auto simp: Let_def)

lemma plan_items_distinct:
  "distinct (new_digests plan) \<Longrightarrow> distinct (plan_digests plan) \<Longrightarrow>
     set (new_digests plan) \<subseteq> set planned \<Longrightarrow> set (plan_digests plan) \<subseteq> set planned \<Longrightarrow>
     distinct (new_digests (plan_items X imported vault planned claimed plan items)) \<and>
     distinct (plan_digests (plan_items X imported vault planned claimed plan items))"
proof (induction X imported vault planned claimed plan items rule: plan_items.induct)
  case (2 X imported vault planned claimed plan item items)
  let ?d = "item_digest X item"
  consider "?d \<in> set imported \<or> ?d \<in> set planned" | "?d \<notin> set imported" "?d \<notin> set planned" "?d \<in> set vault"
    | "?d \<notin> set imported" "?d \<notin> set planned" "?d \<notin> set vault" by blast
  then show ?case
  proof cases
    case 1
    then show ?thesis using 2(1) [OF refl] 2(4-7) by (simp add: Let_def)
  next
    case 2
    then show ?thesis using "2.IH"(2) [OF refl] "2.prems" by (simp add: Let_def) blast
  next
    case 3
    then show ?thesis using "2.IH"(3) [OF refl] "2.prems" by (simp add: Let_def) blast
  qed
qed simp

lemma plan_items_files:
  "f \<in> set (ip_files (plan_items X imported vault planned claimed plan items)) \<Longrightarrow>
     f \<in> set (ip_files plan) \<or> (\<exists>item \<in> set items. \<exists>taken. f = item_file X taken item)"
  by (induction X imported vault planned claimed plan items rule: plan_items.induct) (fastforce simp: Let_def split: if_splits)+

lemma captured_digests:
  "ir_digest ` set (ip_newly_imported (plan_inbox_capture X items imported vault taken)) = item_digest X ` set items - set imported"
  "if_digest ` set (ip_files (plan_inbox_capture X items imported vault taken)) = item_digest X ` set items - set imported - set vault"
  by (simp_all add: plan_inbox_capture_def plan_items_digests)

lemma captured_files:
  "f \<in> set (ip_files (plan_inbox_capture X items imported vault taken)) \<Longrightarrow> \<exists>item \<in> set items. \<exists>taken. f = item_file X taken item"
  by (fastforce simp: plan_inbox_capture_def dest: plan_items_files)

section \<open>The note line by line\<close>

lemma split_once_line:
  assumes "10 \<notin> set a" and "\<not> starts_with (10 # q) (10 # s)"
  shows "split_once (10 # q) (a @ 10 # s) = map_option (\<lambda>(x, y). (a @ 10 # x, y)) (split_once (10 # q) s)"
proof -
  have "str_find (10 # q) (a @ 10 # s) = map_option (\<lambda>i. length a + Suc i) (str_find (10 # q) s)"
    using assms(1)
  proof (induction a)
    case Nil
    then show ?case using assms(2) by (simp add: o_def)
  next
    case (Cons c a)
    then show ?case by (cases "str_find (10 # q) s") auto
  qed
  then show ?thesis by (auto simp: split_once_def split: option.split)
qed

definition field_line :: "string \<Rightarrow> rstr \<Rightarrow> rstr" where
  "field_line key given = lit key @ [58] @ replicate (9 - length (lit key @ [58])) 32 @ [32] @ given"

lemma capture_field_line: "capture_field key given = field_line key given @ [10]"
  by (simp add: capture_field_def field_line_def Let_def)

lemma trim_padding: "trim (replicate n 32 @ [32] @ v) = trim v"
proof (induction n)
  case (Suc n)
  then show ?case by (simp add: trim_def trim_start_def is_whitespace_def)
qed (simp add: trim_def trim_start_def is_whitespace_def)

lemma front_fields_line:
  assumes "10 \<notin> set line" and "\<exists>c s. line = c # s \<and> c \<noteq> 45 \<and> c \<noteq> 46" and "split_once [58] line = Some (k, v)" and "rest \<noteq> []"
  shows "front_fields (line @ 10 # rest) found = front_fields rest (found @ [(trim k, trim v)])"
proof -
  have "str_find [10] (line @ 10 # rest) = Some (length line)"
    using assms(1) by (induction line) auto
  moreover have "trim_end line \<noteq> lit ''---''" "trim_end line \<noteq> lit ''...''"
  proof -
    obtain c s where l: "line = c # s" "c \<noteq> 45" "c \<noteq> 46" using assms(2) by blast
    have "trim_end line = [] \<or> hd (trim_end line) = c"
      using hd_drop_while_end [of is_whitespace line] l(1) by (auto simp: trim_end_def)
    then show "trim_end line \<noteq> lit ''---''" "trim_end line \<noteq> lit ''...''" using l by auto
  qed
  ultimately show ?thesis using assms(3,4) by (subst front_fields.simps) (simp add: Let_def)
qed

lemma front_fields_end: "front_fields (lit ''---'' @ 10 # rest) found = (found, rest)"
proof -
  have "trim_end (lit ''---'') = lit ''---''" by code_simp
  then show ?thesis by (subst front_fields.simps) (simp add: Let_def)
qed

text \<open>A key the renderer writes.\<close>

definition plain_key :: "string \<Rightarrow> bool" where
  "plain_key key \<longleftrightarrow> key \<noteq> [] \<and> list_all is_ascii_lowercase (lit key)"

lemma field_line_parts:
  assumes "plain_key key" and "tidy given"
  shows "10 \<notin> set (field_line key given)" and "\<exists>c s. field_line key given = c # s \<and> c \<noteq> 45 \<and> c \<noteq> 46"
    and "\<exists>v. split_once [58] (field_line key given) = Some (lit key, v) \<and> trim v = given"
    and "trim (lit key) = lit key"
proof -
  have k: "lit key \<noteq> []" "\<And>c. c \<in> set (lit key) \<Longrightarrow> 97 \<le> c \<and> c \<le> 122"
    using assms(1) by (auto simp: plain_key_def list_all_iff is_ascii_lowercase_def lit_def)
  show "10 \<notin> set (field_line key given)" using k(2) [of 10] assms(2) by (auto simp: field_line_def tidy_def)
  show "\<exists>c s. field_line key given = c # s \<and> c \<noteq> 45 \<and> c \<noteq> 46"
    using k(1) k(2) [of 45] k(2) [of 46] by (cases "lit key") (auto simp: field_line_def)
  show "trim (lit key) = lit key"
    by (rule trim_no_ws) (use k(2) in \<open>force simp: is_whitespace_def\<close>)
  have "58 \<notin> set (lit key)" using k(2) [of 58] by auto
  then have "split_once [58] (field_line key given) =
      Some (lit key, replicate (9 - length (lit key @ [58])) 32 @ [32] @ given)"
    unfolding field_line_def using split_once_char by simp
  then show "\<exists>v. split_once [58] (field_line key given) = Some (lit key, v) \<and> trim v = given"
    using trim_padding assms(2) by (auto simp: tidy_def)
qed

lemma front_fields_field:
  assumes "plain_key key" and "tidy given" and "rest \<noteq> []"
  shows "front_fields (capture_field key given @ rest) found = front_fields rest (found @ [(lit key, given)])"
proof -
  obtain v where v: "split_once [58] (field_line key given) = Some (lit key, v)" "trim v = given"
    using field_line_parts(3) [OF assms(1,2)] by blast
  show ?thesis
    using front_fields_line [OF field_line_parts(1,2) [OF assms(1,2)] v(1) assms(3)] v(2) field_line_parts(4) [OF assms(1,2)]
    by (simp add: capture_field_line)
qed

lemma front_fields_optional:
  assumes "plain_key key" and "\<forall>v. given = Some v \<longrightarrow> tidy v" and "rest \<noteq> []"
  shows "front_fields (optional_field key given @ rest) found =
     front_fields rest (found @ (case given of Some v \<Rightarrow> [(lit key, v)] | None \<Rightarrow> []))"
  using assms front_fields_field by (cases given) (simp_all add: optional_field_def)

section \<open>Reading a note back\<close>

text \<open>What the code relies on: a source's name and the capture time are tidy texts, a date is printed as
  one, and a digest is not empty.\<close>

definition capturable :: "('m, 'd) capture_env \<Rightarrow> ('m, 'd) CapturedItem \<Rightarrow> bool" where
  "capturable X item \<longleftrightarrow>
     tidy (ci_source item) \<and> ci_source item \<noteq> [] \<and> tidy (ce_captured_at X) \<and> ce_captured_at X \<noteq> [] \<and>
     (\<forall>day. ci_due item = Some day \<longrightarrow> tidy (format_Ymd (ce_calendar X) day) \<and> format_Ymd (ce_calendar X) day \<noteq> []) \<and>
     (\<forall>bs. length (sha256 (ce_hash X) bs) = 32)"

lemma item_digest_hex:
  assumes "c \<in> set (item_digest X item)"
  shows "is_ascii_digit c \<or> is_ascii_lowercase c"
proof -
  from assms obtain b where "c \<in> set (byte_to_hex b)" by (auto simp: item_digest_def capture_digest_def)
  moreover have "unat b < 256" using unsigned_less [of b, where ?'a = nat] by simp
  then have "unat b mod 16 < 16" "unat b div 16 < 16" by (simp_all add: less_mult_imp_div_less)
  ultimately show ?thesis by (auto simp: byte_to_hex_def hex_digit_def is_ascii_digit_def is_ascii_lowercase_def split: if_splits)
qed

lemma item_digest_length: "capturable X item \<Longrightarrow> length (item_digest X item) = 12"
  by (simp add: capturable_def item_digest_def capture_digest_def length_concat byte_to_hex_def o_def sum_list_triv)

lemma item_digest_tidy: "tidy (item_digest X item)"
proof -
  have "\<not> is_whitespace c" if "c \<in> set (item_digest X item)" for c
    using item_digest_hex [OF that] by (auto simp: is_ascii_digit_def is_ascii_lowercase_def is_whitespace_def)
  moreover have "is_whitespace 10" by (simp add: is_whitespace_def)
  ultimately show ?thesis using trim_no_ws by (auto simp: tidy_def)
qed

definition note_fields :: "('m, 'd) capture_env \<Rightarrow> ('m, 'd) CapturedItem \<Rightarrow> (rstr \<times> rstr) list" where
  "note_fields X item =
     [(lit ''source'', ci_source item), (lit ''capture'', item_digest X item), (lit ''captured'', ce_captured_at X),
      (lit ''title'', capture_title (ci_title item))] @
     (case ci_from item of Some v \<Rightarrow> [(lit ''from'', collapse_whitespace v)] | None \<Rightarrow> []) @
     (case ci_url item of Some v \<Rightarrow> [(lit ''url'', collapse_whitespace v)] | None \<Rightarrow> []) @
     (case ci_link item of Some v \<Rightarrow> [(lit ''link'', collapse_whitespace v)] | None \<Rightarrow> []) @
     (case ci_due item of Some day \<Rightarrow> [(lit ''due'', format_Ymd (ce_calendar X) day)] | None \<Rightarrow> [])"

definition item_text :: "('m, 'd) capture_env \<Rightarrow> ('m, 'd) CapturedItem \<Rightarrow> rstr" where
  "item_text X item = render_inbox_note (ce_calendar X) item (capture_title (ci_title item)) (item_digest X item) (ce_captured_at X)"

lemma plain_keys:
  "plain_key ''source''" "plain_key ''capture''" "plain_key ''captured''" "plain_key ''title''" "plain_key ''from''"
  "plain_key ''url''" "plain_key ''link''" "plain_key ''due''"
  by code_simp+

text \<open>The text after the front matter.\<close>

definition note_tail :: "('m, 'd) capture_env \<Rightarrow> ('m, 'd) CapturedItem \<Rightarrow> rstr" where
  "note_tail X item =
     [10] @ lit ''# '' @ capture_title (ci_title item) @ [10] @
     (case ci_url item of Some url \<Rightarrow> [10] @ collapse_whitespace url @ [10] | None \<Rightarrow> []) @
     (case non_empty (map_option trim (ci_body item)) of
        Some b \<Rightarrow> [10] @ b @ [10]
      | None \<Rightarrow> if ci_url item = None then [10] @ lit ''_(no content)_'' @ [10] else [])"

lemma item_text_parts:
  "item_text X item = lit ''---'' @ 10 # capture_field ''source'' (ci_source item) @ capture_field ''capture'' (item_digest X item) @
     capture_field ''captured'' (ce_captured_at X) @ capture_field ''title'' (capture_title (ci_title item)) @
     optional_field ''from'' (map_option collapse_whitespace (ci_from item)) @
     optional_field ''url'' (map_option collapse_whitespace (ci_url item)) @
     optional_field ''link'' (map_option collapse_whitespace (ci_link item)) @
     optional_field ''due'' (map_option (format_Ymd (ce_calendar X)) (ci_due item)) @ lit ''---'' @ 10 # note_tail X item"
  unfolding item_text_def render_inbox_note_def note_tail_def Let_def by (simp del: lit_simps)

lemma item_front:
  assumes "capturable X item"
  shows "split_frontmatter (item_text X item) = (note_fields X item, note_tail X item)"
proof -
  have t: "tidy (ci_source item)" "tidy (ce_captured_at X)" "tidy (item_digest X item)" "tidy (capture_title (ci_title item))"
    "\<And>f. \<forall>v. map_option collapse_whitespace f = Some v \<longrightarrow> tidy v"
    "\<forall>v. map_option (format_Ymd (ce_calendar X)) (ci_due item) = Some v \<longrightarrow> tidy v"
    using assms item_digest_tidy tidy_title tidy_collapse by (auto simp: capturable_def)
  have s: "strip_prefix (lit ''---'') (item_text X item) = Some (drop 3 (item_text X item))"
    "str_find [10] (drop 3 (item_text X item)) = Some 0"
    by (simp_all add: item_text_parts strip_prefix_def starts_with_iff)
  have "split_frontmatter (item_text X item) = front_fields (drop 4 (item_text X item)) []"
    using s by (simp add: split_frontmatter_def)
  also have "\<dots> = (note_fields X item, note_tail X item)"
    unfolding item_text_parts
    by (cases "ci_from item"; cases "ci_url item"; cases "ci_link item"; cases "ci_due item")
      (use t in \<open>simp_all add: optional_field_def front_fields_field plain_keys tidy_collapse front_fields_end note_fields_def
        del: lit_simps\<close>)
  finally show ?thesis .
qed

lemma tidy_ends: "tidy t \<Longrightarrow> t \<noteq> [] \<Longrightarrow> \<not> is_whitespace (hd t) \<and> \<not> is_whitespace (List.last t)"
  by (metis tidy_def trim_ends_iff)

lemma tidy_line: "tidy t \<Longrightarrow> t = [] \<or> List.last t \<noteq> 13"
  using tidy_ends [of t] by (auto simp: is_whitespace_def)

lemma note_tail_lines:
  "\<exists>rest. str_lines (note_tail X item) = [] # (lit ''# '' @ capture_title (ci_title item)) # rest"
proof -
  let ?title = "capture_title (ci_title item)"
  have "str_lines ([] @ [10] @ (lit ''# '' @ ?title) @ [10] @ r) = [] # (lit ''# '' @ ?title) # str_lines r" for r
    using tidy_title [of "ci_title item"] tidy_line [of ?title]
    by (subst str_lines_line, simp, simp, subst str_lines_line) (auto simp: tidy_def)
  then show ?thesis unfolding note_tail_def by (simp del: lit_simps)
qed

lemma heading_trims:
  assumes "tidy t" and "t \<noteq> []"
  shows "trim (lit ''# '' @ t) = lit ''# '' @ t" and "trim (trim_start_matches (\<lambda>c. c = 35) (32 # t)) = t"
proof -
  show "trim (lit ''# '' @ t) = lit ''# '' @ t"
    by (rule trim_ends) (use assms tidy_ends in \<open>auto simp: is_whitespace_def\<close>)
  have "trim (32 # t) = trim t" by (simp add: trim_def trim_start_def is_whitespace_def)
  then show "trim (trim_start_matches (\<lambda>c. c = 35) (32 # t)) = t"
    using assms by (simp add: trim_start_matches_def tidy_def)
qed

lemma capture_line_found:
  assumes "tidy digest" and "digest \<noteq> []"
  shows "non_empty (map_option trim (strip_prefix (lit ''capture:'') (field_line ''capture'' digest))) = Some digest"
proof -
  have "field_line ''capture'' digest = lit ''capture:'' @ replicate 1 32 @ [32] @ digest" by (simp add: field_line_def)
  then have "strip_prefix (lit ''capture:'') (field_line ''capture'' digest) = Some (replicate 1 32 @ [32] @ digest)"
    by (simp only: strip_prefix_append)
  moreover have "trim (replicate 1 32 @ [32] @ digest) = digest" using assms(1) unfolding trim_padding tidy_def by simp
  ultimately show ?thesis using assms(2) by (simp add: non_empty_def)
qed

text \<open>A text that ends a line.\<close>

definition ends_line :: "rstr \<Rightarrow> bool" where
  "ends_line t \<longleftrightarrow> (\<exists>a. t = a @ [10])"

lemma ends_line_field: "ends_line (t @ capture_field key v)"
  by (simp add: ends_line_def capture_field_line flip: append_assoc)

lemma ends_line_optional: "ends_line t \<Longrightarrow> ends_line (t @ optional_field key v)"
  using ends_line_field by (cases v) (simp_all add: optional_field_def)

lemma digest_of_lines:
  assumes "10 \<notin> set l1" and "10 \<notin> set l2" and "l1 = [] \<or> List.last l1 \<noteq> 13" and "l2 = [] \<or> List.last l2 \<noteq> 13"
    and "\<not> starts_with (10 # lit ''---'') (10 # rest)" and "\<not> starts_with (10 # lit ''---'') (10 # l2 @ 10 # rest)"
    and "str_contains (10 # lit ''---'') rest" and "strip_prefix (lit ''capture:'') l1 = None"
    and "non_empty (map_option trim (strip_prefix (lit ''capture:'') l2)) = Some digest"
  shows "inbox_note_digest ((lit ''---'' @ [10]) @ l1 @ 10 # l2 @ 10 # rest) = Some digest"
proof -
  obtain x y where xy: "split_once (10 # lit ''---'') rest = Some (x, y)"
    using assms(7) by (auto simp: str_contains_def split_once_def)
  have split: "split_once (10 # lit ''---'') (l1 @ 10 # l2 @ 10 # rest) = Some (l1 @ 10 # l2 @ 10 # x, y)"
    unfolding split_once_line [OF assms(1,6)] split_once_line [OF assms(2,5)] xy by simp
  have lines: "str_lines (l1 @ [10] @ l2 @ [10] @ x) = l1 # l2 # str_lines x"
    unfolding str_lines_line [OF assms(1,3)] str_lines_line [OF assms(2,4)] ..
  have "non_empty None = None" by (simp add: non_empty_def)
  then show ?thesis
    unfolding inbox_note_digest_def strip_prefix_append using split lines assms(8,9) by (simp del: lit_simps)
qed

lemma item_text_digest:
  assumes "capturable X item"
  shows "inbox_note_digest (item_text X item) = Some (item_digest X item)"
proof -
  let ?p = "10 # lit ''---''" and ?l1 = "field_line ''source'' (ci_source item)" and ?l2 = "field_line ''capture'' (item_digest X item)"
  let ?title = "capture_field ''title'' (capture_title (ci_title item))"
  let ?front = "(((([] @ capture_field ''captured'' (ce_captured_at X)) @ ?title) @
      optional_field ''from'' (map_option collapse_whitespace (ci_from item))) @
      optional_field ''url'' (map_option collapse_whitespace (ci_url item))) @
      optional_field ''link'' (map_option collapse_whitespace (ci_link item))"
  let ?rest = "(?front @ optional_field ''due'' (map_option (format_Ymd (ce_calendar X)) (ci_due item))) @ lit ''---'' @ 10 # note_tail X item"
  have d: "item_digest X item \<noteq> []" using item_digest_length [OF assms] by auto
  have src: "tidy (ci_source item)" "ci_source item \<noteq> []" using assms by (simp_all add: capturable_def)
  have t: "item_text X item = (lit ''---'' @ [10]) @ ?l1 @ 10 # ?l2 @ 10 # ?rest"
    by (simp add: item_text_parts capture_field_line del: lit_simps)
  have "ends_line (?front @ optional_field ''due'' (map_option (format_Ymd (ce_calendar X)) (ci_due item)))"
    by (intro ends_line_optional ends_line_field)
  then obtain a where "?rest = a @ ?p @ 10 # note_tail X item" by (auto simp: ends_line_def simp del: lit_simps)
  then have "str_contains ?p ?rest" unfolding str_contains_iff by blast
  then have contains: "str_contains (10 # lit ''---'') ?rest" .
  have n: "10 \<notin> set ?l1" "10 \<notin> set ?l2"
    using field_line_parts(1) [OF plain_keys(1) src(1)] field_line_parts(1) [OF plain_keys(2) item_digest_tidy] .
  have c: "\<not> starts_with ?p (10 # ?rest)" "\<not> starts_with ?p (10 # ?l2 @ 10 # ?rest)"
    by (simp_all add: capture_field_def field_line_def Let_def)
  have e: "?l1 = [] \<or> List.last ?l1 \<noteq> 13" "?l2 = [] \<or> List.last ?l2 \<noteq> 13"
    using tidy_line [OF src(1)] src(2) tidy_line [OF item_digest_tidy] d by (auto simp: field_line_def)
  have "strip_prefix (lit ''capture:'') ?l1 = None" by (simp add: strip_prefix_def field_line_def)
  from digest_of_lines [OF n e c contains this capture_line_found [OF item_digest_tidy d]] show ?thesis unfolding t .
qed

lemma title_reads_back:
  assumes "capturable X item"
  shows "ii_title (parse_inbox_note path (item_text X item)) = capture_title (ci_title item)"
proof -
  let ?title = "capture_title (ci_title item)"
  obtain rest where l: "str_lines (note_tail X item) = [] # (lit ''# '' @ ?title) # rest" using note_tail_lines by blast
  have h: "trim (lit ''# '' @ ?title) = lit ''# '' @ ?title" "trim (trim_start_matches (\<lambda>c. c = 35) (32 # ?title)) = ?title"
    using heading_trims tidy_title by blast+
  have "strip_prefix [35] (lit ''# '' @ ?title) = Some (32 # ?title)" by (simp add: strip_prefix_def)
  then show ?thesis
    using h l item_front [OF assms] tidy_title [of "ci_title item"]
    by (simp add: parse_inbox_note_def Let_def non_empty_def starts_with_append del: lit_simps)
qed


lemma fields_read_back:
  assumes "capturable X item"
  shows "front_field (note_fields X item) ''source'' = Some (ci_source item)"
    and "front_field (note_fields X item) ''capture'' = Some (item_digest X item)"
    and "front_field (note_fields X item) ''captured'' = Some (ce_captured_at X)"
    and "front_field (note_fields X item) ''from'' = non_empty (map_option collapse_whitespace (ci_from item))"
    and "front_field (note_fields X item) ''url'' = non_empty (map_option collapse_whitespace (ci_url item))"
    and "front_field (note_fields X item) ''link'' = non_empty (map_option collapse_whitespace (ci_link item))"
    and "front_field (note_fields X item) ''due'' = map_option (format_Ymd (ce_calendar X)) (ci_due item)"
proof -
  have d: "item_digest X item \<noteq> []" using item_digest_length [OF assms] by auto
  note [simp] = d
  show "front_field (note_fields X item) ''source'' = Some (ci_source item)"
    "front_field (note_fields X item) ''capture'' = Some (item_digest X item)"
    "front_field (note_fields X item) ''captured'' = Some (ce_captured_at X)"
    using assms by (simp_all add: front_field_def note_fields_def non_empty_def capturable_def)
  show "front_field (note_fields X item) ''from'' = non_empty (map_option collapse_whitespace (ci_from item))"
    "front_field (note_fields X item) ''url'' = non_empty (map_option collapse_whitespace (ci_url item))"
    "front_field (note_fields X item) ''link'' = non_empty (map_option collapse_whitespace (ci_link item))"
    "front_field (note_fields X item) ''due'' = map_option (format_Ymd (ce_calendar X)) (ci_due item)"
    using assms
    by (cases "ci_from item"; cases "ci_url item"; cases "ci_link item"; cases "ci_due item";
        simp add: front_field_def note_fields_def non_empty_def capturable_def)+
qed

lemma item_file_content: "if_content (item_file X claimed item) = item_text X item"
  by (simp add: item_file_def item_text_def Let_def)

lemma plan_files_digest:
  assumes "\<forall>item \<in> set items. capturable X item" and "f \<in> set (ip_files (plan_inbox_capture X items imported vault taken))"
  shows "inbox_note_digest (if_content f) = Some (if_digest f)"
  using captured_files [OF assms(2)] assms(1) by (auto simp: item_file_content item_text_digest)

lemma no_files_iff: "ip_files (plan_inbox_capture X items imported vault taken) = [] \<longleftrightarrow> item_digest X ` set items \<subseteq> set imported \<union> set vault"
proof -
  have "ip_files (plan_inbox_capture X items imported vault taken) = [] \<longleftrightarrow> item_digest X ` set items - set imported - set vault = {}"
    by (simp flip: captured_digests(2) [of X items imported vault taken])
  then show ?thesis by auto
qed

lemma no_records_iff: "ip_newly_imported (plan_inbox_capture X items imported vault taken) = [] \<longleftrightarrow> item_digest X ` set items \<subseteq> set imported"
proof -
  have "ip_newly_imported (plan_inbox_capture X items imported vault taken) = [] \<longleftrightarrow> item_digest X ` set items - set imported = {}"
    by (simp flip: captured_digests(1) [of X items imported vault taken])
  then show ?thesis by auto
qed

section \<open>A forged marker\<close>

text \<open>Characters of a digest.\<close>

definition hexish :: "rstr \<Rightarrow> bool" where
  "hexish forged \<longleftrightarrow> forged \<noteq> [] \<and> byte_len forged \<le> 64 \<and> list_all (\<lambda>c. is_ascii_digit c \<or> is_ascii_lowercase c) forged"

definition forging_title :: "rstr \<Rightarrow> rstr" where
  "forging_title forged = lit ''<<!--!--inbox:'' @ forged @ lit ''-->''"

lemma hexish_chars: "hexish forged \<Longrightarrow> c \<in> set forged \<Longrightarrow> 48 \<le> c \<and> c \<le> 57 \<or> 97 \<le> c \<and> c \<le> 122"
  by (auto simp: hexish_def list_all_iff is_ascii_digit_def is_ascii_lowercase_def)

lemma str_replace_absent: "c \<notin> set s \<Longrightarrow> str_replace (c # p) r s = s"
proof (induction s)
  case (Cons d s)
  then show ?case by (subst str_replace.simps) auto
qed (simp add: str_replace.simps)

lemma split_whitespace_word: "w \<noteq> [] \<Longrightarrow> \<forall>c \<in> set w. \<not> is_whitespace c \<Longrightarrow> split_whitespace w = [w]"
  using split_on_free [of w is_whitespace] by (simp add: split_whitespace_def)

lemma forged_title:
  assumes "hexish forged"
  shows "capture_title (forging_title forged) = INBOX_MARKER_PREFIX @ forged @ INBOX_MARKER_SUFFIX"
proof -
  let ?t = "INBOX_MARKER_PREFIX @ forged @ INBOX_MARKER_SUFFIX"
  have ids: "\<not> is_whitespace c" "c \<noteq> 60" "c \<noteq> 91" "c \<noteq> 93" if "c \<in> set forged" for c
    using hexish_chars [OF assms that] by (auto simp: is_whitespace_def)
  have "str_replace (lit ''<!--'') [] (lit ''!--inbox:'' @ forged @ lit ''-->'') = lit ''!--inbox:'' @ forged @ lit ''-->''"
    using ids(2) str_replace_absent [of 60 "lit ''!--inbox:'' @ forged @ lit ''-->''" "lit ''!--''" "[]"] by auto
  then have "str_replace (lit ''<!--'') [] (forging_title forged) = ?t"
    unfolding forging_title_def INBOX_MARKER_PREFIX_def INBOX_MARKER_SUFFIX_def
    by (subst str_replace.simps) (simp, subst str_replace.simps, simp)
  moreover have ws: "\<forall>c \<in> set ?t. \<not> is_whitespace c" "91 \<notin> set ?t" "93 \<notin> set ?t" "?t \<noteq> []"
    using ids by (auto simp: INBOX_MARKER_PREFIX_def INBOX_MARKER_SUFFIX_def is_whitespace_def)
  moreover have "break_pairs b ?t = ?t" if "b \<notin> set ?t" for b
    proof (rule break_pairs_id, rule notI)
    assume "str_contains [b, b] ?t"
    then obtain u v where "?t = u @ [b, b] @ v" unfolding str_contains_iff by blast
    then have "b \<in> set ?t" by simp
    then show False using that by blast
  qed
  ultimately show ?thesis
    using split_whitespace_word [OF ws(4,1)]
    by (simp add: capture_title_def break_wikilinks_def collapse_whitespace_def Let_def)
qed

lemma split_str_none: "split_once p s = None \<Longrightarrow> split_str p s = [s]"
  by (subst split_str.simps) simp

lemma split_str_some: "p \<noteq> [] \<Longrightarrow> split_once p s = Some (x, y) \<Longrightarrow> split_str p s = x # split_str p y"
  by (subst split_str.simps) simp

lemma split_str_pieces: "split_str p s \<noteq> []"
  by (subst split_str.simps) (auto split: option.splits)

text \<open>A separator that begins with a character it does not repeat is found wherever it stands.\<close>

lemma split_str_at:
  assumes "c \<notin> set q"
  shows "\<exists>xs. xs \<noteq> [] \<and> split_str (c # q) (a @ (c # q) @ s) = xs @ split_str (c # q) s"
proof (induction "length a" arbitrary: a rule: less_induct)
  case less
  let ?p = "c # q" and ?s = "a @ (c # q) @ s"
  have "str_contains ?p ?s" unfolding str_contains_iff by blast
  then obtain i where i: "str_find ?p ?s = Some i" by (auto simp: str_contains_def)
  have split: "split_str ?p ?s = take i ?s # split_str ?p (drop (i + length ?p) ?s)"
    using i by (intro split_str_some) (simp_all add: split_once_def)
  have "starts_with ?p (drop (length a) ?s)" by (simp add: starts_with_iff)
  then have le: "i \<le> length a" using str_find_least [OF i] by (meson not_le)
  show ?case
  proof (cases "i = length a")
    case True
    then show ?thesis using split by (intro exI [of _ "[take i ?s]"]) simp
  next
    case False
    have after: "i + length ?p \<le> length a"
    proof (rule ccontr)
      assume "\<not> i + length ?p \<le> length a"
      then obtain k where k: "length a = i + k" "k < length ?p" "0 < k"
        using le False by (metis add_less_cancel_left le_add_diff_inverse not_le zero_less_diff le_neq_implies_less)
      have "?s ! (i + k) = ?p ! k" using starts_with_nth(2) [OF str_find_sound [OF i] k(2)] .
      moreover have "?s ! (i + k) = c" using k(1) by (simp add: nth_append)
      moreover have "?p ! k \<in> set q" using k(2,3) by (cases k) auto
      ultimately show False using assms by simp
    qed
    let ?a = "drop (i + length ?p) a"
    have "length ?a < length a" using after by simp
    then obtain xs where "split_str ?p (?a @ ?p @ s) = xs @ split_str ?p s" using less by blast
    then show ?thesis using split after by (intro exI [of _ "take i ?s # xs"]) (simp del: length_Cons)
  qed
qed

lemma split_str_hd:
  assumes "c \<notin> set a"
  shows "\<exists>x. hd (split_str (c # q) (a @ s)) = a @ x"
proof -
  consider "split_once (c # q) (a @ s) = None" | x y where "split_once (c # q) (a @ s) = Some (x, y)" by fastforce
  then show ?thesis
  proof cases
    case 1
    then show ?thesis by (simp add: split_str_none)
  next
    case 2
    then obtain i where i: "str_find (c # q) (a @ s) = Some i" "x = take i (a @ s)" by (auto simp: split_once_def split: option.splits)
    have "length a \<le> i"
    proof (rule ccontr)
      assume "\<not> length a \<le> i"
      moreover from this have "(a @ s) ! i = c" using starts_with_nth(2) [OF str_find_sound [OF i(1)], of 0] by simp
      ultimately show False using assms by (auto simp: nth_append)
    qed
    then show ?thesis using 2 i(2) by (simp add: split_str_some)
  qed
qed

lemma split_str_hd_exact:
  assumes "c \<notin> set a"
  shows "hd (split_str (c # q) (a @ (c # q) @ s)) = a"
proof -
  have "split_once (c # q) (a @ (c # q) @ s) = Some (a, s)"
  proof (rule split_once_first)
    fix j assume "j < length a"
    then have "drop j (a @ (c # q) @ s) = a ! j # drop (Suc j) a @ (c # q) @ s" by (simp add: Cons_nth_drop_Suc)
    moreover have "a ! j \<noteq> c" using \<open>j < length a\<close> assms by auto
    ultimately show "\<not> starts_with (c # q) (drop j (a @ (c # q) @ s))" by simp
  qed simp
  then show ?thesis by (simp add: split_str_some)
qed

lemma marker_scanned:
  assumes "hexish forged"
  shows "forged \<in> set (scan_triage_log_markers (a @ INBOX_MARKER_PREFIX @ forged @ INBOX_MARKER_SUFFIX @ b))"
proof -
  let ?p = "60 # lit ''!--inbox:''" and ?e = "45 # lit ''->''"
  let ?tail = "forged @ ?e @ b"
  have pe: "INBOX_MARKER_PREFIX = ?p" "INBOX_MARKER_SUFFIX = ?e" by (simp_all add: INBOX_MARKER_PREFIX_def INBOX_MARKER_SUFFIX_def)
  have c: "45 \<notin> set forged" "60 \<notin> set (forged @ ?e)" "10 \<notin> set forged" "\<And>c. c \<in> set forged \<Longrightarrow> \<not> is_whitespace c"
    using hexish_chars [OF assms] by (auto simp: is_whitespace_def dest: hexish_chars [OF assms])
  obtain xs where xs: "xs \<noteq> []" "split_str ?p (a @ ?p @ ?tail) = xs @ split_str ?p ?tail"
    using split_str_at [of 60 "lit ''!--inbox:''" a ?tail] by auto
  obtain x where x: "hd (split_str ?p ?tail) = (forged @ ?e) @ x" using split_str_hd [OF c(2), of "lit ''!--inbox:''" b] by auto
  have m: "hd (split_str ?p ?tail) \<in> set (drop 1 (split_str ?p (a @ ?p @ ?tail)))"
    unfolding xs(2) using xs(1) split_str_pieces [of ?p ?tail] by (cases xs) auto
  have t: "trim (hd (split_str ?e (hd (split_str ?p ?tail)))) = forged"
    unfolding x append_assoc split_str_hd_exact [OF c(1)] by (rule trim_no_ws) (rule c(4))
  have "forged \<in> set (map (\<lambda>chunk. trim (hd (split_str ?e chunk))) (drop 1 (split_str ?p (a @ ?p @ ?tail))))"
    unfolding set_map using imageI [OF m, of "\<lambda>chunk. trim (hd (split_str ?e chunk))"] unfolding t .
  then show ?thesis
    using assms c(3) unfolding scan_triage_log_markers_def pe hexish_def set_filter append_assoc by blast
qed

section \<open>Evaluated instances\<close>

definition sample_moments :: "int moments" where
  "sample_moments = \<lparr>mo_instant = (\<lambda>m. m), mo_stamp = (\<lambda>m. lit ''2026-07-20-1000''), mo_rfc3339 = (\<lambda>t. None),
     mo_naive = (\<lambda>t format. None), mo_midnight = (\<lambda>t. None)\<rparr>"

definition sample_capture :: "(int, int \<times> nat \<times> nat) capture_env" where
  "sample_capture =
     \<lparr>ce_hash = ascii_env\<lparr>sha256 := (\<lambda>bs. take 32 (bs @ replicate 32 7))\<rparr>, ce_moments = sample_moments, ce_calendar = gregorian,
      ce_account = lit ''me'', ce_dir = lit ''inbox'', ce_captured_at = lit ''2026-07-20T10:00:00Z''\<rparr>"

definition sample_captured :: "(int, int \<times> nat \<times> nat) CapturedItem" where
  "sample_captured =
     \<lparr>ci_source = lit ''gtasks'', ci_external_id = lit ''x1'', ci_title = lit ''  Call [[Ana]]  back'', ci_from = None,
      ci_url = Some (lit ''https://a.b''), ci_link = None, ci_body = Some (lit '' --- ''), ci_occurred_at = Some 5,
      ci_due = Some (2026, 7, 20)\<rparr>"

lemma sample_capturable: "capturable sample_capture sample_captured"
proof -
  have "tidy (ci_source sample_captured) \<and> ci_source sample_captured \<noteq> []" by code_simp
  moreover have "tidy (ce_captured_at sample_capture) \<and> ce_captured_at sample_capture \<noteq> []" by code_simp
  moreover have "tidy (format_Ymd (ce_calendar sample_capture) (2026, 7, 20)) \<and> format_Ymd (ce_calendar sample_capture) (2026, 7, 20) \<noteq> []"
    by code_simp
  moreover have "ci_due sample_captured = Some (2026, 7, 20)" by (simp add: sample_captured_def)
  ultimately show ?thesis by (simp add: capturable_def sample_capture_def min_def)
qed

lemma sample_digest: "item_digest sample_capture sample_captured = lit ''6d6500677461'' \<and> hexish (lit ''6d6500677461'')"
proof
  show "item_digest sample_capture sample_captured = lit ''6d6500677461''"
    by (simp add: item_digest_def capture_digest_def sample_capture_def sample_captured_def, code_simp)
  show "hexish (lit ''6d6500677461'')" by code_simp
qed

section \<open>Properties\<close>

text \<open>C37: A capture is planned once.  The records of a plan are those of the items not imported before, each
  once however often the item was fetched, and the files are those of the items that are not in the vault
  either, each once.\<close>

theorem capture_once:
  "distinct (map ir_digest (ip_newly_imported (plan_inbox_capture X items imported vault taken))) \<and>
   set (map ir_digest (ip_newly_imported (plan_inbox_capture X items imported vault taken))) =
     item_digest X ` set items - set imported \<and>
   distinct (map if_digest (ip_files (plan_inbox_capture X items imported vault taken))) \<and>
   set (map if_digest (ip_files (plan_inbox_capture X items imported vault taken))) =
     item_digest X ` set items - set imported - set vault"
  unfolding set_map captured_digests unfolding plan_inbox_capture_def
  using plan_items_distinct [of "\<lparr>ip_files = [], ip_newly_imported = []\<rparr>" "[]"] by simp

text \<open>C39: The note of a captured item is read back.  Whatever the title, the sender and the body hold, the reader
  finds the tidied title, the source, the capture time, the due date and the tidied links that were written, and
  the digest, which the scan of the vault finds as well; and the body begins after the front matter.\<close>

theorem capture_note_reads_back:
  assumes "capturable X item"
  shows "inbox_note_digest (if_content (item_file X claimed item)) = Some (item_digest X item) \<and>
     (let read = parse_inbox_note path (if_content (item_file X claimed item))
      in ii_title read = capture_title (ci_title item) \<and> ii_source read = Some (ci_source item) \<and>
         ii_digest read = Some (item_digest X item) \<and> ii_captured read = Some (ce_captured_at X) \<and>
         ii_from read = non_empty (map_option collapse_whitespace (ci_from item)) \<and>
         ii_url read = non_empty (map_option collapse_whitespace (ci_url item)) \<and>
         ii_link read = non_empty (map_option collapse_whitespace (ci_link item)) \<and>
         ii_due read = map_option (format_Ymd (ce_calendar X)) (ci_due item) \<and>
         ii_body read = note_tail X item)"
  using title_reads_back [OF assms, of path] item_text_digest [OF assms] fields_read_back [OF assms] item_front [OF assms]
  by (simp add: item_file_content parse_inbox_note_def Let_def)

theorem capture_note_reads_back_witness:
  "ii_title (parse_inbox_note (lit ''inbox/a.md'') (if_content (item_file sample_capture [] sample_captured))) = lit ''Call [ [Ana] ] back'' \<and>
   inbox_note_digest (if_content (item_file sample_capture [] sample_captured)) = Some (lit ''6d6500677461'')"
proof -
  have "capture_title (ci_title sample_captured) = lit ''Call [ [Ana] ] back''" by code_simp
  then show ?thesis
    using capture_note_reads_back [OF sample_capturable, of "[]" "lit ''inbox/a.md''"] sample_digest by (simp add: Let_def)
qed

text \<open>C38: A poll that repeats another adds nothing, even when the state was lost.  Once the records of a plan are in
  the state, planning the same items again gives an empty plan; and when only its notes were written before a crash,
  the digests read back from their front matter keep any further plan of these items from writing a file.\<close>

theorem capture_settles:
  assumes "\<forall>item \<in> set items. capturable X item"
    and "plan = plan_inbox_capture X items imported vault taken"
  shows "(set imported \<union> ir_digest ` set (ip_newly_imported plan) \<subseteq> set imported' \<longrightarrow>
       inbox_plan_is_empty (plan_inbox_capture X items imported' vault' taken')) \<and>
     (set imported \<union> set vault \<union> {d. \<exists>f \<in> set (ip_files plan). inbox_note_digest (if_content f) = Some d} \<subseteq> set imported'' \<union> set vault'' \<longrightarrow>
       ip_files (plan_inbox_capture X items imported'' vault'' taken'') = [])"
proof -
  have "{d. \<exists>f \<in> set (ip_files plan). inbox_note_digest (if_content f) = Some d} = if_digest ` set (ip_files plan)"
    using plan_files_digest [OF assms(1)] assms(2) by force
  then show ?thesis
    unfolding inbox_plan_is_empty_def no_files_iff no_records_iff assms(2) captured_digests by auto
qed

theorem capture_settles_witness:
  "inbox_plan_is_empty (plan_inbox_capture sample_capture [sample_captured]
     (map ir_digest (ip_newly_imported (plan_inbox_capture sample_capture [sample_captured] [] [] []))) [] []) \<and>
   ip_files (plan_inbox_capture sample_capture [sample_captured] [] [lit ''6d6500677461''] []) = []"
proof -
  let ?plan = "plan_inbox_capture sample_capture [sample_captured] [] [] []"
  have d: "{d. \<exists>f \<in> set (ip_files ?plan). inbox_note_digest (if_content f) = Some d} \<subseteq> {lit ''6d6500677461''}"
    using captured_files [of _ sample_capture "[sample_captured]" "[]" "[]" "[]"] item_text_digest [OF sample_capturable] sample_digest
    by (fastforce simp: item_file_content)
  have "\<forall>item \<in> set [sample_captured]. capturable sample_capture item" using sample_capturable by simp
  from capture_settles [OF this refl, of "[]" "[]" "[]" "map ir_digest (ip_newly_imported ?plan)" "[]" "[]" "[]" "[lit ''6d6500677461'']" "[]"] d
  show ?thesis by simp
qed

text \<open>C40: A hostile title forges a marker.  The one pass that strips the start of a comment leaves one where the
  title nests them, so triaging such an item writes another item's digest into the log, and an item of that
  digest is never written to a note.\<close>

theorem hostile_title_hides_item:
  assumes "hexish forged"
    and "log = a @ triage_log_line day (capture_title (forging_title forged)) destination digest @ b"
    and "set (scan_triage_log_markers log) \<subseteq> set vault"
  shows "forged \<in> set (scan_triage_log_markers log) \<and>
     (\<forall>f \<in> set (ip_files (plan_inbox_capture X items imported vault taken)). if_digest f \<noteq> forged)"
proof -
  have "\<exists>x y. triage_log_line day (capture_title (forging_title forged)) destination digest =
      x @ INBOX_MARKER_PREFIX @ forged @ INBOX_MARKER_SUFFIX @ y"
  proof (cases digest)
    case None
    then show ?thesis unfolding triage_log_line_def forged_title [OF assms(1)]
      by (intro exI [of _ "lit ''- '' @ day @ DOT"] exI [of _ "ARROW @ destination"]) simp
  next
    case (Some d)
    then show ?thesis unfolding triage_log_line_def forged_title [OF assms(1)]
      by (intro exI [of _ "lit ''- '' @ day @ DOT"] exI [of _ "ARROW @ destination @ MARKER @ d @ lit ''-->''"]) simp
  qed
  then obtain x y where "log = (a @ x) @ INBOX_MARKER_PREFIX @ forged @ INBOX_MARKER_SUFFIX @ y @ b"
    using assms(2) by (auto simp del: lit_simps)
  then have "forged \<in> set (scan_triage_log_markers log)" using marker_scanned [OF assms(1)] by blast
  moreover from this assms(3) have "forged \<in> set vault" by blast
  ultimately show ?thesis using captured_digests(2) [of X items imported vault taken] by blast
qed

theorem hostile_title_hides_item_witness:
  "lit ''6d6500677461'' \<in> set (scan_triage_log_markers
     (triage_log_line (lit ''2026-07-20'') (capture_title (forging_title (lit ''6d6500677461''))) (lit ''archive'') None)) \<and>
   ip_files (plan_inbox_capture sample_capture [sample_captured] [] (scan_triage_log_markers
     (triage_log_line (lit ''2026-07-20'') (capture_title (forging_title (lit ''6d6500677461''))) (lit ''archive'') None)) []) = []"
proof -
  let ?log = "triage_log_line (lit ''2026-07-20'') (capture_title (forging_title (lit ''6d6500677461''))) (lit ''archive'') None"
  let ?files = "ip_files (plan_inbox_capture sample_capture [sample_captured] [] (scan_triage_log_markers ?log) [])"
  have "?log = [] @ ?log @ []" by simp
  from hostile_title_hides_item [OF conjunct2 [OF sample_digest] this subset_refl, of sample_capture "[sample_captured]" "[]" "[]"]
  have h: "lit ''6d6500677461'' \<in> set (scan_triage_log_markers ?log)" "\<And>f. f \<in> set ?files \<Longrightarrow> if_digest f \<noteq> lit ''6d6500677461''" by blast+
  have "if_digest f = lit ''6d6500677461''" if "f \<in> set ?files" for f
    using captured_files [OF that] sample_digest by auto
  then show ?thesis using h by (metis all_not_in_conv set_empty)
qed

end
