(* ===== verification/Spec2Isabelle.thy ===== *)
theory Spec2Isabelle
  imports Apply_Props Envelope Inbox Dates_Props Reminder_Props Bridge_Props Offline_Props Mirror_Props
    Search_Props Client_Props Day_Plan_Props Backlog_Props Calendar_Props Reminder_Index_Props
    Desk_Blocks_Props Vault_Scan_Props Capture_Props
begin

text \<open>
  A verification library of Thock, a note-taking application built on a fork of an editor.  It models
  the code of Thock's own crates that decides what happens to a user's notes, and proves what that
  code promises: no note is lost, an edit that is repeated does no harm, texts that are written are
  read back, and, where the code does otherwise, in exactly which case.

  \<^bold>\<open>The program's parts.\<close>  A vault is a folder of Markdown notes.  Three programs write it.
  The \<^emph>\<open>desk\<close> (\<open>crates/thock\<close>) is the application itself.  The \<^emph>\<open>phone\<close> sends sealed write documents through a
  service; the desk opens them, applies them to the files and sends sealed snapshots back; the rules
  both sides share are the \<^emph>\<open>sync core\<close> (\<open>crates/thock-sync-core\<close>).  The \<^emph>\<open>bridge\<close> (\<open>crates/thock-bridge\<close>)
  lets a coding agent on another machine search, read and append to the vault: a stdio client speaks
  JSON-RPC with the agent and HTTP with the desk, and keeps a queue and a cache for when the desk is
  away.

  \<^bold>\<open>Sync core.\<close>
  \<^item> \<open>Write\<close> is \<open>write.rs\<close>: the write document, its validation and \<open>parse_write\<close>.
  \<^item> \<open>Inline\<close>, \<open>Line_Hash\<close> and \<open>Document\<close> are \<open>markdown.rs\<close>: inline Markdown, the identity of a line, the note
    as lines with headings, sections and protected ranges.  \<open>Document_Props\<close> and \<open>Insertion\<close> hold what
    splitting, joining, scanning and inserting keep.
  \<^item> \<open>Apply\<close> is \<open>apply.rs\<close>, \<open>effect_present\<close> and \<open>apply\<close> for every operation; \<open>Apply_Lemmas\<close> and \<open>Apply_Props\<close>
    show that replays change nothing and that a block that is moved is neither lost nor copied.
  \<^item> \<open>Utf8\<close>, \<open>Utf8_Lossy\<close>, \<open>Paths\<close> (\<open>thock_sync_core.rs\<close>), \<open>Envelope\<close> (\<open>envelope.rs\<close>), \<open>Inbox\<close> (\<open>inbox.rs\<close>), \<open>Dates\<close>
    with \<open>Dates_Props\<close> (\<open>dates.rs\<close>).
  \<^item> \<open>Reminder\<close>, \<open>Reminder_Edit\<close>, \<open>Reminder_Scan\<close>, \<open>Reminder_Text\<close> and \<open>Reminder_Props\<close> are \<open>reminder.rs\<close>:
    tokens, dues, the lines that are reminders, and the edits of a home line.

  \<^bold>\<open>Bridge.\<close>
  \<^item> \<open>Bridge_Rules\<close> with \<open>Bridge_Props\<close> (\<open>rules.rs\<close>): paths, facts and inbox lines.
  \<^item> \<open>Bridge_Http\<close> with \<open>Bridge_Http_Props\<close> (\<open>http.rs\<close> and the request reader of the desk): percent coding,
    heads, bodies, chunks.
  \<^item> \<open>Offline\<close> with \<open>Offline_Props\<close> (\<open>offline.rs\<close>): the outbox refines a queue of calls; the cache.
  \<^item> \<open>Mirror\<close> with \<open>Mirror_Props\<close> (\<open>mirror.rs\<close>), \<open>Search_Index\<close> with \<open>Search_Props\<close> (\<open>search.rs\<close>), \<open>Rpc\<close> with
    \<open>Rpc_Props\<close> (\<open>rpc.rs\<close>), \<open>Pairing\<close> (\<open>thock_bridge.rs\<close>), \<open>Client\<close> with \<open>Client_Props\<close> (\<open>main.rs\<close>): the proxy, which
    composes the rules, the HTTP, the outbox and the cache.

  \<^bold>\<open>Desk.\<close>
  \<^item> \<open>Desk_Inline\<close> and \<open>Desk_Blocks\<close> with \<open>Desk_Blocks_Props\<close> (\<open>markdown_syntax.rs\<close>): the desk's own scanner of
    Markdown, proved to agree with the sync core's on which lines are content.
  \<^item> \<open>Day_Plan\<close> (\<open>day_plan.rs\<close>), \<open>Backlog\<close> and \<open>Backlog_Edit\<close> (\<open>backlog.rs\<close>), \<open>Calendar_Marker\<close> and \<open>Calendar\<close>
    (\<open>calendar.rs\<close>), \<open>Reminder_Index\<close>, \<open>Reminder_Changes\<close> and \<open>Reminder_Batch\<close> (\<open>reminder_index.rs\<close>, \<open>reminders.rs\<close>),
    each with its theory of properties.
  \<^item> \<open>Capture\<close> with \<open>Capture_Props\<close> (\<open>inbox.rs\<close> of the desk, with the text helpers of \<open>gmail.rs\<close>): what becomes of items
    that arrive from other programs.  The planner makes a note of each item once, a second poll settles
    even when the state was lost, the note is read back, and one kind of title forges a marker.
  \<^item> \<open>Sync_Api\<close>, \<open>Vault_Disk\<close>, \<open>Vault_Sync\<close> and \<open>Vault_Service\<close> (\<open>vault_sync.rs\<close>, with \<open>expand_template\<close> of
    \<open>notes.rs\<close>, \<open>note_date\<close> of \<open>vault.rs\<close> and \<open>move_note\<close> of \<open>inbox_service.rs\<close>): the desk's end of the
    synchronisation, which composes paths, envelopes, write documents and application rules on a disk
    that may fail.  \<open>Vault_Sync_Props\<close> and \<open>Vault_Scan_Props\<close> show that a sealed write lands, that an
    acknowledgement covers handled rows alone, that the queue is read to its end, that the scan ends
    and which notes it tombstones, and three passes that go wrong.

  \<open>Prelude\<close>, \<open>Rust_Str\<close>, \<open>Search\<close>, \<open>Decimal\<close>, \<open>BTree\<close> and \<open>Samples\<close> hold what the components share: options and
  lists, Rust's string interface, decimal numbers, ordered maps, and data for evaluated instances.

  \<^bold>\<open>How code is rendered.\<close>  A struct is a record whose fields carry a short prefix, an enum a datatype,
  a function a definition of the same name; a second use of a name gets the component before it.  A
  loop is a recursive function, named after its function with \<open>_loop\<close> where it is not structural.  A
  \<open>Result\<close> is a sum with the error on the left.  Effects are explicit: a disk, a network or a source of
  randomness is a value threaded through the code, and the faults of a disk are a script of
  booleans or messages that runs out into success, so that theorems without a hypothesis on it hold
  for every pattern of faults.

  \<^bold>\<open>Interfaces.\<close>  \<open>codec\<close> (what is printed is read back: triage lines, dues, inbox lines), \<open>line_codec\<close>
  (splitting and joining of notes), \<open>replayable\<close> (steps that are harmless once their effect is present:
  writes), \<open>key_map\<close> and \<open>listed_map\<close> (\<open>BTreeMap\<close>), \<open>entry_queue\<close> (the outbox) and \<open>text_place\<close> (the four
  places of the cache) are locales; each is interpreted on the model of the code.

  \<^bold>\<open>Parameters.\<close>  Code that is not in the repository is a field of a parameter record: the Unicode
  tables, SHA-256 and hexadecimal writing (\<open>env\<close>), the cipher (\<open>aead\<close>), chrono's calendar and clock
  (\<open>calendar\<close>, \<open>clock\<close>, \<open>chrono\<close>, \<open>plan_clock\<close>, \<open>instants\<close>, \<open>moments\<close>), serde's readers and writers (\<open>serde\<close> and its
  like), toml, base64, the network (\<open>network\<close>, \<open>sync_net\<close>), the source of ids and nonces (\<open>randomness\<close>,
  \<open>index_env\<close>), the listing of a folder.  What a theorem needs of them is a hypothesis that says what
  their documentation says: \<open>aead_correct\<close> (what was sealed opens, and is a tag longer), \<open>chrono_ok\<close> (a
  date prints its fields and reads back), \<open>serves_queue\<close> (the service pages through the rows it holds).  Each
  such theorem has an instance on a concrete parameter, the Gregorian calendar among them.

  \<^bold>\<open>Bounds and fuel.\<close>  No definition runs on fuel.  Loops end by a measure, mostly the text that is left;
  the loops that another party can keep going (drawing ids, the pages of the queue, the walk over
  folders, a drain) are \<open>partial_function (option)\<close>, and a theorem states when they return.
  Numbers that the code keeps in machine words and computes with near their bounds are words
  (levels of headings, versions, chunk sizes, bytes); lengths, counts and the service's versions are
  natural numbers, which a program of that size cannot exceed.

  \<^bold>\<open>Abstractions.\<close>  A string is its list of code points, so offsets count characters where Rust counts
  bytes; every offset the code computes falls on a boundary, and lengths in bytes are computed from
  the encoding where the code compares them.  Sentences of errors, log lines and toasts are left
  out where nothing branches on them.  A file system is a map from paths to bytes; only the faults
  named above interrupt an operation, and no other program writes between two operations of one
  pass unless a theorem says so (the drain of the outbox).

  \<^bold>\<open>Not modelled.\<close>
  \<^item> The panels, views, menus and the theme of \<open>crates/thock\<close>, its agent and chat panels, the routines
    runner and the services that connect panels and files: their behaviour is that of GPUI entities
    and asynchronous tasks, which the modelled functions are called from.
  \<^item> The clients of Google, Readwise and Plus accounts: requests and JSON of remote services.
  \<^item> Keychain, QR code, timers and announcements of the synchronisation client; vault detection,
    scaffolding and configuration files but for what the modelled code reads.
  \<^item> \<open>reminder_service.rs\<close>, \<open>reminder_day.rs\<close>, \<open>reminder_calendar.rs\<close> and \<open>reminder_notifier.rs\<close>: tasks that ring and
    mirror reminders around the modelled index.
  \<^item> The editor platform (\<open>gpui\<close>, \<open>editor\<close>, \<open>project\<close>, \<open>workspace\<close> and the other crates inherited from the
    editor), which is not Thock's own logic, and the application shell \<open>crates/thock_app\<close>.
\<close>

end
